(* ===== verification/Fan_Prelude.thy ===== *)
theory Fan_Prelude
  imports Main "HOL-Library.Word" "HOL-Library.AList" "HOL-Library.Multiset"
    "HOL-Library.Char_ord" "HOL-Library.List_Lexorder"
begin

text \<open>
  Shared vocabulary of the FAN chain development: the machine types of the Go sources, the
  error values every fallible operation returns, Go maps as association lists with one entry
  per key, big-endian byte encodings, decimal printing, and the generic lemmas on them.

  Conventions used by every other theory:
  \<^item> \<open>u64\<close> is Go's \<^verbatim>\<open>uint64\<close> and wraps around; \<open>i64\<close> is \<^verbatim>\<open>int64\<close> (and \<^verbatim>\<open>int\<close>),
    read with \<open>sint\<close>;
  \<^item> a \<^verbatim>\<open>string\<close> is a byte string, so \<open>length\<close> counts bytes as Go's \<^verbatim>\<open>len\<close> does;
  \<^item> a function that mutates its receiver and returns an error is modelled as
    \<open>state \<Rightarrow> (error + 'a) \<times> state\<close>: the state reached is kept on the error path too,
    because Go does not roll back.
\<close>

section \<open>Machine types\<close>

type_synonym u8 = "8 word"
type_synonym u32 = "32 word"
type_synonym u64 = "64 word"
type_synonym i64 = "64 word"
type_synonym bytes = "8 word list"
type_synonym hash = "8 word list"

named_theorems ledger_simps \<open>rewriting the account ledger through the state manager\<close>
named_theorems codec_simps \<open>byte-level encodings\<close>

section \<open>Errors\<close>

text \<open>
  One constructor per \<^verbatim>\<open>fmt.Errorf\<close> family of the modelled code. A Go panic (an index or a
  slice bound out of range) is \<open>Panic\<close>, and a call that never returns because it waits for a
  lock its own goroutine holds is \<open>Deadlock\<close>.
\<close>

datatype error =
    Panic
  | Deadlock
  | ErrIO
  | ErrNotFound
  | ErrDecode
  | InsufficientBalance u64 u64
  | InsufficientStake u64 u64
  | InvalidFrom
  | InvalidTo
  | SelfTransfer
  | ZeroAmount
  | InvalidGasFee u64
  | UnexpectedGasFee
  | DataTooLarge
  | InvalidTxTimestamp
  | MissingSignature
  | MissingPublicKey
  | InvalidTx error
  | GenesisExempt
  | PunishmentFailed error
  | InvalidNonce u64 u64
  | UnknownTxType u8
  | GenesisInsufficient error
  | SlashedInsufficient error
  | InvalidHeight u64 u64
  | InvalidPrevHash
  | InvalidBlockTimestamp
  | TimestampTooFarAhead
  | InvalidTxRoot
  | InvalidTxAt nat error
  | InvalidBlock error
  | RollbackToHigher u64 u64
  | SupplyMismatch u64
  | TrackerNotInitialized
  | StateRootMismatch
  | NoActiveValidators
  | NotActiveValidator
  | NotSigned
  | BadSignature
  | ShardNotFound
  | PrefixTooShort
  | HeightMismatch
  | ZeroLength
  | HashVerificationFailed
  | NotAValidatorNode
  | DuplicateTx
  | NonceSpecified
  | DeepFork u64
  | TargetBlockMissing
  | NoValidBlock
  | WaitingForPeers
  | Syncing u64 u64
  | ForkRolledBack u64
  | WaitingForLeader
  | StillBehind u64
  | NoPeers
  | SyncAttemptsExhausted
  | NotConnected
  | Other

section \<open>Options, sums and slices\<close>

text \<open>\<^verbatim>\<open>s[:n]\<close>: Go panics when \<open>n\<close> exceeds the length.\<close>

definition slice_to :: "nat \<Rightarrow> 'a list \<Rightarrow> error + 'a list" where
  "slice_to n xs = (if n \<le> length xs then Inr (take n xs) else Inl Panic)"

lemma slice_to_Inr_iff: "slice_to n xs = Inr ys \<longleftrightarrow> n \<le> length xs \<and> ys = take n xs"
  by (auto simp: slice_to_def)

text \<open>\<^verbatim>\<open>copy(dst[:], src)\<close> into a zeroed array of \<open>n\<close> bytes.\<close>

definition copy_into :: "nat \<Rightarrow> bytes \<Rightarrow> bytes" where
  "copy_into n b = take n b @ replicate (n - length b) 0"

lemma length_copy_into [simp]: "length (copy_into n b) = n"
  by (simp add: copy_into_def)

lemma copy_into_id [simp]: "length b = n \<Longrightarrow> copy_into n b = b"
  by (simp add: copy_into_def)

section \<open>Fallible steps on a state\<close>

type_synonym ('s, 'a) step = "'s \<Rightarrow> (error + 'a) \<times> 's"

text \<open>\<^verbatim>\<open>x, err := m(); if err != nil { return err }; f(x)\<close>. The state reached is kept on both
  paths.\<close>

definition bindS :: "('s, 'a) step \<Rightarrow> ('a \<Rightarrow> ('s, 'b) step) \<Rightarrow> ('s, 'b) step" where
  "bindS m f s = (case m s of (Inl e, s') \<Rightarrow> (Inl e, s') | (Inr a, s') \<Rightarrow> f a s')"

lemma bindS_Inr_iff:
  "bindS m f s = (Inr b, s') \<longleftrightarrow> (\<exists>a t. m s = (Inr a, t) \<and> f a t = (Inr b, s'))"
  by (auto simp: bindS_def split: prod.splits sum.splits)

lemma bindS_Inl_iff:
  "bindS m f s = (Inl e, s') \<longleftrightarrow>
     m s = (Inl e, s') \<or> (\<exists>a t. m s = (Inr a, t) \<and> f a t = (Inl e, s'))"
  by (auto simp: bindS_def split: prod.splits sum.splits)

text \<open>\<open>outcome m s Q R\<close>: run from \<open>s\<close>, a success satisfies \<open>Q\<close> and a failure \<open>R\<close>. The proofs about
  handlers walk through their calls with the rule for \<open>bindS\<close>.\<close>

definition outcome :: "('s, 'a) step \<Rightarrow> 's \<Rightarrow> ('a \<Rightarrow> 's \<Rightarrow> bool) \<Rightarrow> (error \<Rightarrow> 's \<Rightarrow> bool) \<Rightarrow> bool" where
  "outcome m s Q R = (case m s of (Inl e, s') \<Rightarrow> R e s' | (Inr a, s') \<Rightarrow> Q a s')"

lemma outcome_bind: "outcome (bindS m f) s Q R = outcome m s (\<lambda>a s'. outcome (f a) s' Q R) R"
  by (simp add: outcome_def bindS_def split: prod.splits sum.splits)

lemma outcome_result [simp]:
  "outcome (\<lambda>s. (Inr a, g s)) s Q R = Q a (g s)"
  "outcome (\<lambda>s. (Inl e, g s)) s Q R = R e (g s)"
  "outcome (Pair (Inr a)) s Q R = Q a s"
  "outcome (Pair (Inl e)) s Q R = R e s"
  by (simp_all add: outcome_def)

lemma outcome_at: "m s = (Inr a, s') \<Longrightarrow> outcome m s Q R = Q a s'" "m s = (Inl e, s') \<Longrightarrow> outcome m s Q R = R e s'"
  by (simp_all add: outcome_def)

text \<open>\<open>steps_in R m\<close>: whatever \<open>m\<close> returns, the states before and after it are related by \<open>R\<close>.\<close>

definition steps_in :: "('s \<Rightarrow> 's \<Rightarrow> bool) \<Rightarrow> ('s, 'a) step \<Rightarrow> bool" where
  "steps_in R m \<longleftrightarrow> (\<forall>s. R s (snd (m s)))"

lemma steps_inD: "steps_in R m \<Longrightarrow> m s = (r, s') \<Longrightarrow> R s s'"
  by (metis snd_conv steps_in_def)

lemma steps_in_bind:
  assumes "transp R" and "steps_in R m" and "\<And>a. steps_in R (f a)"
  shows "steps_in R (bindS m f)"
  unfolding steps_in_def
proof
  fix s
  obtain r t where m: "m s = (r, t)" by (cases "m s")
  from steps_inD[OF assms(2) m] have "R s t" .
  then show "R s (snd (bindS m f s))"
    using assms(1,3) m by (cases r) (auto simp: bindS_def steps_in_def dest: transpD)
qed

lemma steps_in_result [simp]: "steps_in R (Pair r) \<longleftrightarrow> reflp R"
  by (auto simp: steps_in_def reflp_def)

section \<open>Go maps\<close>

text \<open>
  A Go map is an association list with distinct keys. Iteration order is unspecified in Go; the
  list order is one of the orders Go may choose, and the results the development proves do not
  depend on it. \<open>AList.update\<close> is \<^verbatim>\<open>m[k] = v\<close>, \<open>AList.delete\<close> is \<^verbatim>\<open>delete(m, k)\<close> and
  \<open>map_of\<close> is the lookup.
\<close>

type_synonym ('k, 'v) gomap = "('k \<times> 'v) list"

definition gomap_wf :: "('k, 'v) gomap \<Rightarrow> bool" where
  "gomap_wf m \<longleftrightarrow> distinct (map fst m)"

lemma gomap_wf_Nil [simp]: "gomap_wf []"
  by (simp add: gomap_wf_def)

lemma gomap_wf_update [simp]: "gomap_wf m \<Longrightarrow> gomap_wf (AList.update k v m)"
  by (simp add: gomap_wf_def distinct_update)

lemma gomap_wf_delete [simp]: "gomap_wf m \<Longrightarrow> gomap_wf (AList.delete k m)"
  by (simp add: gomap_wf_def distinct_delete)

lemma map_of_update [simp]: "map_of (AList.update k v m) = (map_of m)(k \<mapsto> v)"
  by (rule update_conv')

lemma map_of_alist_delete [simp]: "map_of (AList.delete k m) = (map_of m)(k := None)"
  by (rule delete_conv')

text \<open>A set of strings (\<^verbatim>\<open>map[string]bool\<close>) is the list of its keys.\<close>

definition goset_insert :: "'a \<Rightarrow> 'a list \<Rightarrow> 'a list" where
  "goset_insert x xs = (if x \<in> set xs then xs else xs @ [x])"

lemma set_goset_insert [simp]: "set (goset_insert x xs) = insert x (set xs)"
  by (auto simp: goset_insert_def)

lemma distinct_goset_insert [simp]: "distinct xs \<Longrightarrow> distinct (goset_insert x xs)"
  by (auto simp: goset_insert_def)

section \<open>Sums over finite maps\<close>

text \<open>
  The sum of a weight over all entries of a map, in any commutative group. On \<open>u64\<close> the group
  is arithmetic modulo \<open>2 ^ 64\<close>, which is exactly what Go's \<^verbatim>\<open>+=\<close> loop computes.
\<close>

definition fin_sum :: "('v \<Rightarrow> 'n::ab_group_add) \<Rightarrow> ('k \<rightharpoonup> 'v) \<Rightarrow> 'n" where
  "fin_sum w m = (\<Sum>k\<in>dom m. w (the (m k)))"

lemma fin_sum_empty [simp]: "fin_sum w Map.empty = 0"
  by (simp add: fin_sum_def)

lemma fin_sum_upd:
  assumes "finite (dom m)"
  shows "fin_sum w (m(k \<mapsto> v)) = fin_sum w m + w v - (case m k of None \<Rightarrow> 0 | Some u \<Rightarrow> w u)"
proof (cases "m k")
  case None
  then have "k \<notin> dom m" by auto
  have "(\<Sum>x\<in>dom m. w (the ((m(k \<mapsto> v)) x))) = (\<Sum>x\<in>dom m. w (the (m x)))"
    by (rule sum.cong) (use \<open>k \<notin> dom m\<close> in auto)
  with None assms \<open>k \<notin> dom m\<close> show ?thesis
    by (simp add: fin_sum_def)
next
  case (Some u)
  then have k: "k \<in> dom m" by auto
  have "(\<Sum>x\<in>dom m - {k}. w (the ((m(k \<mapsto> v)) x))) = (\<Sum>x\<in>dom m - {k}. w (the (m x)))"
    by (rule sum.cong) auto
  moreover have "insert k (dom m) = dom m" using k by auto
  ultimately show ?thesis
    using Some assms k by (simp add: fin_sum_def sum.remove[OF assms k])
qed

lemma fin_sum_map_of:
  assumes "gomap_wf xs"
  shows "fin_sum w (map_of xs) = sum_list (map (\<lambda>p. w (snd p)) xs)"
  using assms
proof (induction xs)
  case Nil
  then show ?case by simp
next
  case (Cons p xs)
  obtain k v where p: "p = (k, v)" by (cases p)
  from Cons.prems p have wf: "gomap_wf xs" and "map_of xs k = None"
    by (auto simp: gomap_wf_def map_of_eq_None_iff)
  have "fin_sum w (map_of (p # xs)) = fin_sum w ((map_of xs)(k \<mapsto> v))"
    by (simp add: p)
  also have "\<dots> = fin_sum w (map_of xs) + w v"
    using \<open>map_of xs k = None\<close> by (subst fin_sum_upd) (simp_all add: finite_dom_map_of)
  finally show ?case
    using Cons.IH[OF wf] p by (simp add: add.commute del: map_of.simps)
qed

section \<open>Big-endian integers\<close>

text \<open>\<^verbatim>\<open>binary.BigEndian.PutUint64\<close> and \<^verbatim>\<open>Uint64\<close>; the 32-bit versions likewise.\<close>

definition be_put64 :: "u64 \<Rightarrow> bytes" where
  "be_put64 n = map (\<lambda>i. ucast (drop_bit i n)) [56, 48, 40, 32, 24, 16, 8, 0]"

definition be_put32 :: "u32 \<Rightarrow> bytes" where
  "be_put32 n = map (\<lambda>i. ucast (drop_bit i n)) [24, 16, 8, 0]"

definition be_fold :: "bytes \<Rightarrow> 'a::len word" where
  "be_fold bs = foldl (\<lambda>acc b. or (push_bit 8 acc) (ucast b)) 0 bs"

text \<open>Reading needs enough bytes; Go panics on a shorter slice.\<close>

definition be_get64 :: "bytes \<Rightarrow> error + u64" where
  "be_get64 b = (if 8 \<le> length b then Inr (be_fold (take 8 b)) else Inl Panic)"

definition be_get32 :: "bytes \<Rightarrow> error + u32" where
  "be_get32 b = (if 4 \<le> length b then Inr (be_fold (take 4 b)) else Inl Panic)"

lemma length_be_put64 [simp]: "length (be_put64 n) = 8"
  by (simp add: be_put64_def)

lemma length_be_put32 [simp]: "length (be_put32 n) = 4"
  by (simp add: be_put32_def)

lemma be_step:
  fixes n :: "'a::len word"
  assumes "8 \<le> LENGTH('a)"
  shows "or (push_bit 8 (drop_bit (i + 8) n)) (ucast (ucast (drop_bit i n) :: u8)) = drop_bit i n"
proof (rule bit_word_eqI)
  fix m
  assume "m < LENGTH('a)"
  show "bit (or (push_bit 8 (drop_bit (i + 8) n)) (ucast (ucast (drop_bit i n) :: u8))) m
      = bit (drop_bit i n) m"
  proof (cases "m < 8")
    case True
    then show ?thesis using \<open>m < LENGTH('a)\<close> by (simp add: bit_simps)
  next
    case False
    then have "m = 8 + (m - 8)" by simp
    then obtain j where "m = 8 + j" by blast
    then show ?thesis using \<open>m < LENGTH('a)\<close> by (simp add: bit_simps add.assoc add.left_commute)
  qed
qed

lemma be_fold_put64 [codec_simps, simp]: "be_fold (be_put64 n) = n"
proof -
  have z: "drop_bit 64 n = 0"
    by (rule bit_word_eqI) (auto simp: bit_simps dest: bit_imp_le_length)
  have top: "ucast (ucast (drop_bit 56 n) :: u8) = drop_bit 56 n"
    using be_step[of 56 n] z by simp
  show ?thesis
    using be_step[of 48 n] be_step[of 40 n] be_step[of 32 n] be_step[of 24 n] be_step[of 16 n]
      be_step[of 8 n] be_step[of 0 n]
    by (simp add: be_fold_def be_put64_def top)
qed

lemma be_get64_put64 [codec_simps, simp]: "be_get64 (be_put64 n @ rest) = Inr n"
  by (simp add: be_get64_def)

lemma be_fold_put32 [codec_simps, simp]: "be_fold (be_put32 n) = n"
proof -
  have z: "drop_bit 32 n = 0"
    by (rule bit_word_eqI) (auto simp: bit_simps dest: bit_imp_le_length)
  have top: "ucast (ucast (drop_bit 24 n) :: u8) = drop_bit 24 n"
    using be_step[of 24 n] z by simp
  show ?thesis
    using be_step[of 16 n] be_step[of 8 n] be_step[of 0 n]
    by (simp add: be_fold_def be_put32_def top)
qed

lemma be_get32_put32 [codec_simps, simp]: "be_get32 (be_put32 n @ rest) = Inr n"
  by (simp add: be_get32_def)

section \<open>Decimal printing\<close>

text \<open>\<^verbatim>\<open>fmt.Sprintf("%d")\<close> of unsigned and signed integers, and \<^verbatim>\<open>"%x"\<close> of a byte string.\<close>

fun dec_nat :: "nat \<Rightarrow> string" where
  "dec_nat n = (if n < 10 then [char_of (48 + n)] else dec_nat (n div 10) @ [char_of (48 + n mod 10)])"

declare dec_nat.simps [simp del]

definition dec_u64 :: "u64 \<Rightarrow> string" where
  "dec_u64 n = dec_nat (unat n)"

definition dec_i64 :: "i64 \<Rightarrow> string" where
  "dec_i64 n = (if sint n < 0 then CHR ''-'' # dec_nat (nat (- sint n)) else dec_nat (nat (sint n)))"

definition is_digit :: "char \<Rightarrow> bool" where
  "is_digit c \<longleftrightarrow> (48 :: nat) \<le> of_char c \<and> of_char c < (58 :: nat)"

definition dec_value :: "string \<Rightarrow> nat" where
  "dec_value s = foldl (\<lambda>v c. 10 * v + (of_char c - 48)) 0 s"

lemma dec_value_digit: "d < 10 \<Longrightarrow> of_char (char_of (48 + d :: nat)) - 48 = d"
  by (simp add: of_char_of)

lemma dec_value_dec_nat [simp]: "dec_value (dec_nat n) = n"
proof (induction n rule: dec_nat.induct)
  case (1 n)
  show ?case
  proof (cases "n < 10")
    case True
    then show ?thesis
      using dec_value_digit[of n] by (simp add: dec_nat.simps[of n] dec_value_def)
  next
    case False
    then have "dec_value (dec_nat n) = 10 * dec_value (dec_nat (n div 10)) + n mod 10"
      using dec_value_digit[of "n mod 10"] by (simp add: dec_nat.simps[of n] dec_value_def)
    with 1[OF False] show ?thesis by simp
  qed
qed

lemma dec_nat_inject [simp]: "dec_nat m = dec_nat n \<longleftrightarrow> m = n"
  by (metis dec_value_dec_nat)

lemma digit_char: "d < 10 \<Longrightarrow> is_digit (char_of (48 + d :: nat))"
  by (simp add: is_digit_def of_char_of)

lemma dec_nat_digits: "c \<in> set (dec_nat n) \<Longrightarrow> is_digit c"
proof (induction n rule: dec_nat.induct)
  case (1 n)
  then show ?case
    using digit_char[of n] digit_char[of "n mod 10"]
    by (cases "n < 10") (auto simp: dec_nat.simps[of n])
qed

lemma dec_nat_ne [simp]: "dec_nat n \<noteq> []"
  by (simp add: dec_nat.simps[of n])

definition hex_digit :: "nat \<Rightarrow> char" where
  "hex_digit d = ''0123456789abcdef'' ! d"

fun hex_encode :: "bytes \<Rightarrow> string" where
  "hex_encode [] = []"
| "hex_encode (b # bs) = hex_digit (unat b div 16) # hex_digit (unat b mod 16) # hex_encode bs"

lemma length_hex_encode [simp]: "length (hex_encode bs) = 2 * length bs"
  by (induction bs) auto

definition string_bytes :: "string \<Rightarrow> bytes" where
  "string_bytes s = map of_char s"

lemma length_string_bytes [simp]: "length (string_bytes s) = length s"
  by (simp add: string_bytes_def)

definition bytes_string :: "bytes \<Rightarrow> string" where
  "bytes_string b = map (\<lambda>x. char_of (unat x)) b"

lemma unat_of_char: "unat (of_char c :: u8) = of_char c"
proof -
  have "(of_char c :: nat) = of_char c mod 256"
    using of_char_of[of "of_char c :: nat"] by simp
  moreover have "(of_char c :: u8) = of_nat (of_char c)"
    by (rule of_nat_of_char[symmetric])
  ultimately show ?thesis by (simp add: unat_of_nat)
qed

lemma bytes_string_bytes [codec_simps, simp]: "bytes_string (string_bytes s) = s"
  by (simp add: bytes_string_def string_bytes_def comp_def unat_of_char)

lemma string_bytes_inject [simp]: "string_bytes a = string_bytes b \<longleftrightarrow> a = b"
  by (metis bytes_string_bytes)

end
