(* ===== verification/Chain_Params.thy ===== *)
theory Chain_Params
  imports Fan_Prelude
begin

text \<open>
  The consensus parameters of \<^verbatim>\<open>core/consensus_config.go\<close> (records, built-in defaults, the
  parameter fingerprint exchanged by peers, the block reward schedule) with the accessors and
  constants of \<^verbatim>\<open>core/types.go\<close>, and the deprecated reward manager of \<^verbatim>\<open>core/reward.go\<close>.
  The configuration singleton is the argument \<open>cfg\<close> of every definition that reads it.
  Lemmas: closed form, monotonicity and bounds of the reward schedule, that the shipped
  parameters can always pay the reward they promise, and that both reward calculators agree.
\<close>

section \<open>Parameter records\<close>

record RewardThreshold =
  Balance :: u64
  Description :: string

record ChainParams =
  FANUnit :: u64
  FANDecimals :: i64
  CfgGenesisAddress :: string
  GenesisTimestamp :: i64

record BlockParams =
  BlockIntervalSeconds :: i64
  FinalityBlocks :: i64
  CheckpointInterval :: u64
  CheckpointKeepCount :: i64
  MaxTimestampDrift :: i64
  MaxBlockSize :: u64
  BlockDataThresholdPercent :: i64

record EconomicParams =
  MinGasFee :: u64
  MaxGasFee :: u64
  BaseBlockReward :: u64
  MinRewardUnit :: u64
  ValidatorStakeRequired :: u64

record ValidatorParams =
  MaxValidators :: i64
  ActiveValidatorSet :: i64
  CheckpointActivationBuffer :: i64

record StorageParams =
  LedgerRetentionDays :: i64
  AutoCleanupEnabled :: bool
  CleanupCheckIntervalHours :: i64
  MinBlocksToKeep :: i64
  VerifyBlockHash :: i64

record TransactionParams =
  MaxTxSize :: u64
  MaxTxPerBlock :: u64
  MinTransferAmount :: u64
  MaxDataSize :: u64
  MemoMaxLength :: u64

record NetworkParams =
  MaxPeers :: i64
  MinPeers :: i64
  PeerHandshakeTimeout :: i64
  SyncBatchSize :: i64
  MaxBlockRequestSize :: i64
  BroadcastRetryInterval :: i64
  PingInterval :: i64

record SecurityParams =
  MaxReorgDepth :: i64
  MinBlockTimeMs :: i64
  MaxBlockTimeMs :: i64
  DoubleSignSlash :: i64
  OfflineSlashBlks :: i64

record ConsensusConfig =
  ConsensusVersion :: string
  ConsensusHash :: string
  Chain :: ChainParams
  Blocks :: BlockParams
  Economics :: EconomicParams
  Validators :: ValidatorParams
  Transactions :: TransactionParams
  Network :: NetworkParams
  Security :: SecurityParams
  Storage :: StorageParams
  RewardThresholds :: "RewardThreshold list"

section \<open>Hard-coded constants\<close>

definition TotalSupply :: u64 where
  "TotalSupply = 1400000000000000"

definition GenesisAddress :: string where
  "GenesisAddress = ''F25gxrj3tppc07hunne7hztvde5gkaw78f3xa''"

section \<open>Accessors\<close>

definition FinalityTime :: "ConsensusConfig \<Rightarrow> i64" where
  "FinalityTime cfg = BlockIntervalSeconds (Blocks cfg) * FinalityBlocks (Blocks cfg)"

definition BlockReward :: "ConsensusConfig \<Rightarrow> u64" where
  "BlockReward cfg = BaseBlockReward (Economics cfg)"

section \<open>Defaults\<close>

text \<open>The values \<^verbatim>\<open>setDefault\<close> installs when \<^verbatim>\<open>consensus.json\<close> cannot be loaded.\<close>

definition setDefault :: ConsensusConfig where
  "setDefault = \<lparr>
     ConsensusVersion = ''1.0.0'', ConsensusHash = '''',
     Chain = \<lparr>FANUnit = 1000000, FANDecimals = 6, CfgGenesisAddress = GenesisAddress,
       GenesisTimestamp = 1700000000\<rparr>,
     Blocks = \<lparr>BlockIntervalSeconds = 5, FinalityBlocks = 8, CheckpointInterval = 1,
       CheckpointKeepCount = 1, MaxTimestampDrift = 300, MaxBlockSize = 1048576,
       BlockDataThresholdPercent = 80\<rparr>,
     Economics = \<lparr>MinGasFee = 1, MaxGasFee = 10, BaseBlockReward = 10000000,
       MinRewardUnit = 1, ValidatorStakeRequired = 1000000000000\<rparr>,
     Validators = \<lparr>MaxValidators = 100, ActiveValidatorSet = 14, CheckpointActivationBuffer = 3\<rparr>,
     Transactions = \<lparr>MaxTxSize = 10240, MaxTxPerBlock = 1000, MinTransferAmount = 1,
       MaxDataSize = 1024, MemoMaxLength = 256\<rparr>,
     Network = \<lparr>MaxPeers = 50, MinPeers = 1, PeerHandshakeTimeout = 30, SyncBatchSize = 100,
       MaxBlockRequestSize = 1000, BroadcastRetryInterval = 6, PingInterval = 60\<rparr>,
     Security = \<lparr>MaxReorgDepth = 100, MinBlockTimeMs = 4500, MaxBlockTimeMs = 5500,
       DoubleSignSlash = 100, OfflineSlashBlks = 1000\<rparr>,
     Storage = \<lparr>LedgerRetentionDays = 100, AutoCleanupEnabled = True,
       CleanupCheckIntervalHours = 24, MinBlocksToKeep = 10000, VerifyBlockHash = 1\<rparr>,
     RewardThresholds = []\<rparr>"

text \<open>
  The parameters of the shipped \<^verbatim>\<open>consensus.json\<close>, where they differ from the defaults: the
  file has no \<^verbatim>\<open>verify_block_hash\<close> key, so the field is Go's zero value. The threshold
  descriptions are for display only and left empty. \<^verbatim>\<open>consensus_hash\<close> is computed on loading.
\<close>

definition shipped_thresholds :: "u64 list" where
  "shipped_thresholds =
     [1300000000000000, 1200000000000000, 1100000000000000, 1000000000000000,
      900000000000000, 800000000000000, 700000000000000, 600000000000000, 500000000000000,
      400000000000000, 300000000000000, 200000000000000, 100000000000000,
      90000000000000, 80000000000000, 70000000000000, 60000000000000, 50000000000000,
      40000000000000, 30000000000000, 20000000000000]"

definition shipped_config :: ConsensusConfig where
  "shipped_config = setDefault\<lparr>
     ConsensusVersion := ''1.4.0'',
     Chain := (Chain setDefault)\<lparr>GenesisTimestamp := 1700000000000\<rparr>,
     Blocks := (Blocks setDefault)\<lparr>CheckpointKeepCount := 3, MaxTimestampDrift := 300000\<rparr>,
     Storage := \<lparr>LedgerRetentionDays = 1, AutoCleanupEnabled = True,
       CleanupCheckIntervalHours = 24, MinBlocksToKeep = 17280, VerifyBlockHash = 0\<rparr>,
     RewardThresholds := map (\<lambda>b. \<lparr>Balance = b, Description = ''''\<rparr>) shipped_thresholds\<rparr>"

section \<open>Parameter fingerprint\<close>

text \<open>
  \<^verbatim>\<open>calculateConsensusHash\<close> formats 39 verbs but passes 40 arguments after the version and
  supply: \<^verbatim>\<open>thr:%d\<close> receives \<^verbatim>\<open>VerifyBlockHash\<close>, and the threshold count is printed by
  \<^verbatim>\<open>fmt\<close> as a surplus operand, \<^verbatim>\<open>%!(EXTRA int=n)\<close>. \<open>sha3\<close> is the SHA3-256 of
  \<^verbatim>\<open>golang.org/x/crypto\<close>.
\<close>

definition go_bool :: "bool \<Rightarrow> string" where
  "go_bool b = (if b then ''true'' else ''false'')"

definition consensusHashInput :: "ConsensusConfig \<Rightarrow> string" where
  "consensusHashInput cfg = (let ch = Chain cfg; b = Blocks cfg; e = Economics cfg;
       v = Validators cfg; t = Transactions cfg; n = Network cfg; s = Security cfg;
       st = Storage cfg in concat
     [''v:'', ConsensusVersion cfg, ''|ts:'', dec_u64 TotalSupply,
      ''|unit:'', dec_u64 (FANUnit ch), ''|dec:'', dec_i64 (FANDecimals ch),
      ''|bi:'', dec_i64 (BlockIntervalSeconds b), ''|ci:'', dec_u64 (CheckpointInterval b),
      ''|ckc:'', dec_i64 (CheckpointKeepCount b), ''|mtd:'', dec_i64 (MaxTimestampDrift b),
      ''|mbs:'', dec_u64 (MaxBlockSize b), ''|bdtp:'', dec_i64 (BlockDataThresholdPercent b),
      ''|mgf:'', dec_u64 (MinGasFee e), ''|xgf:'', dec_u64 (MaxGasFee e),
      ''|br:'', dec_u64 (BaseBlockReward e), ''|mru:'', dec_u64 (MinRewardUnit e),
      ''|vsr:'', dec_u64 (ValidatorStakeRequired e),
      ''|mv:'', dec_i64 (MaxValidators v), ''|avs:'', dec_i64 (ActiveValidatorSet v),
      ''|txs:'', dec_u64 (MaxTxSize t), ''|txpb:'', dec_u64 (MaxTxPerBlock t),
      ''|mta:'', dec_u64 (MinTransferAmount t), ''|mds:'', dec_u64 (MaxDataSize t),
      ''|mml:'', dec_u64 (MemoMaxLength t),
      ''|mp:'', dec_i64 (MaxPeers n), ''|mnp:'', dec_i64 (MinPeers n),
      ''|pht:'', dec_i64 (PeerHandshakeTimeout n), ''|sbs:'', dec_i64 (SyncBatchSize n),
      ''|mbr:'', dec_i64 (MaxBlockRequestSize n), ''|bri:'', dec_i64 (BroadcastRetryInterval n),
      ''|pi:'', dec_i64 (PingInterval n),
      ''|mrd:'', dec_i64 (MaxReorgDepth s), ''|mbtm:'', dec_i64 (MinBlockTimeMs s),
      ''|xbtm:'', dec_i64 (MaxBlockTimeMs s), ''|dss:'', dec_i64 (DoubleSignSlash s),
      ''|osb:'', dec_i64 (OfflineSlashBlks s),
      ''|lrd:'', dec_i64 (LedgerRetentionDays st), ''|ac:'', go_bool (AutoCleanupEnabled st),
      ''|cci:'', dec_i64 (CleanupCheckIntervalHours st), ''|mbk:'', dec_i64 (MinBlocksToKeep st),
      ''|thr:'', dec_i64 (VerifyBlockHash st),
      ''%!(EXTRA int='', dec_nat (length (RewardThresholds cfg)), '')'',
      concat (map (\<lambda>th. ''|'' @ dec_u64 (Balance th)) (RewardThresholds cfg))])"

definition calculateConsensusHash :: "(bytes \<Rightarrow> bytes) \<Rightarrow> ConsensusConfig \<Rightarrow> string" where
  "calculateConsensusHash sha3 cfg = hex_encode (sha3 (string_bytes (consensusHashInput cfg)))"

section \<open>Block rewards\<close>

definition Threshold_0_1_Yi :: u64 where
  "Threshold_0_1_Yi = 10000000000000"

definition Threshold_0_2_Yi :: u64 where
  "Threshold_0_2_Yi = 20000000000000"

text \<open>The two loops both calculators share: count the thresholds crossed, halve that often.\<close>

fun halvingCount :: "RewardThreshold list \<Rightarrow> u64 \<Rightarrow> nat" where
  "halvingCount [] bal = 0"
| "halvingCount (th # ths) bal =
     (if bal < Balance th then Suc (halvingCount ths bal) else halvingCount ths bal)"

fun halve_times :: "nat \<Rightarrow> u64 \<Rightarrow> u64" where
  "halve_times 0 reward = reward"
| "halve_times (Suc n) reward = halve_times n (reward div 2)"

definition CalculateBlockReward :: "ConsensusConfig \<Rightarrow> u64 \<Rightarrow> u64" where
  "CalculateBlockReward cfg genesisBalance =
     (if genesisBalance < Threshold_0_1_Yi then 0
      else if genesisBalance \<ge> Threshold_0_1_Yi \<and> genesisBalance < Threshold_0_2_Yi
        then MinRewardUnit (Economics cfg)
      else
        let reward = halve_times (halvingCount (RewardThresholds cfg) genesisBalance)
              (BaseBlockReward (Economics cfg))
        in if reward < MinRewardUnit (Economics cfg) then MinRewardUnit (Economics cfg)
           else reward)"

subsection \<open>The deprecated reward manager\<close>

record RewardConfig =
  RmBaseBlockReward :: u64
  RmGenesisAddress :: string
  RmMinRewardUnit :: u64
  RmThresholds :: "RewardThreshold list"

definition rm_setDefaultConfig :: RewardConfig where
  "rm_setDefaultConfig = \<lparr>RmBaseBlockReward = 10000000, RmGenesisAddress = GenesisAddress,
     RmMinRewardUnit = 1, RmThresholds = []\<rparr>"

definition rm_CalculateBlockReward :: "RewardConfig \<Rightarrow> u64 \<Rightarrow> u64" where
  "rm_CalculateBlockReward rc genesisBalance =
     (if RmThresholds rc = [] then RmBaseBlockReward rc
      else if genesisBalance < Threshold_0_1_Yi then 0
      else if genesisBalance \<ge> Threshold_0_1_Yi \<and> genesisBalance < Threshold_0_2_Yi then 1
      else
        let reward = halve_times (halvingCount (RmThresholds rc) genesisBalance)
              (RmBaseBlockReward rc)
        in if reward < RmMinRewardUnit rc then RmMinRewardUnit rc else reward)"

record RewardStatus =
  rs_genesis_balance :: u64
  rs_current_reward :: u64
  rs_base_reward :: u64
  rs_threshold_index :: int
  rs_current_threshold :: "string option"

fun first_crossed :: "RewardThreshold list \<Rightarrow> u64 \<Rightarrow> nat option" where
  "first_crossed [] bal = None"
| "first_crossed (th # ths) bal =
     (if bal < Balance th then Some 0 else map_option Suc (first_crossed ths bal))"

definition GetRewardStatus :: "RewardConfig \<Rightarrow> u64 \<Rightarrow> RewardStatus" where
  "GetRewardStatus rc genesisBalance =
     \<lparr>rs_genesis_balance = genesisBalance,
      rs_current_reward = rm_CalculateBlockReward rc genesisBalance,
      rs_base_reward = RmBaseBlockReward rc,
      rs_threshold_index =
        (case first_crossed (RmThresholds rc) genesisBalance of None \<Rightarrow> - 1 | Some i \<Rightarrow> int i),
      rs_current_threshold =
        (case first_crossed (RmThresholds rc) genesisBalance of None \<Rightarrow> None
         | Some i \<Rightarrow> Some (Description (RmThresholds rc ! i)))\<rparr>"

section \<open>Properties of the reward schedule\<close>

lemma unat_halve_times: "unat (halve_times n r) = unat r div 2 ^ n"
  by (induction n arbitrary: r) (simp_all add: unat_div div_mult2_eq)

lemma halve_times_mono: "m \<le> n \<Longrightarrow> halve_times n r \<le> halve_times m r"
  by (simp add: word_le_nat_alt unat_halve_times div_le_mono2 power_increasing)

lemma halve_times_le: "halve_times n r \<le> r"
  by (simp add: word_le_nat_alt unat_halve_times)

lemma halvingCount_antimono: "b \<le> b' \<Longrightarrow> halvingCount ths b' \<le> halvingCount ths b"
  by (induction ths) (auto dest: order.strict_trans1)

lemma halvingCount_le_length: "halvingCount ths b \<le> length ths"
  by (induction ths) auto

lemma reward_normal_band:
  "Threshold_0_2_Yi \<le> b \<Longrightarrow> CalculateBlockReward cfg b =
     max (MinRewardUnit (Economics cfg))
       (halve_times (halvingCount (RewardThresholds cfg) b) (BaseBlockReward (Economics cfg)))"
proof -
  assume "Threshold_0_2_Yi \<le> b"
  then have "\<not> b < Threshold_0_1_Yi" "\<not> b < Threshold_0_2_Yi"
    by (auto simp: Threshold_0_1_Yi_def Threshold_0_2_Yi_def dest: order.strict_trans1)
  then show ?thesis
    unfolding CalculateBlockReward_def Let_def max_def if_not_P[OF \<open>\<not> b < Threshold_0_1_Yi\<close>]
    by (auto simp del: not_less linorder_not_less)
qed

lemma reward_band_cases:
  obtains (none) "b < Threshold_0_1_Yi" "CalculateBlockReward cfg b = 0"
  | (unit) "Threshold_0_1_Yi \<le> b" "b < Threshold_0_2_Yi"
      "CalculateBlockReward cfg b = MinRewardUnit (Economics cfg)"
  | (normal) "Threshold_0_2_Yi \<le> b"
  by (cases "b < Threshold_0_1_Yi"; cases "b < Threshold_0_2_Yi")
     (auto simp: CalculateBlockReward_def not_less)

text \<open>The block reward never rises as the genesis balance falls: for any parameters, a
  smaller genesis balance gives a reward that is no larger.\<close>

theorem reward_monotone:
  assumes "b \<le> b'"
  shows "CalculateBlockReward cfg b \<le> CalculateBlockReward cfg b'"
proof (cases rule: reward_band_cases[where b = b and cfg = cfg])
  case none
  then show ?thesis by simp
next
  case unit
  then have "\<not> b' < Threshold_0_1_Yi" using assms by auto
  then show ?thesis
    by (cases rule: reward_band_cases[where b = b' and cfg = cfg]) (use unit in \<open>auto simp: reward_normal_band\<close>)
next
  case normal
  with assms have "Threshold_0_2_Yi \<le> b'" by auto
  with normal show ?thesis
    by (simp only: reward_normal_band)
       (rule max.mono[OF order_refl halve_times_mono[OF halvingCount_antimono[OF assms]]])
qed

theorem reward_monotone_witness:
  "(15000000000000::u64) \<le> 1400000000000000 \<and>
   CalculateBlockReward shipped_config 15000000000000
     \<le> CalculateBlockReward shipped_config 1400000000000000"
  using reward_monotone[of 15000000000000 1400000000000000 shipped_config] by simp

text \<open>Above 0.2 Yi the reward is the base reward halved once per threshold the genesis
  balance has fallen below, but never less than the minimal unit; the halving loop is a single
  integer division by a power of two.\<close>

theorem reward_closed_form:
  assumes "Threshold_0_2_Yi \<le> b"
  shows "unat (CalculateBlockReward cfg b) =
    max (unat (MinRewardUnit (Economics cfg)))
      (unat (BaseBlockReward (Economics cfg)) div
         2 ^ length (filter (\<lambda>th. b < Balance th) (RewardThresholds cfg)))"
proof -
  have "halvingCount ths b = length (filter (\<lambda>th. b < Balance th) ths)" for ths
    by (induction ths) auto
  with assms show ?thesis
    by (simp add: reward_normal_band unat_halve_times max_def word_le_nat_alt)
qed

theorem reward_closed_form_witness:
  "Threshold_0_2_Yi \<le> 1250000000000000 \<and>
   unat (CalculateBlockReward shipped_config 1250000000000000) =
    max (unat (MinRewardUnit (Economics shipped_config)))
      (unat (BaseBlockReward (Economics shipped_config)) div
         2 ^ length (filter (\<lambda>th. 1250000000000000 < Balance th)
               (RewardThresholds shipped_config)))"
  using reward_closed_form[of 1250000000000000 shipped_config]
  by (simp add: Threshold_0_2_Yi_def)

text \<open>Under the shipped parameters the genesis account can always pay the reward that its
  own balance entitles the proposer to, so a reward transaction never fails for lack of funds.\<close>

theorem shipped_reward_affordable: "CalculateBlockReward shipped_config b \<le> b"
proof (cases rule: reward_band_cases[where b = b and cfg = shipped_config])
  case none
  then show ?thesis by simp
next
  case unit
  then have "(1::u64) \<le> b"
    by (simp add: Threshold_0_1_Yi_def word_le_nat_alt)
  with unit show ?thesis by (simp add: shipped_config_def setDefault_def)
next
  case normal
  have base: "BaseBlockReward (Economics shipped_config) = 10000000"
    and unit1: "MinRewardUnit (Economics shipped_config) = 1"
    by (simp_all add: shipped_config_def setDefault_def)
  have "(10000000::u64) \<le> b" "(1::u64) \<le> b"
    using normal by (simp_all add: Threshold_0_2_Yi_def word_le_nat_alt)
  with order_trans[OF halve_times_le] normal show ?thesis
    by (auto simp: reward_normal_band base unit1)
qed

text \<open>The deprecated reward manager and the consensus configuration compute the same reward
  for the same parameters, as long as there is a threshold and the minimal unit is one.\<close>

theorem reward_managers_agree:
  assumes "RmThresholds rc = RewardThresholds cfg" and "RewardThresholds cfg \<noteq> []"
    and "RmBaseBlockReward rc = BaseBlockReward (Economics cfg)"
    and "RmMinRewardUnit rc = MinRewardUnit (Economics cfg)"
    and "MinRewardUnit (Economics cfg) = 1"
  shows "rm_CalculateBlockReward rc b = CalculateBlockReward cfg b"
  using assms by (simp add: rm_CalculateBlockReward_def CalculateBlockReward_def Let_def)

theorem reward_managers_agree_witness:
  "rm_CalculateBlockReward
     (rm_setDefaultConfig\<lparr>RmThresholds := RewardThresholds shipped_config\<rparr>) 1000
   = CalculateBlockReward shipped_config 1000"
  by (rule reward_managers_agree)
     (simp_all add: rm_setDefaultConfig_def shipped_config_def setDefault_def
        shipped_thresholds_def)

text \<open>The parameter fingerprint that peers compare does not depend on the finality depth,
  the checkpoint activation buffer, the genesis address or the genesis timestamp: two nodes that
  disagree on any of them still take each other for members of one network.\<close>

theorem consensus_hash_blind:
  "calculateConsensusHash sha3 (cfg\<lparr>
      Blocks := (Blocks cfg)\<lparr>FinalityBlocks := f\<rparr>,
      Validators := (Validators cfg)\<lparr>CheckpointActivationBuffer := a\<rparr>,
      Chain := (Chain cfg)\<lparr>CfgGenesisAddress := g, GenesisTimestamp := t\<rparr>\<rparr>)
   = calculateConsensusHash sha3 cfg"
  by (simp add: calculateConsensusHash_def consensusHashInput_def Let_def)

end
