(* ===== verification/Core_Address.thy ===== *)
theory Core_Address
  imports Chain_Params
begin

text \<open>
  Addresses of \<^verbatim>\<open>core/types.go\<close>: base-36 encoding and decoding of the 23-byte payload (20 bytes
  of the public key's hash, 3 bytes of checksum), address derivation and validation, and the
  hash and integer conversions of the same file. \<open>sha3\<close> is the SHA3-256 of
  \<^verbatim>\<open>golang.org/x/crypto/sha3\<close>, a parameter of every definition that hashes.
  The main result is the codec's round trip: every derived address validates.
\<close>

section \<open>Conversions\<close>

definition BytesToHash :: "bytes \<Rightarrow> hash" where
  "BytesToHash b = copy_into 32 b"

definition Hash_String :: "hash \<Rightarrow> string" where
  "Hash_String h = hex_encode h"

definition CalculateHash :: "(bytes \<Rightarrow> bytes) \<Rightarrow> bytes \<Rightarrow> hash" where
  "CalculateHash sha3 data = sha3 data"

definition Uint64ToBytes :: "u64 \<Rightarrow> bytes" where
  "Uint64ToBytes n = be_put64 n"

definition BytesToUint64 :: "bytes \<Rightarrow> error + u64" where
  "BytesToUint64 b = be_get64 b"

section \<open>Base 36\<close>

abbreviation AddressLength :: nat where "AddressLength \<equiv> 37"
abbreviation ChecksumBytes :: nat where "ChecksumBytes \<equiv> 3"
abbreviation AddressBytes :: nat where "AddressBytes \<equiv> 20"

definition base36Alphabet :: string where
  "base36Alphabet = ''0123456789abcdefghijklmnopqrstuvwxyz''"

text \<open>\<^verbatim>\<open>big.Int.SetBytes\<close> and \<^verbatim>\<open>big.Int.Bytes\<close>: unsigned big-endian, no leading zero byte.\<close>

definition big_SetBytes :: "bytes \<Rightarrow> nat" where
  "big_SetBytes bs = foldl (\<lambda>acc b. acc * 256 + unat b) 0 bs"

function big_Bytes_loop :: "nat \<Rightarrow> bytes \<Rightarrow> bytes" where
  "big_Bytes_loop n acc =
     (if 0 < n then big_Bytes_loop (n div 256) (of_nat (n mod 256) # acc) else acc)"
  by pat_completeness auto
termination
  by (relation "measure (\<lambda>(n, acc). n)") auto

declare big_Bytes_loop.simps [simp del]

definition big_Bytes :: "nat \<Rightarrow> bytes" where
  "big_Bytes n = big_Bytes_loop n []"

function base36_loop :: "nat \<Rightarrow> string \<Rightarrow> string" where
  "base36_loop num result =
     (if 0 < num then base36_loop (num div 36) (base36Alphabet ! (num mod 36) # result)
      else result)"
  by pat_completeness auto
termination
  by (relation "measure (\<lambda>(num, result). num)") auto

declare base36_loop.simps [simp del]

definition base36Encode :: "bytes \<Rightarrow> string" where
  "base36Encode data = (let num = big_SetBytes data in
     if num = 0 then ''0'' else base36_loop num '''')"

text \<open>One digit of \<^verbatim>\<open>base36Decode\<close>; \<open>None\<close> is the early return on a foreign character.\<close>

definition base36_digit :: "char \<Rightarrow> nat option" where
  "base36_digit c =
     (if CHR ''0'' \<le> c \<and> c \<le> CHR ''9'' then Some (of_char c - 48)
      else if CHR ''a'' \<le> c \<and> c \<le> CHR ''z'' then Some (of_char c - 97 + 10)
      else None)"

fun base36_value :: "nat \<Rightarrow> string \<Rightarrow> nat option" where
  "base36_value num [] = Some num"
| "base36_value num (c # cs) =
     (case base36_digit c of None \<Rightarrow> None | Some d \<Rightarrow> base36_value (num * 36 + d) cs)"

definition base36Decode :: "string \<Rightarrow> bytes" where
  "base36Decode s = (case base36_value 0 s of
     None \<Rightarrow> []
   | Some num \<Rightarrow> let bs = big_Bytes num in
       if length bs < AddressBytes + ChecksumBytes
       then replicate (AddressBytes + ChecksumBytes - length bs) 0 @ bs
       else bs)"

section \<open>Derivation and validation\<close>

definition pad_zeros :: "nat \<Rightarrow> string \<Rightarrow> string" where
  "pad_zeros n s = replicate (n - length s) CHR ''0'' @ s"

definition DeriveAddress :: "(bytes \<Rightarrow> bytes) \<Rightarrow> bytes \<Rightarrow> string" where
  "DeriveAddress sha3 publicKey =
     (let addressData = take AddressBytes (sha3 publicKey);
          checksum = take ChecksumBytes (sha3 addressData);
          fullData = copy_into AddressBytes addressData @ copy_into ChecksumBytes checksum
      in ''F'' @ pad_zeros (AddressLength - 1) (base36Encode fullData))"

text \<open>\<^verbatim>\<open>AddressFromPublicKey\<close> repeats the same steps and never returns an error.\<close>

definition AddressFromPublicKey :: "(bytes \<Rightarrow> bytes) \<Rightarrow> bytes \<Rightarrow> error + string" where
  "AddressFromPublicKey sha3 publicKeyBytes =
     (let addressData = take AddressBytes (sha3 publicKeyBytes);
          checksum = take ChecksumBytes (sha3 addressData);
          fullData = copy_into AddressBytes addressData @ copy_into ChecksumBytes checksum
      in Inr (''F'' @ pad_zeros (AddressLength - 1) (base36Encode fullData)))"

definition base36_char_ok :: "char \<Rightarrow> bool" where
  "base36_char_ok c \<longleftrightarrow> (CHR ''0'' \<le> c \<and> c \<le> CHR ''9'') \<or> (CHR ''a'' \<le> c \<and> c \<le> CHR ''z'')"

definition ValidateAddress :: "(bytes \<Rightarrow> bytes) \<Rightarrow> string \<Rightarrow> bool" where
  "ValidateAddress sha3 addr =
     (if length addr \<noteq> AddressLength then False
      else if hd addr \<noteq> CHR ''F'' then False
      else if \<not> list_all base36_char_ok (tl addr) then False
      else let data = base36Decode (tl addr) in
        if length data \<noteq> AddressBytes + ChecksumBytes then False
        else drop AddressBytes data = take ChecksumBytes (sha3 (take AddressBytes data)))"

section \<open>The codec's round trip\<close>

lemma big_SetBytes_Nil [simp]: "big_SetBytes [] = 0"
  by (simp add: big_SetBytes_def)

lemma big_SetBytes_snoc [simp]: "big_SetBytes (bs @ [b]) = big_SetBytes bs * 256 + unat b"
  by (simp add: big_SetBytes_def)

lemma big_SetBytes_less: "big_SetBytes bs < 256 ^ length bs"
proof (induction bs rule: rev_induct)
  case Nil
  then show ?case by simp
next
  case (snoc b bs)
  have "unat b < 256" using unsigned_less[of b] by simp
  then have "big_SetBytes bs * 256 + unat b < (big_SetBytes bs + 1) * 256" by simp
  also have "\<dots> \<le> 256 ^ length bs * 256"
    using snoc.IH by (intro mult_le_mono1) simp
  finally show ?case by (simp add: mult.commute)
qed

text \<open>Every byte string is the zero-padded big-endian form of its value.\<close>

lemma big_Bytes_loop_step:
  "0 < n \<Longrightarrow> big_Bytes_loop n acc = big_Bytes_loop (n div 256) (of_nat (n mod 256) # acc)"
  by (subst big_Bytes_loop.simps) simp

lemma big_Bytes_loop_append: "big_Bytes_loop n acc = big_Bytes_loop n [] @ acc"
proof (induction n arbitrary: acc rule: less_induct)
  case (less n)
  show ?case
  proof (cases "0 < n")
    case True
    let ?d = "of_nat (n mod 256) :: u8"
    have IH: "big_Bytes_loop (n div 256) ys = big_Bytes_loop (n div 256) [] @ ys" for ys
      using True by (intro less.IH) simp
    show ?thesis
      unfolding big_Bytes_loop_step[OF True] using IH[of "?d # acc"] IH[of "[?d]"]
      by simp
  qed (simp add: big_Bytes_loop.simps)
qed

lemma big_Bytes_0 [simp]: "big_Bytes 0 = []"
  by (simp add: big_Bytes_def big_Bytes_loop.simps)

lemma big_Bytes_pos: "0 < n \<Longrightarrow> big_Bytes n = big_Bytes (n div 256) @ [of_nat (n mod 256)]"
  unfolding big_Bytes_def big_Bytes_loop_step by (rule big_Bytes_loop_append)

text \<open>Every byte string is the zero-padded big-endian form of its value.\<close>

lemma pad_big_Bytes:
  "length (big_Bytes (big_SetBytes bs)) \<le> length bs \<and>
   replicate (length bs - length (big_Bytes (big_SetBytes bs))) 0 @ big_Bytes (big_SetBytes bs) = bs"
proof (induction bs rule: rev_induct)
  case Nil
  then show ?case by simp
next
  case (snoc b bs)
  let ?v = "big_SetBytes bs"
  show ?case
  proof (cases "?v * 256 + unat b = 0")
    case True
    then have "b = 0" and "?v = 0" by (auto simp: unat_eq_zero)
    with snoc.IH have "replicate (length bs) 0 = bs" by simp
    then have "0 # bs = bs @ [0]" by (metis replicate_append_same)
    with \<open>b = 0\<close> \<open>?v = 0\<close> \<open>replicate (length bs) 0 = bs\<close> show ?thesis by simp
  next
    case False
    have b: "unat b < 256" using unsigned_less[of b] by simp
    have "big_Bytes (?v * 256 + unat b) = big_Bytes ?v @ [b]"
      using False b by (subst big_Bytes_pos) (simp_all add: div_mult_self3 mod_mult_self3)
    with snoc.IH show ?thesis by simp
  qed
qed

lemma base36_loop_step:
  "0 < n \<Longrightarrow> base36_loop n acc = base36_loop (n div 36) (base36Alphabet ! (n mod 36) # acc)"
  by (subst base36_loop.simps) simp

lemma base36_loop_append: "base36_loop n acc = base36_loop n [] @ acc"
proof (induction n arbitrary: acc rule: less_induct)
  case (less n)
  show ?case
  proof (cases "0 < n")
    case True
    let ?d = "base36Alphabet ! (n mod 36)"
    have IH: "base36_loop (n div 36) ys = base36_loop (n div 36) [] @ ys" for ys
      using True by (intro less.IH) simp
    show ?thesis
      unfolding base36_loop_step[OF True] using IH[of "?d # acc"] IH[of "[?d]"]
      by simp
  qed (simp add: base36_loop.simps)
qed

lemma base36_loop_0 [simp]: "base36_loop 0 acc = acc"
  by (simp add: base36_loop.simps)

lemma base36_loop_pos:
  "0 < n \<Longrightarrow> base36_loop n [] = base36_loop (n div 36) [] @ [base36Alphabet ! (n mod 36)]"
  unfolding base36_loop_step by (rule base36_loop_append)

lemma base36_alphabet_digits:
  "list_all (\<lambda>(d, c). base36_digit c = Some d \<and> base36_char_ok c) (enumerate 0 base36Alphabet)"
  by (simp add: base36Alphabet_def base36_digit_def base36_char_ok_def less_eq_char_def)

lemma base36_alphabet_nth:
  assumes "d < 36"
  shows "base36_digit (base36Alphabet ! d) = Some d \<and> base36_char_ok (base36Alphabet ! d)"
proof -
  have "length base36Alphabet = 36" by (simp add: base36Alphabet_def)
  with assms have "(d, base36Alphabet ! d) \<in> set (enumerate 0 base36Alphabet)"
    by (simp add: in_set_enumerate_eq)
  with base36_alphabet_digits show ?thesis
    unfolding list_all_iff by blast
qed

lemma base36_digit_alphabet [simp]: "d < 36 \<Longrightarrow> base36_digit (base36Alphabet ! d) = Some d"
  and base36_char_ok_alphabet [simp]: "d < 36 \<Longrightarrow> base36_char_ok (base36Alphabet ! d)"
  using base36_alphabet_nth by blast+

lemma base36_zero [simp]: "base36_digit CHR ''0'' = Some 0" "base36_char_ok CHR ''0''"
  by (simp_all add: base36_digit_def base36_char_ok_def less_eq_char_def)

lemma base36_value_append:
  "base36_value k (xs @ ys) =
     (case base36_value k xs of None \<Rightarrow> None | Some v \<Rightarrow> base36_value v ys)"
  by (induction xs arbitrary: k) (auto split: option.splits)

lemma base36_value_loop: "base36_value 0 (base36_loop n []) = Some n"
proof (induction n rule: less_induct)
  case (less n)
  show ?case
  proof (cases "0 < n")
    case True
    with less.IH[of "n div 36"] show ?thesis
      by (simp add: base36_loop_pos base36_value_append)
  qed simp
qed

lemma base36_value_zeros: "base36_value 0 (replicate k CHR ''0'' @ s) = base36_value 0 s"
  by (induction k) auto

lemma length_base36_loop: "n < 36 ^ k \<Longrightarrow> length (base36_loop n []) \<le> k"
proof (induction k arbitrary: n)
  case 0
  then show ?case by simp
next
  case (Suc k)
  show ?case
  proof (cases "0 < n")
    case True
    have "n div 36 < 36 ^ k" using Suc.prems by (simp add: less_mult_imp_div_less mult.commute)
    with Suc.IH True show ?thesis by (simp add: base36_loop_pos)
  qed simp
qed

lemma base36_loop_chars: "list_all base36_char_ok (base36_loop n [])"
proof (induction n rule: less_induct)
  case (less n)
  show ?case
  proof (cases "0 < n")
    case True
    with less.IH[of "n div 36"] show ?thesis by (simp add: base36_loop_pos)
  qed simp
qed

lemma base36Encode_facts:
  "base36_value 0 (base36Encode bs) = Some (big_SetBytes bs)"
  "list_all base36_char_ok (base36Encode bs)"
  by (simp_all add: base36Encode_def Let_def base36_value_loop base36_loop_chars)

lemma length_base36Encode_payload:
  assumes "length bs = 23"
  shows "length (base36Encode bs) \<le> 36"
proof -
  have "big_SetBytes bs < 36 ^ 36"
    using big_SetBytes_less[of bs] assms by simp
  then show ?thesis
    using length_base36_loop[of "big_SetBytes bs" 36] by (simp add: base36Encode_def Let_def)
qed

text \<open>Decoding the padded encoding of a 23-byte payload gives the payload back.\<close>

lemma base36_roundtrip:
  assumes "length bs = 23"
  shows "base36Decode (pad_zeros 36 (base36Encode bs)) = bs"
proof -
  let ?raw = "big_Bytes (big_SetBytes bs)"
  have "base36_value 0 (pad_zeros 36 (base36Encode bs)) = Some (big_SetBytes bs)"
    by (simp add: pad_zeros_def base36_value_zeros base36Encode_facts)
  then have dec: "base36Decode (pad_zeros 36 (base36Encode bs)) =
      (if length ?raw < 23 then replicate (23 - length ?raw) 0 @ ?raw else ?raw)"
    by (simp add: base36Decode_def Let_def)
  show ?thesis
  proof (cases "length ?raw < 23")
    case True
    with dec pad_big_Bytes[of bs] assms show ?thesis by simp
  next
    case False
    with pad_big_Bytes[of bs] assms have "length ?raw = 23" by simp
    with dec pad_big_Bytes[of bs] assms show ?thesis by simp
  qed
qed

lemma AddressFromPublicKey_Derive: "AddressFromPublicKey sha3 pk = Inr (DeriveAddress sha3 pk)"
  by (simp add: AddressFromPublicKey_def DeriveAddress_def Let_def)

text \<open>C26: every address derived from a public key passes address validation: the base-36 text
  has 37 characters starting with F, decodes to the 23 bytes that were encoded, and carries a
  matching checksum. SHA3-256 is only assumed to return 32 bytes.\<close>

theorem derived_address_validates:
  assumes "\<And>x. length (sha3 x) = 32"
  shows "ValidateAddress sha3 (DeriveAddress sha3 pk)"
proof -
  let ?a = "take 20 (sha3 pk)"
  define full where "full = ?a @ take 3 (sha3 ?a)"
  have len: "length full = 23" and full: "take 20 full = ?a" "drop 20 full = take 3 (sha3 ?a)"
    by (simp_all add: assms full_def)
  have addr: "DeriveAddress sha3 pk = CHR ''F'' # pad_zeros 36 (base36Encode full)"
    by (simp add: DeriveAddress_def Let_def assms full_def)
  have size: "length (pad_zeros 36 (base36Encode full)) = 36"
    using length_base36Encode_payload[OF len] by (simp add: pad_zeros_def)
  have chars: "list_all base36_char_ok (pad_zeros 36 (base36Encode full))"
    using base36Encode_facts(2)[of full]
    by (auto simp: pad_zeros_def list_all_iff)
  show ?thesis
    by (simp add: ValidateAddress_def addr size chars base36_roundtrip[OF len] len full)
qed

theorem derived_address_validates_witness:
  "ValidateAddress (\<lambda>_. replicate 32 7) (DeriveAddress (\<lambda>_. replicate 32 7) [1, 2, 3])"
  by (rule derived_address_validates) simp

text \<open>An address has exactly one payload: two 23-byte payloads with the same padded base-36
  text are equal, so distinct key hashes never share an address.\<close>

theorem address_text_injective:
  assumes "length p = 23" and "length q = 23"
    and "pad_zeros 36 (base36Encode p) = pad_zeros 36 (base36Encode q)"
  shows "p = q"
proof -
  have "p = base36Decode (pad_zeros 36 (base36Encode p))"
    by (rule base36_roundtrip[OF assms(1), symmetric])
  also have "\<dots> = base36Decode (pad_zeros 36 (base36Encode q))"
    by (simp only: assms(3))
  also have "\<dots> = q" by (rule base36_roundtrip[OF assms(2)])
  finally show ?thesis .
qed

theorem address_text_injective_witness:
  "length (replicate 23 (1::u8)) = 23 \<and>
   pad_zeros 36 (base36Encode (replicate 23 1)) = pad_zeros 36 (base36Encode (replicate 23 1)) \<and>
   replicate 23 (1::u8) = replicate 23 1"
  using address_text_injective[of "replicate 23 1" "replicate 23 1"] by simp

end
