(* ===== verification/Chain_Crypto.thy ===== *)
theory Chain_Crypto
  imports Core_Address
begin

text \<open>
  \<^verbatim>\<open>crypto/signature.go\<close> and \<^verbatim>\<open>crypto/data_encryption.go\<close>: ML-DSA-65 signatures, the
  signature-based stand-in for a VRF, and the AES-GCM envelope of block data with its key epoch.
  The primitives (SHA3, SHA-256, ML-DSA-65, HKDF, AES-GCM) are libraries outside the repository:
  they are the fields of \<open>crypto_lib\<close>, the argument \<open>cl\<close> of the definitions that call them.
  What the code relies on is the locale \<open>crypto_spec\<close>; it is interpreted on a concrete library
  below, so the assumptions can hold together.
\<close>

section \<open>The cryptographic libraries\<close>

record crypto_lib =
  sha3_256 :: "bytes \<Rightarrow> bytes"
  sha2_256 :: "bytes \<Rightarrow> bytes"
  mldsa_pub_ok :: "bytes \<Rightarrow> bool"
  mldsa_priv_ok :: "bytes \<Rightarrow> bool"
  mldsa_sign :: "bytes \<Rightarrow> bytes \<Rightarrow> error + bytes"
  mldsa_verify :: "bytes \<Rightarrow> bytes \<Rightarrow> bytes \<Rightarrow> bool"
  hkdf_sha256 :: "bytes \<Rightarrow> string \<Rightarrow> error + bytes"
  gcm_seal :: "bytes \<Rightarrow> bytes \<Rightarrow> bytes \<Rightarrow> bytes"
  gcm_open :: "bytes \<Rightarrow> bytes \<Rightarrow> bytes \<Rightarrow> error + bytes"

text \<open>
  \<open>key_pair sk pk\<close> is what \<^verbatim>\<open>mldsa65.GenerateKey\<close> returns. The laws are the documented ones:
  digests have 32 bytes, a generated pair unmarshals and its signatures verify, and opening a
  sealed message under the same key and nonce returns it.
\<close>

locale crypto_spec =
  fixes cl :: crypto_lib and key_pair :: "bytes \<Rightarrow> bytes \<Rightarrow> bool"
  assumes sha3_length: "length (sha3_256 cl x) = 32"
    and sha2_length: "length (sha2_256 cl x) = 32"
    and pair_ok: "key_pair sk pk \<Longrightarrow> mldsa_priv_ok cl sk \<and> mldsa_pub_ok cl pk \<and> sk \<noteq> []"
    and sign_ok: "key_pair sk pk \<Longrightarrow> \<exists>sig. mldsa_sign cl sk m = Inr sig"
    and verify_sign: "key_pair sk pk \<Longrightarrow> mldsa_sign cl sk m = Inr sig \<Longrightarrow> mldsa_verify cl pk m sig"
    and open_seal: "gcm_open cl k n (gcm_seal cl k n p) = Inr p"

section \<open>Signatures\<close>

definition Sign :: "crypto_lib \<Rightarrow> bytes \<Rightarrow> bytes \<Rightarrow> error + bytes" where
  "Sign cl privateKeyBytes message =
     (if privateKeyBytes = [] then Inl BadSignature
      else if \<not> mldsa_priv_ok cl privateKeyBytes then Inl BadSignature
      else mldsa_sign cl privateKeyBytes message)"

definition Verify :: "crypto_lib \<Rightarrow> bytes \<Rightarrow> bytes \<Rightarrow> bytes \<Rightarrow> bool" where
  "Verify cl publicKeyBytes message signature =
     (if \<not> mldsa_pub_ok cl publicKeyBytes then False
      else mldsa_verify cl publicKeyBytes message signature)"

section \<open>VRF by signature\<close>

record VRFProof =
  Proof :: bytes
  Output :: bytes

definition hash256 :: "crypto_lib \<Rightarrow> bytes \<Rightarrow> bytes" where
  "hash256 cl data = sha3_256 cl data"

definition ComputeVRF :: "crypto_lib \<Rightarrow> bytes \<Rightarrow> bytes \<Rightarrow> error + VRFProof" where
  "ComputeVRF cl privateKeyBytes seed = (case Sign cl privateKeyBytes seed of
     Inl e \<Rightarrow> Inl e
   | Inr signature \<Rightarrow> Inr \<lparr>Proof = signature, Output = hash256 cl signature\<rparr>)"

definition VerifyVRF :: "crypto_lib \<Rightarrow> bytes \<Rightarrow> bytes \<Rightarrow> VRFProof \<Rightarrow> bool" where
  "VerifyVRF cl publicKeyBytes seed prf =
     (if \<not> mldsa_pub_ok cl publicKeyBytes then False
      else if \<not> mldsa_verify cl publicKeyBytes seed (Proof prf) then False
      else hash256 cl (Proof prf) = Output prf)"

section \<open>Block data encryption\<close>

definition masterKey :: bytes where
  "masterKey = string_bytes ''FAN-Chain-Master-Key-Change-This-In-Production-32bytes!!''"

abbreviation gcm_nonce_size :: nat where "gcm_nonce_size \<equiv> 12"

definition DeriveKeyFromHeight :: "crypto_lib \<Rightarrow> u64 \<Rightarrow> error + bytes" where
  "DeriveKeyFromHeight cl height =
     (let epoch = height div 1000
      in hkdf_sha256 cl masterKey (''FAN-Chain-Data-Encryption-Epoch-'' @ dec_u64 epoch))"

text \<open>\<open>nonce\<close> is what \<^verbatim>\<open>rand.Reader\<close> delivers; \<^verbatim>\<open>Seal(nonce, nonce, ...)\<close> puts it in front.\<close>

definition EncryptData :: "crypto_lib \<Rightarrow> bytes \<Rightarrow> bytes \<Rightarrow> u64 \<Rightarrow> error + bytes" where
  "EncryptData cl nonce plaintext height = (case DeriveKeyFromHeight cl height of
     Inl e \<Rightarrow> Inl e
   | Inr key \<Rightarrow> Inr (nonce @ gcm_seal cl key nonce plaintext))"

definition DecryptData :: "crypto_lib \<Rightarrow> bytes \<Rightarrow> u64 \<Rightarrow> error + bytes" where
  "DecryptData cl ciphertext height = (case DeriveKeyFromHeight cl height of
     Inl e \<Rightarrow> Inl e
   | Inr key \<Rightarrow>
       if length ciphertext < gcm_nonce_size then Inl ErrDecode
       else gcm_open cl key (take gcm_nonce_size ciphertext) (drop gcm_nonce_size ciphertext))"

section \<open>Consequences of the library laws\<close>

context crypto_spec
begin

lemma Sign_total: "key_pair sk pk \<Longrightarrow> \<exists>sig. Sign cl sk m = Inr sig"
  using pair_ok sign_ok by (simp add: Sign_def)

lemma Verify_Sign: "key_pair sk pk \<Longrightarrow> Sign cl sk m = Inr sig \<Longrightarrow> Verify cl pk m sig"
  using pair_ok verify_sign by (auto simp: Sign_def Verify_def split: if_splits)

lemma VerifyVRF_ComputeVRF:
  assumes "key_pair sk pk"
  shows "\<exists>prf. ComputeVRF cl sk seed = Inr prf \<and> VerifyVRF cl pk seed prf \<and> length (Output prf) = 32"
proof -
  obtain sig where sig: "Sign cl sk seed = Inr sig" using Sign_total[OF assms] by blast
  from Verify_Sign[OF assms sig] have "mldsa_pub_ok cl pk" "mldsa_verify cl pk seed sig"
    by (auto simp: Verify_def split: if_splits)
  with sig show ?thesis by (simp add: ComputeVRF_def VerifyVRF_def hash256_def sha3_length)
qed

lemma Decrypt_Encrypt:
  assumes "length nonce = gcm_nonce_size" and "h div 1000 = h' div 1000"
    and "EncryptData cl nonce p h = Inr c"
  shows "DecryptData cl c h' = Inr p"
proof -
  have "DeriveKeyFromHeight cl h' = DeriveKeyFromHeight cl h"
    using assms(2) by (simp add: DeriveKeyFromHeight_def)
  with assms(1,3) show ?thesis
    by (auto simp: EncryptData_def DecryptData_def open_seal split: sum.splits)
qed

end

text \<open>
  A concrete library that meets the laws: a keyed checksum stands for every primitive. It is
  used to instantiate the parameter in witnesses; nothing else depends on it.
\<close>

definition demo_digest :: "bytes \<Rightarrow> bytes" where
  "demo_digest x = copy_into 32 x"

definition demo_crypto :: crypto_lib where
  "demo_crypto = \<lparr>
     sha3_256 = demo_digest, sha2_256 = demo_digest,
     mldsa_pub_ok = (\<lambda>pk. pk \<noteq> []), mldsa_priv_ok = (\<lambda>sk. sk \<noteq> []),
     mldsa_sign = (\<lambda>sk m. Inr (sk @ m)),
     mldsa_verify = (\<lambda>pk m sig. sig = pk @ m),
     hkdf_sha256 = (\<lambda>k info. Inr (demo_digest (string_bytes info))),
     gcm_seal = (\<lambda>k n p. p), gcm_open = (\<lambda>k n c. Inr c)\<rparr>"

interpretation demo: crypto_spec demo_crypto "\<lambda>sk pk. sk = pk \<and> sk \<noteq> []"
  by unfold_locales (simp_all add: demo_crypto_def demo_digest_def)

text \<open>The proof a validator computes for a seed is accepted under its public key for that
  seed, and its output has 32 bytes, whenever the signature scheme is correct.\<close>

theorem vrf_complete:
  assumes "crypto_spec cl key_pair" and "key_pair sk pk"
  shows "\<exists>prf. ComputeVRF cl sk seed = Inr prf \<and> VerifyVRF cl pk seed prf \<and> length (Output prf) = 32"
  using assms by (rule crypto_spec.VerifyVRF_ComputeVRF)

theorem vrf_complete_witness:
  "\<exists>prf. ComputeVRF demo_crypto [1] [2, 3] = Inr prf \<and> VerifyVRF demo_crypto [1] [2, 3] prf
     \<and> length (Output prf) = 32"
  by (rule vrf_complete[OF demo.crypto_spec_axioms]) simp

text \<open>Data encrypted for a block can be decrypted with the height of any block of the same
  1000-block key epoch, and decryption returns the original bytes.\<close>

theorem block_data_roundtrip:
  assumes "crypto_spec cl key_pair" and "length nonce = gcm_nonce_size"
    and "h div 1000 = h' div 1000" and "EncryptData cl nonce p h = Inr c"
  shows "DecryptData cl c h' = Inr p"
  using assms by (rule crypto_spec.Decrypt_Encrypt)

theorem block_data_roundtrip_witness:
  "(1999::u64) div 1000 = 1000 div 1000 \<and>
   DecryptData demo_crypto (replicate 12 0 @ [5, 6]) 1000 = Inr [5, 6]"
proof -
  have "EncryptData demo_crypto (replicate 12 0) [5, 6] 1999 = Inr (replicate 12 0 @ [5, 6])"
    by (simp add: EncryptData_def DeriveKeyFromHeight_def demo_crypto_def)
  from block_data_roundtrip[OF demo.crypto_spec_axioms _ _ this, of 1000] show ?thesis
    by simp
qed

end
