(* ===== verification/Flat_Files.thy ===== *)
theory Flat_Files
  imports Chain_Crypto
begin

text \<open>
  The flat-file block store, \<^verbatim>\<open>storage/flatfile.go\<close>: chunks of 10000 blocks, each a data file to
  which blocks are appended with their SHA3 hash and an index file of 16-byte entries.

  The operating system is modelled with its failures. The \<^verbatim>\<open>blocks\<close> directory is a map from file
  names to contents; every system call takes the next entry of the list \<open>faults\<close>, which says
  whether it succeeds, fails, or (for a write) stops after some bytes, and calls succeed once the
  list is empty. A cached handle is the flag whether it was opened for writing: the file it names
  is determined by the chunk, and every handle is closed before its file is removed. The lock is
  the flag \<open>mu\<close> (held for writing); asking for it again while the same call holds it never
  returns, which is \<open>Deadlock\<close>.

  Lemmas: a block that was written reads back, plainly and with verification; a write leaves every
  other block readable even when it fails part-way; pruning keeps every block it promises to keep,
  whatever fails; a verified read returns only data that matches its stored hash; a handle cached
  by a read makes every later write to its chunk fail; and deleting blocks above a height never
  returns.
\<close>

section \<open>System calls\<close>

datatype fault = Succeed | Fail | Short nat

datatype kind = Dat | Idx

record BlockStore =
  disk :: "(string, bytes) gomap"
  datFiles :: "(u64, bool) gomap"
  idxFiles :: "(u64, bool) gomap"
  mu :: bool
  faults :: "fault list"

definition os_call :: "(BlockStore, fault) step" where
  "os_call bs = (case faults bs of [] \<Rightarrow> (Inr Succeed, bs) | f # fs \<Rightarrow> (Inr f, bs\<lparr>faults := fs\<rparr>))"

definition os_try :: "(BlockStore, unit) step" where
  "os_try = bindS os_call (\<lambda>f. if f = Succeed then Pair (Inr ()) else Pair (Inl ErrIO))"

text \<open>\<^verbatim>\<open>os.OpenFile\<close> with \<^verbatim>\<open>O_RDWR|O_CREATE\<close> (\<open>create\<close>) or \<^verbatim>\<open>O_RDONLY\<close>.\<close>

definition os_open :: "string \<Rightarrow> bool \<Rightarrow> (BlockStore, bool) step" where
  "os_open name create = bindS os_try (\<lambda>_ bs. case map_of (disk bs) name of
     Some _ \<Rightarrow> (Inr create, bs)
   | None \<Rightarrow> if create then (Inr True, bs\<lparr>disk := AList.update name [] (disk bs)\<rparr>) else (Inl ErrNotFound, bs))"

text \<open>\<^verbatim>\<open>Stat().Size()\<close> of a path or of a handle on it.\<close>

definition os_size :: "string \<Rightarrow> (BlockStore, nat) step" where
  "os_size name = bindS os_try (\<lambda>_ bs. case map_of (disk bs) name of
     Some content \<Rightarrow> (Inr (length content), bs) | None \<Rightarrow> (Inl ErrNotFound, bs))"

text \<open>\<^verbatim>\<open>Seek(off, SeekStart)\<close> and \<^verbatim>\<open>io.ReadFull\<close> of \<open>n\<close> bytes; a negative offset is refused.\<close>

definition os_read :: "string \<Rightarrow> i64 \<Rightarrow> nat \<Rightarrow> (BlockStore, bytes) step" where
  "os_read name off n = (if sint off < 0 then Pair (Inl ErrIO) else bindS os_try (\<lambda>_ bs.
     case map_of (disk bs) name of
       Some content \<Rightarrow> if unat off + n \<le> length content \<or> n = 0 then (Inr (take n (drop (unat off) content)), bs)
                       else (Inl ErrIO, bs)
     | None \<Rightarrow> (Inl ErrIO, bs)))"

text \<open>Writing at an offset; a gap before it reads as zeros.\<close>

definition splice :: "nat \<Rightarrow> bytes \<Rightarrow> bytes \<Rightarrow> bytes" where
  "splice off b content = (if b = [] then content
     else take off content @ replicate (off - length content) 0 @ b @ drop (off + length b) content)"

definition os_write :: "string \<Rightarrow> bool \<Rightarrow> nat \<Rightarrow> bytes \<Rightarrow> (BlockStore, unit) step" where
  "os_write name writable off b = bindS os_call (\<lambda>f bs. case map_of (disk bs) name of
     Some content \<Rightarrow>
       if \<not> writable then (Inl ErrIO, bs)
       else (case f of
         Succeed \<Rightarrow> (Inr (), bs\<lparr>disk := AList.update name (splice off b content) (disk bs)\<rparr>)
       | Fail \<Rightarrow> (Inl ErrIO, bs)
       | Short n \<Rightarrow> (Inl ErrIO, bs\<lparr>disk := AList.update name (splice off (take n b) content) (disk bs)\<rparr>))
   | None \<Rightarrow> (Inl ErrIO, bs))"

definition os_append :: "string \<Rightarrow> bool \<Rightarrow> bytes \<Rightarrow> (BlockStore, unit) step" where
  "os_append name writable b bs = os_write name writable (case map_of (disk bs) name of Some content \<Rightarrow> length content | None \<Rightarrow> 0) b bs"

definition os_remove :: "string \<Rightarrow> (BlockStore, unit) step" where
  "os_remove name = bindS os_try (\<lambda>_ bs. case map_of (disk bs) name of
     Some _ \<Rightarrow> (Inr (), bs\<lparr>disk := AList.delete name (disk bs)\<rparr>) | None \<Rightarrow> (Inl ErrNotFound, bs))"

text \<open>\<^verbatim>\<open>os.Truncate\<close> cuts a file or pads it with zeros.\<close>

definition os_truncate :: "string \<Rightarrow> nat \<Rightarrow> (BlockStore, unit) step" where
  "os_truncate name n = bindS os_try (\<lambda>_ bs. case map_of (disk bs) name of
     Some content \<Rightarrow> (Inr (), bs\<lparr>disk := AList.update name (take n content @ replicate (n - length content) 0) (disk bs)\<rparr>)
   | None \<Rightarrow> (Inl ErrNotFound, bs))"

text \<open>\<^verbatim>\<open>os.ReadDir\<close>: the names in ascending order.\<close>

definition os_readdir :: "(BlockStore, string list) step" where
  "os_readdir = bindS os_try (\<lambda>_ bs. (Inr (sort (map fst (disk bs))), bs))"

section \<open>Locking\<close>

definition with_lock :: "(BlockStore, 'a) step \<Rightarrow> (BlockStore, 'a) step" where
  "with_lock body bs = (if mu bs then (Inl Deadlock, bs)
     else case body (bs\<lparr>mu := True\<rparr>) of
       (Inl Deadlock, bs') \<Rightarrow> (Inl Deadlock, bs')
     | (r, bs') \<Rightarrow> (r, bs'\<lparr>mu := False\<rparr>))"

definition with_rlock :: "(BlockStore, 'a) step \<Rightarrow> (BlockStore, 'a) step" where
  "with_rlock body bs = (if mu bs then (Inl Deadlock, bs) else body bs)"

section \<open>Chunk files\<close>

definition ChunkSize :: u64 where "ChunkSize = 10000"

definition IndexEntrySize :: nat where "IndexEntrySize = 16"

definition HashSize :: u32 where "HashSize = 32"

record IndexEntry =
  ie_Offset :: u64
  ie_Length :: u32
  ie_Height :: u32

definition entryBytes :: "IndexEntry \<Rightarrow> bytes" where
  "entryBytes e = be_put64 (ie_Offset e) @ be_put32 (ie_Length e) @ be_put32 (ie_Height e)"

definition parseEntry :: "bytes \<Rightarrow> IndexEntry" where
  "parseEntry b = \<lparr>ie_Offset = be_fold (take 8 b), ie_Length = be_fold (take 4 (drop 8 b)), ie_Height = be_fold (take 4 (drop 12 b))\<rparr>"

definition NewBlockStore :: "(string, bytes) gomap \<Rightarrow> fault list \<Rightarrow> error + BlockStore" where
  "NewBlockStore dir fs = (case fs of
     [] \<Rightarrow> Inr \<lparr>disk = dir, datFiles = [], idxFiles = [], mu = False, faults = []\<rparr>
   | f # fs' \<Rightarrow> if f = Succeed then Inr \<lparr>disk = dir, datFiles = [], idxFiles = [], mu = False, faults = fs'\<rparr>
                else Inl ErrIO)"

definition bs_Close :: "(BlockStore, unit) step" where
  "bs_Close = with_lock (\<lambda>bs. (Inr (), bs\<lparr>datFiles := [], idxFiles := []\<rparr>))"

definition getChunkStart :: "u64 \<Rightarrow> u64" where
  "getChunkStart height = (height div ChunkSize) * ChunkSize"

definition chunk_ext :: "kind \<Rightarrow> string" where
  "chunk_ext k = (case k of Dat \<Rightarrow> ''.dat'' | Idx \<Rightarrow> ''.idx'')"

definition getChunkFiles :: "kind \<Rightarrow> u64 \<Rightarrow> string" where
  "getChunkFiles k chunkStart = ''chunk_'' @ dec_u64 chunkStart @ chunk_ext k"

text \<open>\<^verbatim>\<open>fmt.Sscanf(name, "chunk_%d.dat", &chunkStart)\<close>: the prefix, leading blanks skipped before the
  number, at least one digit, a value that fits, the suffix; what follows the suffix is ignored.\<close>

definition sscanf_chunk :: "kind \<Rightarrow> string \<Rightarrow> u64 option" where
  "sscanf_chunk k name = (if take 6 name \<noteq> ''chunk_'' then None
     else let rest = dropWhile (\<lambda>c. c = CHR '' '') (drop 6 name);
              digits = takeWhile is_digit rest;
              tail = dropWhile is_digit rest in
          if digits = [] \<or> 2 ^ 64 \<le> dec_value digits then None
          else if take 4 tail = chunk_ext k then Some (of_nat (dec_value digits)) else None)"

definition handles :: "kind \<Rightarrow> BlockStore \<Rightarrow> (u64, bool) gomap" where
  "handles k bs = (case k of Dat \<Rightarrow> datFiles bs | Idx \<Rightarrow> idxFiles bs)"

definition set_handles :: "kind \<Rightarrow> ((u64, bool) gomap \<Rightarrow> (u64, bool) gomap) \<Rightarrow> BlockStore \<Rightarrow> BlockStore" where
  "set_handles k f bs = (case k of Dat \<Rightarrow> bs\<lparr>datFiles := f (datFiles bs)\<rparr> | Idx \<Rightarrow> bs\<lparr>idxFiles := f (idxFiles bs)\<rparr>)"

text \<open>The two functions differ only in the file and the cache they use.\<close>

definition openChunk :: "kind \<Rightarrow> u64 \<Rightarrow> bool \<Rightarrow> (BlockStore, bool) step" where
  "openChunk k c create = bindS (os_open (getChunkFiles k c) create)
     (\<lambda>f bs. (Inr f, set_handles k (AList.update c f) bs))"

definition getFile :: "kind \<Rightarrow> u64 \<Rightarrow> bool \<Rightarrow> (BlockStore, bool) step" where
  "getFile k c create bs = (case map_of (handles k bs) c of
     Some f \<Rightarrow> (case os_try bs of
         (Inr _, bs') \<Rightarrow> (Inr f, bs')
       | (Inl _, bs') \<Rightarrow> openChunk k c create (set_handles k (AList.delete c) bs'))
   | None \<Rightarrow> openChunk k c create bs)"

definition getDatFile :: "u64 \<Rightarrow> bool \<Rightarrow> (BlockStore, bool) step" where
  "getDatFile = getFile Dat"

definition getIdxFile :: "u64 \<Rightarrow> bool \<Rightarrow> (BlockStore, bool) step" where
  "getIdxFile = getFile Idx"

text \<open>The position of a height's entry in its index file.\<close>

definition idxOffset :: "u64 \<Rightarrow> i64" where
  "idxOffset height = (height - getChunkStart height) * of_nat IndexEntrySize"

definition fail_as :: "error \<Rightarrow> (BlockStore, 'a) step \<Rightarrow> (BlockStore, 'a) step" where
  "fail_as e m bs = (case m bs of (Inl _, bs') \<Rightarrow> (Inl e, bs') | r \<Rightarrow> r)"

section \<open>Writing and reading blocks\<close>

definition WriteBlock :: "crypto_lib \<Rightarrow> u64 \<Rightarrow> bytes \<Rightarrow> (BlockStore, unit) step" where
  "WriteBlock cl height data = with_lock (
     let chunkStart = getChunkStart height;
         datPath = getChunkFiles Dat chunkStart;
         idxPath = getChunkFiles Idx chunkStart in
     bindS (getDatFile chunkStart True) (\<lambda>datFile.
     bindS (getIdxFile chunkStart True) (\<lambda>idxFile.
     bindS (os_size datPath) (\<lambda>size.
     bindS (os_append datPath datFile data) (\<lambda>_.
     bindS (os_append datPath datFile (sha3_256 cl data)) (\<lambda>_.
       os_write idxPath idxFile (unat (idxOffset height))
         (entryBytes \<lparr>ie_Offset = of_nat size, ie_Length = of_nat (length data), ie_Height = ucast height\<rparr>)))))))"

text \<open>The index lookup both readers start with.\<close>

definition readEntry :: "u64 \<Rightarrow> (BlockStore, IndexEntry) step" where
  "readEntry height =
     (let chunkStart = getChunkStart height in
      bindS (fail_as ErrNotFound (getIdxFile chunkStart False)) (\<lambda>_.
      bindS (fail_as ErrNotFound (os_read (getChunkFiles Idx chunkStart) (idxOffset height) IndexEntrySize)) (\<lambda>b.
        let entry = parseEntry b in
        if ie_Height entry \<noteq> ucast height then Pair (Inl HeightMismatch)
        else if ie_Length entry = 0 then Pair (Inl ZeroLength)
        else Pair (Inr entry))))"

definition ReadBlock :: "u64 \<Rightarrow> (BlockStore, bytes) step" where
  "ReadBlock height = with_rlock (
     bindS (readEntry height) (\<lambda>entry.
     bindS (getDatFile (getChunkStart height) False) (\<lambda>_.
       os_read (getChunkFiles Dat (getChunkStart height)) (ie_Offset entry) (unat (ie_Length entry)))))"

definition ReadBlockWithVerify :: "crypto_lib \<Rightarrow> u64 \<Rightarrow> (BlockStore, bytes) step" where
  "ReadBlockWithVerify cl height = with_rlock (
     bindS (readEntry height) (\<lambda>entry.
     bindS (getDatFile (getChunkStart height) False) (\<lambda>_.
     bindS (os_read (getChunkFiles Dat (getChunkStart height)) (ie_Offset entry) (unat (ie_Length entry + HashSize))) (\<lambda>dataWithHash.
       case slice_to (unat (ie_Length entry)) dataWithHash of
         Inl e \<Rightarrow> Pair (Inl e)
       | Inr data \<Rightarrow>
           (let storedHash = drop (unat (ie_Length entry)) dataWithHash in
            if sha3_256 cl data \<noteq> storedHash then Pair (Inl HashVerificationFailed)
            else Pair (Inr data))))))"

definition HasBlock :: "u64 \<Rightarrow> (BlockStore, bool) step" where
  "HasBlock height = with_rlock (\<lambda>bs.
     (let chunkStart = getChunkStart height in
      case bindS (os_size (getChunkFiles Idx chunkStart)) (\<lambda>size.
             if int size < sint (idxOffset height) + int IndexEntrySize then Pair (Inl ErrNotFound)
             else bindS (getIdxFile chunkStart False) (\<lambda>_.
               os_read (getChunkFiles Idx chunkStart) (idxOffset height) IndexEntrySize)) bs of
        (Inl _, bs') \<Rightarrow> (Inr False, bs')
      | (Inr b, bs') \<Rightarrow> (Inr (ie_Height (parseEntry b) = ucast height), bs')))"

section \<open>Chunk management\<close>

definition GetChunkList :: "(BlockStore, u64 list) step" where
  "GetChunkList = with_rlock (bindS os_readdir (\<lambda>names.
     Pair (Inr (sort (List.map_filter (sscanf_chunk Dat) names)))))"

text \<open>The body of the pruning loop for one directory entry, once for the data files and once for the
  index files; the result counts deleted data files.\<close>

definition pruneFile :: "kind \<Rightarrow> u64 \<Rightarrow> string \<Rightarrow> BlockStore \<Rightarrow> nat \<times> BlockStore" where
  "pruneFile k minKeepChunk name bs = (case sscanf_chunk k name of
     Some c \<Rightarrow> if c + ChunkSize \<le> minKeepChunk
       then (case os_remove name (set_handles k (AList.delete c) bs) of
               (Inl _, bs') \<Rightarrow> (0, bs') | (Inr _, bs') \<Rightarrow> (1, bs'))
       else (0, bs)
   | None \<Rightarrow> (0, bs))"

definition pruneEntry :: "u64 \<Rightarrow> string \<Rightarrow> BlockStore \<Rightarrow> nat \<times> BlockStore" where
  "pruneEntry minKeepChunk name bs =
     (let (n, bs1) = pruneFile Dat minKeepChunk name bs in (n, snd (pruneFile Idx minKeepChunk name bs1)))"

fun pruneLoop :: "u64 \<Rightarrow> string list \<Rightarrow> BlockStore \<Rightarrow> nat \<times> BlockStore" where
  "pruneLoop m [] bs = (0, bs)"
| "pruneLoop m (name # names) bs =
     (let (n, bs') = pruneEntry m name bs; (n', bs'') = pruneLoop m names bs' in (n + n', bs''))"

definition PruneChunks :: "u64 \<Rightarrow> u64 \<Rightarrow> (BlockStore, nat) step" where
  "PruneChunks latestHeight keepBlocks = with_lock (
     if latestHeight \<le> keepBlocks then Pair (Inr 0)
     else bindS os_readdir (\<lambda>names bs.
       (let (n, bs') = pruneLoop (getChunkStart (latestHeight - keepBlocks)) names bs in (Inr n, bs'))))"

text \<open>The scans of one index file: the first valid entry from the front, and from the back.\<close>

fun firstEntry :: "string \<Rightarrow> nat list \<Rightarrow> BlockStore \<Rightarrow> u32 option \<times> BlockStore" where
  "firstEntry idxPath [] bs = (None, bs)"
| "firstEntry idxPath (pos # ps) bs = (case os_read idxPath (of_nat (pos * IndexEntrySize)) IndexEntrySize bs of
     (Inl _, bs') \<Rightarrow> (None, bs')
   | (Inr b, bs') \<Rightarrow> (let e = parseEntry b in
       if 0 < ie_Height e \<and> 0 < ie_Length e then (Some (ie_Height e), bs') else firstEntry idxPath ps bs'))"

fun lastEntry :: "string \<Rightarrow> nat list \<Rightarrow> BlockStore \<Rightarrow> u32 option \<times> BlockStore" where
  "lastEntry idxPath [] bs = (None, bs)"
| "lastEntry idxPath (pos # ps) bs = (case os_read idxPath (of_nat (pos * IndexEntrySize)) IndexEntrySize bs of
     (Inl _, bs') \<Rightarrow> lastEntry idxPath ps bs'
   | (Inr b, bs') \<Rightarrow> (let e = parseEntry b in
       if 0 < ie_Height e \<and> 0 < ie_Length e then (Some (ie_Height e), bs') else lastEntry idxPath ps bs'))"

definition GetEarliestBlockHeight :: "(BlockStore, u64) step" where
  "GetEarliestBlockHeight = bindS GetChunkList (\<lambda>chunks.
     if chunks = [] then Pair (Inl ErrNotFound)
     else let chunkStart = hd chunks in
       bindS (getIdxFile chunkStart False) (\<lambda>_ bs.
         case firstEntry (getChunkFiles Idx chunkStart) [0..<unat ChunkSize] bs of
           (Some h, bs') \<Rightarrow> (Inr (ucast h), bs')
         | (None, bs') \<Rightarrow> (Inr chunkStart, bs')))"

definition GetLatestBlockHeight :: "(BlockStore, u64) step" where
  "GetLatestBlockHeight = bindS GetChunkList (\<lambda>chunks.
     if chunks = [] then Pair (Inr 0)
     else let chunkStart = last chunks; idxPath = getChunkFiles Idx chunkStart in
       bindS (os_size idxPath) (\<lambda>size.
         let entryCount = size div IndexEntrySize in
         if entryCount = 0 then Pair (Inr 0)
         else bindS (getIdxFile chunkStart False) (\<lambda>_ bs.
           case lastEntry idxPath (rev [0..<entryCount]) bs of
             (Some h, bs') \<Rightarrow> (Inr (ucast h), bs')
           | (None, bs') \<Rightarrow> (Inr 0, bs'))))"

text \<open>Reading stops at the first height that cannot be read. The heights are those of the Go
  loop for every upper bound below the largest \<^verbatim>\<open>uint64\<close>.\<close>

fun readWhile :: "u64 list \<Rightarrow> (BlockStore, bytes list) step" where
  "readWhile [] bs = (Inr [], bs)"
| "readWhile (h # hs) bs = (case ReadBlock h bs of
     (Inl e, bs') \<Rightarrow> if e = Deadlock then (Inl Deadlock, bs') else (Inr [], bs')
   | (Inr b, bs') \<Rightarrow> (case readWhile hs bs' of
         (Inl e, bs'') \<Rightarrow> (Inl e, bs'') | (Inr bl, bs'') \<Rightarrow> (Inr (b # bl), bs'')))"

definition heightsFromTo :: "u64 \<Rightarrow> u64 \<Rightarrow> u64 list" where
  "heightsFromTo a b = map of_nat [unat a..<Suc (unat b)]"

text \<open>\<^verbatim>\<open>make([][]byte, 0, n)\<close> panics when \<open>n\<close> slice headers of 24 bytes exceed the address space.\<close>

definition make_cap_ok :: "u64 \<Rightarrow> nat \<Rightarrow> bool" where
  "make_cap_ok n bytes_each \<longleftrightarrow> unat n * bytes_each \<le> 2 ^ 48"

definition bs_GetBlockRange :: "u64 \<Rightarrow> u64 \<Rightarrow> (BlockStore, bytes list) step" where
  "bs_GetBlockRange fromHeight toHeight =
     (if toHeight < fromHeight then Pair (Inr [])
      else if \<not> make_cap_ok (toHeight - fromHeight + 1) 24 then Pair (Inl Panic)
      else readWhile (heightsFromTo fromHeight toHeight))"

section \<open>Deleting blocks above a height\<close>

definition removeChunk :: "u64 \<Rightarrow> BlockStore \<Rightarrow> BlockStore" where
  "removeChunk c bs = snd (os_remove (getChunkFiles Idx c) (snd (os_remove (getChunkFiles Dat c)
     (set_handles Idx (AList.delete c) (set_handles Dat (AList.delete c) bs)))))"

text \<open>Truncation of the chunk that holds the target height: the index to the entries up to it, then
  the data file to the end of the last remaining block.\<close>

definition truncateChunk :: "u64 \<Rightarrow> u64 \<Rightarrow> (BlockStore, unit) step" where
  "truncateChunk targetHeight targetChunk bs =
     (let pos = targetHeight - targetChunk + 1;
          idxPath = getChunkFiles Idx targetChunk;
          datPath = getChunkFiles Dat targetChunk;
          tolerate = (\<lambda>m bs. case m bs of (Inl ErrNotFound, bs') \<Rightarrow> (Inr (), bs') | r \<Rightarrow> r) in
      bindS (tolerate (os_truncate idxPath (unat (pos * of_nat IndexEntrySize)))) (\<lambda>_ bs.
        case os_open idxPath False bs of
          (Inl _, bs') \<Rightarrow> (Inr (), bs')
        | (Inr _, bs') \<Rightarrow>
            if 0 < pos then
              (case os_read idxPath ((pos - 1) * of_nat IndexEntrySize) IndexEntrySize bs' of
                 (Inl _, bs'') \<Rightarrow> (Inr (), bs'')
               | (Inr b, bs'') \<Rightarrow>
                   (let e = parseEntry b; newDatSize = ie_Offset e + ucast (ie_Length e) + ucast HashSize in
                    if sint newDatSize < 0 then (Inl ErrIO, set_handles Dat (AList.delete targetChunk) bs'')
                    else tolerate (os_truncate datPath (unat newDatSize)) (set_handles Dat (AList.delete targetChunk) bs'')))
            else (Inr (), bs'))
        (set_handles Idx (AList.delete targetChunk) bs))"

definition DeleteBlocksAboveHeight :: "u64 \<Rightarrow> (BlockStore, unit) step" where
  "DeleteBlocksAboveHeight targetHeight = with_lock (
     bindS GetLatestBlockHeight (\<lambda>latestHeight.
       if latestHeight \<le> targetHeight then Pair (Inr ())
       else let targetChunk = getChunkStart targetHeight; latestChunk = getChunkStart latestHeight in
         (\<lambda>bs. let bs1 = foldl (\<lambda>s i. removeChunk (targetChunk + of_nat i * ChunkSize) s) bs
                          [1..<Suc (unat ((latestChunk - targetChunk) div ChunkSize))] in
            if targetChunk \<le> targetHeight then truncateChunk targetHeight targetChunk bs1 else (Inr (), bs1))))"

section \<open>What a disk holds\<close>

text \<open>The entry and the block a disk holds for a height, independent of handles, locks and faults:
  the reference the readers are compared with.\<close>

definition entry_at :: "(string \<rightharpoonup> bytes) \<Rightarrow> u64 \<Rightarrow> IndexEntry option" where
  "entry_at m h = (case m (getChunkFiles Idx (getChunkStart h)) of
     None \<Rightarrow> None
   | Some ix \<Rightarrow> (let off = unat (idxOffset h); e = parseEntry (take 16 (drop off ix)) in
       if off + 16 \<le> length ix \<and> ie_Height e = ucast h \<and> ie_Length e \<noteq> 0 then Some e else None))"

definition bytes_at :: "(string \<rightharpoonup> bytes) \<Rightarrow> u64 \<Rightarrow> u64 \<Rightarrow> nat \<Rightarrow> bytes option" where
  "bytes_at m h off n = (case m (getChunkFiles Dat (getChunkStart h)) of
     None \<Rightarrow> None
   | Some dat \<Rightarrow> if 0 \<le> sint off \<and> unat off + n \<le> length dat then Some (take n (drop (unat off) dat)) else None)"

definition block_at :: "(string \<rightharpoonup> bytes) \<Rightarrow> u64 \<Rightarrow> bytes option" where
  "block_at m h = (case entry_at m h of None \<Rightarrow> None
     | Some e \<Rightarrow> bytes_at m h (ie_Offset e) (unat (ie_Length e)))"

definition files :: "BlockStore \<Rightarrow> string \<rightharpoonup> bytes" where
  "files bs = map_of (disk bs)"

subsection \<open>Positions\<close>

lemma position_small: "unat (h - getChunkStart h) < 10000"
proof -
  have "h - getChunkStart h = h mod ChunkSize"
    by (simp add: getChunkStart_def minus_div_mult_eq_mod)
  then show ?thesis by (simp add: ChunkSize_def unat_mod)
qed

lemma unat_mult_16: "unat (p * 16 :: u64) = unat p * 16" if "unat p < 10000" for p :: u64
  using that by (simp add: unat_word_ariths)

lemma entry_offset: "unat (idxOffset h) = unat (h - getChunkStart h) * 16"
  unfolding idxOffset_def IndexEntrySize_def using unat_mult_16[OF position_small, of h] by simp

lemma sint_small: "sint w = int (unat w)" if "unat w < 2 ^ 63" for w :: u64
proof -
  have "uint w < 2 ^ 63" using that by (metis of_nat_less_iff of_nat_numeral of_nat_power uint_nat)
  then show ?thesis by (simp add: sint_uint signed_take_bit_int_eq_self order_trans[of _ 0])
qed

lemma entry_offset_nonneg: "0 \<le> sint (idxOffset h)"
  using position_small[of h] entry_offset[of h] by (subst sint_small) simp_all

subsection \<open>File names\<close>

lemma chunk_ext_digit [simp]: "chunk_ext k \<noteq> []" "length (chunk_ext k) = 4" "\<not> is_digit (hd (chunk_ext k))"
    "chunk_ext k = chunk_ext k' \<longleftrightarrow> k = k'"
  by (cases k; cases k'; simp add: chunk_ext_def is_digit_def)+

lemma sscanf_chunk_name [simp]:
  "sscanf_chunk k (getChunkFiles k' c) = (if k = k' then Some c else None)"
proof -
  let ?d = "dec_u64 c"
  have dig: "\<forall>x\<in>set ?d. is_digit x" "?d \<noteq> []"
    using dec_nat_digits by (auto simp: dec_u64_def)
  obtain e es where e: "chunk_ext k' = e # es" "\<not> is_digit e" by (cases k') (auto simp: chunk_ext_def is_digit_def)
  have sp: "dropWhile (\<lambda>c. c = CHR '' '') (?d @ chunk_ext k') = ?d @ chunk_ext k'"
    using dig by (cases ?d) (auto simp: is_digit_def)
  have "takeWhile is_digit (?d @ chunk_ext k') = ?d" "dropWhile is_digit (?d @ chunk_ext k') = chunk_ext k'"
    using dig e by (simp_all add: takeWhile_append2 dropWhile_append2)
  then show ?thesis
    using dig(2) sp unsigned_less[of c, where 'a = nat] by (auto simp: sscanf_chunk_def getChunkFiles_def dec_u64_def)
qed

lemma getChunkFiles_eq [simp]: "getChunkFiles k c = getChunkFiles k' c' \<longleftrightarrow> k = k' \<and> c = c'"
  by (metis option.distinct(1) option.inject sscanf_chunk_name)

section \<open>Steps on the disk\<close>

lemma os_call_files [simp]: "os_call bs = (r, bs') \<Longrightarrow> files bs' = files bs"
  by (auto simp: os_call_def files_def split: list.splits)

lemma os_try_spec:
  "os_try bs = (r, bs') \<Longrightarrow> files bs' = files bs \<and> mu bs' = mu bs \<and> datFiles bs' = datFiles bs \<and> idxFiles bs' = idxFiles bs
     \<and> (faults bs = [] \<longrightarrow> r = Inr () \<and> bs' = bs)"
  by (auto simp: os_try_def os_call_def bindS_def files_def split: list.splits if_splits)

definition keeps_files :: "BlockStore \<Rightarrow> BlockStore \<Rightarrow> bool" where
  "keeps_files bs bs' \<longleftrightarrow> files bs' = files bs \<and> mu bs' = mu bs \<and> (faults bs = [] \<longrightarrow> faults bs' = [])"

lemma keeps_files_order [simp]: "reflp keeps_files" "transp keeps_files"
  by (auto simp: keeps_files_def reflp_def transp_def)

lemma set_handles_simps [simp]:
  "files (set_handles k f bs) = files bs" "mu (set_handles k f bs) = mu bs" "faults (set_handles k f bs) = faults bs"
  "disk (set_handles k f bs) = disk bs"
  by (cases k; simp add: set_handles_def files_def)+

lemma keeps_os_try: "steps_in keeps_files os_try"
  using os_try_spec by (auto simp: steps_in_def keeps_files_def) (metis prod.collapse)+

lemmas keeps_bind = steps_in_bind[OF keeps_files_order(2)]

lemma keeps_os_read [intro]: "steps_in keeps_files (os_read name off n)"
  unfolding os_read_def
  by (auto intro!: keeps_bind keeps_os_try) (auto simp: steps_in_def keeps_files_def split: option.split)

lemma keeps_os_size [intro]: "steps_in keeps_files (os_size name)"
  unfolding os_size_def
  by (auto intro!: keeps_bind keeps_os_try) (auto simp: steps_in_def keeps_files_def split: option.split)

lemma keeps_os_readdir [intro]: "steps_in keeps_files os_readdir"
  unfolding os_readdir_def
  by (auto intro!: keeps_bind keeps_os_try) (auto simp: steps_in_def keeps_files_def)

lemma keeps_openChunk [intro]: "steps_in keeps_files (openChunk k c False)"
  unfolding openChunk_def os_open_def
  by (auto intro!: keeps_bind keeps_os_try) (auto simp: steps_in_def keeps_files_def split: option.split)

lemma keeps_getFile [intro]: "steps_in keeps_files (getFile k c False)"
proof -
  have "keeps_files bs (snd (getFile k c False bs))" for bs
  proof (cases "map_of (handles k bs) c")
    case None
    then show ?thesis using keeps_openChunk by (simp add: getFile_def steps_in_def)
  next
    case (Some f)
    obtain r bs1 where t: "os_try bs = (r, bs1)" by (cases "os_try bs")
    have 1: "keeps_files bs bs1" using steps_inD[OF keeps_os_try t] .
    have "keeps_files bs1 (set_handles k (AList.delete c) bs1)" by (simp add: keeps_files_def)
    moreover have "keeps_files (set_handles k (AList.delete c) bs1) (snd (openChunk k c False (set_handles k (AList.delete c) bs1)))"
      using keeps_openChunk by (simp add: steps_in_def)
    ultimately show ?thesis
      using Some t 1 by (cases r) (simp_all add: getFile_def keeps_files_def)
  qed
  then show ?thesis by (simp add: steps_in_def)
qed

lemma keeps_fail_as [intro]: "steps_in keeps_files m \<Longrightarrow> steps_in keeps_files (fail_as e m)"
  by (auto simp: steps_in_def fail_as_def split: prod.splits sum.splits) (metis snd_conv)+

lemma keeps_readEntry [intro]: "steps_in keeps_files (readEntry h)"
  unfolding readEntry_def Let_def getIdxFile_def by (auto intro!: keeps_bind)

lemma keeps_rlock [intro]: "steps_in keeps_files m \<Longrightarrow> steps_in keeps_files (with_rlock m)"
  using keeps_files_order(1) by (auto simp: steps_in_def with_rlock_def reflp_def)

lemma keeps_ReadBlock: "steps_in keeps_files (ReadBlock h)"
  unfolding ReadBlock_def getDatFile_def by (auto intro!: keeps_bind)

lemma keeps_ReadBlockWithVerify: "steps_in keeps_files (ReadBlockWithVerify cl h)"
  unfolding ReadBlockWithVerify_def getDatFile_def by (auto intro!: keeps_bind simp: Let_def split: sum.split)

section \<open>Reading\<close>

lemma os_try_ok: "os_try bs = (Inr u, bs') \<Longrightarrow> files bs' = files bs"
  using os_try_spec by blast

lemma os_read_ok:
  assumes "os_read name off n bs = (Inr b, bs')"
  shows "\<exists>content. files bs name = Some content \<and> 0 \<le> sint off \<and> (unat off + n \<le> length content \<or> n = 0)
    \<and> b = take n (drop (unat off) content)"
  using assms
  by (auto simp: os_read_def bindS_Inr_iff files_def split: if_splits option.splits dest!: os_try_ok)

lemma os_read_run:
  assumes "files bs name = Some content" and "0 \<le> sint off" and "unat off + n \<le> length content" and "faults bs = []"
  shows "os_read name off n bs = (Inr (take n (drop (unat off) content)), bs)"
  using assms by (simp add: os_read_def bindS_def os_try_def os_call_def files_def)

lemma getFile_run:
  assumes "files bs (getChunkFiles k c) \<noteq> None" and "faults bs = []"
  shows "\<exists>f bs'. getFile k c False bs = (Inr f, bs')"
  using assms by (auto simp: getFile_def openChunk_def os_open_def os_try_def os_call_def bindS_def files_def split: option.splits)

lemma readEntry_ok:
  assumes "readEntry h bs = (Inr e, bs')"
  shows "entry_at (files bs) h = Some e"
proof -
  let ?c = "getChunkStart h"
  from assms obtain f b bs1 bs2 where g: "fail_as ErrNotFound (getIdxFile ?c False) bs = (Inr f, bs1)"
    and r: "fail_as ErrNotFound (os_read (getChunkFiles Idx ?c) (idxOffset h) IndexEntrySize) bs1 = (Inr b, bs2)"
    and e: "ie_Height e = ucast h" "ie_Length e \<noteq> 0" "e = parseEntry b"
    by (auto simp: readEntry_def Let_def bindS_Inr_iff split: if_splits)
  have "files bs1 = files bs"
    using steps_inD[OF keeps_fail_as[OF keeps_getFile[of Idx ?c]] g[unfolded getIdxFile_def]] by (simp add: keeps_files_def)
  moreover have "os_read (getChunkFiles Idx ?c) (idxOffset h) 16 bs1 = (Inr b, bs2)"
    using r by (auto simp: fail_as_def IndexEntrySize_def split: prod.splits sum.splits)
  ultimately obtain ix where ix: "files bs (getChunkFiles Idx ?c) = Some ix"
      "unat (idxOffset h) + 16 \<le> length ix" "b = take 16 (drop (unat (idxOffset h)) ix)"
    using os_read_ok[of "getChunkFiles Idx ?c" "idxOffset h" 16 bs1 b bs2] by force
  show ?thesis using e unfolding ix(3) entry_at_def Let_def by (simp add: ix(1,2))
qed

lemma ReadBlock_ok:
  assumes "ReadBlock h bs = (Inr d, bs')"
  shows "block_at (files bs) h = Some d" and "\<not> mu bs"
proof -
  let ?c = "getChunkStart h"
  from assms obtain e f bs1 bs2 where e: "readEntry h bs = (Inr e, bs1)" and g: "getFile Dat ?c False bs1 = (Inr f, bs2)"
    and r: "os_read (getChunkFiles Dat ?c) (ie_Offset e) (unat (ie_Length e)) bs2 = (Inr d, bs')"
    by (auto simp: ReadBlock_def with_rlock_def getDatFile_def bindS_Inr_iff split: if_splits)
  have "files bs1 = files bs" "files bs2 = files bs1"
    using steps_inD[OF keeps_readEntry e] steps_inD[OF keeps_getFile g] by (simp_all add: keeps_files_def)
  moreover have "ie_Length e \<noteq> 0"
    using readEntry_ok[OF e] by (auto simp: entry_at_def Let_def split: option.splits if_splits)
  ultimately show "block_at (files bs) h = Some d"
    using os_read_ok[OF r] readEntry_ok[OF e] by (auto simp: block_at_def bytes_at_def unat_eq_zero)
  show "\<not> mu bs" using assms by (auto simp: ReadBlock_def with_rlock_def split: if_splits)
qed

lemma readEntry_run:
  assumes "entry_at (files bs) h = Some e" and "faults bs = []"
  shows "\<exists>bs'. readEntry h bs = (Inr e, bs')"
proof -
  let ?c = "getChunkStart h"
  from assms(1) obtain ix where ix: "files bs (getChunkFiles Idx ?c) = Some ix"
    "unat (idxOffset h) + 16 \<le> length ix" "e = parseEntry (take 16 (drop (unat (idxOffset h)) ix))"
    "ie_Height e = ucast h" "ie_Length e \<noteq> 0"
    by (auto simp: entry_at_def Let_def split: option.splits if_splits)
  obtain f bs1 where g: "getFile Idx ?c False bs = (Inr f, bs1)"
    using getFile_run[of bs Idx ?c] ix(1) assms(2) by auto
  from steps_inD[OF keeps_getFile g] assms(2) have "files bs1 = files bs" "faults bs1 = []"
    by (simp_all add: keeps_files_def)
  with ix have "os_read (getChunkFiles Idx ?c) (idxOffset h) 16 bs1 = (Inr (take 16 (drop (unat (idxOffset h)) ix)), bs1)"
    using entry_offset_nonneg by (intro os_read_run) simp_all
  with g ix(4,5) show ?thesis
    unfolding readEntry_def Let_def getIdxFile_def bindS_def fail_as_def IndexEntrySize_def ix(3) by simp
qed

lemma ReadBlock_run:
  assumes "block_at (files bs) h = Some d" and "faults bs = []" and "\<not> mu bs"
  shows "\<exists>bs'. ReadBlock h bs = (Inr d, bs')"
proof -
  let ?c = "getChunkStart h"
  from assms(1) obtain e dat where e: "entry_at (files bs) h = Some e"
    and d: "files bs (getChunkFiles Dat ?c) = Some dat" "0 \<le> sint (ie_Offset e)"
      "unat (ie_Offset e) + unat (ie_Length e) \<le> length dat" "d = take (unat (ie_Length e)) (drop (unat (ie_Offset e)) dat)"
    by (auto simp: block_at_def bytes_at_def split: option.splits if_splits)
  obtain bs1 where r: "readEntry h bs = (Inr e, bs1)" using readEntry_run[OF e assms(2)] by blast
  from steps_inD[OF keeps_readEntry r] assms(2) have k1: "files bs1 = files bs" "faults bs1 = []"
    by (simp_all add: keeps_files_def)
  obtain f bs2 where g: "getFile Dat ?c False bs1 = (Inr f, bs2)"
    using getFile_run[of bs1 Dat ?c] d(1) k1 by auto
  from steps_inD[OF keeps_getFile g] k1 have k2: "files bs2 = files bs" "faults bs2 = []"
    by (simp_all add: keeps_files_def)
  have "os_read (getChunkFiles Dat ?c) (ie_Offset e) (unat (ie_Length e)) bs2 = (Inr d, bs2)"
    using d k2 os_read_run[of bs2 "getChunkFiles Dat ?c"] by simp
  with r g assms(3) show ?thesis
    by (simp add: ReadBlock_def with_rlock_def getDatFile_def bindS_def)
qed

lemma ReadBlockWithVerify_ok:
  assumes "ReadBlockWithVerify cl h bs = (Inr d, bs')"
  shows "\<exists>e. entry_at (files bs) h = Some e \<and> bytes_at (files bs) h (ie_Offset e) (unat (ie_Length e + HashSize)) = Some (d @ sha3_256 cl d)
    \<and> length d = unat (ie_Length e)"
proof -
  let ?c = "getChunkStart h"
  from assms obtain e f b bs1 bs2 where e: "readEntry h bs = (Inr e, bs1)" and g: "getFile Dat ?c False bs1 = (Inr f, bs2)"
    and r: "os_read (getChunkFiles Dat ?c) (ie_Offset e) (unat (ie_Length e + HashSize)) bs2 = (Inr b, bs')"
    and b: "unat (ie_Length e) \<le> length b" "d = take (unat (ie_Length e)) b" "sha3_256 cl d = drop (unat (ie_Length e)) b"
    by (auto simp: ReadBlockWithVerify_def with_rlock_def getDatFile_def bindS_Inr_iff slice_to_def Let_def split: if_splits sum.splits)
  have "files bs1 = files bs" "files bs2 = files bs1"
    using steps_inD[OF keeps_readEntry e] steps_inD[OF keeps_getFile g] by (simp_all add: keeps_files_def)
  moreover have "ie_Length e \<noteq> 0"
    using readEntry_ok[OF e] by (auto simp: entry_at_def Let_def split: option.splits if_splits)
  moreover have "b \<noteq> []" using b(1) calculation(3) by (auto simp: unat_eq_zero)
  moreover have "d @ sha3_256 cl d = b" "length d = unat (ie_Length e)" using b by simp_all
  ultimately show ?thesis
    using os_read_ok[OF r] readEntry_ok[OF e] by (auto simp: bytes_at_def)
qed

lemma ReadBlockWithVerify_run:
  assumes "entry_at (files bs) h = Some e" and "faults bs = []" and "\<not> mu bs"
    and "bytes_at (files bs) h (ie_Offset e) (unat (ie_Length e + HashSize)) = Some (d @ sha3_256 cl d)"
    and "length d = unat (ie_Length e)"
  shows "\<exists>bs'. ReadBlockWithVerify cl h bs = (Inr d, bs')"
proof -
  let ?c = "getChunkStart h"
  obtain dat where d: "files bs (getChunkFiles Dat ?c) = Some dat" "0 \<le> sint (ie_Offset e)"
      "unat (ie_Offset e) + unat (ie_Length e + HashSize) \<le> length dat"
      "d @ sha3_256 cl d = take (unat (ie_Length e + HashSize)) (drop (unat (ie_Offset e)) dat)"
    using assms(4) by (auto simp: bytes_at_def split: option.splits if_splits)
  obtain bs1 where r: "readEntry h bs = (Inr e, bs1)" using readEntry_run[OF assms(1,2)] by blast
  from steps_inD[OF keeps_readEntry r] assms(2) have k1: "files bs1 = files bs" "faults bs1 = []"
    by (simp_all add: keeps_files_def)
  obtain f bs2 where g: "getFile Dat ?c False bs1 = (Inr f, bs2)"
    using getFile_run[of bs1 Dat ?c] d(1) k1 by auto
  from steps_inD[OF keeps_getFile g] k1 have k2: "files bs2 = files bs" "faults bs2 = []"
    by (simp_all add: keeps_files_def)
  have "os_read (getChunkFiles Dat ?c) (ie_Offset e) (unat (ie_Length e + HashSize)) bs2 = (Inr (d @ sha3_256 cl d), bs2)"
    using d k2 os_read_run[of bs2 "getChunkFiles Dat ?c"] by simp
  with r g assms(3,5) show ?thesis
    by (simp add: ReadBlockWithVerify_def with_rlock_def getDatFile_def bindS_def slice_to_def)
qed

section \<open>Writing\<close>

subsection \<open>What a write may change\<close>

text \<open>Between two disks: no file outside the chunk of \<open>h\<close> changed, the data file only grew, and the
  index file only changed at the entry of \<open>h\<close> or grew.\<close>

definition grows :: "u64 \<Rightarrow> BlockStore \<Rightarrow> BlockStore \<Rightarrow> bool" where
  "grows h bs bs' \<longleftrightarrow>
     (\<forall>name. name \<noteq> getChunkFiles Dat (getChunkStart h) \<longrightarrow> name \<noteq> getChunkFiles Idx (getChunkStart h) \<longrightarrow> files bs' name = files bs name)
   \<and> (\<forall>dat. files bs (getChunkFiles Dat (getChunkStart h)) = Some dat \<longrightarrow> (\<exists>x. files bs' (getChunkFiles Dat (getChunkStart h)) = Some (dat @ x)))
   \<and> (\<forall>ix. files bs (getChunkFiles Idx (getChunkStart h)) = Some ix \<longrightarrow> (\<exists>ix'. files bs' (getChunkFiles Idx (getChunkStart h)) = Some ix'
        \<and> length ix \<le> length ix' \<and> (\<forall>i<length ix. \<not> (unat (idxOffset h) \<le> i \<and> i < unat (idxOffset h) + 16) \<longrightarrow> ix' ! i = ix ! i)))"

lemma grows_order [simp]: "reflp (grows h)" "transp (grows h)"
proof -
  show "reflp (grows h)" by (auto simp: grows_def reflp_def)
  show "transp (grows h)"
  proof (rule transpI)
    fix x y z assume xy: "grows h x y" and yz: "grows h y z"
    show "grows h x z"
      unfolding grows_def
    proof (intro conjI allI impI)
      fix ix assume "files x (getChunkFiles Idx (getChunkStart h)) = Some ix"
      with xy obtain iy where iy: "files y (getChunkFiles Idx (getChunkStart h)) = Some iy" "length ix \<le> length iy"
        "\<forall>i<length ix. \<not> (unat (idxOffset h) \<le> i \<and> i < unat (idxOffset h) + 16) \<longrightarrow> iy ! i = ix ! i"
        unfolding grows_def by blast
      with yz obtain iz where iz: "files z (getChunkFiles Idx (getChunkStart h)) = Some iz" "length iy \<le> length iz"
        "\<forall>i<length iy. \<not> (unat (idxOffset h) \<le> i \<and> i < unat (idxOffset h) + 16) \<longrightarrow> iz ! i = iy ! i"
        unfolding grows_def by blast
      with iy show "\<exists>iz. files z (getChunkFiles Idx (getChunkStart h)) = Some iz \<and> length ix \<le> length iz
        \<and> (\<forall>i<length ix. \<not> (unat (idxOffset h) \<le> i \<and> i < unat (idxOffset h) + 16) \<longrightarrow> iz ! i = ix ! i)"
        by (intro exI[of _ iz]) auto
    next
      fix dat assume "files x (getChunkFiles Dat (getChunkStart h)) = Some dat"
      with xy obtain u where "files y (getChunkFiles Dat (getChunkStart h)) = Some (dat @ u)" unfolding grows_def by blast
      with yz obtain v where "files z (getChunkFiles Dat (getChunkStart h)) = Some ((dat @ u) @ v)" unfolding grows_def by blast
      then show "\<exists>w. files z (getChunkFiles Dat (getChunkStart h)) = Some (dat @ w)" by simp
    qed (use xy yz in \<open>simp add: grows_def\<close>)
  qed
qed

lemmas grows_bind = steps_in_bind[OF grows_order(2)]

lemma keeps_grows: "steps_in keeps_files m \<Longrightarrow> steps_in (grows h) m"
  using grows_order(1)[of h] by (auto simp: steps_in_def keeps_files_def grows_def)

lemma grows_os_try: "steps_in (grows h) os_try"
  by (rule keeps_grows[OF keeps_os_try])

lemma grows_os_call: "steps_in (grows h) os_call"
  by (auto simp: steps_in_def os_call_def grows_def files_def split: list.split)

lemma grows_same: "files bs' = files bs \<Longrightarrow> grows h bs bs'"
  by (simp add: grows_def)

lemma grows_new_file:
  "files bs name = None \<Longrightarrow> name = getChunkFiles k (getChunkStart h) \<Longrightarrow> files bs' = (files bs)(name \<mapsto> b) \<Longrightarrow> grows h bs bs'"
  by (cases k) (auto simp: grows_def)

lemma files_update [simp]: "files (bs\<lparr>disk := AList.update name b (disk bs)\<rparr>) = (files bs)(name \<mapsto> b)"
  by (simp add: files_def)

lemma grows_openChunk: "steps_in (grows h) (openChunk k (getChunkStart h) create)"
  unfolding openChunk_def os_open_def
proof (intro grows_bind grows_os_try)
  show "steps_in (grows h) (\<lambda>bs. case map_of (disk bs) (getChunkFiles k (getChunkStart h)) of
      None \<Rightarrow> if create then (Inr True, bs\<lparr>disk := AList.update (getChunkFiles k (getChunkStart h)) [] (disk bs)\<rparr>) else (Inl ErrNotFound, bs)
    | Some _ \<Rightarrow> (Inr create, bs))"
    by (auto simp: steps_in_def grows_same split: option.split intro: grows_new_file[where k = k] simp flip: files_def)
  show "steps_in (grows h) (\<lambda>bs. (Inr f, set_handles k (AList.update (getChunkStart h) f) bs))" for f
    by (simp add: steps_in_def grows_same)
qed

lemma grows_getFile: "steps_in (grows h) (getFile k (getChunkStart h) create)"
proof -
  have "grows h bs (snd (getFile k (getChunkStart h) create bs))" for bs
  proof (cases "map_of (handles k bs) (getChunkStart h)")
    case None
    then show ?thesis using grows_openChunk by (simp add: getFile_def steps_in_def)
  next
    case (Some f)
    obtain r bs1 where t: "os_try bs = (r, bs1)" by (cases "os_try bs")
    let ?b = "set_handles k (AList.delete (getChunkStart h)) bs1"
    have 1: "grows h bs bs1" using steps_inD[OF grows_os_try t] .
    have "grows h bs ?b" using 1 by (simp add: grows_def)
    moreover have "grows h ?b (snd (openChunk k (getChunkStart h) create ?b))"
      using grows_openChunk by (simp add: steps_in_def)
    ultimately have "grows h bs (snd (openChunk k (getChunkStart h) create ?b))"
      by (rule transpD[OF grows_order(2)])
    then show ?thesis using Some t 1 by (cases r) (simp_all add: getFile_def)
  qed
  then show ?thesis by (simp add: steps_in_def)
qed

lemma splice_append: "splice (length c) b c = c @ b"
  by (simp add: splice_def)

lemma grows_append: "steps_in (grows h) (os_append (getChunkFiles Dat (getChunkStart h)) w b)"
  by (auto simp: steps_in_def os_append_def os_write_def bindS_def os_call_def grows_def files_def splice_append
      split: list.split option.split fault.split)

lemma length_splice: "length (splice off b c) = (if b = [] then length c else max (length c) (off + length b))"
  by (auto simp: splice_def)

lemma splice_outside:
  assumes "i < length c" and "\<not> (off \<le> i \<and> i < off + length b)"
  shows "splice off b c ! i = c ! i"
proof (cases "i < off")
  case True
  then show ?thesis using assms(1) by (simp add: splice_def nth_append)
next
  case False
  then have "off + length b \<le> i" "\<not> i - off < length b" using assms(2) by simp_all
  then show ?thesis using assms(1) by (simp add: splice_def nth_append)
qed

lemma grows_index_write:
  assumes "length b \<le> 16"
  shows "steps_in (grows h) (os_write (getChunkFiles Idx (getChunkStart h)) w (unat (idxOffset h)) b)"
proof -
  have wr: "grows h bs bs'" if "files bs (getChunkFiles Idx (getChunkStart h)) = Some ix" "length b' \<le> 16"
    "files bs' = (files bs)(getChunkFiles Idx (getChunkStart h) \<mapsto> splice (unat (idxOffset h)) b' ix)" for bs bs' b' ix
    using that splice_outside[of _ ix "unat (idxOffset h)" b'] by (auto simp: grows_def length_splice)
  show ?thesis
    unfolding os_write_def using assms
    by (intro grows_bind grows_os_call)
      (auto simp: steps_in_def grows_same split: option.split fault.split intro: wr[OF _ _ files_update] simp flip: files_def)
qed

lemma grows_lock: "steps_in (grows h) m \<Longrightarrow> steps_in (grows h) (with_lock m)"
proof -
  have "grows h bs (bs'\<lparr>mu := x\<rparr>) \<longleftrightarrow> grows h bs bs'" "grows h (bs\<lparr>mu := x\<rparr>) bs' \<longleftrightarrow> grows h bs bs'" for bs bs' x
    by (simp_all add: grows_def files_def)
  then show "steps_in (grows h) m \<Longrightarrow> steps_in (grows h) (with_lock m)"
    using grows_order(1)[of h] unfolding steps_in_def with_lock_def
    by (auto simp: reflp_def split: prod.split sum.split error.split) (metis snd_conv)+
qed

lemma length_entryBytes [simp]: "length (entryBytes e) = 16"
  by (simp add: entryBytes_def)

lemma grows_WriteBlock: "steps_in (grows h) (WriteBlock cl h d)"
  unfolding WriteBlock_def Let_def getDatFile_def getIdxFile_def
  by (intro grows_lock grows_bind grows_getFile grows_append grows_index_write keeps_grows[OF keeps_os_size]) simp

subsection \<open>Other blocks survive\<close>

lemma same_chunk_offsets:
  assumes "getChunkStart h' = getChunkStart h" and "h' \<noteq> h"
  shows "unat (idxOffset h') + 16 \<le> unat (idxOffset h) \<or> unat (idxOffset h) + 16 \<le> unat (idxOffset h')"
proof -
  have "unat (h' - getChunkStart h) \<noteq> unat (h - getChunkStart h)"
    using assms(2) by (simp add: word_unat_eq_iff[symmetric])
  then show ?thesis using assms(1) by (auto simp: entry_offset)
qed

lemma grows_entry:
  assumes "grows h bs bs'" and "h' \<noteq> h" and "entry_at (files bs) h' = Some e"
  shows "entry_at (files bs') h' = Some e"
proof (cases "getChunkStart h' = getChunkStart h")
  case False
  then show ?thesis using assms(1,3) by (simp add: grows_def entry_at_def)
next
  case True
  let ?o = "unat (idxOffset h')"
  from assms(3) obtain ix where ix: "files bs (getChunkFiles Idx (getChunkStart h)) = Some ix" "?o + 16 \<le> length ix"
    "ie_Height e = ucast h'" "ie_Length e \<noteq> 0" "e = parseEntry (take 16 (drop ?o ix))"
    by (auto simp: entry_at_def Let_def True split: option.splits if_splits)
  with assms(1) obtain ix' where ix': "files bs' (getChunkFiles Idx (getChunkStart h)) = Some ix'" "length ix \<le> length ix'"
    "\<forall>i<length ix. \<not> (unat (idxOffset h) \<le> i \<and> i < unat (idxOffset h) + 16) \<longrightarrow> ix' ! i = ix ! i"
    unfolding grows_def by blast
  have "take 16 (drop ?o ix') = take 16 (drop ?o ix)"
    using ix(2) ix'(2,3) same_chunk_offsets[OF True assms(2)] by (intro nth_equalityI) auto
  then show ?thesis using ix ix' by (simp add: entry_at_def Let_def True)
qed

lemma grows_bytes:
  assumes "grows h bs bs'" and "bytes_at (files bs) h' off n = Some b"
  shows "bytes_at (files bs') h' off n = Some b"
proof (cases "getChunkStart h' = getChunkStart h")
  case False
  then show ?thesis using assms by (simp add: grows_def bytes_at_def)
next
  case True
  from assms(2) obtain dat where "files bs (getChunkFiles Dat (getChunkStart h)) = Some dat"
    "0 \<le> sint off" "unat off + n \<le> length dat" "b = take n (drop (unat off) dat)"
    by (auto simp: bytes_at_def True split: option.splits if_splits)
  with assms(1) show ?thesis by (auto simp: grows_def bytes_at_def True)
qed

lemma grows_block:
  assumes "grows h bs bs'" and "h' \<noteq> h" and "block_at (files bs) h' = Some d"
  shows "block_at (files bs') h' = Some d"
  using assms(3) grows_entry[OF assms(1,2)] grows_bytes[OF assms(1)]
  by (auto simp: block_at_def split: option.splits)

subsection \<open>What a successful write leaves\<close>

lemma parse_entryBytes [codec_simps, simp]: "parseEntry (entryBytes e) = e"
  by (simp add: parseEntry_def entryBytes_def)

definition chunk_content :: "BlockStore \<Rightarrow> kind \<Rightarrow> u64 \<Rightarrow> bytes" where
  "chunk_content bs k c = (case files bs (getChunkFiles k c) of None \<Rightarrow> [] | Some b \<Rightarrow> b)"

lemma openChunk_ok:
  assumes "openChunk k c True bs = (Inr f, bs')"
  shows "files bs' = (files bs)(getChunkFiles k c \<mapsto> chunk_content bs k c)"
proof -
  from assms obtain g t where o: "os_open (getChunkFiles k c) True bs = (Inr g, t)" and bs': "files bs' = files t"
    by (auto simp: openChunk_def bindS_Inr_iff)
  then obtain t0 where "os_try bs = (Inr (), t0)"
    and t: "(case map_of (disk t0) (getChunkFiles k c) of Some _ \<Rightarrow> (Inr True, t0)
      | None \<Rightarrow> (Inr True, t0\<lparr>disk := AList.update (getChunkFiles k c) [] (disk t0)\<rparr>)) = (Inr g :: error + bool, t)"
    unfolding os_open_def bindS_Inr_iff if_True by auto
  then have "files t0 = files bs" by (blast dest: os_try_ok)
  with t bs' show ?thesis
    by (cases "files t0 (getChunkFiles k c)") (auto simp: chunk_content_def simp flip: files_def)
qed

lemma os_write_ok:
  assumes "os_write name w off b bs = (Inr u, bs')"
  shows "\<exists>c. files bs name = Some c \<and> files bs' = (files bs)(name \<mapsto> splice off b c) \<and> w"
proof -
  from assms obtain f t where f: "os_call bs = (Inr f, t)"
    and t: "(case files t name of None \<Rightarrow> (Inl ErrIO, t) | Some content \<Rightarrow> if \<not> w then (Inl ErrIO, t)
       else (case f of Succeed \<Rightarrow> (Inr (), t\<lparr>disk := AList.update name (splice off b content) (disk t)\<rparr>)
         | Fail \<Rightarrow> (Inl ErrIO, t) | Short n \<Rightarrow> (Inl ErrIO, t\<lparr>disk := AList.update name (splice off (take n b) content) (disk t)\<rparr>)))
       = (Inr u, bs')"
    unfolding os_write_def bindS_Inr_iff files_def by blast
  then have "files t = files bs" by (blast dest: os_call_files)
  with t show ?thesis by (cases "files t name"; cases f; cases w) auto
qed

lemma os_append_ok:
  assumes "os_append name w b bs = (Inr u, bs')"
  shows "\<exists>c. files bs name = Some c \<and> files bs' = (files bs)(name \<mapsto> c @ b)"
  using os_write_ok[of name w _ b bs u bs'] assms by (auto simp: os_append_def files_def splice_append split: option.splits)

lemma getFile_ok:
  assumes "getFile k c True bs = (Inr f, bs')"
  shows "files bs' = files bs \<or> files bs' = (files bs)(getChunkFiles k c \<mapsto> chunk_content bs k c)"
proof (cases "map_of (handles k bs) c")
  case None
  then show ?thesis using assms openChunk_ok by (simp add: getFile_def)
next
  case (Some g)
  obtain r bs1 where t: "os_try bs = (r, bs1)" by (cases "os_try bs")
  then have "files bs1 = files bs" using os_try_spec by blast
  with assms Some t show ?thesis
    using openChunk_ok[of k c "set_handles k (AList.delete c) bs1" f bs']
    by (cases r) (auto simp: getFile_def chunk_content_def)
qed

lemma content_upd [simp]:
  "files t = (files bs)(getChunkFiles k c \<mapsto> chunk_content bs k c) \<Longrightarrow> chunk_content t k' c' = chunk_content bs k' c'"
  by (auto simp: chunk_content_def split: option.splits)

lemma content_files: "files bs = files bs' \<Longrightarrow> chunk_content bs k c = chunk_content bs' k c"
  by (simp add: chunk_content_def)

lemma getFile_content:
  assumes "getFile k c True bs = (Inr f, bs')"
  shows "chunk_content bs' k' c' = chunk_content bs k' c'"
    and "name \<noteq> getChunkFiles k c \<Longrightarrow> files bs' name = files bs name"
  using getFile_ok[OF assms] content_upd[of bs' bs k c] content_files[of bs' bs] by auto

lemma WriteBlock_ok:
  assumes "WriteBlock cl h d bs = (Inr (), bs')"
  defines "c \<equiv> getChunkStart h"
  shows "files bs' (getChunkFiles Dat c) = Some (chunk_content bs Dat c @ d @ sha3_256 cl d)"
    and "files bs' (getChunkFiles Idx c) = Some (splice (unat (idxOffset h))
      (entryBytes \<lparr>ie_Offset = of_nat (length (chunk_content bs Dat c)), ie_Length = of_nat (length d), ie_Height = ucast h\<rparr>)
      (chunk_content bs Idx c))"
proof -
  let ?D = "getChunkFiles Dat c" and ?I = "getChunkFiles Idx c"
  from assms(1) obtain b0 where body: "bindS (getFile Dat c True) (\<lambda>datFile. bindS (getFile Idx c True) (\<lambda>idxFile.
     bindS (os_size ?D) (\<lambda>size. bindS (os_append ?D datFile d) (\<lambda>_. bindS (os_append ?D datFile (sha3_256 cl d)) (\<lambda>_.
       os_write ?I idxFile (unat (idxOffset h))
         (entryBytes \<lparr>ie_Offset = of_nat size, ie_Length = of_nat (length d), ie_Height = ucast h\<rparr>))))))
     (bs\<lparr>mu := True\<rparr>) = (Inr (), b0)" and b0: "files bs' = files b0"
    by (auto simp: WriteBlock_def with_lock_def Let_def c_def getDatFile_def getIdxFile_def files_def split: prod.splits sum.splits if_splits error.splits)
  then obtain fd b1 fi b2 sz b3 b4 b5 where
    1: "getFile Dat c True (bs\<lparr>mu := True\<rparr>) = (Inr fd, b1)" and 2: "getFile Idx c True b1 = (Inr fi, b2)"
    and 3: "os_size ?D b2 = (Inr sz, b3)" and 4: "os_append ?D fd d b3 = (Inr (), b4)"
    and 5: "os_append ?D fd (sha3_256 cl d) b4 = (Inr (), b5)"
    and 6: "os_write ?I fi (unat (idxOffset h)) (entryBytes \<lparr>ie_Offset = of_nat sz, ie_Length = of_nat (length d), ie_Height = ucast h\<rparr>) b5 = (Inr (), b0)"
    unfolding bindS_Inr_iff by auto
  have c2: "chunk_content b2 k c' = chunk_content bs k c'" for k c'
    using getFile_content(1)[OF 1] getFile_content(1)[OF 2] by (simp add: chunk_content_def files_def)
  have sz: "files b3 = files b2" "files b2 ?D = Some x \<Longrightarrow> sz = length x" for x
    using 3 by (auto simp: os_size_def bindS_Inr_iff files_def split: option.splits dest!: os_try_ok)
  obtain x where x: "files b3 ?D = Some x" "files b4 = (files b3)(?D \<mapsto> x @ d)" using os_append_ok[OF 4] by blast
  obtain y where y: "files b4 ?D = Some y" "files b5 = (files b4)(?D \<mapsto> y @ sha3_256 cl d)" using os_append_ok[OF 5] by blast
  obtain z where z: "files b5 ?I = Some z" "files b0 = (files b5)(?I \<mapsto> splice (unat (idxOffset h))
      (entryBytes \<lparr>ie_Offset = of_nat sz, ie_Length = of_nat (length d), ie_Height = ucast h\<rparr>) z)"
    using os_write_ok[OF 6] by blast
  have "x = chunk_content bs Dat c" using c2[of Dat c] x(1) sz(1) by (simp add: chunk_content_def)
  moreover have "z = chunk_content bs Idx c" using c2[of Idx c] z(1) x(2) y(2) sz(1) by (simp add: chunk_content_def)
  ultimately show "files bs' ?D = Some (chunk_content bs Dat c @ d @ sha3_256 cl d)"
    "files bs' ?I = Some (splice (unat (idxOffset h))
      (entryBytes \<lparr>ie_Offset = of_nat (length (chunk_content bs Dat c)), ie_Length = of_nat (length d), ie_Height = ucast h\<rparr>)
      (chunk_content bs Idx c))"
    using b0 x y z sz by simp_all
qed

lemma splice_inside:
  assumes "b \<noteq> []" shows "take (length b) (drop off (splice off b c)) = b" and "off + length b \<le> length (splice off b c)"
  using assms by (simp_all add: splice_def)

lemma WriteBlock_entry:
  assumes "WriteBlock cl h d bs = (Inr (), bs')" and "d \<noteq> []" and "length d < 2 ^ 32"
  shows "entry_at (files bs') h = Some \<lparr>ie_Offset = of_nat (length (chunk_content bs Dat (getChunkStart h))), ie_Length = of_nat (length d), ie_Height = ucast h\<rparr>"
proof -
  let ?e = "\<lparr>ie_Offset = of_nat (length (chunk_content bs Dat (getChunkStart h))), ie_Length = of_nat (length d), ie_Height = ucast h\<rparr>"
  have "of_nat (length d) \<noteq> (0 :: u32)" using assms(2,3) by (auto simp: word_unat_eq_iff unat_of_nat)
  moreover have "entryBytes ?e \<noteq> []" by (metis length_entryBytes list.size(3) zero_neq_numeral)
  ultimately show ?thesis
    using WriteBlock_ok(2)[OF assms(1)] splice_inside[of "entryBytes ?e" "unat (idxOffset h)" "chunk_content bs Idx (getChunkStart h)"]
    by (simp add: entry_at_def Let_def)
qed

lemma WriteBlock_bytes:
  assumes "WriteBlock cl h d bs = (Inr (), bs')" and "length (chunk_content bs Dat (getChunkStart h)) < 2 ^ 63" and "n \<le> length (d @ sha3_256 cl d)"
  shows "bytes_at (files bs') h (of_nat (length (chunk_content bs Dat (getChunkStart h)))) n = Some (take n (d @ sha3_256 cl d))"
proof -
  have u: "unat (of_nat (length (chunk_content bs Dat (getChunkStart h))) :: u64) = length (chunk_content bs Dat (getChunkStart h))"
    using assms(2) by (simp add: unat_of_nat)
  then have "0 \<le> sint (of_nat (length (chunk_content bs Dat (getChunkStart h))) :: u64)"
    using assms(2) by (subst sint_small) simp_all
  then show ?thesis using WriteBlock_ok(1)[OF assms(1)] assms(3) u by (simp add: bytes_at_def)
qed

subsection \<open>When a write succeeds\<close>

text \<open>Every cached handle is open for writing on a file that exists. A fresh store satisfies it, and
  it is exactly what a read of an uncached chunk destroys.\<close>

definition writable :: "BlockStore \<Rightarrow> bool" where
  "writable bs \<longleftrightarrow> (\<forall>k c. map_of (handles k bs) c \<noteq> Some False \<and> (files bs (getChunkFiles k c) = None \<longrightarrow> map_of (handles k bs) c = None))"

lemma handles_simps [simp]:
  "handles k (set_handles k' g bs) = (if k = k' then g (handles k bs) else handles k bs)"
  "handles k (bs\<lparr>disk := x\<rparr>) = handles k bs" "handles k (bs\<lparr>mu := y\<rparr>) = handles k bs"
  by (cases k; cases k'; simp add: handles_def set_handles_def)+

lemma getFile_run_create:
  assumes "writable bs" and "faults bs = []"
  shows "\<exists>bs'. getFile k c True bs = (Inr True, bs') \<and> writable bs' \<and> faults bs' = []
    \<and> files bs' (getChunkFiles k c) \<noteq> None \<and> (\<forall>name. files bs name \<noteq> None \<longrightarrow> files bs' name \<noteq> None)"
proof (cases "map_of (handles k bs) c")
  case None
  then show ?thesis
    using assms by (cases "files bs (getChunkFiles k c)")
      (auto simp: getFile_def openChunk_def os_open_def os_try_def os_call_def bindS_def writable_def split: if_splits simp flip: files_def)
next
  case (Some f)
  have f: "f" "files bs (getChunkFiles k c) \<noteq> None"
    using Some assms(1) unfolding writable_def by (metis, metis option.distinct(1))
  then show ?thesis using Some assms by (auto simp: getFile_def os_try_def os_call_def bindS_def)
qed

lemma os_write_run:
  assumes "faults bs = []" and "files bs name \<noteq> None"
  shows "\<exists>bs'. os_write name True off b bs = (Inr (), bs') \<and> faults bs' = [] \<and> (\<forall>n. files bs n \<noteq> None \<longrightarrow> files bs' n \<noteq> None)
    \<and> (writable bs \<longrightarrow> writable bs')"
  using assms by (auto simp: os_write_def bindS_def os_call_def writable_def simp flip: files_def)

lemma WriteBlock_run:
  assumes "writable bs" and "faults bs = []" and "\<not> mu bs"
  shows "\<exists>bs'. WriteBlock cl h d bs = (Inr (), bs') \<and> writable bs' \<and> faults bs' = [] \<and> \<not> mu bs'"
proof -
  let ?c = "getChunkStart h"
  have w: "writable (bs\<lparr>mu := True\<rparr>)" using assms(1) by (auto simp: writable_def files_def)
  obtain b1 where 1: "getFile Dat ?c True (bs\<lparr>mu := True\<rparr>) = (Inr True, b1)" "writable b1" "faults b1 = []"
    "files b1 (getChunkFiles Dat ?c) \<noteq> None"
    using getFile_run_create[OF w, of Dat ?c] assms(2) by auto
  obtain b2 where 2: "getFile Idx ?c True b1 = (Inr True, b2)" "writable b2" "faults b2 = []"
    "files b2 (getChunkFiles Idx ?c) \<noteq> None" "files b2 (getChunkFiles Dat ?c) \<noteq> None"
    using getFile_run_create[OF 1(2,3), of Idx ?c] 1(4) by blast
  then obtain n where 3: "os_size (getChunkFiles Dat ?c) b2 = (Inr n, b2)"
    by (auto simp: os_size_def bindS_def os_try_def os_call_def simp flip: files_def)
  obtain b4 where 4: "os_append (getChunkFiles Dat ?c) True d b2 = (Inr (), b4)" "writable b4" "faults b4 = []"
    "files b4 (getChunkFiles Idx ?c) \<noteq> None" "files b4 (getChunkFiles Dat ?c) \<noteq> None"
    using os_write_run[of b2 "getChunkFiles Dat ?c"] 2 unfolding os_append_def by metis
  obtain b5 where 5: "os_append (getChunkFiles Dat ?c) True (sha3_256 cl d) b4 = (Inr (), b5)" "writable b5" "faults b5 = []"
    "files b5 (getChunkFiles Idx ?c) \<noteq> None"
    using os_write_run[of b4 "getChunkFiles Dat ?c"] 4 unfolding os_append_def by metis
  obtain b6 where 6: "os_write (getChunkFiles Idx ?c) True (unat (idxOffset h))
     (entryBytes \<lparr>ie_Offset = of_nat n, ie_Length = of_nat (length d), ie_Height = ucast h\<rparr>) b5 = (Inr (), b6)"
     "writable b6" "faults b6 = []"
    using os_write_run[of b5 "getChunkFiles Idx ?c"] 5 by metis
  have "writable (b6\<lparr>mu := False\<rparr>)" using 6(2) by (auto simp: writable_def files_def)
  with 1(1) 2(1) 3 4(1) 5(1) 6(1,3) assms(3) show ?thesis
    by (simp add: WriteBlock_def with_lock_def Let_def getDatFile_def getIdxFile_def bindS_def)
qed

lemma WriteBlock_unlocked: "WriteBlock cl h d bs = (Inr (), bs') \<Longrightarrow> \<not> mu bs'"
  by (auto simp: WriteBlock_def with_lock_def split: prod.splits sum.splits if_splits error.splits)

section \<open>Pruning\<close>

definition removable :: "u64 \<Rightarrow> string \<Rightarrow> bool" where
  "removable m name \<longleftrightarrow> (\<exists>k c. sscanf_chunk k name = Some c \<and> c + ChunkSize \<le> m)"

lemma os_remove_files:
  assumes "os_remove name bs = (r, bs')"
  shows "files bs' = files bs \<or> files bs' = (files bs)(name := None)"
    and "faults bs = [] \<Longrightarrow> faults bs' = [] \<and> files bs' = (files bs)(name := None)"
    and "mu bs' = mu bs"
proof -
  obtain r0 t where t: "os_try bs = (r0, t)" by (cases "os_try bs")
  have ft: "files t = files bs" "mu t = mu bs" "faults bs = [] \<Longrightarrow> r0 = Inr () \<and> t = bs" using os_try_spec[OF t] by auto
  have bs': "bs' = (case r0 of Inl _ \<Rightarrow> t | Inr _ \<Rightarrow> (case files t name of Some _ \<Rightarrow> t\<lparr>disk := AList.delete name (disk t)\<rparr> | None \<Rightarrow> t))"
    using assms t by (auto simp: os_remove_def bindS_def split: sum.splits option.splits simp flip: files_def)
  have del: "files (t\<lparr>disk := AList.delete name (disk t)\<rparr>) = (files t)(name := None)" by (simp add: files_def)
  show "files bs' = files bs \<or> files bs' = (files bs)(name := None)"
    using bs' del ft(1) by (auto split: sum.splits option.splits)
  show "mu bs' = mu bs" using bs' ft(2) by (auto split: sum.splits option.splits)
  show "faults bs' = [] \<and> files bs' = (files bs)(name := None)" if "faults bs = []"
    using bs' del ft(1) ft(3)[OF that] that by (auto simp: fun_upd_idem split: option.splits)
qed

definition prunes :: "u64 \<Rightarrow> string \<Rightarrow> BlockStore \<Rightarrow> BlockStore \<Rightarrow> bool" where
  "prunes m name bs bs' \<longleftrightarrow> mu bs' = mu bs
     \<and> (files bs' = files bs \<or> removable m name \<and> files bs' = (files bs)(name := None))
     \<and> (faults bs = [] \<longrightarrow> faults bs' = [])"

lemma prunes_trans: "prunes m name a b \<Longrightarrow> prunes m name b c \<Longrightarrow> prunes m name a c"
  unfolding prunes_def by auto

lemma pruneFile_prunes: "prunes m name bs (snd (pruneFile k m name bs))"
proof (cases "\<exists>c. sscanf_chunk k name = Some c \<and> c + ChunkSize \<le> m")
  case True
  then obtain c where c: "sscanf_chunk k name = Some c" "c + ChunkSize \<le> m" by blast
  obtain r t where t: "os_remove name (set_handles k (AList.delete c) bs) = (r, t)" by (cases "os_remove name (set_handles k (AList.delete c) bs)")
  have "removable m name" using c by (auto simp: removable_def)
  then show ?thesis using c t os_remove_files[OF t] by (cases r) (auto simp: pruneFile_def prunes_def)
qed (auto simp: pruneFile_def prunes_def split: option.split)

lemma pruneFile_removes:
  assumes "sscanf_chunk k name = Some c" and "c + ChunkSize \<le> m" and "faults bs = []"
  shows "files (snd (pruneFile k m name bs)) name = None"
  using assms os_remove_files(2)[of name "set_handles k (AList.delete c) bs"]
  by (auto simp: pruneFile_def split: prod.split sum.split)

lemma pruneEntry_prunes: "prunes m name bs (snd (pruneEntry m name bs))"
  by (auto simp: pruneEntry_def split: prod.split) (metis prunes_trans pruneFile_prunes snd_conv)

lemma pruneEntry_removes:
  assumes "removable m name" and "faults bs = []"
  shows "files (snd (pruneEntry m name bs)) name = None"
proof -
  obtain n bs1 where 1: "pruneFile Dat m name bs = (n, bs1)" by (cases "pruneFile Dat m name bs")
  have p1: "prunes m name bs bs1" using pruneFile_prunes[of m name bs Dat] 1 by simp
  have p2: "prunes m name bs1 (snd (pruneFile Idx m name bs1))" by (rule pruneFile_prunes)
  obtain k c where k: "sscanf_chunk k name = Some c" "c + ChunkSize \<le> m" using assms(1) by (auto simp: removable_def)
  show ?thesis
  proof (cases k)
    case Dat
    then have "files bs1 name = None" using pruneFile_removes[of Dat] k assms(2) 1 by (metis snd_conv)
    with p2 1 show ?thesis by (auto simp: pruneEntry_def prunes_def)
  next
    case Idx
    with p1 assms(2) k 1 show ?thesis using pruneFile_removes[of Idx name c m bs1] by (simp add: pruneEntry_def prunes_def)
  qed
qed

lemma pruneLoop_spec:
  assumes "pruneLoop m names bs = (n, bs')"
  shows "mu bs' = mu bs \<and> (files bs' x = files bs x \<or> removable m x \<and> files bs' x = None)
    \<and> (faults bs = [] \<longrightarrow> x \<in> set names \<longrightarrow> removable m x \<longrightarrow> files bs' x = None)"
  using assms
proof (induction m names bs arbitrary: n bs' rule: pruneLoop.induct)
  case (2 m name names bs)
  obtain n1 b1 where 1: "pruneEntry m name bs = (n1, b1)" by (cases "pruneEntry m name bs")
  obtain n2 b2 where r: "pruneLoop m names b1 = (n2, b2)" by (cases "pruneLoop m names b1")
  have b2: "bs' = b2" using 2(2) 1 r by simp
  note IH = 2(1)[OF 1[symmetric] refl r]
  have p: "prunes m name bs b1" using pruneEntry_prunes[of m name bs] 1 by simp
  then have px: "files b1 x = files bs x \<or> x = name \<and> removable m x \<and> files b1 x = None"
    by (auto simp: prunes_def split: if_splits)
  have rm: "x = name \<Longrightarrow> removable m x \<Longrightarrow> faults bs = [] \<Longrightarrow> files b1 x = None"
    using pruneEntry_removes[of m name bs] 1 by auto
  have "mu b1 = mu bs" "faults bs = [] \<Longrightarrow> faults b1 = []" using p by (auto simp: prunes_def)
  with IH px rm show ?case unfolding b2 set_simps by (metis insert_iff)
qed simp

lemma with_lock_ok: "with_lock m bs = (r, bs') \<Longrightarrow> r \<noteq> Inl Deadlock \<Longrightarrow>
  \<exists>t. m (bs\<lparr>mu := True\<rparr>) = (r, t) \<and> bs' = t\<lparr>mu := False\<rparr> \<and> \<not> mu bs"
  by (auto simp: with_lock_def split: if_splits prod.splits sum.splits error.splits)

section \<open>The contract of a block archive\<close>

text \<open>What the rest of the node relies on: a successful write makes the block readable, and no write,
  failed or not, takes another block away. \<open>fits\<close> is the size condition under which a write is
  sound.\<close>

locale block_archive =
  fixes wr :: "'k \<Rightarrow> 'b \<Rightarrow> ('s, unit) step"
    and rd :: "'s \<Rightarrow> 'k \<rightharpoonup> 'b"
    and fits :: "'k \<Rightarrow> 'b \<Rightarrow> 's \<Rightarrow> bool"
  assumes written: "wr k b s = (Inr (), s') \<Longrightarrow> fits k b s \<Longrightarrow> rd s' k = Some b"
    and kept: "wr k b s = (r, s') \<Longrightarrow> k' \<noteq> k \<Longrightarrow> rd s k' = Some b' \<Longrightarrow> rd s' k' = Some b'"
begin

fun write_all :: "('k \<times> 'b) list \<Rightarrow> ('s, unit) step" where
  "write_all [] = Pair (Inr ())"
| "write_all ((k, b) # xs) = bindS (wr k b) (\<lambda>_. write_all xs)"

fun all_fit :: "('k \<times> 'b) list \<Rightarrow> 's \<Rightarrow> bool" where
  "all_fit [] s = True"
| "all_fit ((k, b) # xs) s = (fits k b s \<and> all_fit xs (snd (wr k b s)))"

lemma write_all_keeps:
  assumes "write_all xs s = (r, s')" and "k \<notin> fst ` set xs" and "rd s k = Some b"
  shows "rd s' k = Some b"
  using assms
proof (induction xs arbitrary: s)
  case (Cons x xs)
  obtain k' b' where x: "x = (k', b')" by (cases x)
  obtain r1 t where t: "wr k' b' s = (r1, t)" by (cases "wr k' b' s")
  have "rd t k = Some b" using kept[OF t] Cons.prems x by simp
  then show ?case using Cons.IH[of t] Cons.prems x t by (cases r1) (auto simp: bindS_def)
qed simp

lemma write_all_reads:
  assumes "write_all xs s = (Inr (), s')" and "distinct (map fst xs)" and "all_fit xs s" and "(k, b) \<in> set xs"
  shows "rd s' k = Some b"
  using assms
proof (induction xs arbitrary: s)
  case (Cons x xs)
  obtain k' b' where x: "x = (k', b')" by (cases x)
  from Cons.prems(1) x obtain t where t: "wr k' b' s = (Inr (), t)" and rest: "write_all xs t = (Inr (), s')"
    by (auto simp: bindS_Inr_iff)
  show ?case
  proof (cases "(k, b) \<in> set xs")
    case True
    then show ?thesis using Cons.IH[OF rest] Cons.prems x t by simp
  next
    case False
    with Cons.prems(4) x have kb: "k = k'" "b = b'" by auto
    have "rd t k = Some b" using written[OF t] Cons.prems(3) x kb by simp
    moreover have "k \<notin> fst ` set xs" using Cons.prems(2) x kb by auto
    ultimately show ?thesis using write_all_keeps[OF rest] by blast
  qed
qed simp

end

definition block_fits :: "u64 \<Rightarrow> bytes \<Rightarrow> BlockStore \<Rightarrow> bool" where
  "block_fits h d bs \<longleftrightarrow> d \<noteq> [] \<and> length d < 2 ^ 32 \<and> length (chunk_content bs Dat (getChunkStart h)) < 2 ^ 63"

lemma WriteBlock_block_at:
  assumes "WriteBlock cl h d bs = (Inr (), bs')" and "block_fits h d bs"
  shows "block_at (files bs') h = Some d"
proof -
  have f: "d \<noteq> []" "length d < 2 ^ 32" "length (chunk_content bs Dat (getChunkStart h)) < 2 ^ 63"
    using assms(2) by (simp_all add: block_fits_def)
  have "unat (of_nat (length d) :: u32) = length d" using f(2) by (simp add: unat_of_nat)
  then show ?thesis
    using WriteBlock_entry[OF assms(1) f(1,2)] WriteBlock_bytes[OF assms(1) f(3), of "length d"] by (simp add: block_at_def)
qed

interpretation flat: block_archive "WriteBlock cl" "\<lambda>bs. block_at (files bs)" block_fits
proof
  show "block_at (files bs') h' = Some d'" if "WriteBlock cl h d bs = (r, bs')" "h' \<noteq> h" "block_at (files bs) h' = Some d'"
    for h d bs r bs' h' d'
    using grows_block[OF steps_inD[OF grows_WriteBlock that(1)] that(2,3)] .
qed (rule WriteBlock_block_at)

section \<open>Claims\<close>

text \<open>The store as a freshly started process sees it: calls succeed, nothing is locked.\<close>

abbreviation calm :: "BlockStore \<Rightarrow> BlockStore" where
  "calm bs \<equiv> bs\<lparr>faults := []\<rparr>"

lemma files_calm [simp]: "files (calm bs) = files bs"
  by (simp add: files_def)

text \<open>C16: a block that is written reads back. When the cached handles are open for writing and the
  system calls succeed, writing a non-empty block of less than 4 GiB succeeds, and both the plain
  and the verified read of that height then return exactly its bytes.\<close>

theorem block_write_read:
  assumes "writable bs" and "faults bs = []" and "\<not> mu bs"
    and "d \<noteq> []" and "length d + 32 < 2 ^ 32" and "length (sha3_256 cl d) = 32"
    and "length (chunk_content bs Dat (getChunkStart h)) < 2 ^ 63"
  shows "\<exists>bs'. WriteBlock cl h d bs = (Inr (), bs')
    \<and> fst (ReadBlock h (calm bs')) = Inr d \<and> fst (ReadBlockWithVerify cl h (calm bs')) = Inr d"
proof -
  obtain bs' where w: "WriteBlock cl h d bs = (Inr (), bs')" using WriteBlock_run[OF assms(1-3)] by blast
  let ?o = "of_nat (length (chunk_content bs Dat (getChunkStart h))) :: u64"
  let ?e = "\<lparr>ie_Offset = ?o, ie_Length = of_nat (length d), ie_Height = ucast h\<rparr>"
  have e: "entry_at (files bs') h = Some ?e" using WriteBlock_entry[OF w assms(4)] assms(5) by simp
  have l: "unat (of_nat (length d) :: u32) = length d" "unat (of_nat (length d) + HashSize :: u32) = length d + 32"
    using assms(5) by (simp_all add: unat_of_nat HashSize_def unat_word_ariths)
  note b = WriteBlock_bytes[OF w assms(7)]
  have "block_at (files bs') h = Some d" using e b[of "length d"] l by (simp add: block_at_def)
  moreover have "bytes_at (files bs') h (ie_Offset ?e) (unat (ie_Length ?e + HashSize)) = Some (d @ sha3_256 cl d)"
    using b[of "length d + 32"] l assms(6) by simp
  ultimately show ?thesis
    using w e l(1) ReadBlock_run[of "calm bs'" h d] ReadBlockWithVerify_run[of "calm bs'" h ?e d cl] WriteBlock_unlocked[OF w]
    by fastforce
qed

definition demo_store :: BlockStore where
  "demo_store = \<lparr>disk = [], datFiles = [], idxFiles = [], mu = False, faults = []\<rparr>"

lemma demo_store_facts [simp]:
  "writable demo_store" "faults demo_store = []" "\<not> mu demo_store" "files demo_store = Map.empty"
  "chunk_content demo_store k c = []"
  by (simp_all add: demo_store_def writable_def handles_def files_def chunk_content_def split: kind.split)

theorem block_write_read_witness:
  "\<exists>bs'. WriteBlock demo_crypto 12345 [1, 2] demo_store = (Inr (), bs')
    \<and> fst (ReadBlock 12345 (calm bs')) = Inr [1, 2] \<and> fst (ReadBlockWithVerify demo_crypto 12345 (calm bs')) = Inr [1, 2]"
  by (rule block_write_read) (simp_all add: demo_crypto_def demo_digest_def)

text \<open>Writing one block never harms another. Whatever happens during \<^verbatim>\<open>WriteBlock\<close>, success, an
  error, or a write that stops after some bytes, every block at another height that was readable
  before is readable afterwards with the same bytes.\<close>

theorem write_keeps_other_blocks:
  assumes "fst (ReadBlock h' bs) = Inr d'" and "h' \<noteq> h" and "WriteBlock cl h d bs = (r, bs')"
  shows "fst (ReadBlock h' (bs'\<lparr>faults := [], mu := False\<rparr>)) = Inr d'"
proof -
  have "block_at (files bs) h' = Some d'" using assms(1) ReadBlock_ok(1) by (metis prod.collapse)
  moreover have "grows h bs bs'" using steps_inD[OF grows_WriteBlock assms(3)] .
  ultimately have "block_at (files bs') h' = Some d'" using assms(2) grows_block by blast
  then have "block_at (files (bs'\<lparr>faults := [], mu := False\<rparr>)) h' = Some d'" by (simp add: files_def)
  from ReadBlock_run[OF this] show ?thesis by auto
qed

definition demo_store1 :: BlockStore where
  "demo_store1 = snd (WriteBlock demo_crypto 5 [7] demo_store)"

lemma demo_store1_reads:
  "fst (ReadBlock 5 (calm demo_store1)) = Inr [7]" "fst (ReadBlockWithVerify demo_crypto 5 (calm demo_store1)) = Inr [7]"
proof -
  have "\<exists>bs'. WriteBlock demo_crypto 5 [7] demo_store = (Inr (), bs') \<and> fst (ReadBlock 5 (calm bs')) = Inr [7]
      \<and> fst (ReadBlockWithVerify demo_crypto 5 (calm bs')) = Inr [7]"
    by (rule block_write_read) (simp_all add: demo_crypto_def demo_digest_def)
  then show "fst (ReadBlock 5 (calm demo_store1)) = Inr [7]" "fst (ReadBlockWithVerify demo_crypto 5 (calm demo_store1)) = Inr [7]"
    by (auto simp: demo_store1_def)
qed

theorem write_keeps_other_blocks_witness:
  "\<exists>r bs'. WriteBlock demo_crypto 6 [9] (calm demo_store1) = (r, bs') \<and> fst (ReadBlock 5 (bs'\<lparr>faults := [], mu := False\<rparr>)) = Inr [7]"
proof -
  obtain r bs' where w: "WriteBlock demo_crypto 6 [9] (calm demo_store1) = (r, bs')" by (cases "WriteBlock demo_crypto 6 [9] (calm demo_store1)")
  have "fst (ReadBlock 5 (bs'\<lparr>faults := [], mu := False\<rparr>)) = Inr [7]"
    by (rule write_keeps_other_blocks[OF demo_store1_reads(1) _ w]) simp
  with w show ?thesis by blast
qed

lemma distinct_heights: "distinct (heightsFromTo a b)"
proof -
  have "inj_on (of_nat :: nat \<Rightarrow> u64) {unat a..<Suc (unat b)}"
  proof (rule inj_onI)
    fix x y assume "x \<in> {unat a..<Suc (unat b)}" "y \<in> {unat a..<Suc (unat b)}" and eq: "of_nat x = (of_nat y :: u64)"
    then have "x < 2 ^ 64" "y < 2 ^ 64" using unsigned_less[of b, where 'a = nat] by auto
    then have "unat (of_nat x :: u64) = x" "unat (of_nat y :: u64) = y" by (simp_all add: unat_of_nat)
    then show "x = y" using eq by metis
  qed
  then show ?thesis by (simp add: heightsFromTo_def distinct_map del: upt_Suc)
qed

lemma readWhile_all:
  assumes "list_all2 (\<lambda>h d. block_at m h = Some d) hs ds" and "files bs = m" and "faults bs = []" and "\<not> mu bs"
  shows "fst (readWhile hs bs) = Inr ds"
  using assms
proof (induction hs ds arbitrary: bs rule: list_all2_induct)
  case (Cons h hs d ds)
  obtain bs1 where r: "ReadBlock h bs = (Inr d, bs1)" using ReadBlock_run[of bs h d] Cons(1,4-6) by auto
  then have "files bs1 = m" "faults bs1 = []" "\<not> mu bs1"
    using steps_inD[OF keeps_ReadBlock r] Cons(4-6) by (simp_all add: keeps_files_def)
  from Cons.IH[OF this] r show ?case by (auto split: prod.splits sum.splits)
qed simp

text \<open>An archived stretch of the chain reads back as a whole. After blocks have been written at
  all heights from \<open>a\<close> to \<open>b\<close>, one after the other, the range read returns them all, in order.\<close>

theorem archived_range_reads_back:
  assumes "block_archive.write_all (WriteBlock cl) (zip (heightsFromTo a b) ds) bs = (Inr (), bs')"
    and "block_archive.all_fit (WriteBlock cl) block_fits (zip (heightsFromTo a b) ds) bs"
    and "length ds = length (heightsFromTo a b)" and "a \<le> b" and "make_cap_ok (b - a + 1) 24" and "\<not> mu bs'"
  shows "fst (bs_GetBlockRange a b (calm bs')) = Inr ds"
proof -
  have "list_all2 (\<lambda>h d. block_at (files (calm bs')) h = Some d) (heightsFromTo a b) ds"
    unfolding list_all2_iff files_calm
    using assms(3) flat.write_all_reads[OF assms(1) _ assms(2)] distinct_heights by auto
  from readWhile_all[OF this refl] show ?thesis using assms(4-6) by (auto simp: bs_GetBlockRange_def)
qed

theorem archived_range_reads_back_witness:
  "\<exists>bs'. block_archive.write_all (WriteBlock demo_crypto) [(5, [7]), (6, [8, 9])] demo_store = (Inr (), bs')
     \<and> fst (bs_GetBlockRange 5 6 (calm bs')) = Inr [[7], [8, 9]]"
proof -
  have h: "heightsFromTo 5 6 = [5, 6]" by (simp add: heightsFromTo_def upt_rec)
  obtain b1 where 1: "WriteBlock demo_crypto 5 [7] demo_store = (Inr (), b1)" "writable b1" "faults b1 = []" "\<not> mu b1"
    using WriteBlock_run[of demo_store demo_crypto 5 "[7]"] by auto
  obtain b2 where 2: "WriteBlock demo_crypto 6 [8, 9] b1 = (Inr (), b2)" "\<not> mu b2"
    using WriteBlock_run[OF 1(2-4), of demo_crypto 6 "[8, 9]"] by auto
  have z: "zip (heightsFromTo 5 6) [[7], [8, 9]] = [(5, [7]), (6, [8, 9 :: u8])]" by (simp add: h)
  have run: "block_archive.write_all (WriteBlock demo_crypto) [(5, [7]), (6, [8, 9])] demo_store = (Inr (), b2)"
    using 1(1) 2(1) by (simp add: flat.write_all.simps bindS_def)
  have c: "getChunkStart 6 = getChunkStart 5" by (simp add: getChunkStart_def ChunkSize_def)
  have "chunk_content b1 Dat (getChunkStart 6) = [7] @ demo_digest [7]"
    using WriteBlock_ok(1)[OF 1(1)] by (simp add: chunk_content_def[of b1] c demo_crypto_def)
  then have "block_archive.all_fit (WriteBlock demo_crypto) block_fits [(5, [7]), (6, [8, 9])] demo_store"
    using 1(1) by (simp add: flat.all_fit.simps block_fits_def demo_digest_def)
  with archived_range_reads_back[of demo_crypto 5 6 "[[7], [8, 9]]" demo_store b2] run z 2(2) h
  show ?thesis by (auto simp: make_cap_ok_def word_le_nat_alt)
qed

text \<open>A verified read detects damage. If a block was read with verification, and later, after any
  change to the disk that left its index entry and its stored hash alone, a verified read of the
  same height succeeds again, then it returns the same bytes, or two different byte strings with
  the same SHA3 hash have been found.\<close>

theorem verified_read_detects_damage:
  assumes "fst (ReadBlockWithVerify cl h bs) = Inr d" and "fst (ReadBlockWithVerify cl h bs2) = Inr d2"
    and "entry_at (files bs2) h = entry_at (files bs) h"
    and "\<And>e b b2. \<lbrakk>entry_at (files bs) h = Some e; bytes_at (files bs) h (ie_Offset e) (unat (ie_Length e + HashSize)) = Some b;
        bytes_at (files bs2) h (ie_Offset e) (unat (ie_Length e + HashSize)) = Some b2\<rbrakk>
      \<Longrightarrow> drop (unat (ie_Length e)) b2 = drop (unat (ie_Length e)) b"
  shows "d2 = d \<or> (d2 \<noteq> d \<and> sha3_256 cl d2 = sha3_256 cl d)"
proof -
  obtain e where e: "entry_at (files bs) h = Some e" "bytes_at (files bs) h (ie_Offset e) (unat (ie_Length e + HashSize)) = Some (d @ sha3_256 cl d)"
    "length d = unat (ie_Length e)"
    using assms(1) ReadBlockWithVerify_ok[of cl h bs d] by (metis prod.collapse)
  obtain e2 where e2: "entry_at (files bs2) h = Some e2" "bytes_at (files bs2) h (ie_Offset e2) (unat (ie_Length e2 + HashSize)) = Some (d2 @ sha3_256 cl d2)"
    "length d2 = unat (ie_Length e2)"
    using assms(2) ReadBlockWithVerify_ok[of cl h bs2 d2] by (metis prod.collapse)
  have "e2 = e" using e(1) e2(1) assms(3) by simp
  with assms(4)[OF e(1,2)] e(3) e2 show ?thesis by auto
qed

theorem verified_read_detects_damage_witness:
  "\<exists>d2. fst (ReadBlockWithVerify demo_crypto 5 (calm demo_store1)) = Inr d2
     \<and> (d2 = [7] \<or> (d2 \<noteq> [7] \<and> sha3_256 demo_crypto d2 = sha3_256 demo_crypto [7]))"
  using verified_read_detects_damage[OF demo_store1_reads(2) demo_store1_reads(2) refl] demo_store1_reads(2) by auto

lemma unat_chunk_start: "unat (getChunkStart x) = unat x div 10000 * 10000"
proof -
  have "unat x div 10000 * 10000 \<le> unat x" by (simp add: div_times_less_eq_dividend)
  then have "unat x div 10000 * 10000 < 2 ^ 64" using unsigned_less[of x, where 'a = nat] by simp
  then show ?thesis by (simp add: getChunkStart_def ChunkSize_def unat_word_ariths unat_div)
qed

lemma chunk_start_mono: "a \<le> b \<Longrightarrow> getChunkStart a \<le> getChunkStart b"
  by (simp add: word_le_nat_alt unat_chunk_start div_le_mono)

lemma kept_not_removable:
  assumes "unat h < 2 ^ 63" and "m \<le> h"
  shows "\<not> removable (getChunkStart m) (getChunkFiles k (getChunkStart h))"
proof -
  have le: "unat (getChunkStart m) \<le> unat (getChunkStart h)"
    using chunk_start_mono[OF assms(2)] by (simp add: word_le_nat_alt)
  have "unat (getChunkStart h) < 2 ^ 63" using assms(1) by (simp add: unat_chunk_start)
  then have "unat (getChunkStart h + ChunkSize) = unat (getChunkStart h) + 10000"
    by (simp add: ChunkSize_def unat_word_ariths)
  with le show ?thesis by (auto simp: removable_def word_le_nat_alt split: if_splits)
qed

text \<open>C28: pruning keeps what it promises. After \<^verbatim>\<open>PruneChunks\<close> every block of the last \<open>keepBlocks\<close>
  heights that was readable still reads the same, whatever system calls failed; and when none
  failed, no block of a chunk wholly below the kept range is left.\<close>

theorem prune_keeps_recent:
  assumes "PruneChunks latestHeight keepBlocks bs = (Inr n, bs')" and "keepBlocks < latestHeight"
    and "unat h < 2 ^ 63" and "latestHeight - keepBlocks \<le> h" and "fst (ReadBlock h bs) = Inr d"
  shows "fst (ReadBlock h (calm bs')) = Inr d
    \<and> (faults bs = [] \<longrightarrow> getChunkStart g + ChunkSize \<le> getChunkStart (latestHeight - keepBlocks) \<longrightarrow> block_at (files bs') g = None)"
proof -
  let ?m = "getChunkStart (latestHeight - keepBlocks)"
  obtain t where t: "(if latestHeight \<le> keepBlocks then Pair (Inr 0) else bindS os_readdir (\<lambda>names bs.
       (let (n, bs') = pruneLoop ?m names bs in (Inr n, bs')))) (bs\<lparr>mu := True\<rparr>) = (Inr n, t)"
    and bs': "bs' = t\<lparr>mu := False\<rparr>"
    using assms(1) with_lock_ok unfolding PruneChunks_def by blast
  then obtain names b0 where rd: "os_readdir (bs\<lparr>mu := True\<rparr>) = (Inr names, b0)"
    and lp0: "(let (n, bs') = pruneLoop ?m names b0 in (Inr n, bs')) = (Inr n :: error + nat, t)"
    using assms(2) by (auto simp: not_le[symmetric] bindS_Inr_iff)
  have lp: "pruneLoop ?m names b0 = (n, t)" using lp0 by (cases "pruneLoop ?m names b0") simp
  have b0: "files b0 = files bs" "faults bs = [] \<longrightarrow> faults b0 = []"
    using steps_inD[OF keeps_os_readdir rd] by (simp_all add: keeps_files_def files_def)
  have "set names = dom (files b0)"
    using rd by (force simp: files_def os_readdir_def bindS_Inr_iff dom_map_of_conv_image_fst)
  then have names: "set names = dom (files bs)" using b0(1) by simp
  note spec = pruneLoop_spec[OF lp]
  have same: "files bs' (getChunkFiles k (getChunkStart h)) = files bs (getChunkFiles k (getChunkStart h))" for k
    using spec[of "getChunkFiles k (getChunkStart h)"] kept_not_removable[OF assms(3,4), of k] b0(1) bs' by (auto simp: files_def)
  have "block_at (files bs) h = Some d" using assms(5) ReadBlock_ok(1) by (metis prod.collapse)
  then have "block_at (files (calm bs')) h = Some d"
    unfolding files_calm block_at_def entry_at_def bytes_at_def same .
  moreover have "\<not> mu (calm bs')" using bs' by simp
  ultimately have "fst (ReadBlock h (calm bs')) = Inr d" using ReadBlock_run by fastforce
  moreover have "block_at (files bs') g = None" if "faults bs = []" "getChunkStart g + ChunkSize \<le> ?m"
  proof -
    let ?i = "getChunkFiles Idx (getChunkStart g)"
    have "removable ?m ?i" unfolding removable_def using that(2) sscanf_chunk_name[of Idx Idx "getChunkStart g"] by force
    then have "files t ?i = None"
      using spec[of ?i] b0 names that(1) by (cases "?i \<in> set names") auto
    then show ?thesis using bs' by (simp add: block_at_def entry_at_def files_def)
  qed
  ultimately show ?thesis by blast
qed

theorem prune_keeps_recent_witness:
  "\<exists>n bs'. PruneChunks 10 8 (calm demo_store1) = (Inr n, bs') \<and> fst (ReadBlock 5 (calm bs')) = Inr [7]"
proof -
  have "\<not> mu demo_store1" using demo_store1_reads(1) by (auto simp: ReadBlock_def with_rlock_def split: if_splits)
  then obtain n bs' where p: "PruneChunks 10 8 (calm demo_store1) = (Inr n, bs')"
    by (cases "pruneLoop (getChunkStart (10 - 8)) (sort (map fst (disk demo_store1))) (calm demo_store1\<lparr>mu := True\<rparr>)")
      (auto simp: PruneChunks_def with_lock_def bindS_def os_readdir_def os_try_def os_call_def)
  have "fst (ReadBlock 5 (calm bs')) = Inr [7]
    \<and> (faults (calm demo_store1) = [] \<longrightarrow> getChunkStart 0 + ChunkSize \<le> getChunkStart (10 - 8) \<longrightarrow> block_at (files bs') 0 = None)"
    by (rule prune_keeps_recent[OF p _ _ _ demo_store1_reads(1)]) (simp_all add: word_less_nat_alt word_le_nat_alt)
  with p show ?thesis by blast
qed

lemma calm_calls:
  "faults bs = [] \<Longrightarrow> os_try bs = (Inr (), bs)"
  "faults bs = [] \<Longrightarrow> os_call bs = (Inr Succeed, bs)"
  by (simp_all add: os_try_def os_call_def bindS_def)

lemma calm_read: "faults bs = [] \<Longrightarrow> os_read name off n bs = (r, bs') \<Longrightarrow> bs' = bs"
  by (auto simp: os_read_def bindS_def calm_calls split: if_splits option.splits)

lemma fail_as_Inr: "fail_as e m bs = (Inr a, bs') \<longleftrightarrow> m bs = (Inr a, bs')"
  by (auto simp: fail_as_def split: prod.splits sum.splits)

lemma calm_open_ro:
  assumes "faults bs = []" and "map_of (handles k bs) c = None" and "getFile k c False bs = (Inr f, bs')"
  shows "bs' = set_handles k (AList.update c False) bs" and "files bs (getChunkFiles k c) \<noteq> None"
  using assms by (auto simp: getFile_def openChunk_def os_open_def bindS_def calm_calls files_def split: option.splits)

lemma calm_readEntry:
  assumes "faults bs = []" and "map_of (idxFiles bs) (getChunkStart h) = None" and "readEntry h bs = (Inr e, bs')"
  shows "bs' = set_handles Idx (AList.update (getChunkStart h) False) bs"
proof -
  let ?c = "getChunkStart h"
  from assms(3) obtain f b1 b where g: "getFile Idx ?c False bs = (Inr f, b1)"
    and r: "os_read (getChunkFiles Idx ?c) (idxOffset h) IndexEntrySize b1 = (Inr b, bs')"
    by (auto simp: readEntry_def Let_def getIdxFile_def bindS_Inr_iff fail_as_Inr split: if_splits)
  have b1: "b1 = set_handles Idx (AList.update ?c False) bs"
    using calm_open_ro(1)[OF assms(1) _ g] assms(2) by (simp add: handles_def)
  then show ?thesis using calm_read[OF _ r] assms(1) by simp
qed

lemma read_only_write_fails:
  assumes "faults bs = []" and "\<not> mu bs" and "map_of (handles Dat bs) (getChunkStart h) = Some False"
    and "map_of (handles Idx bs) (getChunkStart h) = Some g" and "files bs (getChunkFiles Dat (getChunkStart h)) \<noteq> None"
  shows "WriteBlock cl h d bs = (Inl ErrIO, bs)"
proof -
  let ?b = "bs\<lparr>mu := True\<rparr>" and ?c = "getChunkStart h"
  have 1: "getFile Dat ?c True ?b = (Inr False, ?b)" "getFile Idx ?c True ?b = (Inr g, ?b)"
    using assms(1,3,4) by (simp_all add: getFile_def calm_calls)
  obtain dat where dat: "map_of (disk bs) (getChunkFiles Dat ?c) = Some dat" using assms(5) by (auto simp: files_def)
  then have "os_size (getChunkFiles Dat ?c) ?b = (Inr (length dat), ?b)"
    "os_append (getChunkFiles Dat ?c) False d ?b = (Inl ErrIO, ?b)"
    using assms(1) by (simp_all add: os_size_def os_append_def os_write_def bindS_def calm_calls)
  with 1 assms(2) show ?thesis
    by (simp add: WriteBlock_def with_lock_def Let_def getDatFile_def getIdxFile_def bindS_def)
qed

text \<open>A read can disable writing. In a process that has not touched a chunk yet, one successful
  read of any of its blocks caches a read-only handle, and from then on every write to that chunk
  fails and stores nothing, although no system call misbehaves.\<close>

theorem read_disables_writes:
  assumes "datFiles bs = []" and "idxFiles bs = []" and "faults bs = []"
    and "ReadBlock h bs = (Inr d, bs1)" and "getChunkStart h2 = getChunkStart h"
  shows "\<exists>bs2. WriteBlock cl h2 d2 bs1 = (Inl ErrIO, bs2) \<and> files bs2 = files bs"
proof -
  let ?c = "getChunkStart h"
  from assms(4) obtain e f b1 b2 where e: "readEntry h bs = (Inr e, b1)" and g: "getFile Dat ?c False b1 = (Inr f, b2)"
    and r: "os_read (getChunkFiles Dat ?c) (ie_Offset e) (unat (ie_Length e)) b2 = (Inr d, bs1)"
    by (auto simp: ReadBlock_def with_rlock_def getDatFile_def bindS_Inr_iff split: if_splits)
  have b1: "b1 = set_handles Idx (AList.update ?c False) bs"
    using calm_readEntry[OF assms(3) _ e] assms(2) by simp
  then have fresh: "faults b1 = []" "map_of (handles Dat b1) ?c = None"
    using assms(1,3) by (simp_all add: handles_def set_handles_def)
  note b2 = calm_open_ro[OF fresh g]
  have bs1: "bs1 = set_handles Dat (AList.update ?c False) b1"
    using calm_read[OF _ r] b2(1) fresh(1) by simp
  have "WriteBlock cl h2 d2 bs1 = (Inl ErrIO, bs1)"
  proof (rule read_only_write_fails[where g = False])
    show "\<not> mu bs1" using ReadBlock_ok(2)[OF assms(4)] b1 bs1 by simp
  qed (use b1 bs1 b2(2) assms(3,5) in simp_all)
  then show ?thesis using b1 bs1 by simp
qed

theorem read_disables_writes_witness:
  "\<exists>bs1 bs2. ReadBlock 5 (calm demo_store1\<lparr>datFiles := [], idxFiles := []\<rparr>) = (Inr [7], bs1)
     \<and> WriteBlock demo_crypto 6 [9] bs1 = (Inl ErrIO, bs2)"
proof -
  let ?s = "calm demo_store1\<lparr>datFiles := [], idxFiles := []\<rparr>"
  obtain t where "ReadBlock 5 (calm demo_store1) = (Inr [7], t)" using demo_store1_reads(1) by (metis prod.collapse)
  note R = ReadBlock_ok[OF this]
  then have "block_at (files ?s) 5 = Some [7]" "\<not> mu ?s" by (simp_all add: files_def)
  then obtain bs1 where r: "ReadBlock 5 ?s = (Inr [7], bs1)" using ReadBlock_run[of ?s 5 "[7]"] by auto
  have "\<exists>bs2. WriteBlock demo_crypto 6 [9] bs1 = (Inl ErrIO, bs2) \<and> files bs2 = files ?s"
    by (rule read_disables_writes[OF _ _ _ r]) (simp_all add: getChunkStart_def ChunkSize_def)
  with r show ?thesis by blast
qed

lemma delete_hangs: "fst (DeleteBlocksAboveHeight targetHeight bs) = Inl Deadlock"
  by (simp add: DeleteBlocksAboveHeight_def with_lock_def GetLatestBlockHeight_def GetChunkList_def with_rlock_def bindS_def)

text \<open>Deleting blocks above a height never returns. \<^verbatim>\<open>DeleteBlocksAboveHeight\<close> takes the lock and
  then asks for it again through \<^verbatim>\<open>GetLatestBlockHeight\<close>; it hangs for every argument and every
  state of the disk, and because it keeps the lock, so does every later read or write.\<close>

theorem delete_above_never_returns:
  "fst (DeleteBlocksAboveHeight targetHeight bs) = Inl Deadlock
   \<and> fst (ReadBlock h (snd (DeleteBlocksAboveHeight targetHeight bs))) = Inl Deadlock
   \<and> fst (WriteBlock cl h d (snd (DeleteBlocksAboveHeight targetHeight bs))) = Inl Deadlock"
  by (simp add: DeleteBlocksAboveHeight_def with_lock_def GetLatestBlockHeight_def GetChunkList_def with_rlock_def
      bindS_def ReadBlock_def WriteBlock_def)

end
