(* ===== verification/Core_Ledger.thy ===== *)
theory Core_Ledger
  imports Chain_Crypto
begin

text \<open>
  Accounts, validators and transactions: \<^verbatim>\<open>core/account.go\<close> and \<^verbatim>\<open>core/transaction.go\<close>.
  Balances are \<open>u64\<close> and wrap as in Go. The wall clock (\<^verbatim>\<open>time.Now().UnixMilli()\<close>) is the
  argument \<open>now\<close>. Lemmas: every account operation moves value between the two balances or
  reports an error and leaves the account alone, and the exact set of transactions that pass
  \<^verbatim>\<open>Validate\<close>.
\<close>

section \<open>Accounts\<close>

abbreviation NodeRegular :: u8 where "NodeRegular \<equiv> 0"
abbreviation NodeValidator :: u8 where "NodeValidator \<equiv> 1"
abbreviation NodeLight :: u8 where "NodeLight \<equiv> 2"
abbreviation NodeProxy :: u8 where "NodeProxy \<equiv> 3"

record account =
  Address :: string
  AvailableBalance :: u64
  StakedBalance :: u64
  Nonce :: u64
  NodeType :: u8
  NodeStatus :: string
  StakeLockedUntil :: i64
  CodeHash :: hash
  StorageRoot :: hash

definition NewAccount :: "string \<Rightarrow> account" where
  "NewAccount address = \<lparr>Address = address, AvailableBalance = 0, StakedBalance = 0, Nonce = 0,
     NodeType = NodeRegular, NodeStatus = '''', StakeLockedUntil = 0,
     CodeHash = replicate 32 0, StorageRoot = replicate 32 0\<rparr>"

definition TotalBalance :: "account \<Rightarrow> u64" where
  "TotalBalance a = AvailableBalance a + StakedBalance a"

definition AddBalance :: "u64 \<Rightarrow> account \<Rightarrow> account" where
  "AddBalance amount a = a\<lparr>AvailableBalance := AvailableBalance a + amount\<rparr>"

definition SubBalance :: "u64 \<Rightarrow> account \<Rightarrow> error + account" where
  "SubBalance amount a =
     (if AvailableBalance a < amount then Inl (InsufficientBalance (AvailableBalance a) amount)
      else Inr (a\<lparr>AvailableBalance := AvailableBalance a - amount\<rparr>))"

definition Stake :: "u64 \<Rightarrow> account \<Rightarrow> error + account" where
  "Stake amount a =
     (if AvailableBalance a < amount then Inl (InsufficientBalance (AvailableBalance a) amount)
      else Inr (a\<lparr>AvailableBalance := AvailableBalance a - amount,
                  StakedBalance := StakedBalance a + amount,
                  NodeType := NodeValidator\<rparr>))"

definition Unstake :: "u64 \<Rightarrow> account \<Rightarrow> error + account" where
  "Unstake amount a =
     (if StakedBalance a < amount then Inl (InsufficientStake (StakedBalance a) amount)
      else let a' = a\<lparr>StakedBalance := StakedBalance a - amount,
                      AvailableBalance := AvailableBalance a + amount\<rparr>
           in Inr (if StakedBalance a' = 0 then a'\<lparr>NodeType := NodeRegular\<rparr> else a'))"

definition IsValidator :: "ConsensusConfig \<Rightarrow> account \<Rightarrow> bool" where
  "IsValidator cfg a \<longleftrightarrow> NodeType a = NodeValidator \<and>
     StakedBalance a \<ge> ValidatorStakeRequired (Economics cfg)"

section \<open>Validators\<close>

datatype ValidatorStatus = ValSyncing | ValActive | ValSuspended | ValSlashed | ValExited

record validator =
  VAddress :: string
  StakedAmount :: u64
  Status :: ValidatorStatus
  VRFPublicKey :: bytes
  VRFPrivateKey :: bytes
  LastBlockTime :: i64
  LastHeartbeat :: i64
  TotalBlocks :: u64
  MissedBlocks :: u64

definition NewValidator :: "i64 \<Rightarrow> string \<Rightarrow> u64 \<Rightarrow> validator" where
  "NewValidator now address stakedAmount = \<lparr>VAddress = address, StakedAmount = stakedAmount,
     Status = ValActive, VRFPublicKey = [], VRFPrivateKey = [], LastBlockTime = now,
     LastHeartbeat = now, TotalBlocks = 0, MissedBlocks = 0\<rparr>"

definition IsActive :: "ConsensusConfig \<Rightarrow> validator \<Rightarrow> bool" where
  "IsActive cfg v \<longleftrightarrow> Status v = ValActive \<and> StakedAmount v \<ge> ValidatorStakeRequired (Economics cfg)"

fun StatusString :: "ValidatorStatus \<Rightarrow> string" where
  "StatusString ValActive = ''Active''"
| "StatusString ValSuspended = ''Suspended''"
| "StatusString ValSlashed = ''Slashed''"
| "StatusString ValExited = ''Exited''"
| "StatusString ValSyncing = ''Unknown''"

section \<open>Transactions\<close>

text \<open>\<^verbatim>\<open>TxType\<close> is a \<^verbatim>\<open>uint8\<close>, and any byte can arrive from the network.\<close>

abbreviation TxTransfer :: u8 where "TxTransfer \<equiv> 0"
abbreviation TxStake :: u8 where "TxStake \<equiv> 1"
abbreviation TxUnstake :: u8 where "TxUnstake \<equiv> 2"
abbreviation TxReward :: u8 where "TxReward \<equiv> 3"
abbreviation TxSlash :: u8 where "TxSlash \<equiv> 4"

record transaction =
  Type :: u8
  From :: string
  To :: string
  Amount :: u64
  GasFee :: u64
  TxNonce :: u64
  Timestamp :: i64
  TxData :: bytes
  GasLimit :: u64
  Signature :: bytes
  PublicKey :: bytes

definition RequiresGasFee :: "u8 \<Rightarrow> bool" where
  "RequiresGasFee t \<longleftrightarrow> t = TxTransfer"

definition IsSystemTx :: "u8 \<Rightarrow> bool" where
  "IsSystemTx t \<longleftrightarrow> t = TxReward \<or> t = TxSlash"

definition NewTransferTx :: "i64 \<Rightarrow> string \<Rightarrow> string \<Rightarrow> u64 \<Rightarrow> u64 \<Rightarrow> u64 \<Rightarrow> transaction" where
  "NewTransferTx now from to amount gasFee nonce = \<lparr>Type = TxTransfer, From = from, To = to,
     Amount = amount, GasFee = gasFee, TxNonce = nonce, Timestamp = now, TxData = [],
     GasLimit = 0, Signature = [], PublicKey = []\<rparr>"

definition NewRewardTx :: "i64 \<Rightarrow> string \<Rightarrow> u64 \<Rightarrow> transaction" where
  "NewRewardTx now to amount = \<lparr>Type = TxReward, From = GenesisAddress, To = to,
     Amount = amount, GasFee = 0, TxNonce = 0, Timestamp = now, TxData = [],
     GasLimit = 0, Signature = [], PublicKey = []\<rparr>"

definition SignData :: "transaction \<Rightarrow> bytes" where
  "SignData tx = [Type tx] @ string_bytes (From tx) @ string_bytes (To tx)
     @ Uint64ToBytes (Amount tx) @ Uint64ToBytes (GasFee tx) @ Uint64ToBytes (Timestamp tx)
     @ (if length (TxData tx) > 0 then TxData tx else [])"

definition Tx_Hash :: "crypto_lib \<Rightarrow> transaction \<Rightarrow> hash" where
  "Tx_Hash cl tx = CalculateHash (sha3_256 cl) (SignData tx)"

definition VerifySignature :: "transaction \<Rightarrow> error + unit" where
  "VerifySignature tx =
     (if IsSystemTx (Type tx) then Inr ()
      else if Signature tx = [] then Inl MissingSignature
      else if PublicKey tx = [] then Inl MissingPublicKey
      else Inr ())"

text \<open>Step 7 of \<^verbatim>\<open>Validate\<close>: the signed distance to the clock, negated when negative, with
  wrap-around.\<close>

definition timestamp_drift :: "i64 \<Rightarrow> i64 \<Rightarrow> i64" where
  "timestamp_drift now ts =
     (let timeDiff = ts - now in if sint timeDiff < 0 then - timeDiff else timeDiff)"

definition Tx_Validate ::
    "ConsensusConfig \<Rightarrow> i64 \<Rightarrow> bool \<Rightarrow> transaction \<Rightarrow> error + unit" where
  "Tx_Validate cfg now skipTimestampCheck tx =
     (if From tx = '''' then Inl InvalidFrom
      else if To tx = '''' then Inl InvalidTo
      else if From tx = To tx \<and> From tx \<noteq> GenesisAddress \<and> Type tx \<noteq> TxStake \<and> Type tx \<noteq> TxUnstake
        then Inl SelfTransfer
      else if Amount tx = 0 \<and> Type tx = TxTransfer then Inl ZeroAmount
      else if RequiresGasFee (Type tx) \<and>
              (GasFee tx < MinGasFee (Economics cfg) \<or> GasFee tx > MaxGasFee (Economics cfg))
        then Inl (InvalidGasFee (GasFee tx))
      else if \<not> RequiresGasFee (Type tx) \<and> GasFee tx \<noteq> 0 then Inl UnexpectedGasFee
      else if of_nat (length (TxData tx)) > MaxDataSize (Transactions cfg) then Inl DataTooLarge
      else if \<not> skipTimestampCheck \<and>
              sint (timestamp_drift now (Timestamp tx)) > sint (MaxTimestampDrift (Blocks cfg))
        then Inl InvalidTxTimestamp
      else if IsSystemTx (Type tx) then Inr ()
      else if Signature tx = [] then Inl MissingSignature
      else if PublicKey tx = [] then Inl MissingPublicKey
      else Inr ())"

definition TypeString :: "u8 \<Rightarrow> string" where
  "TypeString t =
     (if t = TxTransfer then ''Transfer'' else if t = TxStake then ''Stake''
      else if t = TxUnstake then ''Unstake'' else if t = TxReward then ''Reward''
      else if t = TxSlash then ''Slash'' else ''Unknown'')"

section \<open>Account lemmas\<close>

lemma NewAccount_simps [simp]:
  "Address (NewAccount a) = a" "AvailableBalance (NewAccount a) = 0"
  "StakedBalance (NewAccount a) = 0" "Nonce (NewAccount a) = 0"
  "NodeType (NewAccount a) = NodeRegular" "TotalBalance (NewAccount a) = 0"
  by (simp_all add: NewAccount_def TotalBalance_def)

lemma AddBalance_simps [simp]:
  "Address (AddBalance n a) = Address a" "StakedBalance (AddBalance n a) = StakedBalance a"
  "AvailableBalance (AddBalance n a) = AvailableBalance a + n"
  "Nonce (AddBalance n a) = Nonce a" "NodeType (AddBalance n a) = NodeType a"
  "TotalBalance (AddBalance n a) = TotalBalance a + n"
  by (simp_all add: AddBalance_def TotalBalance_def algebra_simps)

lemma SubBalance_InrD:
  assumes "SubBalance n a = Inr a'"
  shows "n \<le> AvailableBalance a" "a' = a\<lparr>AvailableBalance := AvailableBalance a - n\<rparr>"
    "Address a' = Address a" "TotalBalance a' = TotalBalance a - n" "Nonce a' = Nonce a"
    "StakedBalance a' = StakedBalance a" "AvailableBalance a' = AvailableBalance a - n"
    "NodeType a' = NodeType a"
  using assms by (auto simp: SubBalance_def TotalBalance_def not_less split: if_splits)

lemma SubBalance_Inr_iff [simp]:
  "SubBalance n a = Inr a' \<longleftrightarrow>
     n \<le> AvailableBalance a \<and> a' = a\<lparr>AvailableBalance := AvailableBalance a - n\<rparr>"
  by (auto simp: SubBalance_def not_less)

lemma Stake_InrD:
  assumes "Stake n a = Inr a'"
  shows "n \<le> AvailableBalance a" "Address a' = Address a" "TotalBalance a' = TotalBalance a"
    "Nonce a' = Nonce a" "NodeType a' = NodeValidator"
    "AvailableBalance a' = AvailableBalance a - n" "StakedBalance a' = StakedBalance a + n"
  using assms by (auto simp: Stake_def TotalBalance_def not_less split: if_splits)

lemma Unstake_InrD:
  assumes "Unstake n a = Inr a'"
  shows "n \<le> StakedBalance a" "Address a' = Address a" "TotalBalance a' = TotalBalance a"
    "Nonce a' = Nonce a" "AvailableBalance a' = AvailableBalance a + n"
    "StakedBalance a' = StakedBalance a - n"
    "NodeType a' = (if n = StakedBalance a then NodeRegular else NodeType a)"
  using assms by (auto simp: Unstake_def TotalBalance_def not_less Let_def split: if_splits)

lemma nonce_update_simps [simp]:
  "TotalBalance (a\<lparr>Nonce := n\<rparr>) = TotalBalance a"
  "TotalBalance (a\<lparr>NodeType := t\<rparr>) = TotalBalance a"
  by (simp_all add: TotalBalance_def)

section \<open>Claims\<close>

text \<open>Staking and then unstaking the same amount restores both balances exactly; the account
  keeps its total at every step, and neither operation can fail once the stake succeeded.\<close>

theorem stake_unstake_roundtrip:
  assumes "Stake n a = Inr a'" and "unat (StakedBalance a) + unat n < 2 ^ 64"
  shows "\<exists>a''. Unstake n a' = Inr a'' \<and> AvailableBalance a'' = AvailableBalance a
    \<and> StakedBalance a'' = StakedBalance a \<and> TotalBalance a' = TotalBalance a"
proof -
  note S = Stake_InrD[OF assms(1)]
  have "n \<le> StakedBalance a + n"
    using assms(2) by (simp add: word_le_nat_alt unat_word_ariths)
  then have "\<not> StakedBalance a' < n" using S by simp
  then obtain a'' where U: "Unstake n a' = Inr a''"
    by (simp add: Unstake_def Let_def)
  from Unstake_InrD[OF U] S U show ?thesis by simp
qed

theorem stake_unstake_roundtrip_witness:
  "\<exists>a' a''. Stake 5 ((NewAccount ''F1'')\<lparr>AvailableBalance := 9\<rparr>) = Inr a' \<and> Unstake 5 a' = Inr a''
     \<and> AvailableBalance a'' = 9 \<and> StakedBalance a'' = 0"
proof -
  let ?a = "(NewAccount ''F1'')\<lparr>AvailableBalance := 9\<rparr>"
  have "Stake 5 ?a = Inr (?a\<lparr>AvailableBalance := 4, StakedBalance := 5, NodeType := 1\<rparr>)"
    by (simp add: Stake_def NewAccount_def)
  from this stake_unstake_roundtrip[OF this] show ?thesis by auto
qed

text \<open>The exact set of transfers that \<^verbatim>\<open>Validate\<close> lets into the system: named parties, no
  self-transfer except by the genesis account, a positive amount, a fee inside the configured
  band, bounded data, a fresh timestamp unless the check is off, and a signature with a key.\<close>

theorem transfer_validate_iff:
  assumes "Type tx = TxTransfer"
  shows "Tx_Validate cfg now skip tx = Inr () \<longleftrightarrow>
    From tx \<noteq> '''' \<and> To tx \<noteq> '''' \<and> (From tx = To tx \<longrightarrow> From tx = GenesisAddress) \<and>
    Amount tx \<noteq> 0 \<and> MinGasFee (Economics cfg) \<le> GasFee tx \<and> GasFee tx \<le> MaxGasFee (Economics cfg) \<and>
    of_nat (length (TxData tx)) \<le> MaxDataSize (Transactions cfg) \<and>
    (skip \<or> sint (timestamp_drift now (Timestamp tx)) \<le> sint (MaxTimestampDrift (Blocks cfg))) \<and>
    Signature tx \<noteq> [] \<and> PublicKey tx \<noteq> []"
  using assms by (auto simp: Tx_Validate_def RequiresGasFee_def IsSystemTx_def not_less)

theorem transfer_validate_iff_witness:
  "Tx_Validate shipped_config 1700000000000 False
     ((NewTransferTx 1700000000000 ''Fa'' ''Fb'' 5 1 0)\<lparr>Signature := [1], PublicKey := [2]\<rparr>) = Inr ()"
  by (subst transfer_validate_iff)
     (simp_all add: NewTransferTx_def timestamp_drift_def shipped_config_def setDefault_def)

text \<open>The signed bytes and the transaction hash leave out the nonce: changing the nonce of a
  signed transaction keeps its signature valid and its hash, which identifies it in the pool and
  in the transaction index, unchanged.\<close>

theorem nonce_not_signed:
  "Verify cl (PublicKey tx) (SignData (tx\<lparr>TxNonce := n\<rparr>)) (Signature tx)
     = Verify cl (PublicKey tx) (SignData tx) (Signature tx)
   \<and> Tx_Hash cl (tx\<lparr>TxNonce := n\<rparr>) = Tx_Hash cl tx"
  by (simp add: SignData_def Tx_Hash_def)

end
