(* ===== verification/Core_Chain.thy ===== *)
theory Core_Chain
  imports Core_Ledger
begin

text \<open>
  Blocks, the in-memory chain tip and checkpoints: \<^verbatim>\<open>core/block.go\<close>, \<^verbatim>\<open>core/blockchain.go\<close> and
  \<^verbatim>\<open>core/checkpoint.go\<close>. Header fields that Go shares by name with other structs carry a prefix
  here. The memo of the computed hash is not modelled: a header is complete before its hash is
  first taken, so the memo always equals the recomputed value. A checkpoint placeholder carries
  the hash recorded in the checkpoint instead of its own.

  Lemmas: what a block must satisfy to be added, the well-formedness of the tip under every
  operation that keeps it, that accepted blocks form a hash-linked chain, and that the hash of the
  tip fixes the history behind it.
\<close>

section \<open>Blocks\<close>

record BlockHeader =
  Height :: u64
  PreviousHash :: hash
  HTimestamp :: i64
  StateRoot :: hash
  TxRoot :: hash
  Proposer :: string
  HVRFProof :: bytes
  HVRFOutput :: bytes
  HSignature :: bytes

record block =
  Header :: BlockHeader
  BTransactions :: "transaction list"
  BData :: bytes
  IsCheckpointPlaceholder :: bool
  CheckpointHash :: hash

abbreviation zero_hash :: hash where "zero_hash \<equiv> replicate 32 0"

definition Header_Bytes :: "BlockHeader \<Rightarrow> bytes" where
  "Header_Bytes h = Uint64ToBytes (Height h) @ PreviousHash h @ Uint64ToBytes (HTimestamp h)
     @ StateRoot h @ TxRoot h @ string_bytes (Proposer h)
     @ (if length (HVRFProof h) > 0 then HVRFProof h else [])
     @ (if length (HVRFOutput h) > 0 then HVRFOutput h else [])"

definition Header_SignData :: "BlockHeader \<Rightarrow> bytes" where
  "Header_SignData h = Uint64ToBytes (Height h) @ PreviousHash h @ Uint64ToBytes (HTimestamp h)
     @ StateRoot h @ TxRoot h @ string_bytes (Proposer h)
     @ (if length (HVRFProof h) > 0 then HVRFProof h else [])
     @ (if length (HVRFOutput h) > 0 then HVRFOutput h else [])"

definition Block_Hash :: "crypto_lib \<Rightarrow> block \<Rightarrow> hash" where
  "Block_Hash cl b = (if IsCheckpointPlaceholder b then CheckpointHash b
     else CalculateHash (sha3_256 cl) (Header_Bytes (Header b)))"

definition CalculateTxRoot :: "crypto_lib \<Rightarrow> transaction list \<Rightarrow> hash" where
  "CalculateTxRoot cl txs = (if txs = [] then zero_hash
     else CalculateHash (sha3_256 cl) (concat (map (Tx_Hash cl) txs)))"

definition NewBlock :: "crypto_lib \<Rightarrow> i64 \<Rightarrow> u64 \<Rightarrow> hash \<Rightarrow> string \<Rightarrow> transaction list \<Rightarrow> block" where
  "NewBlock cl now height prevHash proposer txs = \<lparr>
     Header = \<lparr>Height = height, PreviousHash = prevHash, HTimestamp = now, StateRoot = zero_hash,
       TxRoot = CalculateTxRoot cl txs, Proposer = proposer, HVRFProof = [], HVRFOutput = [], HSignature = []\<rparr>,
     BTransactions = txs, BData = [], IsCheckpointPlaceholder = False, CheckpointHash = zero_hash\<rparr>"

fun validate_txs :: "ConsensusConfig \<Rightarrow> i64 \<Rightarrow> bool \<Rightarrow> nat \<Rightarrow> transaction list \<Rightarrow> error + unit" where
  "validate_txs cfg now skip i [] = Inr ()"
| "validate_txs cfg now skip i (tx # txs) = (case Tx_Validate cfg now skip tx of
     Inl e \<Rightarrow> Inl (InvalidTxAt i e)
   | Inr _ \<Rightarrow> validate_txs cfg now skip (i + 1) txs)"

definition ValidateWithOptions ::
    "ConsensusConfig \<Rightarrow> crypto_lib \<Rightarrow> i64 \<Rightarrow> block option \<Rightarrow> bool \<Rightarrow> block \<Rightarrow> error + unit" where
  "ValidateWithOptions cfg cl now prevBlock skipTimestampCheck b =
     (case (case prevBlock of
              None \<Rightarrow> None
            | Some p \<Rightarrow>
                if Height (Header b) \<noteq> Height (Header p) + 1
                then Some (InvalidHeight (Height (Header p) + 1) (Height (Header b)))
                else if \<not> IsCheckpointPlaceholder p \<and> PreviousHash (Header b) \<noteq> Block_Hash cl p
                then Some InvalidPrevHash
                else if sint (HTimestamp (Header b)) \<le> sint (HTimestamp (Header p))
                then Some InvalidBlockTimestamp
                else if \<not> skipTimestampCheck \<and> sint (HTimestamp (Header b)) > sint (now + 60000)
                then Some TimestampTooFarAhead
                else None) of
        Some e \<Rightarrow> Inl e
      | None \<Rightarrow>
          if CalculateTxRoot cl (BTransactions b) \<noteq> TxRoot (Header b) then Inl InvalidTxRoot
          else validate_txs cfg now skipTimestampCheck 0 (BTransactions b))"

definition Block_Validate ::
    "ConsensusConfig \<Rightarrow> crypto_lib \<Rightarrow> i64 \<Rightarrow> block option \<Rightarrow> block \<Rightarrow> error + unit" where
  "Block_Validate cfg cl now prevBlock b = ValidateWithOptions cfg cl now prevBlock False b"

definition CreateGenesisBlock :: "ConsensusConfig \<Rightarrow> crypto_lib \<Rightarrow> block" where
  "CreateGenesisBlock cfg cl =
     (let genesisTx = \<lparr>Type = TxReward, From = '''', To = GenesisAddress, Amount = TotalSupply, GasFee = 0,
            TxNonce = 0, Timestamp = GenesisTimestamp (Chain cfg), TxData = [], GasLimit = 0,
            Signature = [], PublicKey = []\<rparr>
      in \<lparr>Header = \<lparr>Height = 0, PreviousHash = zero_hash, HTimestamp = GenesisTimestamp (Chain cfg),
            StateRoot = zero_hash, TxRoot = CalculateTxRoot cl [genesisTx], Proposer = GenesisAddress,
            HVRFProof = [], HVRFOutput = [], HSignature = []\<rparr>,
          BTransactions = [genesisTx], BData = [], IsCheckpointPlaceholder = False, CheckpointHash = zero_hash\<rparr>)"

section \<open>The chain tip\<close>

record Blockchain =
  latestBlock :: "block option"
  latestHeight :: u64

definition NewBlockchain :: Blockchain where
  "NewBlockchain = \<lparr>latestBlock = None, latestHeight = 0\<rparr>"

definition bc_Initialize :: "block \<Rightarrow> Blockchain \<Rightarrow> Blockchain" where
  "bc_Initialize genesisBlock bc = bc\<lparr>latestBlock := Some genesisBlock, latestHeight := Height (Header genesisBlock)\<rparr>"

definition SetLatestBlock :: "block \<Rightarrow> Blockchain \<Rightarrow> Blockchain" where
  "SetLatestBlock b bc = bc\<lparr>latestBlock := Some b, latestHeight := Height (Header b)\<rparr>"

definition SetLatestBlockWithHash :: "block \<Rightarrow> hash \<Rightarrow> Blockchain \<Rightarrow> Blockchain" where
  "SetLatestBlockWithHash b correctHash bc =
     (let placeholderBlock = \<lparr>Header = Header b, BTransactions = BTransactions b, BData = [],
            IsCheckpointPlaceholder = True, CheckpointHash = correctHash\<rparr>
      in bc\<lparr>latestBlock := Some placeholderBlock, latestHeight := Height (Header b)\<rparr>)"

definition AddBlockWithOptions ::
    "ConsensusConfig \<Rightarrow> crypto_lib \<Rightarrow> i64 \<Rightarrow> block \<Rightarrow> bool \<Rightarrow> (Blockchain, unit) step" where
  "AddBlockWithOptions cfg cl now b skipTimestampCheck bc =
     (case (if skipTimestampCheck then ValidateWithOptions cfg cl now (latestBlock bc) True b
            else Block_Validate cfg cl now (latestBlock bc) b) of
        Inl e \<Rightarrow> (Inl (InvalidBlock e), bc)
      | Inr _ \<Rightarrow> (Inr (), bc\<lparr>latestBlock := Some b, latestHeight := Height (Header b)\<rparr>))"

definition AddBlock :: "ConsensusConfig \<Rightarrow> crypto_lib \<Rightarrow> i64 \<Rightarrow> block \<Rightarrow> (Blockchain, unit) step" where
  "AddBlock cfg cl now b = AddBlockWithOptions cfg cl now b False"

definition ValidateBlock :: "ConsensusConfig \<Rightarrow> crypto_lib \<Rightarrow> i64 \<Rightarrow> block \<Rightarrow> Blockchain \<Rightarrow> error + unit" where
  "ValidateBlock cfg cl now b bc = Block_Validate cfg cl now (latestBlock bc) b"

definition RollbackToHeight :: "u64 \<Rightarrow> block option \<Rightarrow> (Blockchain, unit) step" where
  "RollbackToHeight targetHeight targetBlock bc =
     (if targetHeight > latestHeight bc then (Inl (RollbackToHigher (latestHeight bc) targetHeight), bc)
      else if targetHeight = latestHeight bc then (Inr (), bc)
      else (Inr (), bc\<lparr>latestBlock := targetBlock, latestHeight := targetHeight\<rparr>))"

definition JumpToBlock :: "block \<Rightarrow> Blockchain \<Rightarrow> Blockchain" where
  "JumpToBlock b bc = bc\<lparr>latestBlock := Some b, latestHeight := Height (Header b) - 1\<rparr>"

text \<open>The placeholder's timestamp is in seconds (\<^verbatim>\<open>time.Now().Unix()\<close>), hence the separate clock.\<close>

definition SetLatestHeightForSync :: "i64 \<Rightarrow> u64 \<Rightarrow> Blockchain \<Rightarrow> Blockchain" where
  "SetLatestHeightForSync now_seconds height bc =
     (let placeholderBlock = \<lparr>Header = \<lparr>Height = height, PreviousHash = zero_hash, HTimestamp = now_seconds,
            StateRoot = zero_hash, TxRoot = zero_hash, Proposer = '''', HVRFProof = [], HVRFOutput = [],
            HSignature = []\<rparr>,
          BTransactions = [], BData = [], IsCheckpointPlaceholder = True, CheckpointHash = zero_hash\<rparr>
      in bc\<lparr>latestBlock := Some placeholderBlock, latestHeight := height\<rparr>)"

definition AddBlockForSync :: "block \<Rightarrow> (Blockchain, unit) step" where
  "AddBlockForSync b bc =
     (let expectedHeight = latestHeight bc + 1 in
      if Height (Header b) \<noteq> expectedHeight then (Inl (InvalidHeight expectedHeight (Height (Header b))), bc)
      else (Inr (), bc\<lparr>latestBlock := Some b, latestHeight := Height (Header b)\<rparr>))"

section \<open>Checkpoints\<close>

record ValidatorSnapshot =
  VSAddress :: string
  VSStake :: u64
  VSVRFPubKey :: bytes

record Checkpoint =
  CPHeight :: u64
  CPBlockHash :: hash
  CPPreviousHash :: hash
  CPStateRoot :: hash
  CPTimestamp :: i64
  CPProposer :: string
  CPValidators :: "ValidatorSnapshot list"
  CPSignature :: bytes

definition NewCheckpoint :: "u64 \<Rightarrow> hash \<Rightarrow> hash \<Rightarrow> hash \<Rightarrow> i64 \<Rightarrow> string \<Rightarrow> Checkpoint" where
  "NewCheckpoint height blockHash previousHash stateRoot timestamp proposer = \<lparr>CPHeight = height,
     CPBlockHash = blockHash, CPPreviousHash = previousHash, CPStateRoot = stateRoot,
     CPTimestamp = timestamp, CPProposer = proposer, CPValidators = [], CPSignature = []\<rparr>"

definition checkpointText :: "Checkpoint \<Rightarrow> string" where
  "checkpointText cp =
     (let validatorsData = concat (map (\<lambda>v. VSAddress v @ '':'' @ dec_u64 (VSStake v) @ '':''
            @ hex_encode (VSVRFPubKey v) @ '','') (CPValidators cp))
      in dec_u64 (CPHeight cp) @ '':'' @ Hash_String (CPBlockHash cp) @ '':'' @ Hash_String (CPPreviousHash cp)
         @ '':'' @ Hash_String (CPStateRoot cp) @ '':'' @ dec_i64 (CPTimestamp cp) @ '':'' @ CPProposer cp
         @ '':'' @ validatorsData)"

definition Checkpoint_Hash :: "crypto_lib \<Rightarrow> Checkpoint \<Rightarrow> hash" where
  "Checkpoint_Hash cl cp = CalculateHash (sha3_256 cl) (string_bytes (checkpointText cp))"

definition Checkpoint_Verify :: "crypto_lib \<Rightarrow> bytes \<Rightarrow> Checkpoint \<Rightarrow> error + unit" where
  "Checkpoint_Verify cl publicKey cp =
     (if CPSignature cp = [] then Inl NotSigned
      else if \<not> Verify cl publicKey (Checkpoint_Hash cl cp) (CPSignature cp) then Inl BadSignature
      else Inr ())"

definition Checkpoint_Sign :: "crypto_lib \<Rightarrow> bytes \<Rightarrow> Checkpoint \<Rightarrow> error + Checkpoint" where
  "Checkpoint_Sign cl privateKey cp = (case Sign cl privateKey (Checkpoint_Hash cl cp) of
     Inl e \<Rightarrow> Inl e
   | Inr sig \<Rightarrow> Inr (cp\<lparr>CPSignature := sig\<rparr>))"

section \<open>Adding blocks\<close>

lemma add_block_ok_iff:
  "AddBlockWithOptions cfg cl now b skip bc = (Inr (), bc') \<longleftrightarrow>
     ValidateWithOptions cfg cl now (latestBlock bc) skip b = Inr ()
     \<and> bc' = bc\<lparr>latestBlock := Some b, latestHeight := Height (Header b)\<rparr>"
  by (auto simp: AddBlockWithOptions_def Block_Validate_def split: sum.splits if_splits)

text \<open>\<open>child cl p b\<close>: \<open>b\<close> extends \<open>p\<close>.\<close>

definition child :: "crypto_lib \<Rightarrow> block \<Rightarrow> block \<Rightarrow> bool" where
  "child cl p b \<longleftrightarrow> Height (Header b) = Height (Header p) + 1
     \<and> (IsCheckpointPlaceholder p \<or> PreviousHash (Header b) = Block_Hash cl p)
     \<and> sint (HTimestamp (Header p)) < sint (HTimestamp (Header b))
     \<and> TxRoot (Header b) = CalculateTxRoot cl (BTransactions b)"

lemma validate_child:
  "ValidateWithOptions cfg cl now (Some p) skip b = Inr () \<Longrightarrow> child cl p b"
  by (auto simp: ValidateWithOptions_def child_def split: if_splits)

fun linked :: "crypto_lib \<Rightarrow> block list \<Rightarrow> bool" where
  "linked cl (p # b # bs) = (child cl p b \<and> linked cl (b # bs))"
| "linked cl _ = True"

fun add_blocks :: "ConsensusConfig \<Rightarrow> crypto_lib \<Rightarrow> (i64 \<times> bool \<times> block) list \<Rightarrow> (Blockchain, unit) step" where
  "add_blocks cfg cl [] bc = (Inr (), bc)"
| "add_blocks cfg cl ((now, skip, b) # bs) bc = (case AddBlockWithOptions cfg cl now b skip bc of
     (Inl e, bc') \<Rightarrow> (Inl e, bc')
   | (Inr _, bc') \<Rightarrow> add_blocks cfg cl bs bc')"

definition bc_wf :: "Blockchain \<Rightarrow> bool" where
  "bc_wf bc \<longleftrightarrow> (case latestBlock bc of None \<Rightarrow> latestHeight bc = 0
     | Some b \<Rightarrow> latestHeight bc = Height (Header b))"

lemma add_blocks_linked:
  assumes "add_blocks cfg cl bs bc = (Inr (), bc')" and "latestBlock bc = Some p"
  shows "linked cl (p # map (snd \<circ> snd) bs) \<and> latestBlock bc' = Some (last (p # map (snd \<circ> snd) bs))
    \<and> (bc_wf bc \<longrightarrow> bc_wf bc')"
  using assms
proof (induction bs arbitrary: bc p)
  case (Cons x bs)
  obtain now skip b where x: "x = (now, skip, b)" by (cases x)
  from Cons.prems(1) x obtain bc1 where
    a: "AddBlockWithOptions cfg cl now b skip bc = (Inr (), bc1)" "add_blocks cfg cl bs bc1 = (Inr (), bc')"
    by (auto split: prod.splits sum.splits)
  have c: "child cl p b" and bc1: "latestBlock bc1 = Some b" "bc_wf bc1"
    using a(1) Cons.prems(2) validate_child[of cfg cl now p skip b] by (auto simp: add_block_ok_iff bc_wf_def)
  from Cons.IH[OF a(2) bc1(1)] bc1(2) c x show ?case by simp
qed simp

section \<open>What a hash fixes\<close>

definition sha3_collision :: "crypto_lib \<Rightarrow> bool" where
  "sha3_collision cl \<longleftrightarrow> (\<exists>x y. x \<noteq> y \<and> sha3_256 cl x = sha3_256 cl y)"

definition header_wf :: "BlockHeader \<Rightarrow> bool" where
  "header_wf h \<longleftrightarrow> length (PreviousHash h) = 32 \<and> length (StateRoot h) = 32 \<and> length (TxRoot h) = 32"

definition same_history :: "BlockHeader \<Rightarrow> BlockHeader \<Rightarrow> bool" where
  "same_history h k \<longleftrightarrow> Height h = Height k \<and> PreviousHash h = PreviousHash k \<and> HTimestamp h = HTimestamp k
     \<and> StateRoot h = StateRoot k \<and> TxRoot h = TxRoot k"

lemma be_put64_inject [simp]: "be_put64 a = be_put64 b \<longleftrightarrow> a = b"
  by (metis be_fold_put64)

lemma header_bytes_fix:
  assumes "Header_Bytes h = Header_Bytes k" and "header_wf h" and "header_wf k"
  shows "same_history h k"
  using assms by (simp add: Header_Bytes_def header_wf_def same_history_def Uint64ToBytes_def)

lemma block_hash_fix:
  assumes "\<not> sha3_collision cl" and "Block_Hash cl b = Block_Hash cl c"
    and "\<not> IsCheckpointPlaceholder b" and "\<not> IsCheckpointPlaceholder c" and "header_wf (Header b)" and "header_wf (Header c)"
  shows "same_history (Header b) (Header c)"
proof (rule header_bytes_fix[OF _ assms(5,6)])
  show "Header_Bytes (Header b) = Header_Bytes (Header c)"
    using assms(1-4) unfolding sha3_collision_def Block_Hash_def CalculateHash_def by auto
qed

lemma linked_snoc: "linked cl (bs @ [p, b]) \<longleftrightarrow> linked cl (bs @ [p]) \<and> child cl p b"
  by (induction cl bs rule: linked.induct) auto

lemma tip_fixes_history:
  assumes "\<not> sha3_collision cl" and "length bs = length cs"
    and "\<forall>b\<in>set bs \<union> set cs. \<not> IsCheckpointPlaceholder b \<and> header_wf (Header b)"
    and "linked cl (bs @ [b])" and "linked cl (cs @ [c])"
    and "\<forall>b\<in>{b, c}. \<not> IsCheckpointPlaceholder b \<and> header_wf (Header b)"
    and "Block_Hash cl b = Block_Hash cl c"
  shows "list_all2 (\<lambda>b c. same_history (Header b) (Header c)) (bs @ [b]) (cs @ [c])"
  using assms(2-)
proof (induction bs arbitrary: b c cs rule: rev_induct)
  case Nil
  then show ?case using block_hash_fix[OF assms(1)] by simp
next
  case (snoc p bs)
  from snoc.prems(1) obtain cs' q where cs: "cs = cs' @ [q]"
    by (cases cs rule: rev_cases) auto
  have same: "same_history (Header b) (Header c)"
    using block_hash_fix[OF assms(1)] snoc.prems by simp
  have l: "linked cl (bs @ [p])" "child cl p b" "linked cl (cs' @ [q])" "child cl q c"
    using snoc.prems(3,4) cs by (simp_all add: linked_snoc)
  have "Block_Hash cl p = Block_Hash cl q"
    using l snoc.prems(2) same cs by (simp add: child_def same_history_def)
  from snoc.IH[OF _ _ l(1,3) _ this] snoc.prems(1,2) cs
  have IH: "list_all2 (\<lambda>b c. same_history (Header b) (Header c)) (bs @ [p]) (cs' @ [q])" by simp
  show ?case
    unfolding cs by (rule list_all2_appendI[OF IH]) (simp add: same)
qed

section \<open>The tip as a state machine\<close>

text \<open>Every way the node moves the tip, except the fast-sync jump. A rollback hands over the block
  stored at the target height.\<close>

inductive tip_step :: "ConsensusConfig \<Rightarrow> crypto_lib \<Rightarrow> Blockchain \<Rightarrow> Blockchain \<Rightarrow> bool" for cfg cl where
  init: "tip_step cfg cl bc (bc_Initialize b bc)"
| set_block: "tip_step cfg cl bc (SetLatestBlock b bc)"
| set_hash: "tip_step cfg cl bc (SetLatestBlockWithHash b h bc)"
| set_height: "tip_step cfg cl bc (SetLatestHeightForSync now h bc)"
| add: "AddBlockWithOptions cfg cl now b skip bc = (r, bc') \<Longrightarrow> tip_step cfg cl bc bc'"
| add_sync: "AddBlockForSync b bc = (r, bc') \<Longrightarrow> tip_step cfg cl bc bc'"
| rollback: "Height (Header b) = h \<Longrightarrow> RollbackToHeight h (Some b) bc = (r, bc') \<Longrightarrow> tip_step cfg cl bc bc'"

inductive_cases tip_stepE: "tip_step cfg cl bc bc'"

lemma tip_step_wf: "tip_step cfg cl bc bc' \<Longrightarrow> bc_wf bc \<Longrightarrow> bc_wf bc'"
  by (elim tip_stepE)
    (auto simp: bc_wf_def bc_Initialize_def SetLatestBlock_def SetLatestBlockWithHash_def SetLatestHeightForSync_def
      AddBlockWithOptions_def AddBlockForSync_def RollbackToHeight_def Let_def split: sum.splits if_splits option.splits)

lemma tip_reachable_wf: "(tip_step cfg cl)\<^sup>*\<^sup>* NewBlockchain bc \<Longrightarrow> bc_wf bc"
proof (induction rule: rtranclp_induct)
  case base
  show ?case by (simp add: bc_wf_def NewBlockchain_def)
qed (rule tip_step_wf)

section \<open>Claims\<close>

text \<open>In every state of the tip that the node can reach, the recorded height is the height of
  the recorded block, and so a block that is accepted raises the height by exactly one.\<close>

theorem reachable_tip_height:
  assumes "(tip_step cfg cl)\<^sup>*\<^sup>* NewBlockchain bc" and "latestBlock bc = Some p"
    and "AddBlockWithOptions cfg cl now b skip bc = (Inr (), bc')"
  shows "latestHeight bc = Height (Header p) \<and> latestHeight bc' = latestHeight bc + 1 \<and> bc_wf bc'"
proof -
  have wf: "bc_wf bc" by (rule tip_reachable_wf[OF assms(1)])
  have "child cl p b" using assms(2,3) validate_child by (auto simp: add_block_ok_iff)
  with wf assms(2,3) tip_step_wf[OF tip_step.add[OF assms(3)] wf] show ?thesis
    by (simp add: bc_wf_def child_def add_block_ok_iff)
qed

text \<open>A genesis block and an empty block on top of it.\<close>

definition demo_genesis :: block where
  "demo_genesis = CreateGenesisBlock shipped_config demo_crypto"

definition demo_block1 :: block where
  "demo_block1 = NewBlock demo_crypto 1700000001000 1 (Block_Hash demo_crypto demo_genesis) GenesisAddress []"

lemma demo_block1_added:
  "AddBlockWithOptions shipped_config demo_crypto 1700000001000 demo_block1 False (bc_Initialize demo_genesis NewBlockchain)
     = (Inr (), \<lparr>latestBlock = Some demo_block1, latestHeight = 1\<rparr>)"
  by (simp add: add_block_ok_iff ValidateWithOptions_def bc_Initialize_def NewBlockchain_def demo_block1_def NewBlock_def
      demo_genesis_def CreateGenesisBlock_def Let_def shipped_config_def setDefault_def)

theorem reachable_tip_height_witness:
  "\<exists>bc'. AddBlockWithOptions shipped_config demo_crypto 1700000001000 demo_block1 False (bc_Initialize demo_genesis NewBlockchain)
     = (Inr (), bc') \<and> latestHeight bc' = latestHeight (bc_Initialize demo_genesis NewBlockchain) + 1"
proof -
  have "(tip_step shipped_config demo_crypto)\<^sup>*\<^sup>* NewBlockchain (bc_Initialize demo_genesis NewBlockchain)"
    by (rule r_into_rtranclp, rule tip_step.init)
  from reachable_tip_height[OF this _ demo_block1_added] demo_block1_added show ?thesis
    by (simp add: bc_Initialize_def)
qed





text \<open>The fast-sync jump does not do what its comment promises. After \<^verbatim>\<open>JumpToBlock(b)\<close> the
  recorded height is one below \<open>b\<close>, but adding \<open>b\<close> always fails with a height error, because the
  validation looks at the recorded block and not at the recorded height.\<close>

theorem jump_then_add_fails:
  "AddBlockWithOptions cfg cl now b skip (JumpToBlock b bc)
     = (Inl (InvalidBlock (InvalidHeight (Height (Header b) + 1) (Height (Header b)))), JumpToBlock b bc)
   \<and> latestHeight (JumpToBlock b bc) + 1 = Height (Header b)"
  by (simp add: AddBlockWithOptions_def ValidateWithOptions_def Block_Validate_def JumpToBlock_def)

text \<open>A checkpoint signed with a key verifies under the matching public key, and its hash, which
  is what is signed, does not depend on the signature field.\<close>

theorem checkpoint_sign_verify:
  assumes "crypto_spec cl key_pair" and "key_pair sk pk" and "Checkpoint_Sign cl sk cp = Inr cp'"
    and "CPSignature cp' \<noteq> []"
  shows "Checkpoint_Verify cl pk cp' = Inr () \<and> Checkpoint_Hash cl cp' = Checkpoint_Hash cl cp"
proof -
  from assms(3) obtain sig where s: "Sign cl sk (Checkpoint_Hash cl cp) = Inr sig" "cp' = cp\<lparr>CPSignature := sig\<rparr>"
    by (auto simp: Checkpoint_Sign_def split: sum.splits)
  have h: "Checkpoint_Hash cl cp' = Checkpoint_Hash cl cp"
    by (simp add: s(2) Checkpoint_Hash_def checkpointText_def)
  with crypto_spec.Verify_Sign[OF assms(1,2) s(1)] s(2) assms(4) show ?thesis
    by (simp add: Checkpoint_Verify_def)
qed

theorem checkpoint_sign_verify_witness:
  "\<exists>cp'. Checkpoint_Sign demo_crypto [3] (NewCheckpoint 1 zero_hash zero_hash zero_hash 0 ''F1'') = Inr cp'
     \<and> Checkpoint_Verify demo_crypto [3] cp' = Inr ()"
proof -
  obtain cp' where run: "Checkpoint_Sign demo_crypto [3] (NewCheckpoint 1 zero_hash zero_hash zero_hash 0 ''F1'') = Inr cp'"
    and ne: "CPSignature cp' \<noteq> []"
    by (simp add: Checkpoint_Sign_def Sign_def demo_crypto_def)
  from checkpoint_sign_verify[OF demo.crypto_spec_axioms _ run ne, of "[3]"] run show ?thesis by simp
qed

end
