(* ===== verification/Level_DB.thy ===== *)
theory Level_DB
  imports Core_Ledger
begin

text \<open>
  The key-value engine under the storage layer. LevelDB (\<^verbatim>\<open>github.com/syndtr/goleveldb\<close>) is not
  part of the repository: its operations are the fields of \<open>leveldb\<close>, the argument of the
  storage definitions, over an abstract database handle \<open>'d\<close>. Every operation may fail. The
  locale \<open>leveldb_spec\<close> states the documented behaviour of the operations that succeed; the
  abstraction \<open>kv\<close> maps a handle to the key-value map it holds. JSON encoding of accounts is a
  parameter in the same way, with the round trip as its law.
\<close>

datatype ldb_op = LPut bytes bytes | LDelete bytes

record 'd leveldb =
  ldb_get :: "'d \<Rightarrow> bytes \<Rightarrow> error + bytes"
  ldb_put :: "'d \<Rightarrow> bytes \<Rightarrow> bytes \<Rightarrow> error + 'd"
  ldb_write :: "'d \<Rightarrow> ldb_op list \<Rightarrow> error + 'd"
  ldb_iter :: "'d \<Rightarrow> bytes \<Rightarrow> (bytes \<times> bytes) list \<times> error option"

text \<open>\<open>ldb_iter d p\<close> is the run of an iterator over the keys with prefix \<open>p\<close>: the entries
  delivered, and what \<^verbatim>\<open>iter.Error()\<close> reports afterwards.\<close>

fun apply_op :: "ldb_op \<Rightarrow> (bytes \<rightharpoonup> bytes) \<Rightarrow> (bytes \<rightharpoonup> bytes)" where
  "apply_op (LPut k v) m = m(k \<mapsto> v)"
| "apply_op (LDelete k) m = m(k := None)"

definition apply_batch :: "ldb_op list \<Rightarrow> (bytes \<rightharpoonup> bytes) \<Rightarrow> (bytes \<rightharpoonup> bytes)" where
  "apply_batch ops m = foldl (\<lambda>m op. apply_op op m) m ops"

definition has_prefix :: "bytes \<Rightarrow> bytes \<Rightarrow> bool" where
  "has_prefix p k \<longleftrightarrow> take (length p) k = p"

locale leveldb_spec =
  fixes L :: "'d leveldb" and kv :: "'d \<Rightarrow> bytes \<rightharpoonup> bytes"
  assumes get_some: "ldb_get L d k = Inr v \<Longrightarrow> kv d k = Some v"
    and get_none: "ldb_get L d k = Inl ErrNotFound \<Longrightarrow> kv d k = None"
    and put_ok: "ldb_put L d k v = Inr d' \<Longrightarrow> kv d' = (kv d)(k \<mapsto> v)"
    and write_ok: "ldb_write L d ops = Inr d' \<Longrightarrow> kv d' = apply_batch ops (kv d)"
    and iter_distinct: "ldb_iter L d p = (es, None) \<Longrightarrow> distinct (map fst es)"
    and iter_sorted: "ldb_iter L d p = (es, None) \<Longrightarrow> sorted (map fst es)"
    and iter_entries: "ldb_iter L d p = (es, None) \<Longrightarrow>
      set es = {(k, v). kv d k = Some v \<and> has_prefix p k}"

section \<open>Batches\<close>

lemma apply_batch_Nil [simp]: "apply_batch [] m = m"
  by (simp add: apply_batch_def)

lemma apply_batch_snoc [simp]: "apply_batch (ops @ [op]) m = apply_op op (apply_batch ops m)"
  by (simp add: apply_batch_def)

lemma apply_batch_puts:
  "apply_batch (map (\<lambda>(k, v). LPut k v) kvs) m = m ++ map_of (rev kvs)"
  by (induction kvs rule: rev_induct) (auto simp: map_add_def fun_eq_iff split: option.split)

lemma apply_batch_deletes:
  "apply_batch (map LDelete ks) m = m |` (- set ks)"
  by (induction ks rule: rev_induct) (auto simp: restrict_map_def fun_eq_iff)

section \<open>A reference engine\<close>

text \<open>
  An engine that meets the specification, used to instantiate the parameter: an association
  list kept sorted by key. It never fails, except that reading an absent key reports
  \<^verbatim>\<open>ErrNotFound\<close>.
\<close>

fun ref_put :: "bytes \<Rightarrow> bytes \<Rightarrow> (bytes \<times> bytes) list \<Rightarrow> (bytes \<times> bytes) list" where
  "ref_put k v [] = [(k, v)]"
| "ref_put k v ((k', v') # es) =
     (if k < k' then (k, v) # (k', v') # es
      else if k = k' then (k, v) # es
      else (k', v') # ref_put k v es)"

fun ref_op :: "ldb_op \<Rightarrow> (bytes \<times> bytes) list \<Rightarrow> (bytes \<times> bytes) list" where
  "ref_op (LPut k v) es = ref_put k v es"
| "ref_op (LDelete k) es = filter (\<lambda>e. fst e \<noteq> k) es"

lemma ref_put_keys: "fst ` set (ref_put k v es) = insert k (fst ` set es)"
  by (induction k v es rule: ref_put.induct) auto

definition ref_wf :: "(bytes \<times> bytes) list \<Rightarrow> bool" where
  "ref_wf es \<longleftrightarrow> sorted_wrt (<) (map fst es)"

lemma ref_put_wf: "ref_wf es \<Longrightarrow> ref_wf (ref_put k v es)"
proof (induction k v es rule: ref_put.induct)
  case (1 k v)
  then show ?case by (simp add: ref_wf_def)
next
  case (2 k v k' v' es)
  then have IH: "\<not> k < k' \<Longrightarrow> k \<noteq> k' \<Longrightarrow> ref_wf (ref_put k v es)"
    by (simp add: ref_wf_def)
  have keys: "set (map fst (ref_put k v es)) = insert k (set (map fst es))"
    using ref_put_keys[of k v es] by simp
  from 2(2) have "\<forall>y\<in>set (map fst es). k' < y" by (simp add: ref_wf_def)
  with 2(2) IH show ?case
    unfolding ref_wf_def using keys by (auto simp: ref_wf_def simp del: set_map)
qed

lemma ref_op_wf: "ref_wf es \<Longrightarrow> ref_wf (ref_op op es)"
  by (cases op) (simp_all add: ref_put_wf, simp add: ref_wf_def sorted_wrt_map sorted_wrt_filter)

lemma ref_wf_distinct: "ref_wf es \<Longrightarrow> distinct (map fst es)"
  by (auto simp: ref_wf_def strict_sorted_iff)

lemma map_of_ref_put: "map_of (ref_put k v es) = (map_of es)(k \<mapsto> v)" if "ref_wf es"
  using that
proof (induction k v es rule: ref_put.induct)
  case (2 k v k' v' es)
  then have "ref_wf es" by (simp add: ref_wf_def)
  with 2 show ?case by (auto simp: fun_eq_iff)
qed auto

lemma map_of_ref_op: "ref_wf es \<Longrightarrow> map_of (ref_op op es) = apply_op op (map_of es)"
proof (cases op)
  case (LDelete k)
  then have "ref_op op es = AList.delete k es"
    by (auto simp: AList.delete_eq intro: filter_cong)
  with LDelete show ?thesis by simp
qed (simp add: map_of_ref_put)

typedef ref_db = "{es. ref_wf es}" morphisms ref_entries Abs_ref_db
  by (rule exI[of _ "[]"]) (simp add: ref_wf_def)

definition ref_empty :: ref_db where
  "ref_empty = Abs_ref_db []"

definition ref_apply :: "ldb_op \<Rightarrow> ref_db \<Rightarrow> ref_db" where
  "ref_apply op d = Abs_ref_db (ref_op op (ref_entries d))"

lemma ref_entries_wf: "ref_wf (ref_entries d)"
  using ref_entries[of d] by simp

lemma ref_entries_empty [simp]: "ref_entries ref_empty = []"
  by (simp add: ref_empty_def Abs_ref_db_inverse ref_wf_def)

lemma ref_entries_apply [simp]: "ref_entries (ref_apply op d) = ref_op op (ref_entries d)"
  by (simp add: ref_apply_def Abs_ref_db_inverse ref_op_wf ref_entries_wf)

definition ref_leveldb :: "ref_db leveldb" where
  "ref_leveldb = \<lparr>
     ldb_get = (\<lambda>d k. case map_of (ref_entries d) k of None \<Rightarrow> Inl ErrNotFound | Some v \<Rightarrow> Inr v),
     ldb_put = (\<lambda>d k v. Inr (ref_apply (LPut k v) d)),
     ldb_write = (\<lambda>d ops. Inr (foldl (\<lambda>d op. ref_apply op d) d ops)),
     ldb_iter = (\<lambda>d p. (filter (\<lambda>e. has_prefix p (fst e)) (ref_entries d), None))\<rparr>"

definition ref_kv :: "ref_db \<Rightarrow> bytes \<rightharpoonup> bytes" where
  "ref_kv d = map_of (ref_entries d)"

lemma ref_kv_apply: "ref_kv (ref_apply op d) = apply_op op (ref_kv d)"
  by (simp add: ref_kv_def map_of_ref_op ref_entries_wf)

lemma ref_kv_foldl: "ref_kv (foldl (\<lambda>d op. ref_apply op d) d ops) = apply_batch ops (ref_kv d)"
  by (induction ops rule: rev_induct) (simp_all add: ref_kv_apply)

interpretation ref: leveldb_spec ref_leveldb ref_kv
proof
  fix d k v d' ops p es
  show "ldb_get ref_leveldb d k = Inr v \<Longrightarrow> ref_kv d k = Some v"
    by (simp add: ref_leveldb_def ref_kv_def split: option.splits)
  show "ldb_get ref_leveldb d k = Inl ErrNotFound \<Longrightarrow> ref_kv d k = None"
    by (simp add: ref_leveldb_def ref_kv_def split: option.splits)
  show "ldb_put ref_leveldb d k v = Inr d' \<Longrightarrow> ref_kv d' = (ref_kv d)(k \<mapsto> v)"
    by (auto simp: ref_leveldb_def ref_kv_apply)
  show "ldb_write ref_leveldb d ops = Inr d' \<Longrightarrow> ref_kv d' = apply_batch ops (ref_kv d)"
    by (auto simp: ref_leveldb_def ref_kv_foldl)
  assume it: "ldb_iter ref_leveldb d p = (es, None)"
  then have es: "es = filter (\<lambda>e. has_prefix p (fst e)) (ref_entries d)"
    by (simp add: ref_leveldb_def)
  have "ref_wf es"
    using ref_entries_wf[of d] by (simp add: es ref_wf_def sorted_wrt_map sorted_wrt_filter)
  then show "distinct (map fst es)" "sorted (map fst es)"
    by (simp_all add: ref_wf_def strict_sorted_iff)
  show "set es = {(k, v). ref_kv d k = Some v \<and> has_prefix p k}"
    using ref_wf_distinct[OF ref_entries_wf[of d]] by (auto simp: es ref_kv_def)
qed

end
