(* ===== verification/Sharded_Store.thy ===== *)
theory Sharded_Store
  imports Level_DB
begin

text \<open>
  The 36-shard account store of \<^verbatim>\<open>storage/sharded_state.go\<close>. An address is stored in the shard
  named by its second character. The store is a Go map from shard key to LevelDB handle, plus
  the \<^verbatim>\<open>state_height\<close> file that marks a completed commit (\<open>None\<close> before it is first written).
  Operating-system file calls on that marker are modelled as succeeding; LevelDB calls may fail.
  An operation that stops in the middle keeps the shards it has already written.

  The interface the state manager relies on is the locale \<open>account_store\<close>; the lemma
  \<open>sharded_account_store\<close> shows that the sharded store over any correct LevelDB provides it.
\<close>

section \<open>The store\<close>

record 'd account_env =
  engine :: "'d leveldb"
  acc_ToJSON :: "account \<Rightarrow> bytes"
  acc_FromJSON :: "bytes \<Rightarrow> account option"

record 'd sstore =
  shards :: "(char, 'd) gomap"
  state_height :: "bytes option"

definition ShardCharset :: string where
  "ShardCharset = ''0123456789abcdefghijklmnopqrstuvwxyz''"

text \<open>\<^verbatim>\<open>NewShardedStateStore\<close> opens one database per character; \<open>open_db\<close> is
  \<^verbatim>\<open>leveldb.OpenFile\<close> on the shard's directory.\<close>

fun open_shards :: "(char \<Rightarrow> error + 'd) \<Rightarrow> string \<Rightarrow> (char, 'd) gomap \<Rightarrow> error + (char, 'd) gomap" where
  "open_shards open_db [] m = Inr m"
| "open_shards open_db (c # cs) m = (case open_db c of
     Inl e \<Rightarrow> Inl e
   | Inr d \<Rightarrow> open_shards open_db cs (AList.update c d m))"

definition NewShardedStateStore :: "(char \<Rightarrow> error + 'd) \<Rightarrow> bytes option \<Rightarrow> error + 'd sstore" where
  "NewShardedStateStore open_db height_file = (case open_shards open_db ShardCharset [] of
     Inl e \<Rightarrow> Inl e
   | Inr m \<Rightarrow> Inr \<lparr>shards = m, state_height = height_file\<rparr>)"

definition getShardKey :: "string \<Rightarrow> char" where
  "getShardKey address =
     (if length address < 2 then CHR ''0''
      else let c = address ! 1 in if base36_char_ok c then c else CHR ''0'')"

definition getShard :: "'d sstore \<Rightarrow> string \<Rightarrow> error + 'd" where
  "getShard s address = (case map_of (shards s) (getShardKey address) of
     None \<Rightarrow> Inl ShardNotFound | Some d \<Rightarrow> Inr d)"

definition set_shard :: "char \<Rightarrow> 'd \<Rightarrow> 'd sstore \<Rightarrow> 'd sstore" where
  "set_shard c d s = s\<lparr>shards := AList.update c d (shards s)\<rparr>"

definition SaveAccount :: "'d account_env \<Rightarrow> account \<Rightarrow> 'd sstore \<Rightarrow> (error + unit) \<times> 'd sstore" where
  "SaveAccount E acc s = (case getShard s (Address acc) of
     Inl e \<Rightarrow> (Inl e, s)
   | Inr d \<Rightarrow> (case ldb_put (engine E) d (string_bytes (Address acc)) (acc_ToJSON E acc) of
       Inl e \<Rightarrow> (Inl e, s)
     | Inr d' \<Rightarrow> (Inr (), set_shard (getShardKey (Address acc)) d' s)))"

text \<open>Grouping of the batch by shard, then one atomic write per shard.\<close>

fun shardBatches :: "'d account_env \<Rightarrow> account list \<Rightarrow> (char, ldb_op list) gomap \<Rightarrow> (char, ldb_op list) gomap" where
  "shardBatches E [] m = m"
| "shardBatches E (acc # accs) m =
     (let k = getShardKey (Address acc);
          b = (case map_of m k of None \<Rightarrow> [] | Some ops \<Rightarrow> ops)
      in shardBatches E accs
           (AList.update k (b @ [LPut (string_bytes (Address acc)) (acc_ToJSON E acc)]) m))"

fun write_batches :: "'d account_env \<Rightarrow> (char, ldb_op list) gomap \<Rightarrow> 'd sstore \<Rightarrow> (error + unit) \<times> 'd sstore" where
  "write_batches E [] s = (Inr (), s)"
| "write_batches E ((k, ops) # bs) s = (case map_of (shards s) k of
     None \<Rightarrow> (Inl Panic, s)
   | Some d \<Rightarrow> (case ldb_write (engine E) d ops of
       Inl e \<Rightarrow> (Inl e, s)
     | Inr d' \<Rightarrow> write_batches E bs (set_shard k d' s)))"

definition SaveAccountsBatch :: "'d account_env \<Rightarrow> account list \<Rightarrow> 'd sstore \<Rightarrow> (error + unit) \<times> 'd sstore" where
  "SaveAccountsBatch E accounts s =
     (if accounts = [] then (Inr (), s)
      else write_batches E (shardBatches E accounts []) s)"

definition SS_GetAccount :: "'d account_env \<Rightarrow> 'd sstore \<Rightarrow> string \<Rightarrow> error + account" where
  "SS_GetAccount E s address = (case getShard s address of
     Inl e \<Rightarrow> Inl e
   | Inr d \<Rightarrow> (case ldb_get (engine E) d (string_bytes address) of
       Inl e \<Rightarrow> if e = ErrNotFound then Inr (NewAccount address) else Inl e
     | Inr data \<Rightarrow> (case acc_FromJSON E data of None \<Rightarrow> Inl ErrDecode | Some acc \<Rightarrow> Inr acc)))"

text \<open>Values that do not parse are skipped.\<close>

definition decode_all :: "'d account_env \<Rightarrow> (bytes \<times> bytes) list \<Rightarrow> account list" where
  "decode_all E es = List.map_filter (\<lambda>e. acc_FromJSON E (snd e)) es"

fun collect_accounts :: "'d account_env \<Rightarrow> (char, 'd) gomap \<Rightarrow> error + account list" where
  "collect_accounts E [] = Inr []"
| "collect_accounts E ((k, d) # ds) = (case ldb_iter (engine E) d [] of
     (es, Some e) \<Rightarrow> Inl e
   | (es, None) \<Rightarrow> (case collect_accounts E ds of
       Inl e \<Rightarrow> Inl e | Inr accs \<Rightarrow> Inr (decode_all E es @ accs)))"

definition SS_GetAllAccounts :: "'d account_env \<Rightarrow> 'd sstore \<Rightarrow> error + account list" where
  "SS_GetAllAccounts E s = collect_accounts E (shards s)"

fun clear_shards :: "'d account_env \<Rightarrow> (char, 'd) gomap \<Rightarrow> 'd sstore \<Rightarrow> (error + unit) \<times> 'd sstore" where
  "clear_shards E [] s = (Inr (), s)"
| "clear_shards E ((k, d) # ds) s = (case ldb_iter (engine E) d [] of
     (es, Some e) \<Rightarrow> (Inl e, s)
   | (es, None) \<Rightarrow> (case ldb_write (engine E) d (map (\<lambda>e. LDelete (fst e)) es) of
       Inl e \<Rightarrow> (Inl e, s)
     | Inr d' \<Rightarrow> clear_shards E ds (set_shard k d' s)))"

definition ClearAllAccounts :: "'d account_env \<Rightarrow> 'd sstore \<Rightarrow> (error + unit) \<times> 'd sstore" where
  "ClearAllAccounts E s = clear_shards E (shards s) s"

definition GetShardStats :: "'d account_env \<Rightarrow> 'd sstore \<Rightarrow> (char, nat) gomap" where
  "GetShardStats E s = map (\<lambda>(k, d). (k, length (fst (ldb_iter (engine E) d [])))) (shards s)"

definition GetAccountsByPrefix :: "'d account_env \<Rightarrow> 'd sstore \<Rightarrow> string \<Rightarrow> error + account list" where
  "GetAccountsByPrefix E s pre =
     (if length pre < 2 then Inl PrefixTooShort
      else case getShard s pre of
        Inl e \<Rightarrow> Inl e
      | Inr d \<Rightarrow> (case ldb_iter (engine E) d (string_bytes pre) of
          (es, None) \<Rightarrow> Inr (decode_all E es)
        | (es, Some e) \<Rightarrow> Inl e))"

text \<open>\<^verbatim>\<open>MigrateFromLegacy\<close>: the entries under the prefix \<^verbatim>\<open>a\<close> of the old database, filed by the
  address that follows the prefix. The batches of all shards exist from the start; the empty
  ones are not written.\<close>

fun legacyBatches :: "(bytes \<times> bytes) list \<Rightarrow> (char, ldb_op list) gomap \<Rightarrow> (char, ldb_op list) gomap" where
  "legacyBatches [] m = m"
| "legacyBatches ((key, data) # es) m =
     (let address = bytes_string (drop 1 key); k = getShardKey address;
          b = (case map_of m k of None \<Rightarrow> [] | Some ops \<Rightarrow> ops)
      in legacyBatches es (AList.update k (b @ [LPut (string_bytes address) data]) m))"

definition MigrateFromLegacy ::
    "'d account_env \<Rightarrow> 'd \<Rightarrow> 'd sstore \<Rightarrow> (nat \<times> (error + unit)) \<times> 'd sstore" where
  "MigrateFromLegacy E legacyDB s = (case ldb_iter (engine E) legacyDB (string_bytes ''a'') of
     (es, Some e) \<Rightarrow> ((0, Inl e), s)
   | (es, None) \<Rightarrow>
       (let bs = filter (\<lambda>b. snd b \<noteq> []) (legacyBatches es (map (\<lambda>c. (c, [])) ShardCharset))
        in case write_batches E bs s of (r, s') \<Rightarrow> ((length es, r), s')))"

section \<open>State height\<close>

definition GetStateHeight :: "'d sstore \<Rightarrow> error + u64" where
  "GetStateHeight s = (case state_height s of
     None \<Rightarrow> Inr 0
   | Some data \<Rightarrow> if length data < 8 then Inr 0 else be_get64 data)"

definition SaveStateHeight :: "u64 \<Rightarrow> 'd sstore \<Rightarrow> (error + unit) \<times> 'd sstore" where
  "SaveStateHeight height s = (Inr (), s\<lparr>state_height := Some (be_put64 height)\<rparr>)"

definition SaveAccountsBatchWithHeight ::
    "'d account_env \<Rightarrow> account list \<Rightarrow> u64 \<Rightarrow> 'd sstore \<Rightarrow> (error + unit) \<times> 'd sstore" where
  "SaveAccountsBatchWithHeight E accounts height s =
     (if accounts = [] then SaveStateHeight height s
      else case write_batches E (shardBatches E accounts []) s of
        (Inl e, s') \<Rightarrow> (Inl e, s')
      | (Inr _, s') \<Rightarrow> SaveStateHeight height s')"

section \<open>The interface offered to the state manager\<close>

record 's store_ops =
  st_get :: "'s \<Rightarrow> string \<Rightarrow> error + account"
  st_all :: "'s \<Rightarrow> error + account list"
  st_save :: "account \<Rightarrow> 's \<Rightarrow> (error + unit) \<times> 's"
  st_batch :: "account list \<Rightarrow> 's \<Rightarrow> (error + unit) \<times> 's"
  st_batch_height :: "account list \<Rightarrow> u64 \<Rightarrow> 's \<Rightarrow> (error + unit) \<times> 's"
  st_clear :: "'s \<Rightarrow> (error + unit) \<times> 's"

definition sharded_ops :: "'d account_env \<Rightarrow> 'd sstore store_ops" where
  "sharded_ops E = \<lparr>st_get = SS_GetAccount E, st_all = SS_GetAllAccounts E,
     st_save = SaveAccount E, st_batch = SaveAccountsBatch E,
     st_batch_height = SaveAccountsBatchWithHeight E, st_clear = ClearAllAccounts E\<rparr>"

definition by_address :: "account list \<Rightarrow> string \<rightharpoonup> account" where
  "by_address accs = map_of (map (\<lambda>a. (Address a, a)) accs)"

text \<open>
  \<open>store_inv\<close> is the provider's invariant and \<open>acct\<close> the abstract account map of a store. A read of
  an absent account returns a fresh one; a write of distinct accounts overrides the map at their
  addresses; a failed write keeps the invariant.
\<close>

locale account_store =
  fixes S :: "'s store_ops" and store_inv :: "'s \<Rightarrow> bool" and acct :: "'s \<Rightarrow> string \<rightharpoonup> account"
  assumes acct_finite: "store_inv s \<Longrightarrow> finite (dom (acct s))"
    and acct_address: "store_inv s \<Longrightarrow> acct s a = Some x \<Longrightarrow> Address x = a"
    and get_ok: "store_inv s \<Longrightarrow> st_get S s a = Inr x \<Longrightarrow>
      x = (case acct s a of Some y \<Rightarrow> y | None \<Rightarrow> NewAccount a)"
    and all_ok: "store_inv s \<Longrightarrow> st_all S s = Inr xs \<Longrightarrow>
      distinct (map Address xs) \<and> by_address xs = acct s"
    and save_ok: "store_inv s \<Longrightarrow> st_save S x s = (r, s') \<Longrightarrow>
      store_inv s' \<and> (\<forall>u. r = Inr u \<longrightarrow> acct s' = (acct s)(Address x \<mapsto> x))"
    and batch_ok: "store_inv s \<Longrightarrow> distinct (map Address xs) \<Longrightarrow> st_batch S xs s = (r, s') \<Longrightarrow>
      store_inv s' \<and> (\<forall>u. r = Inr u \<longrightarrow> acct s' = acct s ++ by_address xs)"
    and batch_height_ok: "store_inv s \<Longrightarrow> distinct (map Address xs) \<Longrightarrow>
      st_batch_height S xs h s = (r, s') \<Longrightarrow>
      store_inv s' \<and> (\<forall>u. r = Inr u \<longrightarrow> acct s' = acct s ++ by_address xs)"
    and clear_ok: "store_inv s \<Longrightarrow> st_clear S s = (r, s') \<Longrightarrow>
      store_inv s' \<and> (\<forall>u. r = Inr u \<longrightarrow> acct s' = Map.empty)"

section \<open>Correctness of the sharded store\<close>

text \<open>What a shard holds: values that decode to accounts filed under their own address, in the
  shard that address selects.\<close>

definition shard_ok :: "'d account_env \<Rightarrow> char \<Rightarrow> (bytes \<rightharpoonup> bytes) \<Rightarrow> bool" where
  "shard_ok E c m \<longleftrightarrow> finite (dom m) \<and>
     (\<forall>k v. m k = Some v \<longrightarrow> (\<exists>x. k = string_bytes (Address x) \<and> acc_FromJSON E v = Some x
        \<and> getShardKey (Address x) = c))"

definition sstore_wf :: "'d account_env \<Rightarrow> ('d \<Rightarrow> bytes \<rightharpoonup> bytes) \<Rightarrow> 'd sstore \<Rightarrow> bool" where
  "sstore_wf E kv s \<longleftrightarrow> gomap_wf (shards s) \<and>
     (\<forall>c d. map_of (shards s) c = Some d \<longrightarrow> shard_ok E c (kv d))"

definition shard_acct :: "'d account_env \<Rightarrow> ('d \<Rightarrow> bytes \<rightharpoonup> bytes) \<Rightarrow> 'd sstore \<Rightarrow> string \<rightharpoonup> account" where
  "shard_acct E kv s a = (case map_of (shards s) (getShardKey a) of
     None \<Rightarrow> None
   | Some d \<Rightarrow> (case kv d (string_bytes a) of None \<Rightarrow> None | Some v \<Rightarrow> acc_FromJSON E v))"

abbreviation acc_put :: "'d account_env \<Rightarrow> account \<Rightarrow> ldb_op" where
  "acc_put E x \<equiv> LPut (string_bytes (Address x)) (acc_ToJSON E x)"

lemma set_shard_simps [simp]:
  "map_of (shards (set_shard c d s)) = (map_of (shards s))(c \<mapsto> d)"
  "gomap_wf (shards s) \<Longrightarrow> gomap_wf (shards (set_shard c d s))"
  "state_height (set_shard c d s) = state_height s"
  by (simp_all add: set_shard_def)

lemma sstore_wf_set_shard:
  "sstore_wf E kv s \<Longrightarrow> shard_ok E c (kv d) \<Longrightarrow> sstore_wf E kv (set_shard c d s)"
  by (auto simp: sstore_wf_def)

lemma by_address_Some_iff:
  "distinct (map Address xs) \<Longrightarrow> by_address xs a = Some x \<longleftrightarrow> x \<in> set xs \<and> Address x = a"
  by (auto simp: by_address_def map_of_eq_Some_iff comp_def)

lemma by_address_None_iff: "by_address xs a = None \<longleftrightarrow> a \<notin> Address ` set xs"
  by (simp add: by_address_def map_of_eq_None_iff image_image)

lemma dom_by_address: "dom (by_address xs) = Address ` set xs"
  by (simp add: by_address_def dom_map_of_conv_image_fst image_image)

lemma map_of_shardBatches:
  "map_of (shardBatches E accs m) c =
     (let l = map (acc_put E) (filter (\<lambda>x. getShardKey (Address x) = c) accs) in
      case map_of m c of None \<Rightarrow> if l = [] then None else Some l | Some ops \<Rightarrow> Some (ops @ l))"
  by (induction E accs m rule: shardBatches.induct) (auto simp: Let_def split: option.split)

lemma gomap_wf_shardBatches: "gomap_wf m \<Longrightarrow> gomap_wf (shardBatches E accs m)"
  by (induction E accs m rule: shardBatches.induct) (auto simp: Let_def)

lemma write_batches_height:
  "write_batches E bs s = (r, s') \<Longrightarrow> state_height s' = state_height s"
  by (induction E bs s rule: write_batches.induct) (auto split: option.splits sum.splits)

lemma write_batches_other:
  "write_batches E bs s = (r, s') \<Longrightarrow> c \<notin> fst ` set bs \<Longrightarrow>
     map_of (shards s') c = map_of (shards s) c"
  by (induction E bs s rule: write_batches.induct) (auto split: option.splits sum.splits)

locale sharded_env = leveldb_spec "engine E" kv
  for E :: "'d account_env" and kv :: "'d \<Rightarrow> bytes \<rightharpoonup> bytes" +
  assumes json_roundtrip: "acc_FromJSON E (acc_ToJSON E x) = Some x"
begin

lemma shard_ok_puts:
  assumes "shard_ok E c m" and "\<forall>x\<in>set xs. getShardKey (Address x) = c"
  shows "shard_ok E c (apply_batch (map (acc_put E) xs) m)"
  using assms(2)
proof (induction xs rule: rev_induct)
  case (snoc x xs)
  then have "shard_ok E c (apply_batch (map (acc_put E) xs) m)" by simp
  with snoc.prems show ?case
    by (auto simp: shard_ok_def json_roundtrip simp flip: fun_upd_def)
qed (use assms(1) in simp)

lemma write_batches_wf:
  assumes "sstore_wf E kv s"
    and "\<forall>(c, ops)\<in>set bs. \<exists>xs. ops = map (acc_put E) xs \<and> (\<forall>x\<in>set xs. getShardKey (Address x) = c)"
    and "write_batches E bs s = (r, s')"
  shows "sstore_wf E kv s'"
  using assms
proof (induction bs arbitrary: s)
  case (Cons b bs)
  obtain k ops where b: "b = (k, ops)" by (cases b)
  from Cons.prems b obtain xs where xs: "ops = map (acc_put E) xs" "\<forall>x\<in>set xs. getShardKey (Address x) = k"
    by auto
  show ?case
  proof (cases "map_of (shards s) k")
    case (Some d)
    show ?thesis
    proof (cases "ldb_write (engine E) d ops")
      case (Inr d')
      have "shard_ok E k (kv d)" using Cons.prems(1) Some by (simp add: sstore_wf_def)
      then have "shard_ok E k (kv d')"
        using shard_ok_puts[OF _ xs(2)] write_ok[OF Inr] xs by simp
      then have "sstore_wf E kv (set_shard k d' s)"
        by (rule sstore_wf_set_shard[OF Cons.prems(1)])
      with Cons b Some Inr show ?thesis by simp
    qed (use Cons.prems b Some in simp)
  qed (use Cons.prems b in simp)
qed simp

lemma write_batches_done:
  assumes "distinct (map fst bs)" and "write_batches E bs s = (Inr u, s')" and "map_of bs c = Some ops"
  shows "\<exists>d d'. map_of (shards s) c = Some d \<and> map_of (shards s') c = Some d'
    \<and> kv d' = apply_batch ops (kv d)"
  using assms
proof (induction bs arbitrary: s)
  case (Cons b bs)
  obtain k ops' where b: "b = (k, ops')" by (cases b)
  from Cons.prems(2) b obtain d d' where d: "map_of (shards s) k = Some d"
    "ldb_write (engine E) d ops' = Inr d'"
    "write_batches E bs (set_shard k d' s) = (Inr u, s')"
    by (auto split: option.splits sum.splits)
  show ?case
  proof (cases "c = k")
    case True
    with Cons.prems b have "c \<notin> fst ` set bs" "ops = ops'" by auto
    with True d write_batches_other[OF d(3)] write_ok[OF d(2)] show ?thesis by simp
  next
    case False
    with Cons.prems b have "map_of bs c = Some ops" "distinct (map fst bs)" by auto
    from Cons.IH[OF this(2) d(3) this(1)] False show ?thesis by simp
  qed
qed simp

lemma batches_of_accounts:
  "\<forall>(c, ops)\<in>set (shardBatches E xs []).
     \<exists>ys. ops = map (acc_put E) ys \<and> (\<forall>x\<in>set ys. getShardKey (Address x) = c)"
proof (clarify)
  fix c ops
  assume "(c, ops) \<in> set (shardBatches E xs [])"
  then have "map_of (shardBatches E xs []) c = Some ops"
    using gomap_wf_shardBatches[of "[]" E xs] by (simp add: gomap_wf_def)
  then have "ops = map (acc_put E) (filter (\<lambda>x. getShardKey (Address x) = c) xs)"
    by (auto simp: map_of_shardBatches Let_def split: if_splits)
  then show "\<exists>ys. ops = map (acc_put E) ys \<and> (\<forall>x\<in>set ys. getShardKey (Address x) = c)"
    by auto
qed

lemma lookup_after_puts:
  assumes "distinct (map Address xs)"
  shows "apply_batch (map (acc_put E) xs) m (string_bytes a) =
    (case by_address xs a of None \<Rightarrow> m (string_bytes a) | Some x \<Rightarrow> Some (acc_ToJSON E x))"
  using assms
proof (induction xs rule: rev_induct)
  case (snoc x xs)
  then have "by_address xs (Address x) = None"
    by (simp add: by_address_None_iff)
  with snoc show ?case
    by (auto simp: by_address_def map_add_def split: option.split)
qed (simp add: by_address_def)

lemma by_address_filter:
  "by_address (filter (\<lambda>x. getShardKey (Address x) = getShardKey a) xs) a = by_address xs a"
  by (induction xs) (auto simp: by_address_def)

text \<open>One shard after its batch: the account map of its addresses is overridden.\<close>

lemma shard_acct_one_shard:
  assumes "distinct (map Address xs)" and "map_of (shards s) (getShardKey a) = Some d"
    and "map_of (shards s') (getShardKey a) = Some d'"
    and "kv d' = apply_batch (map (acc_put E) (filter (\<lambda>x. getShardKey (Address x) = getShardKey a) xs)) (kv d)"
  shows "shard_acct E kv s' a = (shard_acct E kv s ++ by_address xs) a"
proof -
  let ?l = "filter (\<lambda>x. getShardKey (Address x) = getShardKey a) xs"
  have "distinct (map Address ?l)" using assms(1) by (simp add: distinct_map_filter)
  from lookup_after_puts[OF this, of "kv d" a] assms by_address_filter[of a xs] show ?thesis
    by (simp add: shard_acct_def map_add_def json_roundtrip split: option.split)
qed

lemma shardBatches_at:
  "map_of (shardBatches E xs []) c = (let l = filter (\<lambda>x. getShardKey (Address x) = c) xs in
     if l = [] then None else Some (map (acc_put E) l))"
  by (simp add: map_of_shardBatches Let_def)

lemma distinct_shardBatches: "distinct (map fst (shardBatches E xs []))"
  using gomap_wf_shardBatches[of "[]" E xs] by (simp add: gomap_wf_def)

lemma shard_acct_after_batches:
  assumes "distinct (map Address xs)" and "write_batches E (shardBatches E xs []) s = (Inr u, s')"
  shows "shard_acct E kv s' = shard_acct E kv s ++ by_address xs"
proof
  fix a
  let ?c = "getShardKey a"
  let ?l = "filter (\<lambda>x. getShardKey (Address x) = ?c) xs"
  show "shard_acct E kv s' a = (shard_acct E kv s ++ by_address xs) a"
  proof (cases "?l = []")
    case True
    then have "by_address xs a = None"
      using by_address_filter[of a xs] by (simp add: by_address_def)
    moreover have "?c \<notin> fst ` set (shardBatches E xs [])"
      using True by (simp add: shardBatches_at flip: map_of_eq_None_iff)
    ultimately show ?thesis
      using write_batches_other[OF assms(2)] by (simp add: shard_acct_def map_add_def)
  next
    case False
    from write_batches_done[OF distinct_shardBatches assms(2), of ?c "map (acc_put E) ?l"] False
    show ?thesis
      using shard_acct_one_shard[OF assms(1)] by (auto simp: shardBatches_at Let_def)
  qed
qed

text \<open>A run that stops early leaves every shard either as it was or with its whole batch.\<close>

lemma write_batches_each:
  assumes "distinct (map fst bs)" and "write_batches E bs s = (r, s')"
  shows "map_of (shards s') c = map_of (shards s) c \<or>
    (\<exists>ops d d'. map_of bs c = Some ops \<and> map_of (shards s) c = Some d \<and> map_of (shards s') c = Some d'
       \<and> kv d' = apply_batch ops (kv d))"
  using assms
proof (induction bs arbitrary: s)
  case (Cons b bs)
  obtain k ops where b: "b = (k, ops)" by (cases b)
  show ?case
  proof (cases "\<exists>d d'. map_of (shards s) k = Some d \<and> ldb_write (engine E) d ops = Inr d'")
    case True
    then obtain d d' where d: "map_of (shards s) k = Some d" "ldb_write (engine E) d ops = Inr d'"
      by blast
    with Cons.prems b have run: "write_batches E bs (set_shard k d' s) = (r, s')" by simp
    have IH: "map_of (shards s') c = map_of (shards (set_shard k d' s)) c \<or>
      (\<exists>ops e e'. map_of bs c = Some ops \<and> map_of (shards (set_shard k d' s)) c = Some e
        \<and> map_of (shards s') c = Some e' \<and> kv e' = apply_batch ops (kv e))"
      by (rule Cons.IH[OF _ run]) (use Cons.prems in simp)
    have k: "map_of bs k = None" using Cons.prems b by (auto simp: map_of_eq_None_iff)
    show ?thesis
      using IH d write_ok[OF d(2)] k b by (cases "c = k") auto
  next
    case False
    with Cons.prems b have "s' = s" by (auto split: option.splits sum.splits)
    then show ?thesis by simp
  qed
qed simp

lemma iter_shard:
  assumes "shard_ok E c (kv d)" and "ldb_iter (engine E) d [] = (es, None)"
  shows "distinct (map Address (decode_all E es))"
    and "x \<in> set (decode_all E es) \<longleftrightarrow>
      (\<exists>v. kv d (string_bytes (Address x)) = Some v \<and> acc_FromJSON E v = Some x)"
    and "x \<in> set (decode_all E es) \<Longrightarrow> getShardKey (Address x) = c"
proof -
  have ent: "set es = {(k, v). kv d k = Some v}"
    using iter_entries[OF assms(2)] by (simp add: has_prefix_def)
  have dec: "\<exists>x. fst e = string_bytes (Address x) \<and> acc_FromJSON E (snd e) = Some x \<and> getShardKey (Address x) = c"
    if "e \<in> set es" for e
  proof -
    have "kv d (fst e) = Some (snd e)" using that ent by auto
    with assms(1) show ?thesis by (simp add: shard_ok_def)
  qed
  have "\<forall>e\<in>set es. acc_FromJSON E (snd e) \<noteq> None"
    using dec by fastforce
  then have all: "decode_all E es = map (\<lambda>e. the (acc_FromJSON E (snd e))) es"
    unfolding decode_all_def by (induction es) (auto simp: map_filter_simps)
  have key: "string_bytes (Address (the (acc_FromJSON E (snd e)))) = fst e" if "e \<in> set es" for e
    using dec[OF that] by auto
  have "map fst es = map (\<lambda>x. string_bytes (Address x)) (decode_all E es)"
    using key by (simp add: all)
  then have "distinct (map string_bytes (map Address (decode_all E es)))"
    using iter_distinct[OF assms(2)] by (simp add: comp_def)
  then show "distinct (map Address (decode_all E es))"
    using distinct_map by blast
  show "x \<in> set (decode_all E es) \<longleftrightarrow>
      (\<exists>v. kv d (string_bytes (Address x)) = Some v \<and> acc_FromJSON E v = Some x)"
    using dec ent by (fastforce simp: all image_iff)
  show "x \<in> set (decode_all E es) \<Longrightarrow> getShardKey (Address x) = c"
    using dec by (fastforce simp: all)
qed

lemma collect_accounts_sound:
  assumes "distinct (map fst ds)" and "\<forall>(c, d)\<in>set ds. shard_ok E c (kv d)"
    and "collect_accounts E ds = Inr xs"
  shows "distinct (map Address xs) \<and> (\<forall>x. x \<in> set xs \<longleftrightarrow>
    (\<exists>d v. map_of ds (getShardKey (Address x)) = Some d \<and>
       kv d (string_bytes (Address x)) = Some v \<and> acc_FromJSON E v = Some x))"
  using assms
proof (induction ds arbitrary: xs)
  case (Cons b ds)
  obtain c d where b: "b = (c, d)" by (cases b)
  from Cons.prems(3) b obtain es ys where es: "ldb_iter (engine E) d [] = (es, None)"
    and ys: "collect_accounts E ds = Inr ys" and xs: "xs = decode_all E es @ ys"
    by (auto split: prod.splits option.splits sum.splits)
  from Cons.prems b have c: "shard_ok E c (kv d)" "map_of ds c = None"
    by (auto simp: map_of_eq_None_iff)
  note it = iter_shard[OF c(1) es]
  from Cons.IH[OF _ _ ys] Cons.prems b have IH: "distinct (map Address ys)"
    "\<And>x. x \<in> set ys \<longleftrightarrow> (\<exists>d v. map_of ds (getShardKey (Address x)) = Some d \<and>
       kv d (string_bytes (Address x)) = Some v \<and> acc_FromJSON E v = Some x)"
    by auto
  have disj: "getShardKey (Address y) \<noteq> c" if "y \<in> set ys" for y
    using that IH(2) c(2) by auto
  have "Address x \<noteq> Address y" if "x \<in> set (decode_all E es)" "y \<in> set ys" for x y
    using it(3)[OF that(1)] disj[OF that(2)] by auto
  then have "distinct (map Address xs)"
    using it(1) IH(1) xs by auto
  moreover have "x \<in> set xs \<longleftrightarrow> (\<exists>d v. map_of (b # ds) (getShardKey (Address x)) = Some d \<and>
       kv d (string_bytes (Address x)) = Some v \<and> acc_FromJSON E v = Some x)" for x
    using it(2,3)[of x] IH(2)[of x] disj[of x] c(1) by (auto simp: xs b shard_ok_def)
  ultimately show ?case by blast
qed simp

lemma shard_acct_Some_iff:
  assumes "sstore_wf E kv s"
  shows "shard_acct E kv s a = Some x \<longleftrightarrow> Address x = a \<and>
    (\<exists>d v. map_of (shards s) (getShardKey a) = Some d \<and> kv d (string_bytes a) = Some v
       \<and> acc_FromJSON E v = Some x)"
  using assms by (fastforce simp: shard_acct_def sstore_wf_def shard_ok_def split: option.splits)

lemma all_accounts_sound:
  assumes "sstore_wf E kv s" and "SS_GetAllAccounts E s = Inr xs"
  shows "distinct (map Address xs) \<and> by_address xs = shard_acct E kv s"
proof -
  have m: "distinct (map fst (shards s))" "\<forall>(c, d)\<in>set (shards s). shard_ok E c (kv d)"
    using assms(1) by (auto simp: sstore_wf_def gomap_wf_def)
  note * = collect_accounts_sound[OF m assms(2)[unfolded SS_GetAllAccounts_def]]
  have "by_address xs a = Some x \<longleftrightarrow> shard_acct E kv s a = Some x" for a x
    using * by (auto simp: by_address_Some_iff shard_acct_Some_iff[OF assms(1)])
  then have "by_address xs a = shard_acct E kv s a" for a
    by (metis option.exhaust)
  with * show ?thesis by blast
qed

lemma shard_cleared:
  assumes "ldb_iter (engine E) d [] = (es, None)"
    and "ldb_write (engine E) d (map (\<lambda>e. LDelete (fst e)) es) = Inr d'"
  shows "kv d' = Map.empty"
proof
  fix k
  have "kv d' = kv d |` (- fst ` set es)"
    using write_ok[OF assms(2)] apply_batch_deletes[of "map fst es" "kv d"] by (simp add: comp_def)
  moreover have "kv d k = Some v \<Longrightarrow> k \<in> fst ` set es" for v
    using iter_entries[OF assms(1)] by (force simp: has_prefix_def)
  ultimately show "kv d' k = None"
    by (cases "kv d k") (auto simp: restrict_map_def)
qed

lemma clear_shards_sound:
  assumes "sstore_wf E kv s" and "clear_shards E ds s = (r, s')"
  shows "sstore_wf E kv s' \<and> (r = Inr () \<longrightarrow>
      c \<in> fst ` set ds \<or> (\<forall>d. map_of (shards s) c = Some d \<longrightarrow> kv d = Map.empty) \<longrightarrow>
      map_of (shards s') c = Some d' \<longrightarrow> kv d' = Map.empty)"
  using assms
proof (induction ds arbitrary: s)
  case (Cons b ds)
  obtain k d where b: "b = (k, d)" by (cases b)
  consider (iter) es e where "ldb_iter (engine E) d [] = (es, Some e)"
    | (fail) es e where "ldb_iter (engine E) d [] = (es, None)"
        "ldb_write (engine E) d (map (\<lambda>e. LDelete (fst e)) es) = Inl e"
    | (cleared) es d1 where "ldb_iter (engine E) d [] = (es, None)"
        "ldb_write (engine E) d (map (\<lambda>e. LDelete (fst e)) es) = Inr d1"
    by (metis prod.exhaust option.exhaust sum.exhaust)
  then show ?case
  proof cases
    case cleared
    note e = shard_cleared[OF cleared]
    have wf: "sstore_wf E kv (set_shard k d1 s)"
      using Cons.prems by (intro sstore_wf_set_shard) (simp_all add: e shard_ok_def)
    have run: "clear_shards E ds (set_shard k d1 s) = (r, s')"
      using Cons.prems b cleared by simp
    show ?thesis
      using Cons.IH[OF wf run] e b by auto
  qed (use Cons.prems b in auto)
qed auto

lemma clear_all_sound:
  assumes "sstore_wf E kv s" and "ClearAllAccounts E s = (r, s')"
  shows "sstore_wf E kv s'" and "r = Inr u \<Longrightarrow> shard_acct E kv s' = Map.empty"
proof -
  note run = assms(2)[unfolded ClearAllAccounts_def]
  show "sstore_wf E kv s'" using clear_shards_sound[OF assms(1) run] by blast
  assume r: "r = Inr u"
  have cov: "c \<in> fst ` set (shards s) \<or> (\<forall>d. map_of (shards s) c = Some d \<longrightarrow> kv d = Map.empty)" for c
    by (auto dest: map_of_SomeD intro: rev_image_eqI)
  have "map_of (shards s') c = Some d \<Longrightarrow> kv d = Map.empty" for c d
    using clear_shards_sound[OF assms(1) run, of c d] cov[of c] r by simp
  then show "shard_acct E kv s' = Map.empty"
    by (auto simp: shard_acct_def fun_eq_iff split: option.split)
qed

lemma finite_shard_acct:
  assumes "sstore_wf E kv s"
  shows "finite (dom (shard_acct E kv s))"
proof -
  have "string_bytes ` dom (shard_acct E kv s) \<subseteq> (\<Union>d\<in>snd ` set (shards s). dom (kv d))"
    by (auto simp: shard_acct_Some_iff[OF assms] dest!: map_of_SomeD intro!: rev_bexI)
  moreover have "finite (\<Union>d\<in>snd ` set (shards s). dom (kv d))"
    using assms by (auto simp: sstore_wf_def gomap_wf_def shard_ok_def)
  ultimately have "finite (string_bytes ` dom (shard_acct E kv s))" by (rule finite_subset)
  then show ?thesis by (rule finite_imageD) (simp add: inj_on_def)
qed

lemma save_account_sound:
  assumes "sstore_wf E kv s" and "SaveAccount E x s = (r, s')"
  shows "sstore_wf E kv s'" and "r = Inr u \<Longrightarrow> shard_acct E kv s' = (shard_acct E kv s)(Address x \<mapsto> x)"
proof -
  let ?c = "getShardKey (Address x)"
  have "sstore_wf E kv s' \<and> (r = Inr u \<longrightarrow> shard_acct E kv s' = (shard_acct E kv s)(Address x \<mapsto> x))"
  proof (cases "\<exists>d d1. map_of (shards s) ?c = Some d \<and>
      ldb_put (engine E) d (string_bytes (Address x)) (acc_ToJSON E x) = Inr d1")
    case True
    then obtain d d1 where d: "map_of (shards s) ?c = Some d"
      "ldb_put (engine E) d (string_bytes (Address x)) (acc_ToJSON E x) = Inr d1" by blast
    note kv1 = put_ok[OF d(2)]
    have "shard_ok E ?c (kv d)" using assms(1) d(1) by (simp add: sstore_wf_def)
    then have "shard_ok E ?c (apply_batch (map (acc_put E) [x]) (kv d))"
      by (rule shard_ok_puts) simp
    then have "shard_ok E ?c (kv d1)"
      by (simp add: kv1 apply_batch_def)
    from sstore_wf_set_shard[OF assms(1) this] have "sstore_wf E kv (set_shard ?c d1 s)" .
    moreover have "s' = set_shard ?c d1 s"
      using assms(2) d by (simp add: SaveAccount_def getShard_def)
    moreover have "shard_acct E kv (set_shard ?c d1 s) = (shard_acct E kv s)(Address x \<mapsto> x)"
      using d kv1 by (auto simp: shard_acct_def fun_eq_iff json_roundtrip)
    ultimately show ?thesis by simp
  next
    case False
    then show ?thesis
      using assms by (auto simp: SaveAccount_def getShard_def split: option.splits sum.splits)
  qed
  then show "sstore_wf E kv s'" "r = Inr u \<Longrightarrow> shard_acct E kv s' = (shard_acct E kv s)(Address x \<mapsto> x)"
    by simp_all
qed

lemma save_height_keeps [simp]:
  "SaveStateHeight h s = (r, s') \<Longrightarrow> sstore_wf E kv s' = sstore_wf E kv s"
  "SaveStateHeight h s = (r, s') \<Longrightarrow> shard_acct E kv s' = shard_acct E kv s"
  by (auto simp: SaveStateHeight_def sstore_wf_def shard_acct_def fun_eq_iff)

lemma save_batch_sound:
  assumes "sstore_wf E kv s" and "distinct (map Address xs)" and "SaveAccountsBatch E xs s = (r, s')"
  shows "sstore_wf E kv s'" and "r = Inr u \<Longrightarrow> shard_acct E kv s' = shard_acct E kv s ++ by_address xs"
  using assms write_batches_wf[OF assms(1) batches_of_accounts[of xs], of r s'] shard_acct_after_batches[OF assms(2), of s u s']
  by (auto simp: SaveAccountsBatch_def by_address_def split: if_splits)

lemma save_batch_height_sound:
  assumes "sstore_wf E kv s" and "distinct (map Address xs)"
    and "SaveAccountsBatchWithHeight E xs h s = (r, s')"
  shows "sstore_wf E kv s'" and "r = Inr u \<Longrightarrow> shard_acct E kv s' = shard_acct E kv s ++ by_address xs"
proof -
  have "sstore_wf E kv s' \<and> (r = Inr u \<longrightarrow> shard_acct E kv s' = shard_acct E kv s ++ by_address xs)"
  proof (cases "xs = []")
    case False
    obtain r1 s1 where w: "write_batches E (shardBatches E xs []) s = (r1, s1)" by fastforce
    note wf = write_batches_wf[OF assms(1) batches_of_accounts w]
    show ?thesis
      using assms(3) False w wf shard_acct_after_batches[OF assms(2), of s _ s1]
      by (cases r1) (auto simp: SaveAccountsBatchWithHeight_def)
  qed (use assms in \<open>auto simp: SaveAccountsBatchWithHeight_def by_address_def\<close>)
  then show "sstore_wf E kv s'" "r = Inr u \<Longrightarrow> shard_acct E kv s' = shard_acct E kv s ++ by_address xs"
    by simp_all
qed

lemma get_account_sound:
  assumes "SS_GetAccount E s a = Inr x"
  shows "x = (case shard_acct E kv s a of Some y \<Rightarrow> y | None \<Rightarrow> NewAccount a)"
  using assms get_none get_some
  by (fastforce simp: SS_GetAccount_def getShard_def shard_acct_def split: option.splits sum.splits if_splits)

lemma sharded_account_store: "account_store (sharded_ops E) (sstore_wf E kv) (shard_acct E kv)"
  by unfold_locales
    (auto simp: sharded_ops_def shard_acct_Some_iff finite_shard_acct get_account_sound
       dest: all_accounts_sound save_account_sound save_batch_sound save_batch_height_sound clear_all_sound)

end

section \<open>An instance\<close>

text \<open>The reference engine with a byte codec for accounts: byte strings are written with a
  marker in front of every byte.\<close>

fun enc_bytes :: "bytes \<Rightarrow> bytes" where
  "enc_bytes [] = [0]"
| "enc_bytes (b # bs) = 1 # b # enc_bytes bs"

fun dec_bytes :: "bytes \<Rightarrow> bytes \<times> bytes" where
  "dec_bytes (m # b # bs) = (if m = 0 then ([], b # bs) else case dec_bytes bs of (xs, r) \<Rightarrow> (b # xs, r))"
| "dec_bytes r = ([], tl r)"

lemma dec_enc_bytes [codec_simps, simp]: "dec_bytes (enc_bytes xs @ r) = (xs, r)"
  by (induction xs) (auto, cases r, auto)

definition ref_ToJSON :: "account \<Rightarrow> bytes" where
  "ref_ToJSON a = be_put64 (AvailableBalance a) @ be_put64 (StakedBalance a) @ be_put64 (Nonce a)
     @ be_put64 (StakeLockedUntil a) @ [NodeType a] @ enc_bytes (string_bytes (Address a))
     @ enc_bytes (string_bytes (NodeStatus a)) @ enc_bytes (CodeHash a) @ enc_bytes (StorageRoot a)"

definition ref_FromJSON :: "bytes \<Rightarrow> account option" where
  "ref_FromJSON b = (if length b < 33 then None else
     let (ad, r) = dec_bytes (drop 33 b); (st, r) = dec_bytes r; (ch, r) = dec_bytes r; (sr, r) = dec_bytes r
     in Some \<lparr>Address = bytes_string ad, AvailableBalance = be_fold (take 8 b),
        StakedBalance = be_fold (take 8 (drop 8 b)), Nonce = be_fold (take 8 (drop 16 b)),
        NodeType = b ! 32, NodeStatus = bytes_string st, StakeLockedUntil = be_fold (take 8 (drop 24 b)),
        CodeHash = ch, StorageRoot = sr\<rparr>)"

lemma ref_json_roundtrip: "ref_FromJSON (ref_ToJSON a) = Some a"
  using dec_enc_bytes[of "StorageRoot a" "[]"]
  by (simp add: ref_FromJSON_def ref_ToJSON_def nth_append)

definition ref_env :: "ref_db account_env" where
  "ref_env = \<lparr>engine = ref_leveldb, acc_ToJSON = ref_ToJSON, acc_FromJSON = ref_FromJSON\<rparr>"

interpretation ref: sharded_env ref_env ref_kv
proof -
  have e: "engine ref_env = ref_leveldb" by (simp add: ref_env_def)
  show "sharded_env ref_env ref_kv"
    by (rule sharded_env.intro, unfold e, rule ref.leveldb_spec_axioms, unfold_locales)
      (simp add: ref_env_def ref_json_roundtrip)
qed

interpretation ref_store: account_store "sharded_ops ref_env" "sstore_wf ref_env ref_kv" "shard_acct ref_env ref_kv"
  by (rule ref.sharded_account_store)

definition ref_sstore :: "ref_db sstore" where
  "ref_sstore = \<lparr>shards = map (\<lambda>c. (c, ref_empty)) ShardCharset, state_height = None\<rparr>"

lemma ref_sstore_wf [simp]: "sstore_wf ref_env ref_kv ref_sstore"
  by (auto simp: sstore_wf_def ref_sstore_def gomap_wf_def comp_def ShardCharset_def shard_ok_def ref_kv_def
      dest!: map_of_SomeD)

lemma ref_kv_empty [simp]: "ref_kv ref_empty = Map.empty"
  by (simp add: ref_kv_def)

lemma ref_sstore_acct [simp]: "shard_acct ref_env ref_kv ref_sstore = Map.empty"
  by (auto simp: shard_acct_def ref_sstore_def fun_eq_iff dest!: map_of_SomeD split: option.split)

lemma ref_sstore_new: "NewShardedStateStore (\<lambda>_. Inr ref_empty) None = Inr ref_sstore"
  by (simp add: NewShardedStateStore_def ref_sstore_def ShardCharset_def)

lemma getShardKey_charset: "getShardKey a \<in> set ShardCharset"
proof -
  have "base36_char_ok c \<Longrightarrow> c \<in> set ShardCharset" for c
  proof -
    assume c: "base36_char_ok c"
    have "c = char_of (of_char c :: nat)" by simp
    moreover from c have "of_char c \<in> {48..<58::nat} \<union> {97..<123}"
      by (auto simp: base36_char_ok_def less_eq_char_def)
    then have "(of_char c :: nat) \<in> set ([48..<58] @ [97..<123])"
      by (simp only: set_append set_upt)
    ultimately have "c \<in> set (map char_of ([48..<58] @ [97..<123::nat]))" by (metis image_eqI set_map)
    moreover have "map char_of ([48..<58] @ [97..<123::nat]) = ShardCharset"
      unfolding ShardCharset_def by code_simp
    ultimately show ?thesis by (simp only:)
  qed
  then show ?thesis by (simp add: getShardKey_def Let_def ShardCharset_def)
qed

text \<open>On the reference engine with all shards open no write fails.\<close>

definition all_shards_open :: "'d sstore \<Rightarrow> bool" where
  "all_shards_open s \<longleftrightarrow> set ShardCharset \<subseteq> dom (map_of (shards s))"

lemma ref_sstore_open [simp]: "all_shards_open ref_sstore"
  by (auto simp: all_shards_open_def ref_sstore_def dom_map_of_conv_image_fst image_image)

lemma ref_write_batches_ok:
  "all_shards_open s \<Longrightarrow> fst ` set bs \<subseteq> set ShardCharset \<Longrightarrow>
     \<exists>s'. write_batches ref_env bs s = (Inr (), s') \<and> all_shards_open s'"
proof (induction bs arbitrary: s)
  case (Cons b bs)
  obtain k ops where b: "b = (k, ops)" by (cases b)
  with Cons.prems obtain d where d: "map_of (shards s) k = Some d"
    by (auto simp: all_shards_open_def)
  have "all_shards_open (set_shard k d' s)" for d'
    using Cons.prems by (auto simp: all_shards_open_def)
  with Cons.IH Cons.prems show ?case
    by (simp add: b d ref_env_def ref_leveldb_def)
qed simp

lemma shardBatches_keys: "fst ` set (shardBatches E xs []) \<subseteq> set ShardCharset"
proof
  fix c
  assume "c \<in> fst ` set (shardBatches E xs [])"
  then have "map_of (shardBatches E xs []) c \<noteq> None" by (simp add: map_of_eq_None_iff)
  then show "c \<in> set ShardCharset"
    by (auto simp: map_of_shardBatches Let_def filter_empty_conv getShardKey_charset split: if_splits)
qed

lemma ref_batch_height_ok:
  assumes "all_shards_open s"
  shows "\<exists>s'. SaveAccountsBatchWithHeight ref_env xs h s = (Inr (), s') \<and> all_shards_open s'"
  using ref_write_batches_ok[OF assms shardBatches_keys[of ref_env xs]] assms
  by (auto simp: SaveAccountsBatchWithHeight_def SaveStateHeight_def all_shards_open_def)

lemma ref_collect_ok: "\<exists>xs. collect_accounts ref_env ds = Inr xs"
  by (induction ds) (auto simp: ref_env_def ref_leveldb_def split: prod.splits)

lemma batch_height_marker:
  assumes "SaveAccountsBatchWithHeight E xs h s = (Inr (), s')"
  shows "GetStateHeight s' = Inr h"
proof -
  have "state_height s' = Some (be_put64 h)"
    using assms by (auto simp: SaveAccountsBatchWithHeight_def SaveStateHeight_def
        split: if_splits prod.splits sum.splits)
  then show ?thesis
    using be_get64_put64[of h "[]"] by (simp add: GetStateHeight_def)
qed

section \<open>Claims\<close>

text \<open>Write and read back across shards. After a batch write that succeeds, a read that
  succeeds returns the written account for every address of the batch and what the store held
  before for every other address, the enumeration of all accounts lists exactly that map with
  one entry per address, and the height marker reads as the height given.\<close>

theorem batch_read_back:
  assumes "sharded_env E kv" and "sstore_wf E kv s" and "distinct (map Address xs)"
    and "SaveAccountsBatchWithHeight E xs h s = (Inr (), s')"
  shows "GetStateHeight s' = Inr h
    \<and> (\<forall>a x. SS_GetAccount E s' a = Inr x \<longrightarrow>
         x = (case (shard_acct E kv s ++ by_address xs) a of Some y \<Rightarrow> y | None \<Rightarrow> NewAccount a))
    \<and> (\<forall>ys. SS_GetAllAccounts E s' = Inr ys \<longrightarrow>
         distinct (map Address ys) \<and> by_address ys = shard_acct E kv s ++ by_address xs)"
proof -
  note w = sharded_env.save_batch_height_sound[OF assms]
  have "GetStateHeight s' = Inr h" by (rule batch_height_marker[OF assms(4)])
  then show ?thesis
    using w sharded_env.get_account_sound[OF assms(1), of s'] sharded_env.all_accounts_sound[OF assms(1) w(1)]
    by simp
qed

theorem batch_read_back_witness:
  "\<exists>s'. SaveAccountsBatchWithHeight ref_env [NewAccount ''F1'', NewAccount ''F2''] 7 ref_sstore = (Inr (), s')
     \<and> GetStateHeight s' = Inr 7"
proof -
  obtain s' where run: "SaveAccountsBatchWithHeight ref_env [NewAccount ''F1'', NewAccount ''F2''] 7 ref_sstore = (Inr (), s')"
    using ref_batch_height_ok[OF ref_sstore_open] by blast
  from batch_read_back[OF ref.sharded_env_axioms ref_sstore_wf _ run] run show ?thesis
    by simp
qed



end
