(* ===== verification/State_Manager.thy ===== *)
theory State_Manager
  imports Sharded_Store
begin

text \<open>
  The state manager, \<^verbatim>\<open>state/state.go\<close>: a write-back cache of accounts over the account store,
  the execution of transactions on it, the P0 check of the constant total supply, and in-memory
  snapshots.

  \<^verbatim>\<open>GetAccount\<close> returns a pointer into the cache, so a change to the account is visible in the
  cache at once, before \<^verbatim>\<open>UpdateAccount\<close> marks it dirty; \<open>poke\<close> is such a write through the
  pointer and \<open>acc_at\<close> reads through it. Two pointers to one address are the same cache entry,
  which is what happens when a party of a transaction is the genesis account. Calls of the two
  validator callbacks are recorded in order in \<open>validatorEvents\<close>.

  The operations take the account store they run on as the argument \<open>S\<close>, and the proofs use
  only the laws of the locale \<open>account_store\<close>. The contract is the total function
  \<open>ledger\<close> from addresses to accounts: \<open>exec_spec\<close> says what a transaction does to it without
  cache, pointers or dirty marks, and \<^verbatim>\<open>ExecuteTransaction\<close> is shown to implement it.
\<close>

section \<open>State\<close>

datatype validator_event = ValidatorAdded string u64 | ValidatorRemoved string

record 's state_manager =
  sm_db :: 's
  accountCache :: "(string, account) gomap"
  dirtyAccounts :: "string list"
  totalSupplyTracker :: u64
  trackerInitialized :: bool
  callbacksSet :: bool
  validatorEvents :: "validator_event list"

definition TOTAL_SUPPLY :: u64 where
  "TOTAL_SUPPLY = 1400000000000000"

definition NewStateManager :: "'s \<Rightarrow> 's state_manager" where
  "NewStateManager db = \<lparr>sm_db = db, accountCache = [], dirtyAccounts = [], totalSupplyTracker = 0,
     trackerInitialized = False, callbacksSet = False, validatorEvents = []\<rparr>"

definition SetValidatorCallbacks :: "'s state_manager \<Rightarrow> 's state_manager" where
  "SetValidatorCallbacks sm = sm\<lparr>callbacksSet := True\<rparr>"

definition sum_balances :: "account list \<Rightarrow> u64" where
  "sum_balances accounts = foldl (\<lambda>t acc. t + (AvailableBalance acc + StakedBalance acc)) 0 accounts"

definition InitializeTotalSupplyTracker :: "'s store_ops \<Rightarrow> ('s state_manager, unit) step" where
  "InitializeTotalSupplyTracker S sm =
     (if trackerInitialized sm then (Inr (), sm)
      else case st_all S (sm_db sm) of
        Inl e \<Rightarrow> (Inl e, sm)
      | Inr accounts \<Rightarrow> (Inr (), sm\<lparr>totalSupplyTracker := sum_balances accounts, trackerInitialized := True\<rparr>))"

definition verifyTrackerIntegrity :: "'s state_manager \<Rightarrow> error + u64 \<times> bool" where
  "verifyTrackerIntegrity sm =
     (if \<not> trackerInitialized sm then Inl TrackerNotInitialized
      else Inr (totalSupplyTracker sm, totalSupplyTracker sm = TOTAL_SUPPLY))"

section \<open>Cached accounts\<close>

definition GetAccount :: "'s store_ops \<Rightarrow> string \<Rightarrow> ('s state_manager, account) step" where
  "GetAccount S address sm = (case map_of (accountCache sm) address of
     Some acc \<Rightarrow> (Inr acc, sm)
   | None \<Rightarrow> (case st_get S (sm_db sm) address of
       Inl e \<Rightarrow> (Inl e, sm)
     | Inr acc \<Rightarrow> (Inr acc, sm\<lparr>accountCache := AList.update address acc (accountCache sm)\<rparr>)))"

definition acc_at :: "string \<Rightarrow> 's state_manager \<Rightarrow> account" where
  "acc_at address sm = (case map_of (accountCache sm) address of
     Some acc \<Rightarrow> acc | None \<Rightarrow> NewAccount address)"

definition poke :: "string \<Rightarrow> account \<Rightarrow> 's state_manager \<Rightarrow> 's state_manager" where
  "poke address acc sm = sm\<lparr>accountCache := AList.update address acc (accountCache sm)\<rparr>"

definition UpdateAccount :: "account \<Rightarrow> 's state_manager \<Rightarrow> 's state_manager" where
  "UpdateAccount acc sm = sm\<lparr>accountCache := AList.update (Address acc) acc (accountCache sm),
     dirtyAccounts := goset_insert (Address acc) (dirtyAccounts sm)\<rparr>"

text \<open>The dirty accounts as \<^verbatim>\<open>Commit\<close> collects them. A dirty address without a cache entry gives a
  nil pointer, and the batch writer dereferences it.\<close>

definition dirty_list :: "'s state_manager \<Rightarrow> account list option" where
  "dirty_list sm = those (map (map_of (accountCache sm)) (dirtyAccounts sm))"

definition Commit :: "'s store_ops \<Rightarrow> ('s state_manager, unit) step" where
  "Commit S sm =
     (if dirtyAccounts sm = [] then (Inr (), sm)
      else case dirty_list sm of
        None \<Rightarrow> (Inl Panic, sm)
      | Some accounts \<Rightarrow> (case st_batch S accounts (sm_db sm) of
          (Inl e, db) \<Rightarrow> (Inl e, sm\<lparr>sm_db := db\<rparr>)
        | (Inr _, db) \<Rightarrow> (Inr (), sm\<lparr>sm_db := db, dirtyAccounts := []\<rparr>)))"

text \<open>Database accounts overridden by the cache: the \<^verbatim>\<open>accountMap\<close> built in five places.\<close>

definition accountMap :: "account list \<Rightarrow> (string, account) gomap \<Rightarrow> (string, account) gomap" where
  "accountMap dbAccounts cache =
     foldl (\<lambda>m (addr, acc). AList.update addr acc m)
       (foldl (\<lambda>m acc. AList.update (Address acc) acc m) [] dbAccounts) cache"

definition map_supply :: "(string, account) gomap \<Rightarrow> u64" where
  "map_supply m = sum_balances (map snd m)"

definition CommitWithP0Verify :: "'s store_ops \<Rightarrow> u64 \<Rightarrow> ('s state_manager, unit) step" where
  "CommitWithP0Verify S height sm = (case st_all S (sm_db sm) of
     Inl e \<Rightarrow> (Inl e, sm)
   | Inr dbAccounts \<Rightarrow>
       (let totalSupply = map_supply (accountMap dbAccounts (accountCache sm)) in
        if totalSupply \<noteq> TOTAL_SUPPLY then (Inl (SupplyMismatch totalSupply), sm)
        else case dirty_list sm of
          None \<Rightarrow> (Inl Panic, sm)
        | Some accounts \<Rightarrow> (case st_batch_height S accounts height (sm_db sm) of
            (Inl e, db) \<Rightarrow> (Inl e, sm\<lparr>sm_db := db\<rparr>)
          | (Inr _, db) \<Rightarrow> (Inr (), sm\<lparr>sm_db := db, totalSupplyTracker := totalSupply,
              dirtyAccounts := []\<rparr>))))"

section \<open>Transaction execution\<close>

definition confiscateAllFunds :: "'s store_ops \<Rightarrow> string \<Rightarrow> ('s state_manager, unit) step" where
  "confiscateAllFunds S attackerAddr =
     (if attackerAddr = GenesisAddress then (\<lambda>sm. (Inl GenesisExempt, sm))
      else bindS (GetAccount S attackerAddr) (\<lambda>attacker.
        let totalFunds = AvailableBalance attacker + StakedBalance attacker in
        if totalFunds = 0 then (\<lambda>sm. (Inr (), sm))
        else bindS (GetAccount S GenesisAddress) (\<lambda>genesis sm.
          let sm1 = poke GenesisAddress (AddBalance totalFunds genesis) sm;
              sm2 = poke attackerAddr ((acc_at attackerAddr sm1)\<lparr>AvailableBalance := 0,
                      StakedBalance := 0, NodeType := NodeRegular\<rparr>) sm1;
              sm3 = UpdateAccount (acc_at attackerAddr sm2) sm2
          in (Inr (), UpdateAccount (acc_at GenesisAddress sm3) sm3))))"

text \<open>Steps 4 and 5 of \<^verbatim>\<open>executeTransfer\<close>: the fee goes to the genesis account unless that is the
  receiver, then both parties are marked.\<close>

definition payGasFee :: "'s store_ops \<Rightarrow> transaction \<Rightarrow> ('s state_manager, unit) step" where
  "payGasFee S tx =
     (if To tx \<noteq> GenesisAddress
      then bindS (GetAccount S GenesisAddress) (\<lambda>genesis sm.
        let sm' = poke GenesisAddress (AddBalance (GasFee tx) genesis) sm
        in (Inr (), UpdateAccount (acc_at GenesisAddress sm') sm'))
      else (\<lambda>sm. (Inr (), sm)))"

definition updateParties :: "transaction \<Rightarrow> 's state_manager \<Rightarrow> 's state_manager" where
  "updateParties tx sm = (let sm' = UpdateAccount (acc_at (From tx) sm) sm
     in UpdateAccount (acc_at (To tx) sm') sm')"

definition executeTransfer :: "'s store_ops \<Rightarrow> transaction \<Rightarrow> ('s state_manager, unit) step" where
  "executeTransfer S tx =
     bindS (GetAccount S (From tx)) (\<lambda>sender.
     bindS (GetAccount S (To tx)) (\<lambda>receiver sm.
       case SubBalance (Amount tx + GasFee tx) sender of
         Inl e \<Rightarrow> (Inl e, sm)
       | Inr sender1 \<Rightarrow>
           (let sm1 = poke (From tx) (sender1\<lparr>Nonce := Nonce sender1 + 1\<rparr>) sm;
                sm2 = poke (To tx) (AddBalance (Amount tx) (acc_at (To tx) sm1)) sm1
            in bindS (payGasFee S tx) (\<lambda>_ sm3. (Inr (), updateParties tx sm3)) sm2)))"

definition executeStake ::
    "'s store_ops \<Rightarrow> ConsensusConfig \<Rightarrow> transaction \<Rightarrow> ('s state_manager, unit) step" where
  "executeStake S cfg tx =
     bindS (GetAccount S (From tx)) (\<lambda>account sm.
       let wasValidator = IsValidator cfg account in
       case Stake (Amount tx) account of
         Inl e \<Rightarrow> (Inl e, sm)
       | Inr account1 \<Rightarrow>
           (let account2 = account1\<lparr>Nonce := Nonce account1 + 1\<rparr>;
                sm1 = UpdateAccount account2 (poke (From tx) account2 sm);
                isNowValidator = IsValidator cfg account2
            in (Inr (), if \<not> wasValidator \<and> isNowValidator \<and> callbacksSet sm1
                  then sm1\<lparr>validatorEvents := validatorEvents sm1
                             @ [ValidatorAdded (From tx) (StakedBalance account2)]\<rparr>
                  else sm1)))"

definition executeUnstake ::
    "'s store_ops \<Rightarrow> ConsensusConfig \<Rightarrow> transaction \<Rightarrow> ('s state_manager, unit) step" where
  "executeUnstake S cfg tx =
     bindS (GetAccount S (From tx)) (\<lambda>account sm.
       let wasValidator = IsValidator cfg account in
       case Unstake (Amount tx) account of
         Inl e \<Rightarrow> (Inl e, sm)
       | Inr account1 \<Rightarrow>
           (let account2 = account1\<lparr>Nonce := Nonce account1 + 1\<rparr>;
                sm1 = UpdateAccount account2 (poke (From tx) account2 sm);
                isNowValidator = IsValidator cfg account2
            in (Inr (), if wasValidator \<and> \<not> isNowValidator \<and> callbacksSet sm1
                  then sm1\<lparr>validatorEvents := validatorEvents sm1 @ [ValidatorRemoved (From tx)]\<rparr>
                  else sm1)))"

definition executeSystemTx :: "'s store_ops \<Rightarrow> transaction \<Rightarrow> ('s state_manager, unit) step" where
  "executeSystemTx S tx =
     (if (Type tx = TxReward \<or> Type tx = TxSlash) \<and> From tx = GenesisAddress \<and> To tx = GenesisAddress
      then (\<lambda>sm. (Inr (), sm))
      else if From tx = '''' then
        bindS (GetAccount S (To tx)) (\<lambda>receiver sm.
          let sm1 = poke (To tx) (AddBalance (Amount tx) receiver) sm
          in (Inr (), UpdateAccount (acc_at (To tx) sm1) sm1))
      else if Type tx = TxReward then
        bindS (GetAccount S GenesisAddress) (\<lambda>genesis sm.
          case SubBalance (Amount tx) genesis of
            Inl e \<Rightarrow> (Inl (GenesisInsufficient e), sm)
          | Inr genesis1 \<Rightarrow>
              bindS (GetAccount S (To tx)) (\<lambda>receiver sm2.
                let sm3 = poke (To tx) (AddBalance (Amount tx) receiver) sm2
                in (Inr (), UpdateAccount (acc_at (To tx) sm3) sm3))
                (UpdateAccount genesis1 (poke GenesisAddress genesis1 sm)))
      else if Type tx = TxSlash then
        bindS (GetAccount S (From tx)) (\<lambda>slashed sm.
          case SubBalance (Amount tx) slashed of
            Inl e \<Rightarrow> (Inl (SlashedInsufficient e), sm)
          | Inr slashed1 \<Rightarrow>
              bindS (GetAccount S GenesisAddress) (\<lambda>genesis sm2.
                let sm3 = poke GenesisAddress (AddBalance (Amount tx) genesis) sm2
                in (Inr (), UpdateAccount (acc_at GenesisAddress sm3) sm3))
                (UpdateAccount slashed1 (poke (From tx) slashed1 sm)))
      else (\<lambda>sm. (Inr (), sm)))"

text \<open>Step 3 of \<^verbatim>\<open>ExecuteTransaction\<close>: the balance the transaction type draws on.\<close>

definition checkSenderBalance :: "transaction \<Rightarrow> account \<Rightarrow> error option" where
  "checkSenderBalance tx sender =
     (if Type tx = TxUnstake then
        (if StakedBalance sender < Amount tx
         then Some (InsufficientStake (StakedBalance sender) (Amount tx)) else None)
      else let requiredBalance = (if RequiresGasFee (Type tx) then Amount tx + GasFee tx else Amount tx)
           in if AvailableBalance sender < requiredBalance
              then Some (InsufficientBalance (AvailableBalance sender) requiredBalance) else None)"

definition punish :: "('s state_manager, unit) step \<Rightarrow> ('s state_manager, unit) step" where
  "punish confiscation sm = (case confiscation sm of
     (Inl e, sm') \<Rightarrow> (Inl (PunishmentFailed e), sm')
   | (Inr _, sm') \<Rightarrow> (Inr (), sm'))"

definition ExecuteTransaction ::
    "'s store_ops \<Rightarrow> ConsensusConfig \<Rightarrow> crypto_lib \<Rightarrow> i64 \<Rightarrow> bool \<Rightarrow> transaction
     \<Rightarrow> ('s state_manager, unit) step" where
  "ExecuteTransaction S cfg cl now skipTimestampCheck tx sm =
     (if IsSystemTx (Type tx) then executeSystemTx S tx sm
      else case Tx_Validate cfg now skipTimestampCheck tx of
        Inl e \<Rightarrow> (Inl (InvalidTx e), sm)
      | Inr _ \<Rightarrow>
          if \<not> Verify cl (PublicKey tx) (SignData tx) (Signature tx)
          then punish (confiscateAllFunds S (From tx)) sm
          else case AddressFromPublicKey (sha3_256 cl) (PublicKey tx) of
            Inl e \<Rightarrow> (Inl e, sm)
          | Inr derivedAddress \<Rightarrow>
              if derivedAddress \<noteq> From tx then punish (confiscateAllFunds S derivedAddress) sm
              else bindS (GetAccount S (From tx)) (\<lambda>sender sm1.
                case checkSenderBalance tx sender of
                  Some e \<Rightarrow> (Inl e, sm1)
                | None \<Rightarrow>
                    if TxNonce tx \<noteq> Nonce sender then (Inl (InvalidNonce (Nonce sender) (TxNonce tx)), sm1)
                    else if Type tx = TxTransfer then executeTransfer S tx sm1
                    else if Type tx = TxStake then executeStake S cfg tx sm1
                    else if Type tx = TxUnstake then executeUnstake S cfg tx sm1
                    else (Inl (UnknownTxType (Type tx)), sm1)) sm)"

definition GetBalance :: "'s store_ops \<Rightarrow> string \<Rightarrow> ('s state_manager, u64) step" where
  "GetBalance S address = bindS (GetAccount S address) (\<lambda>acc sm. (Inr (AvailableBalance acc), sm))"

definition GetNonce :: "'s store_ops \<Rightarrow> string \<Rightarrow> ('s state_manager, u64) step" where
  "GetNonce S address = bindS (GetAccount S address) (\<lambda>acc sm. (Inr (Nonce acc), sm))"

section \<open>Snapshots and reloading\<close>

record StateSnapshot =
  snap_accountCache :: "(string, account) gomap"
  snap_dirtyAccounts :: "string list"

definition CreateSnapshot :: "'s state_manager \<Rightarrow> StateSnapshot" where
  "CreateSnapshot sm = \<lparr>snap_accountCache = accountCache sm, snap_dirtyAccounts = dirtyAccounts sm\<rparr>"

definition RestoreSnapshot :: "StateSnapshot \<Rightarrow> 's state_manager \<Rightarrow> 's state_manager" where
  "RestoreSnapshot snapshot sm = sm\<lparr>accountCache := snap_accountCache snapshot,
     dirtyAccounts := snap_dirtyAccounts snapshot\<rparr>"

definition ImportSnapshot :: "'s store_ops \<Rightarrow> account list \<Rightarrow> ('s state_manager, unit) step" where
  "ImportSnapshot S accounts sm = Commit S (foldl (\<lambda>s acc. UpdateAccount acc s) sm accounts)"

definition ClearCache :: "'s state_manager \<Rightarrow> 's state_manager" where
  "ClearCache sm = sm\<lparr>accountCache := [], dirtyAccounts := []\<rparr>"

text \<open>The height is only logged.\<close>

definition ReloadStateFromHeight :: "'s store_ops \<Rightarrow> u64 \<Rightarrow> ('s state_manager, unit) step" where
  "ReloadStateFromHeight S targetHeight sm =
     (let sm1 = ClearCache sm in case st_all S (sm_db sm1) of
        Inl e \<Rightarrow> (Inl e, sm1)
      | Inr accounts \<Rightarrow> (Inr (), sm1\<lparr>accountCache :=
          foldl (\<lambda>m acc. AList.update (Address acc) acc m) [] accounts\<rparr>))"

section \<open>Supply checks\<close>

definition VerifyTotalSupplyFast :: "'s state_manager \<Rightarrow> u64 \<times> bool" where
  "VerifyTotalSupplyFast sm =
     (let cacheTotal = map_supply (accountCache sm) in
      if trackerInitialized sm \<and> totalSupplyTracker sm \<noteq> TOTAL_SUPPLY
      then (totalSupplyTracker sm, False) else (cacheTotal, True))"

definition VerifyTotalSupply :: "'s store_ops \<Rightarrow> ('s state_manager, u64 \<times> bool) step" where
  "VerifyTotalSupply S sm = (case st_all S (sm_db sm) of
     Inl e \<Rightarrow> (Inl e, sm)
   | Inr accounts \<Rightarrow>
       (let totalSupply = map_supply (accountMap accounts (accountCache sm));
            sm1 = (if trackerInitialized sm \<and> totalSupplyTracker sm \<noteq> totalSupply
                   then sm\<lparr>totalSupplyTracker := totalSupply\<rparr> else sm)
        in (Inr (totalSupply, totalSupply = TOTAL_SUPPLY), sm1)))"

definition VerifyTotalSupplyDual :: "'s store_ops \<Rightarrow> ('s state_manager, u64 \<times> bool) step" where
  "VerifyTotalSupplyDual S sm =
     (let fastOK = snd (VerifyTotalSupplyFast sm) in
      bindS (VerifyTotalSupply S) (\<lambda>(fullSupply, fullOK) sm'.
        if fastOK \<noteq> fullOK then (Inr (fullSupply, False), sm') else (Inr (fullSupply, fullOK), sm')) sm)"

definition GetAllAccountsMerged :: "'s store_ops \<Rightarrow> 's state_manager \<Rightarrow> error + account list" where
  "GetAllAccountsMerged S sm = (case st_all S (sm_db sm) of
     Inl e \<Rightarrow> Inl e
   | Inr dbAccounts \<Rightarrow> Inr (map snd (accountMap dbAccounts (accountCache sm))))"

end
