(* ===== verification/Ledger_Refinement.thy ===== *)
theory Ledger_Refinement
  imports State_Manager
begin

text \<open>
  The contract of the state manager and the proof that it is implemented. The abstract state is
  a ledger, a total function from addresses to accounts; \<open>exec_spec\<close> is the effect of one
  transaction on it. The proofs run over any store that satisfies \<open>account_store\<close>, with a
  representation predicate \<open>repr\<close> that follows the ledger through every pointer write, and
  the results are then read off for the sharded store.
\<close>

section \<open>The abstract ledger\<close>

type_synonym ledger = "string \<Rightarrow> account"

definition credit :: "string \<Rightarrow> u64 \<Rightarrow> ledger \<Rightarrow> ledger" where
  "credit a n L = L(a := AddBalance n (L a))"

definition debit :: "string \<Rightarrow> u64 \<Rightarrow> ledger \<Rightarrow> ledger" where
  "debit a n L = L(a := (L a)\<lparr>AvailableBalance := AvailableBalance (L a) - n\<rparr>)"

definition bump_nonce :: "string \<Rightarrow> ledger \<Rightarrow> ledger" where
  "bump_nonce a L = L(a := (L a)\<lparr>Nonce := Nonce (L a) + 1\<rparr>)"

definition confiscate_spec :: "string \<Rightarrow> ledger \<Rightarrow> error + ledger" where
  "confiscate_spec a L =
     (if a = GenesisAddress then Inl GenesisExempt
      else if TotalBalance (L a) = 0 then Inr L
      else Inr ((credit GenesisAddress (TotalBalance (L a)) L)
        (a := (L a)\<lparr>AvailableBalance := 0, StakedBalance := 0, NodeType := NodeRegular\<rparr>)))"

definition transfer_spec :: "transaction \<Rightarrow> ledger \<Rightarrow> error + ledger" where
  "transfer_spec tx L = (case SubBalance (Amount tx + GasFee tx) (L (From tx)) of
     Inl e \<Rightarrow> Inl e
   | Inr _ \<Rightarrow>
       let L' = credit (To tx) (Amount tx) (bump_nonce (From tx) (debit (From tx) (Amount tx + GasFee tx) L))
       in Inr (if To tx = GenesisAddress then L' else credit GenesisAddress (GasFee tx) L'))"

definition stake_spec :: "(u64 \<Rightarrow> account \<Rightarrow> error + account) \<Rightarrow> transaction \<Rightarrow> ledger \<Rightarrow> error + ledger" where
  "stake_spec move tx L = (case move (Amount tx) (L (From tx)) of
     Inl e \<Rightarrow> Inl e
   | Inr acc \<Rightarrow> Inr (bump_nonce (From tx) (L(From tx := acc))))"

definition system_spec :: "transaction \<Rightarrow> ledger \<Rightarrow> error + ledger" where
  "system_spec tx L =
     (if From tx = GenesisAddress \<and> To tx = GenesisAddress then Inr L
      else if From tx = '''' then Inr (credit (To tx) (Amount tx) L)
      else if Type tx = TxReward then
        (case SubBalance (Amount tx) (L GenesisAddress) of
           Inl e \<Rightarrow> Inl (GenesisInsufficient e)
         | Inr _ \<Rightarrow> Inr (credit (To tx) (Amount tx) (debit GenesisAddress (Amount tx) L)))
      else (case SubBalance (Amount tx) (L (From tx)) of
           Inl e \<Rightarrow> Inl (SlashedInsufficient e)
         | Inr _ \<Rightarrow> Inr (credit GenesisAddress (Amount tx) (debit (From tx) (Amount tx) L))))"

definition punish_spec :: "error + ledger \<Rightarrow> error + ledger" where
  "punish_spec r = (case r of Inl e \<Rightarrow> Inl (PunishmentFailed e) | Inr L \<Rightarrow> Inr L)"

definition exec_spec ::
    "ConsensusConfig \<Rightarrow> crypto_lib \<Rightarrow> i64 \<Rightarrow> bool \<Rightarrow> transaction \<Rightarrow> ledger \<Rightarrow> error + ledger" where
  "exec_spec cfg cl now skip tx L =
     (if IsSystemTx (Type tx) then system_spec tx L
      else case Tx_Validate cfg now skip tx of
        Inl e \<Rightarrow> Inl (InvalidTx e)
      | Inr _ \<Rightarrow>
          let owner = DeriveAddress (sha3_256 cl) (PublicKey tx) in
          if \<not> Verify cl (PublicKey tx) (SignData tx) (Signature tx)
          then punish_spec (confiscate_spec (From tx) L)
          else if owner \<noteq> From tx then punish_spec (confiscate_spec owner L)
          else case checkSenderBalance tx (L owner) of
            Some e \<Rightarrow> Inl e
          | None \<Rightarrow>
              if TxNonce tx \<noteq> Nonce (L owner) then Inl (InvalidNonce (Nonce (L owner)) (TxNonce tx))
              else if Type tx = TxTransfer then transfer_spec tx L
              else if Type tx = TxStake then stake_spec Stake tx L
              else if Type tx = TxUnstake then stake_spec Unstake tx L
              else Inl (UnknownTxType (Type tx)))"

text \<open>The total supply of a ledger, modulo \<open>2 ^ 64\<close> as the Go code adds it up; all but finitely
  many accounts are empty.\<close>

definition ledger_supply :: "ledger \<Rightarrow> u64" where
  "ledger_supply L = (\<Sum>a | TotalBalance (L a) \<noteq> 0. TotalBalance (L a))"

definition finite_ledger :: "ledger \<Rightarrow> bool" where
  "finite_ledger L \<longleftrightarrow> finite {a. TotalBalance (L a) \<noteq> 0}"

lemma ledger_supply_superset:
  assumes "finite A" and "{a. TotalBalance (L a) \<noteq> 0} \<subseteq> A"
  shows "ledger_supply L = (\<Sum>a\<in>A. TotalBalance (L a))"
  unfolding ledger_supply_def using assms by (intro sum.mono_neutral_left) auto

lemma finite_ledger_upd [simp]: "finite_ledger L \<Longrightarrow> finite_ledger (L(a := x))"
proof -
  have "{b. TotalBalance ((L(a := x)) b) \<noteq> 0} \<subseteq> insert a {b. TotalBalance (L b) \<noteq> 0}" by auto
  then show "finite_ledger L \<Longrightarrow> ?thesis"
    unfolding finite_ledger_def by (meson finite_insert finite_subset)
qed

lemma ledger_supply_upd [ledger_simps]:
  assumes "finite_ledger L"
  shows "ledger_supply (L(a := x)) = ledger_supply L + TotalBalance x - TotalBalance (L a)"
proof -
  let ?A = "insert a {b. TotalBalance (L b) \<noteq> 0}"
  have fin: "finite ?A" using assms by (simp add: finite_ledger_def)
  have "ledger_supply (L(a := x)) = (\<Sum>b\<in>?A. TotalBalance ((L(a := x)) b))"
    by (rule ledger_supply_superset[OF fin]) auto
  also have "\<dots> = TotalBalance x + (\<Sum>b\<in>?A - {a}. TotalBalance (L b))"
    using fin by (subst sum.remove[of _ a]) (auto intro!: sum.cong)
  also have "(\<Sum>b\<in>?A - {a}. TotalBalance (L b)) = (\<Sum>b\<in>?A. TotalBalance (L b)) - TotalBalance (L a)"
    by (subst sum.remove[OF fin, of a]) auto
  also have "(\<Sum>b\<in>?A. TotalBalance (L b)) = ledger_supply L"
    by (rule ledger_supply_superset[OF fin, symmetric]) auto
  finally show ?thesis by (simp only: add_diff_eq add.commute)
qed

lemma finite_ledger_ops [simp]:
  "finite_ledger L \<Longrightarrow> finite_ledger (credit a n L)"
  "finite_ledger L \<Longrightarrow> finite_ledger (debit a n L)"
  "finite_ledger L \<Longrightarrow> finite_ledger (bump_nonce a L)"
  by (simp_all add: credit_def debit_def bump_nonce_def)

lemma TotalBalance_set_available:
  "TotalBalance (x\<lparr>AvailableBalance := AvailableBalance x - n\<rparr>) = TotalBalance x - n"
  by (simp add: TotalBalance_def)

lemma TotalBalance_emptied: "TotalBalance (x\<lparr>AvailableBalance := 0, StakedBalance := 0\<rparr>) = 0"
  by (simp add: TotalBalance_def)

lemma ledger_supply_ops [ledger_simps]:
  assumes "finite_ledger L"
  shows "ledger_supply (credit a n L) = ledger_supply L + n"
    and "ledger_supply (debit a n L) = ledger_supply L - n"
    and "ledger_supply (bump_nonce a L) = ledger_supply L"
  using assms
  by (simp_all add: credit_def debit_def bump_nonce_def ledger_supply_upd TotalBalance_set_available)

section \<open>Supply under the specification\<close>

text \<open>How much a transaction changes the supply: the fee of a transfer to the genesis account
  is taken from the sender and credited to nobody, and a system transaction without sender
  creates its amount.\<close>

definition executes :: "crypto_lib \<Rightarrow> transaction \<Rightarrow> bool" where
  "executes cl tx \<longleftrightarrow> Verify cl (PublicKey tx) (SignData tx) (Signature tx)
     \<and> DeriveAddress (sha3_256 cl) (PublicKey tx) = From tx"

definition supply_delta :: "crypto_lib \<Rightarrow> transaction \<Rightarrow> u64" where
  "supply_delta cl tx =
     (if IsSystemTx (Type tx) then (if From tx = '''' then Amount tx else 0)
      else if Type tx = TxTransfer \<and> To tx = GenesisAddress \<and> executes cl tx then - GasFee tx
      else 0)"

lemma confiscate_supply:
  assumes "finite_ledger L" and "confiscate_spec a L = Inr L'"
  shows "finite_ledger L' \<and> ledger_supply L' = ledger_supply L"
  using assms
  by (auto simp: confiscate_spec_def ledger_supply_upd credit_def TotalBalance_emptied split: if_splits)

lemma stake_supply:
  assumes "finite_ledger L" and "stake_spec move tx L = Inr L'"
    and "\<And>n x x'. move n x = Inr x' \<Longrightarrow> TotalBalance x' = TotalBalance x"
  shows "finite_ledger L' \<and> ledger_supply L' = ledger_supply L"
  using assms by (auto simp: stake_spec_def ledger_supply_ops ledger_supply_upd split: sum.splits)

lemma transfer_supply:
  assumes "finite_ledger L" and "transfer_spec tx L = Inr L'"
  shows "finite_ledger L' \<and>
    ledger_supply L' = ledger_supply L - (if To tx = GenesisAddress then GasFee tx else 0)"
  using assms by (auto simp: transfer_spec_def Let_def ledger_supply_ops split: sum.splits)

lemma system_supply:
  assumes "finite_ledger L" and "system_spec tx L = Inr L'"
  shows "finite_ledger L' \<and>
    ledger_supply L' = ledger_supply L + (if From tx = '''' then Amount tx else 0)"
  using assms
  by (auto simp: system_spec_def ledger_supply_ops GenesisAddress_def split: sum.splits if_splits)

lemma exec_spec_supply:
  assumes "finite_ledger L" and "exec_spec cfg cl now skip tx L = Inr L'"
  shows "finite_ledger L' \<and> ledger_supply L' = ledger_supply L + supply_delta cl tx"
proof (cases "IsSystemTx (Type tx)")
  case True
  with assms system_supply[of L tx L'] show ?thesis
    by (simp add: exec_spec_def supply_delta_def)
next
  case False
  let ?owner = "DeriveAddress (sha3_256 cl) (PublicKey tx)"
  from assms(2) False consider
    (forged) a where "confiscate_spec a L = Inr L'" "\<not> executes cl tx"
  | (transfer) "Type tx = TxTransfer" "executes cl tx" "transfer_spec tx L = Inr L'"
  | (stake) "Type tx = TxStake" "stake_spec Stake tx L = Inr L'"
  | (unstake) "Type tx = TxUnstake" "stake_spec Unstake tx L = Inr L'"
    by (auto simp: exec_spec_def punish_spec_def Let_def executes_def split: sum.splits if_splits option.splits)
  then show ?thesis
  proof cases
    case forged
    with confiscate_supply[OF assms(1)] False show ?thesis by (simp add: supply_delta_def)
  next
    case transfer
    with transfer_supply[OF assms(1)] False show ?thesis by (simp add: supply_delta_def)
  next
    case stake
    then show ?thesis using stake_supply[OF assms(1) stake(2)] False
      by (auto simp: supply_delta_def dest: Stake_InrD)
  next
    case unstake
    then show ?thesis using stake_supply[OF assms(1) unstake(2)] False
      by (auto simp: supply_delta_def dest: Unstake_InrD)
  qed
qed

section \<open>Representation\<close>

definition or_new :: "string \<Rightarrow> account option \<Rightarrow> account" where
  "or_new a m = (case m of Some x \<Rightarrow> x | None \<Rightarrow> NewAccount a)"

lemma or_new_simps [simp]: "or_new a (Some x) = x" "or_new a None = NewAccount a"
  by (simp_all add: or_new_def)

definition view :: "('s \<Rightarrow> string \<rightharpoonup> account) \<Rightarrow> 's state_manager \<Rightarrow> string \<rightharpoonup> account" where
  "view acct sm = acct (sm_db sm) ++ map_of (accountCache sm)"

definition ledger :: "('s \<Rightarrow> string \<rightharpoonup> account) \<Rightarrow> 's state_manager \<Rightarrow> ledger" where
  "ledger acct sm a = or_new a (view acct sm a)"

text \<open>What is in the store alone, as a restarted node would read it.\<close>

definition durable :: "('s \<Rightarrow> string \<rightharpoonup> account) \<Rightarrow> 's \<Rightarrow> ledger" where
  "durable acct db a = or_new a (acct db a)"

definition sm_wf :: "('s \<Rightarrow> bool) \<Rightarrow> 's state_manager \<Rightarrow> bool" where
  "sm_wf sinv sm \<longleftrightarrow> sinv (sm_db sm) \<and> gomap_wf (accountCache sm)
     \<and> (\<forall>a x. map_of (accountCache sm) a = Some x \<longrightarrow> Address x = a)
     \<and> distinct (dirtyAccounts sm) \<and> set (dirtyAccounts sm) \<subseteq> dom (map_of (accountCache sm))"

text \<open>A cache entry that is neither dirty nor in \<open>P\<close> agrees with the store.\<close>

definition coherent_upto :: "('s \<Rightarrow> string \<rightharpoonup> account) \<Rightarrow> string set \<Rightarrow> 's state_manager \<Rightarrow> bool" where
  "coherent_upto acct P sm \<longleftrightarrow> (\<forall>a x. map_of (accountCache sm) a = Some x \<longrightarrow>
     a \<notin> P \<longrightarrow> a \<notin> set (dirtyAccounts sm) \<longrightarrow> x = durable acct (sm_db sm) a)"

abbreviation cached :: "'s state_manager \<Rightarrow> string set" where
  "cached sm \<equiv> dom (map_of (accountCache sm))"

lemma UpdateAccount_simps [simp]:
  "sm_db (UpdateAccount x sm) = sm_db sm"
  "map_of (accountCache (UpdateAccount x sm)) = (map_of (accountCache sm))(Address x \<mapsto> x)"
  "set (dirtyAccounts (UpdateAccount x sm)) = insert (Address x) (set (dirtyAccounts sm))"
  by (simp_all add: UpdateAccount_def)

lemma poke_simps [simp]:
  "sm_db (poke a x sm) = sm_db sm"
  "map_of (accountCache (poke a x sm)) = (map_of (accountCache sm))(a \<mapsto> x)"
  "dirtyAccounts (poke a x sm) = dirtyAccounts sm"
  by (simp_all add: poke_def)

context account_store
begin

text \<open>\<open>repr db L P sm\<close>: the manager runs on \<open>db\<close>, shows the ledger \<open>L\<close>, and only the entries in
  \<open>P\<close> were changed through a pointer without having been marked dirty yet.\<close>

definition repr :: "'s \<Rightarrow> ledger \<Rightarrow> string set \<Rightarrow> 's state_manager \<Rightarrow> bool" where
  "repr db L P sm \<longleftrightarrow> sm_wf store_inv sm \<and> sm_db sm = db \<and> ledger acct sm = L \<and> coherent_upto acct P sm
     \<and> P \<subseteq> cached sm"

lemma repr_cached: "repr db L P sm \<Longrightarrow> a \<in> cached sm \<Longrightarrow> map_of (accountCache sm) a = Some (L a)"
  by (auto simp: repr_def ledger_def view_def)

lemma repr_acc_at [simp]: "repr db L P sm \<Longrightarrow> a \<in> cached sm \<Longrightarrow> acc_at a sm = L a"
  by (simp add: acc_at_def repr_cached)

lemma repr_Address [simp]: "repr db L P sm \<Longrightarrow> Address (L a) = a"
  using acct_address
  by (auto simp: repr_def ledger_def view_def sm_wf_def or_new_def map_add_def split: option.splits)

lemma repr_get:
  assumes "repr db L P sm" and "GetAccount S a sm = (Inr x, sm')"
  shows "x = L a" "repr db L P sm'" "a \<in> cached sm'" "cached sm \<subseteq> cached sm'"
proof -
  have "x = L a \<and> repr db L P sm' \<and> a \<in> cached sm' \<and> cached sm \<subseteq> cached sm'"
  proof (cases "map_of (accountCache sm) a")
    case None
    with assms(2) have x: "st_get S (sm_db sm) a = Inr x"
      and sm': "sm' = sm\<lparr>accountCache := AList.update a x (accountCache sm)\<rparr>"
      by (auto simp: GetAccount_def split: sum.splits)
    have wf: "sm_wf store_inv sm" using assms(1) by (simp add: repr_def)
    then have inv: "store_inv (sm_db sm)" by (simp add: sm_wf_def)
    have xd: "x = durable acct (sm_db sm) a"
      using get_ok[OF inv x] by (simp add: durable_def or_new_def)
    then have addr: "Address x = a"
      using acct_address[OF inv, of a] by (auto simp: durable_def or_new_def split: option.splits)
    have L: "L a = x"
      using assms(1) None xd by (auto simp: repr_def ledger_def view_def map_add_def durable_def)
    have "ledger acct sm' = L"
      using assms(1) L xd by (auto simp: repr_def ledger_def view_def sm' map_add_def durable_def fun_eq_iff)
    moreover have "sm_wf store_inv sm'"
      using wf addr by (auto simp: sm_wf_def sm')
    moreover have "coherent_upto acct P sm'"
      using assms(1) xd by (auto simp: repr_def coherent_upto_def sm')
    ultimately show ?thesis
      using assms(1) L by (auto simp: repr_def sm')
  next
    case (Some y)
    with assms show ?thesis
      by (auto simp: GetAccount_def repr_def ledger_def view_def)
  qed
  then show "x = L a" "repr db L P sm'" "a \<in> cached sm'" "cached sm \<subseteq> cached sm'" by blast+
qed

lemma get_err: "GetAccount S a sm = (Inl e, sm') \<Longrightarrow> sm' = sm \<and> st_get S (sm_db sm) a = Inl e"
  by (auto simp: GetAccount_def split: option.splits sum.splits)

lemma repr_poke:
  assumes "repr db L P sm" and "a \<in> cached sm" and "Address x = a"
  shows "repr db (L(a := x)) (insert a P) (poke a x sm)"
proof -
  have "ledger acct (poke a x sm) = L(a := x)"
    using assms(1) by (auto simp: repr_def ledger_def view_def map_add_def fun_eq_iff)
  moreover have "sm_wf store_inv (poke a x sm)"
    using assms by (auto simp: repr_def sm_wf_def poke_def)
  ultimately show ?thesis
    using assms by (auto simp: repr_def coherent_upto_def)
qed

lemma repr_update:
  assumes "repr db L P sm" and "a \<in> cached sm"
  shows "repr db L (P - {a}) (UpdateAccount (L a) sm)"
proof -
  note same = repr_cached[OF assms] and addr = repr_Address[OF assms(1), of a]
  let ?sm = "UpdateAccount (L a) sm"
  have c: "map_of (accountCache ?sm) = map_of (accountCache sm)"
    using addr same map_upd_triv[of "map_of (accountCache sm)" a "L a"] by simp
  have "ledger acct ?sm = L"
    using assms(1) unfolding repr_def ledger_def view_def by (auto simp: c simp del: UpdateAccount_simps(2))
  moreover have "sm_wf store_inv ?sm"
    using assms same addr by (auto simp: repr_def sm_wf_def UpdateAccount_def)
  moreover have "coherent_upto acct (P - {a}) ?sm"
    using assms(1) addr by (auto simp: repr_def coherent_upto_def c simp del: UpdateAccount_simps(2))
  ultimately show ?thesis
    using assms(1) by (auto simp: repr_def c simp del: UpdateAccount_simps(2))
qed

lemma cached_update [simp]:
  "repr db L P sm \<Longrightarrow> cached (UpdateAccount (L a) sm) = insert a (cached sm)"
  "cached (poke a x sm) = insert a (cached sm)"
  by auto

text \<open>The idiom of every handler: write through the pointer, then mark dirty.\<close>

lemma repr_write:
  assumes "repr db L P sm" and "a \<in> cached sm" and "Address x = a"
  shows "repr db (L(a := x)) (P - {a}) (UpdateAccount x (poke a x sm))"
  using repr_update[OF repr_poke[OF assms], of a] by simp

lemma repr_events [simp]: "repr db L P (sm\<lparr>validatorEvents := ev\<rparr>) = repr db L P sm"
  by (simp add: repr_def sm_wf_def coherent_upto_def ledger_def[abs_def] view_def[abs_def])

definition reads_ok :: "'s \<Rightarrow> bool" where
  "reads_ok db \<longleftrightarrow> (\<forall>a. \<exists>x. st_get S db a = Inr x)"

lemma outcome_get:
  assumes "repr db L P sm"
    and "\<And>sm'. repr db L P sm' \<Longrightarrow> a \<in> cached sm' \<Longrightarrow> cached sm \<subseteq> cached sm' \<Longrightarrow> Q (L a) sm'"
  shows "outcome (GetAccount S a) sm Q (\<lambda>e sm'. reads_ok db \<longrightarrow> R e sm')"
proof (cases "GetAccount S a sm")
  case (Pair r sm')
  show ?thesis
  proof (cases r)
    case (Inl e)
    with Pair get_err[of a sm e sm'] have "st_get S (sm_db sm) a = Inl e" by auto
    then have "\<not> reads_ok db" using assms(1) by (auto simp: reads_ok_def repr_def intro!: exI[of _ a])
    with Pair Inl show ?thesis by (simp add: outcome_def)
  next
    case (Inr x)
    with Pair repr_get[OF assms(1), of a x sm'] assms(2)[of sm'] show ?thesis by (simp add: outcome_def)
  qed
qed

text \<open>\<open>refines m f\<close>: where \<open>m\<close> succeeds it performs \<open>f\<close> on the ledger and leaves no unmarked
  change; where it fails on a store whose reads work, \<open>f\<close> fails with the same error and the
  ledger is untouched.\<close>

definition refines :: "('s state_manager, unit) step \<Rightarrow> (ledger \<Rightarrow> error + ledger) \<Rightarrow> bool" where
  "refines m f \<longleftrightarrow> (\<forall>db L sm. repr db L {} sm \<longrightarrow> outcome m sm
     (\<lambda>_ sm'. \<exists>L'. f L = Inr L' \<and> repr db L' {} sm')
     (\<lambda>e sm'. reads_ok db \<longrightarrow> f L = Inl e \<and> repr db L {} sm'))"

lemma refinesI:
  assumes "\<And>db L sm. repr db L {} sm \<Longrightarrow> outcome m sm
     (\<lambda>_ sm'. \<exists>L'. f L = Inr L' \<and> repr db L' {} sm')
     (\<lambda>e sm'. reads_ok db \<longrightarrow> f L = Inl e \<and> repr db L {} sm')"
  shows "refines m f"
  using assms by (simp add: refines_def)

lemma refinesD:
  assumes "refines m f" and "repr db L {} sm"
  shows "m sm = (Inr u, sm') \<Longrightarrow> \<exists>L'. f L = Inr L' \<and> repr db L' {} sm'"
    and "m sm = (Inl e, sm') \<Longrightarrow> reads_ok db \<Longrightarrow> f L = Inl e \<and> repr db L {} sm'"
  using assms unfolding refines_def outcome_def by force+

lemma repr_credit:
  assumes "repr db L P sm" and "a \<in> cached sm"
  shows "repr db (credit a n L) (insert a P) (poke a (AddBalance n (L a)) sm)"
  unfolding credit_def by (rule repr_poke[OF assms]) (simp add: repr_Address[OF assms(1)])

lemma credit_self: "credit a n L a = AddBalance n (L a)"
  by (simp add: credit_def)

lemma repr_credit_update:
  assumes "repr db L P sm" and "a \<in> cached sm"
  shows "repr db (credit a n L) (P - {a})
    (UpdateAccount (AddBalance n (L a)) (poke a (AddBalance n (L a)) sm))"
  using repr_update[OF repr_credit[OF assms], of a n] by (simp add: credit_self)

lemma repr_debit_update:
  assumes "repr db L P sm" and "a \<in> cached sm" and "SubBalance n (L a) = Inr x"
  shows "repr db (debit a n L) (P - {a}) (UpdateAccount x (poke a x sm))"
  using repr_write[OF assms(1,2), of x] repr_Address[OF assms(1), of a] assms(3)
  by (simp add: debit_def)

lemma acc_at_poke [simp]: "acc_at a (poke a x sm) = x"
  by (simp add: acc_at_def)

lemma confiscate_refines: "refines (confiscateAllFunds S a) (confiscate_spec a)"
proof (rule refinesI)
  fix db L sm
  assume r: "repr db L {} sm"
  let ?f = "TotalBalance (L a)"
  let ?Q = "\<lambda>_ sm'. \<exists>L'. confiscate_spec a L = Inr L' \<and> repr db L' {} sm'"
  let ?R = "\<lambda>e sm'. reads_ok db \<longrightarrow> confiscate_spec a L = Inl e \<and> repr db L {} sm'"
  have seize: "?Q () (let sm1 = poke GenesisAddress (AddBalance ?f (L GenesisAddress)) sm;
       sm2 = poke a ((acc_at a sm1)\<lparr>AvailableBalance := 0, StakedBalance := 0, NodeType := NodeRegular\<rparr>) sm1;
       sm3 = UpdateAccount (acc_at a sm2) sm2 in UpdateAccount (acc_at GenesisAddress sm3) sm3)"
    if g: "repr db L {} sm" "GenesisAddress \<in> cached sm" "a \<in> cached sm" and a: "a \<noteq> GenesisAddress" "?f \<noteq> 0" for sm
  proof -
    let ?x = "(L a)\<lparr>AvailableBalance := 0, StakedBalance := 0, NodeType := NodeRegular\<rparr>"
    let ?sm1 = "poke GenesisAddress (AddBalance ?f (L GenesisAddress)) sm"
    let ?sm3 = "UpdateAccount ?x (poke a ?x ?sm1)"
    let ?L = "(credit GenesisAddress ?f L)(a := ?x)"
    have r1: "repr db (credit GenesisAddress ?f L) {GenesisAddress} ?sm1"
      using repr_credit[OF g(1,2)] by simp
    have c: "a \<in> cached ?sm1" "GenesisAddress \<in> cached ?sm3" using g by auto
    have r3: "repr db ?L {GenesisAddress} ?sm3"
      using repr_write[OF r1 c(1), of ?x] repr_Address[OF g(1), of a] a by simp
    have "repr db ?L {} (UpdateAccount (?L GenesisAddress) ?sm3)"
      using repr_update[OF r3 c(2)] by simp
    moreover have "acc_at a ?sm1 = L a" using repr_acc_at[OF r1 c(1)] a by (simp add: credit_def)
    ultimately show ?thesis
      using repr_acc_at[OF r3 c(2)] a by (simp add: confiscate_spec_def Let_def)
  qed
  show "outcome (confiscateAllFunds S a) sm ?Q ?R"
  proof (cases "a = GenesisAddress")
    case True
    with r show ?thesis by (simp add: confiscateAllFunds_def confiscate_spec_def)
  next
    case a: False
    show ?thesis
      unfolding confiscateAllFunds_def if_not_P[OF a] outcome_bind
    proof (rule outcome_get[OF r])
      fix sm1
      assume g: "repr db L {} sm1" "a \<in> cached sm1"
      show "outcome (let totalFunds = AvailableBalance (L a) + StakedBalance (L a)
        in if totalFunds = 0 then Pair (Inr ())
           else bindS (GetAccount S GenesisAddress) (\<lambda>genesis sm.
             let sm1 = poke GenesisAddress (AddBalance totalFunds genesis) sm;
              sm2 = poke a ((acc_at a sm1)\<lparr>AvailableBalance := 0,
                      StakedBalance := 0, NodeType := NodeRegular\<rparr>) sm1;
              sm3 = UpdateAccount (acc_at a sm2) sm2
             in (Inr (), UpdateAccount (acc_at GenesisAddress sm3) sm3))) sm1 ?Q ?R"
      proof (cases "?f = 0")
        case True
        with a g show ?thesis by (simp add: confiscate_spec_def TotalBalance_def)
      next
        case False
        then show ?thesis
          unfolding TotalBalance_def[symmetric] Let_def[of "TotalBalance (L a)"] if_not_P[OF False] outcome_bind
          by (intro outcome_get[OF g(1)]) (use seize g a in \<open>auto simp: Let_def\<close>)
      qed
    qed
  qed
qed

text \<open>The last two lines of \<^verbatim>\<open>executeTransfer\<close> mark both parties dirty.\<close>

lemma repr_mark_parties:
  assumes "repr db L P sm" and "P \<subseteq> {a, b}" and "{a, b} \<subseteq> cached sm"
  shows "repr db L {} (let sm' = UpdateAccount (acc_at a sm) sm in UpdateAccount (acc_at b sm') sm')"
proof -
  let ?sm = "UpdateAccount (L a) sm"
  have r: "repr db L (P - {a}) ?sm" using repr_update[OF assms(1)] assms(3) by blast
  have b: "b \<in> cached ?sm" using assms(3) by (simp add: assms(1))
  have "P - {a} - {b} = {}" using assms(2) by blast
  then have "repr db L {} (UpdateAccount (L b) ?sm)"
    using repr_update[OF r b] by (simp only:)
  then show ?thesis
    using repr_acc_at[OF assms(1), of a] repr_acc_at[OF r b] assms(3) by (simp add: Let_def)
qed

lemma transfer_body_refines:
  assumes "repr db L {} sm" and "{From tx, To tx} \<subseteq> cached sm"
    and "SubBalance (Amount tx + GasFee tx) (L (From tx)) = Inr x"
  shows "repr db (credit (To tx) (Amount tx) (bump_nonce (From tx) (debit (From tx) (Amount tx + GasFee tx) L)))
    {From tx, To tx} (let sm1 = poke (From tx) (x\<lparr>Nonce := Nonce x + 1\<rparr>) sm
      in poke (To tx) (AddBalance (Amount tx) (acc_at (To tx) sm1)) sm1)"
proof -
  let ?x = "x\<lparr>Nonce := Nonce x + 1\<rparr>"
  let ?L = "bump_nonce (From tx) (debit (From tx) (Amount tx + GasFee tx) L)"
  let ?sm = "poke (From tx) ?x sm"
  have "?L = L(From tx := ?x)"
    using assms(3) by (simp add: bump_nonce_def debit_def)
  moreover have "Address ?x = From tx"
    using repr_Address[OF assms(1), of "From tx"] assms(3) by simp
  ultimately have r: "repr db ?L {From tx} ?sm"
    using repr_poke[OF assms(1), of "From tx" ?x] assms(2) by simp
  have T: "To tx \<in> cached ?sm" using assms(2) by simp
  from repr_credit[OF r T, of "Amount tx"] repr_acc_at[OF r T] show ?thesis
    by (simp add: Let_def insert_commute)
qed

lemma gas_fee_refines:
  assumes "repr db L {From tx, To tx} sm" and "{From tx, To tx} \<subseteq> cached sm"
  shows "outcome (payGasFee S tx) sm
    (\<lambda>_ sm'. repr db (if To tx = GenesisAddress then L else credit GenesisAddress (GasFee tx) L) {}
       (updateParties tx sm')) (\<lambda>e sm'. reads_ok db \<longrightarrow> R e sm')"
proof (cases "To tx = GenesisAddress")
  case True
  with repr_mark_parties[OF assms(1) subset_refl assms(2)] show ?thesis
    by (simp add: payGasFee_def updateParties_def)
next
  case False
  show ?thesis
    unfolding payGasFee_def if_P[OF False] outcome_bind
  proof (rule outcome_get[OF assms(1)])
    fix sm1
    assume c: "repr db L {From tx, To tx} sm1" "GenesisAddress \<in> cached sm1" "cached sm \<subseteq> cached sm1"
    let ?g = "AddBalance (GasFee tx) (L GenesisAddress)"
    have "{From tx, To tx} \<subseteq> cached (UpdateAccount ?g (poke GenesisAddress ?g sm1))"
      using assms(2) c(3) by auto
    from repr_mark_parties[OF repr_credit_update[OF c(1,2)] _ this] False
    show "outcome (\<lambda>sm. let sm' = poke GenesisAddress (AddBalance (GasFee tx) (L GenesisAddress)) sm
         in (Inr (), UpdateAccount (acc_at GenesisAddress sm') sm')) sm1
      (\<lambda>_ sm'. repr db (if To tx = GenesisAddress then L else credit GenesisAddress (GasFee tx) L) {}
         (updateParties tx sm')) (\<lambda>e sm'. reads_ok db \<longrightarrow> R e sm')"
      by (simp add: Let_def updateParties_def Diff_subset)
  qed
qed

lemma transfer_refines: "refines (executeTransfer S tx) (transfer_spec tx)"
proof (rule refinesI)
  fix db L sm
  assume r: "repr db L {} sm"
  let ?n = "Amount tx + GasFee tx"
  let ?L = "credit (To tx) (Amount tx) (bump_nonce (From tx) (debit (From tx) ?n L))"
  let ?Q = "\<lambda>_ sm'. \<exists>L'. transfer_spec tx L = Inr L' \<and> repr db L' {} sm'"
  let ?R = "\<lambda>e sm'. reads_ok db \<longrightarrow> transfer_spec tx L = Inl e \<and> repr db L {} sm'"
  show "outcome (executeTransfer S tx) sm ?Q ?R"
    unfolding executeTransfer_def outcome_bind
  proof (rule outcome_get[OF r], rule outcome_get, assumption)
    fix sm1 sm2
    assume c: "From tx \<in> cached sm1" "cached sm1 \<subseteq> cached sm2" "repr db L {} sm2" "To tx \<in> cached sm2"
    then have FT: "{From tx, To tx} \<subseteq> cached sm2" by blast
    show "outcome (\<lambda>sm. case SubBalance ?n (L (From tx)) of
         Inl e \<Rightarrow> (Inl e, sm)
       | Inr sender1 \<Rightarrow>
           (let sm1 = poke (From tx) (sender1\<lparr>Nonce := Nonce sender1 + 1\<rparr>) sm;
                sm2 = poke (To tx) (AddBalance (Amount tx) (acc_at (To tx) sm1)) sm1
            in bindS (payGasFee S tx) (\<lambda>_ sm3. (Inr (), updateParties tx sm3)) sm2)) sm2 ?Q ?R"
    proof (cases "SubBalance ?n (L (From tx))")
      case (Inl e)
      with c(3) show ?thesis by (simp add: transfer_spec_def)
    next
      case (Inr x)
      let ?sm = "let sm1 = poke (From tx) (x\<lparr>Nonce := Nonce x + 1\<rparr>) sm2
        in poke (To tx) (AddBalance (Amount tx) (acc_at (To tx) sm1)) sm1"
      have "{From tx, To tx} \<subseteq> cached ?sm" using FT by (simp add: Let_def)
      note fee = gas_fee_refines[OF transfer_body_refines[OF c(3) FT Inr] this]
      have spec: "transfer_spec tx L = Inr (if To tx = GenesisAddress then ?L else credit GenesisAddress (GasFee tx) ?L)"
        using Inr by (simp add: transfer_spec_def Let_def del: SubBalance_Inr_iff)
      have "outcome (bindS (payGasFee S tx) (\<lambda>_ sm3. (Inr (), updateParties tx sm3))) ?sm ?Q ?R"
        unfolding outcome_bind outcome_result using fee[of "\<lambda>e sm'. transfer_spec tx L = Inl e \<and> repr db L {} sm'"]
        by (simp only: spec sum.inject ex_simps simp_thms)
      then show ?thesis
        using Inr by (simp add: outcome_def Let_def del: SubBalance_Inr_iff)
    qed
  qed
qed

lemma repr_stake_write:
  assumes "repr db L {} sm" and "From tx \<in> cached sm" and "move (Amount tx) (L (From tx)) = Inr x"
    and "Address x = Address (L (From tx))"
  shows "repr db (bump_nonce (From tx) (L(From tx := x))) {}
    (UpdateAccount (x\<lparr>Nonce := Nonce x + 1\<rparr>) (poke (From tx) (x\<lparr>Nonce := Nonce x + 1\<rparr>) sm))"
  using repr_write[OF assms(1,2), of "x\<lparr>Nonce := Nonce x + 1\<rparr>"] repr_Address[OF assms(1), of "From tx"] assms(4)
  by (simp add: bump_nonce_def)

lemma stake_refines: "refines (executeStake S cfg tx) (stake_spec Stake tx)"
proof (rule refinesI)
  fix db L sm
  assume r: "repr db L {} sm"
  show "outcome (executeStake S cfg tx) sm
     (\<lambda>_ sm'. \<exists>L'. stake_spec Stake tx L = Inr L' \<and> repr db L' {} sm')
     (\<lambda>e sm'. reads_ok db \<longrightarrow> stake_spec Stake tx L = Inl e \<and> repr db L {} sm')"
    unfolding executeStake_def outcome_bind
    by (rule outcome_get[OF r], cases "Stake (Amount tx) (L (From tx))")
      (auto simp: stake_spec_def Let_def intro!: repr_stake_write dest: Stake_InrD(2))
qed

lemma unstake_refines: "refines (executeUnstake S cfg tx) (stake_spec Unstake tx)"
proof (rule refinesI)
  fix db L sm
  assume r: "repr db L {} sm"
  show "outcome (executeUnstake S cfg tx) sm
     (\<lambda>_ sm'. \<exists>L'. stake_spec Unstake tx L = Inr L' \<and> repr db L' {} sm')
     (\<lambda>e sm'. reads_ok db \<longrightarrow> stake_spec Unstake tx L = Inl e \<and> repr db L {} sm')"
    unfolding executeUnstake_def outcome_bind
    by (rule outcome_get[OF r], cases "Unstake (Amount tx) (L (From tx))")
      (auto simp: stake_spec_def Let_def intro!: repr_stake_write dest: Unstake_InrD(2))
qed

text \<open>The second half of a system transaction: load an account and credit it.\<close>

lemma outcome_credit:
  assumes "repr db L {} sm" and "\<And>sm'. repr db (credit a n L) {} sm' \<Longrightarrow> Q () sm'"
  shows "outcome (bindS (GetAccount S a) (\<lambda>acc sm.
      let sm1 = poke a (AddBalance n acc) sm in (Inr (), UpdateAccount (acc_at a sm1) sm1))) sm Q
    (\<lambda>e sm'. reads_ok db \<longrightarrow> R e sm')"
  unfolding outcome_bind
  by (rule outcome_get[OF assms(1)])
    (use assms(2) repr_credit_update[where P = "{}"] in \<open>simp add: Let_def\<close>)

lemma outcome_move:
  assumes "repr db L {} sm"
    and "\<And>sm' x. SubBalance n (L a) = Inr x \<Longrightarrow> repr db (credit b n (debit a n L)) {} sm' \<Longrightarrow> Q () sm'"
    and "\<And>sm' e. SubBalance n (L a) = Inl e \<Longrightarrow> repr db L {} sm' \<Longrightarrow> R (w e) sm'"
  shows "outcome (bindS (GetAccount S a) (\<lambda>acc sm.
      case SubBalance n acc of
        Inl e \<Rightarrow> (Inl (w e), sm)
      | Inr acc1 \<Rightarrow> bindS (GetAccount S b) (\<lambda>acc2 sm2.
          let sm3 = poke b (AddBalance n acc2) sm2 in (Inr (), UpdateAccount (acc_at b sm3) sm3))
          (UpdateAccount acc1 (poke a acc1 sm)))) sm Q
    (\<lambda>e sm'. reads_ok db \<longrightarrow> R e sm')"
  unfolding outcome_bind
proof (rule outcome_get[OF assms(1)])
  fix sm1
  assume c: "repr db L {} sm1" "a \<in> cached sm1"
  show "outcome (\<lambda>sm. case SubBalance n (L a) of
        Inl e \<Rightarrow> (Inl (w e), sm)
      | Inr acc1 \<Rightarrow> bindS (GetAccount S b) (\<lambda>acc2 sm2.
          let sm3 = poke b (AddBalance n acc2) sm2 in (Inr (), UpdateAccount (acc_at b sm3) sm3))
          (UpdateAccount acc1 (poke a acc1 sm))) sm1 Q (\<lambda>e sm'. reads_ok db \<longrightarrow> R e sm')"
  proof (cases "SubBalance n (L a)")
    case (Inl e)
    with c assms(3) show ?thesis by simp
  next
    case (Inr x)
    from repr_debit_update[OF c Inr] have r: "repr db (debit a n L) {} (UpdateAccount x (poke a x sm1))"
      by simp
    from outcome_credit[OF r, of b n Q R] assms(2)[OF Inr] show ?thesis
      by (simp add: outcome_def Inr del: SubBalance_Inr_iff)
  qed
qed

lemma system_refines:
  assumes "IsSystemTx (Type tx)"
  shows "refines (executeSystemTx S tx) (system_spec tx)"
proof (rule refinesI)
  fix db L sm
  assume r: "repr db L {} sm"
  let ?Q = "\<lambda>_ sm'. \<exists>L'. system_spec tx L = Inr L' \<and> repr db L' {} sm'"
  let ?R = "\<lambda>e sm'. system_spec tx L = Inl e \<and> repr db L {} sm'"
  have ty: "Type tx = TxReward \<or> Type tx = TxSlash" using assms by (simp add: IsSystemTx_def)
  consider (self) "From tx = GenesisAddress" "To tx = GenesisAddress"
    | (mint) "From tx = ''''" "From tx \<noteq> GenesisAddress"
    | (reward) "From tx \<noteq> ''''" "\<not> (From tx = GenesisAddress \<and> To tx = GenesisAddress)" "Type tx = TxReward"
    | (slash) "From tx \<noteq> ''''" "\<not> (From tx = GenesisAddress \<and> To tx = GenesisAddress)" "Type tx = TxSlash" "Type tx \<noteq> TxReward"
    using ty by (auto simp: GenesisAddress_def)
  then show "outcome (executeSystemTx S tx) sm ?Q (\<lambda>e sm'. reads_ok db \<longrightarrow> ?R e sm')"
  proof cases
    case self
    with ty r show ?thesis by (auto simp: executeSystemTx_def system_spec_def)
  next
    case mint
    with outcome_credit[OF r, of "To tx" "Amount tx" ?Q ?R] show ?thesis
      by (auto simp: executeSystemTx_def system_spec_def)
  next
    case reward
    with outcome_move[OF r, of "Amount tx" GenesisAddress "To tx" ?Q ?R GenesisInsufficient] show ?thesis
      by (auto simp: executeSystemTx_def system_spec_def simp del: SubBalance_Inr_iff)
  next
    case slash
    with outcome_move[OF r, of "Amount tx" "From tx" GenesisAddress ?Q ?R SlashedInsufficient] show ?thesis
      by (auto simp: executeSystemTx_def system_spec_def simp del: SubBalance_Inr_iff)
  qed
qed

lemma punish_refines: "refines m f \<Longrightarrow> refines (punish m) (\<lambda>L. punish_spec (f L))"
  by (fastforce simp: refines_def outcome_def punish_def punish_spec_def split: prod.splits sum.splits)

lemma refines_outcome:
  assumes "refines m f" and "repr db L {} sm" and "g L = f L"
  shows "outcome m sm (\<lambda>_ sm'. \<exists>L'. g L = Inr L' \<and> repr db L' {} sm')
     (\<lambda>e sm'. reads_ok db \<longrightarrow> g L = Inl e \<and> repr db L {} sm')"
  using assms by (simp add: refines_def)

text \<open>The dispatch after the signature and address checks.\<close>

lemma dispatch_refines:
  assumes "repr db L {} sm" and "DeriveAddress (sha3_256 cl) (PublicKey tx) = From tx"
    and "\<not> IsSystemTx (Type tx)" and "Tx_Validate cfg now skip tx = Inr ()"
    and "Verify cl (PublicKey tx) (SignData tx) (Signature tx)"
  shows "outcome (\<lambda>sm1. case checkSenderBalance tx (L (From tx)) of
        Some e \<Rightarrow> (Inl e, sm1)
      | None \<Rightarrow>
          if TxNonce tx \<noteq> Nonce (L (From tx)) then (Inl (InvalidNonce (Nonce (L (From tx))) (TxNonce tx)), sm1)
          else if Type tx = TxTransfer then executeTransfer S tx sm1
          else if Type tx = TxStake then executeStake S cfg tx sm1
          else if Type tx = TxUnstake then executeUnstake S cfg tx sm1
          else (Inl (UnknownTxType (Type tx)), sm1)) sm
     (\<lambda>_ sm'. \<exists>L'. exec_spec cfg cl now skip tx L = Inr L' \<and> repr db L' {} sm')
     (\<lambda>e sm'. reads_ok db \<longrightarrow> exec_spec cfg cl now skip tx L = Inl e \<and> repr db L {} sm')"
proof (cases "checkSenderBalance tx (L (From tx)) = None \<and> TxNonce tx = Nonce (L (From tx))")
  case False
  show ?thesis
  proof (cases "checkSenderBalance tx (L (From tx))")
    case None
    with False assms show ?thesis by (simp add: exec_spec_def Let_def)
  next
    case (Some e)
    with assms show ?thesis by (simp add: exec_spec_def Let_def)
  qed
next
  case True
  then have spec: "exec_spec cfg cl now skip tx L =
      (if Type tx = TxTransfer then transfer_spec tx L
       else if Type tx = TxStake then stake_spec Stake tx L
       else if Type tx = TxUnstake then stake_spec Unstake tx L
       else Inl (UnknownTxType (Type tx)))"
    using assms by (simp add: exec_spec_def Let_def)
  show ?thesis
    using True spec refines_outcome[OF transfer_refines assms(1)] refines_outcome[OF stake_refines assms(1)]
      refines_outcome[OF unstake_refines assms(1)] assms(1)
    by simp
qed

lemma execute_refines: "refines (ExecuteTransaction S cfg cl now skip tx) (exec_spec cfg cl now skip tx)"
proof (rule refinesI)
  fix db L sm
  assume r: "repr db L {} sm"
  let ?f = "exec_spec cfg cl now skip tx"
  let ?Q = "\<lambda>_ sm'. \<exists>L'. ?f L = Inr L' \<and> repr db L' {} sm'"
  let ?R = "\<lambda>e sm'. reads_ok db \<longrightarrow> ?f L = Inl e \<and> repr db L {} sm'"
  let ?owner = "DeriveAddress (sha3_256 cl) (PublicKey tx)"
  let ?v = "Verify cl (PublicKey tx) (SignData tx) (Signature tx)"
  consider (sys) "IsSystemTx (Type tx)"
    | (invalid) e where "\<not> IsSystemTx (Type tx)" "Tx_Validate cfg now skip tx = Inl e"
    | (forged) "\<not> IsSystemTx (Type tx)" "Tx_Validate cfg now skip tx = Inr ()" "\<not> ?v"
    | (owner) "\<not> IsSystemTx (Type tx)" "Tx_Validate cfg now skip tx = Inr ()" "?v" "?owner \<noteq> From tx"
    | (ok) "\<not> IsSystemTx (Type tx)" "Tx_Validate cfg now skip tx = Inr ()" "?v" "?owner = From tx"
    by (cases "Tx_Validate cfg now skip tx") auto
  then show "outcome (ExecuteTransaction S cfg cl now skip tx) sm ?Q ?R"
  proof cases
    case sys
    with refines_outcome[OF system_refines r, of tx ?f] show ?thesis
      by (simp add: outcome_def ExecuteTransaction_def exec_spec_def)
  next
    case invalid
    with r show ?thesis by (simp add: outcome_def ExecuteTransaction_def exec_spec_def)
  next
    case forged
    with refines_outcome[OF punish_refines[OF confiscate_refines[of "From tx"]] r, of ?f] show ?thesis
      by (simp add: outcome_def ExecuteTransaction_def exec_spec_def)
  next
    case owner
    with refines_outcome[OF punish_refines[OF confiscate_refines[of ?owner]] r, of ?f] show ?thesis
      by (simp add: outcome_def ExecuteTransaction_def exec_spec_def AddressFromPublicKey_Derive)
  next
    case ok
    have "outcome (bindS (GetAccount S (From tx)) (\<lambda>sender sm1. case checkSenderBalance tx sender of
        Some e \<Rightarrow> (Inl e, sm1)
      | None \<Rightarrow>
          if TxNonce tx \<noteq> Nonce sender then (Inl (InvalidNonce (Nonce sender) (TxNonce tx)), sm1)
          else if Type tx = TxTransfer then executeTransfer S tx sm1
          else if Type tx = TxStake then executeStake S cfg tx sm1
          else if Type tx = TxUnstake then executeUnstake S cfg tx sm1
          else (Inl (UnknownTxType (Type tx)), sm1))) sm ?Q ?R"
      unfolding outcome_bind
      by (rule outcome_get[OF r], rule dispatch_refines) (use ok in simp_all)
    with ok show ?thesis
      by (simp add: outcome_def ExecuteTransaction_def AddressFromPublicKey_Derive)
  qed
qed

end

section \<open>Supply, commit and snapshots\<close>

lemma foldl_update_map:
  "map_of (foldl (\<lambda>m (a, x). AList.update a x m) m0 xs) = map_of m0 ++ map_of (rev xs)"
  by (induction xs arbitrary: m0) (auto simp: fun_eq_iff map_add_def split: option.split)

lemma gomap_wf_foldl_update [simp]:
  "gomap_wf m0 \<Longrightarrow> gomap_wf (foldl (\<lambda>m (a, x). AList.update a x m) m0 xs)"
  by (induction xs arbitrary: m0) auto

lemma map_of_rev_wf: "gomap_wf xs \<Longrightarrow> map_of (rev xs) = map_of xs"
proof
  fix k
  assume "gomap_wf xs"
  then have "map_of (rev xs) k = Some v \<longleftrightarrow> map_of xs k = Some v" for v
    by (simp add: gomap_wf_def map_of_eq_Some_iff flip: rev_map)
  then show "map_of (rev xs) k = map_of xs k"
    by (metis option.exhaust)
qed

lemma foldl_by_address:
  "foldl (\<lambda>m acc. AList.update (Address acc) acc m) m0 xs
     = foldl (\<lambda>m (a, x). AList.update a x m) m0 (map (\<lambda>x. (Address x, x)) xs)"
  by (induction xs arbitrary: m0) auto

lemma gomap_wf_by_address: "distinct (map Address xs) \<Longrightarrow> gomap_wf (map (\<lambda>x. (Address x, x)) xs)"
  by (simp add: gomap_wf_def comp_def)

lemma map_of_accountMap:
  assumes "distinct (map Address xs)" and "gomap_wf cache"
  shows "map_of (accountMap xs cache) = by_address xs ++ map_of cache"
  using assms map_of_rev_wf[OF gomap_wf_by_address[OF assms(1)]]
  by (simp add: accountMap_def foldl_by_address foldl_update_map map_of_rev_wf by_address_def rev_map)

lemma gomap_wf_accountMap [simp]: "gomap_wf (accountMap xs cache)"
  by (simp add: accountMap_def foldl_by_address)

lemma sum_balances_eq: "sum_balances xs = sum_list (map TotalBalance xs)"
proof -
  have "foldl (\<lambda>t acc. t + (AvailableBalance acc + StakedBalance acc)) t xs = t + sum_list (map TotalBalance xs)" for t
    by (induction xs arbitrary: t) (auto simp: TotalBalance_def)
  then show ?thesis by (simp add: sum_balances_def)
qed

lemma map_supply_eq: "gomap_wf m \<Longrightarrow> map_supply m = fin_sum TotalBalance (map_of m)"
  by (simp add: map_supply_def sum_balances_eq fin_sum_map_of comp_def)

lemma those_map_Some:
  "(\<forall>x\<in>set xs. f x \<noteq> None) \<Longrightarrow> those (map f xs) = Some (map (\<lambda>x. the (f x)) xs)"
  by (induction xs) auto

lemma ledger_supply_or_new:
  assumes "finite (dom m)"
  shows "ledger_supply (\<lambda>a. or_new a (m a)) = fin_sum TotalBalance m"
    and "finite_ledger (\<lambda>a. or_new a (m a))"
proof -
  have sub: "{a. TotalBalance (or_new a (m a)) \<noteq> 0} \<subseteq> dom m"
    by (auto simp: or_new_def split: option.splits)
  show "finite_ledger (\<lambda>a. or_new a (m a))"
    unfolding finite_ledger_def by (rule finite_subset[OF sub assms])
  have "ledger_supply (\<lambda>a. or_new a (m a)) = (\<Sum>a\<in>dom m. TotalBalance (or_new a (m a)))"
    by (rule ledger_supply_superset[OF assms sub])
  also have "\<dots> = fin_sum TotalBalance m"
    unfolding fin_sum_def by (rule sum.cong) (auto simp: or_new_def)
  finally show "ledger_supply (\<lambda>a. or_new a (m a)) = fin_sum TotalBalance m" .
qed

lemma dirty_list_wf:
  assumes "sm_wf sinv sm"
  obtains xs where "dirty_list sm = Some xs" "map Address xs = dirtyAccounts sm"
    "by_address xs = map_of (accountCache sm) |` set (dirtyAccounts sm)"
proof -
  let ?f = "\<lambda>a. the (map_of (accountCache sm) a)"
  let ?xs = "map ?f (dirtyAccounts sm)"
  have d: "\<forall>a\<in>set (dirtyAccounts sm). map_of (accountCache sm) a \<noteq> None"
    using assms by (auto simp: sm_wf_def)
  have addr: "Address (?f a) = a" if "a \<in> set (dirtyAccounts sm)" for a
    using assms d that by (auto simp: sm_wf_def)
  have "dirty_list sm = Some ?xs"
    unfolding dirty_list_def by (rule those_map_Some[OF d])
  moreover have "map Address ?xs = dirtyAccounts sm"
    using addr by (simp add: map_idI)
  moreover have "by_address ?xs = map_of (accountCache sm) |` set (dirtyAccounts sm)"
  proof -
    have "map (\<lambda>x. (Address x, x)) ?xs = map (\<lambda>a. (a, ?f a)) (dirtyAccounts sm)"
      using addr by simp
    then have "by_address ?xs = (\<lambda>a. if a \<in> set (dirtyAccounts sm) then Some (?f a) else None)"
      unfolding by_address_def by (simp only: map_of_map_restrict) (auto simp: restrict_map_def)
    with d show ?thesis by (auto simp: restrict_map_def fun_eq_iff)
  qed
  ultimately show thesis by (rule that)
qed

context account_store
begin

lemma finite_view: "sm_wf store_inv sm \<Longrightarrow> finite (dom (view acct sm))"
  using acct_finite[of "sm_db sm"] by (simp add: view_def sm_wf_def finite_dom_map_of)

lemma ledger_view: "ledger acct sm = (\<lambda>a. or_new a (view acct sm a))"
  by (simp add: ledger_def fun_eq_iff)

lemma merged_view:
  assumes "sm_wf store_inv sm" and "st_all S (sm_db sm) = Inr xs"
  shows "map_of (accountMap xs (accountCache sm)) = view acct sm"
    and "map_supply (accountMap xs (accountCache sm)) = ledger_supply (ledger acct sm)"
proof -
  show v: "map_of (accountMap xs (accountCache sm)) = view acct sm"
    using assms all_ok[of "sm_db sm" xs] by (simp add: map_of_accountMap sm_wf_def view_def)
  show "map_supply (accountMap xs (accountCache sm)) = ledger_supply (ledger acct sm)"
    unfolding ledger_view ledger_supply_or_new(1)[OF finite_view[OF assms(1)]]
    by (simp add: map_supply_eq v)
qed

lemma repr_finite: "repr db L P sm \<Longrightarrow> finite_ledger L"
  using ledger_supply_or_new(2)[OF finite_view] by (auto simp: repr_def ledger_view)

text \<open>A coherent cache over a store that received all dirty accounts shows what the store holds.\<close>

lemma durable_after_batch:
  assumes "repr db L {} sm" and "acct db' = acct db ++ map_of (accountCache sm) |` set (dirtyAccounts sm)"
    and "store_inv db'"
  shows "durable acct db' = L"
    and "repr db' L {} (sm\<lparr>sm_db := db', totalSupplyTracker := t, dirtyAccounts := []\<rparr>)"
proof -
  have d: "durable acct db' a = L a" for a
  proof (cases "a \<in> cached sm")
    case True
    note m = repr_cached[OF assms(1) True]
    show ?thesis
    proof (cases "a \<in> set (dirtyAccounts sm)")
      case False
      with assms(1) m have "L a = durable acct db a" by (auto simp: repr_def coherent_upto_def)
      with False show ?thesis by (simp add: durable_def assms(2) map_add_def restrict_map_def)
    qed (use m in \<open>simp add: durable_def assms(2) map_add_def restrict_map_def\<close>)
  next
    case False
    then have "map_of (accountCache sm) a = None" by auto
    with assms(1) show ?thesis
      by (auto simp: durable_def assms(2) map_add_def restrict_map_def repr_def ledger_def view_def)
  qed
  then show dL: "durable acct db' = L" by blast
  have "ledger acct (sm\<lparr>sm_db := db', totalSupplyTracker := t, dirtyAccounts := []\<rparr>) = L"
  proof
    fix a
    show "ledger acct (sm\<lparr>sm_db := db', totalSupplyTracker := t, dirtyAccounts := []\<rparr>) a = L a"
      using repr_cached[OF assms(1), of a] d[of a]
      by (cases "map_of (accountCache sm) a") (auto simp: ledger_def view_def map_add_def durable_def)
  qed
  then show "repr db' L {} (sm\<lparr>sm_db := db', totalSupplyTracker := t, dirtyAccounts := []\<rparr>)"
    (is "repr db' L {} ?sm")
  proof -
    have "sm_wf store_inv ?sm" using assms(1,3) by (simp add: repr_def sm_wf_def)
    moreover have "coherent_upto acct {} ?sm"
      using repr_cached[OF assms(1), OF domI] by (auto simp: coherent_upto_def dL)
    ultimately show ?thesis using \<open>ledger acct ?sm = L\<close> by (simp add: repr_def)
  qed
qed

lemma commit_p0_sound:
  assumes "repr db L {} sm" and "CommitWithP0Verify S h sm = (Inr u, sm')"
  shows "ledger_supply L = TOTAL_SUPPLY" and "totalSupplyTracker sm' = TOTAL_SUPPLY"
    and "durable acct (sm_db sm') = L" and "repr (sm_db sm') L {} sm'" and "dirtyAccounts sm' = []"
    and "\<exists>xs. st_batch_height S xs h db = (Inr (), sm_db sm')"
proof -
  have wf: "sm_wf store_inv sm" and db: "sm_db sm = db" and L: "ledger acct sm = L"
    using assms(1) by (simp_all add: repr_def)
  obtain ds where ds: "dirty_list sm = Some ds" "map Address ds = dirtyAccounts sm"
    "by_address ds = map_of (accountCache sm) |` set (dirtyAccounts sm)"
    using dirty_list_wf[OF wf] by blast
  from assms(2) ds(1) obtain xs db' where all: "st_all S db = Inr xs"
    and sup: "map_supply (accountMap xs (accountCache sm)) = TOTAL_SUPPLY"
    and b: "st_batch_height S ds h db = (Inr (), db')"
    and sm': "sm' = sm\<lparr>sm_db := db', totalSupplyTracker := TOTAL_SUPPLY, dirtyAccounts := []\<rparr>"
    by (auto simp: CommitWithP0Verify_def db Let_def split: sum.splits if_splits prod.splits)
  have "distinct (map Address ds)" and inv: "store_inv db"
    using wf by (simp_all add: ds(2) sm_wf_def db)
  from batch_height_ok[OF inv this(1) b] have "store_inv db'" "acct db' = acct db ++ by_address ds" by auto
  note r = durable_after_batch(1)[OF assms(1) this(2)[unfolded ds(3)] this(1)]
    durable_after_batch(2)[OF assms(1) this(2)[unfolded ds(3)] this(1), of TOTAL_SUPPLY]
  show "ledger_supply L = TOTAL_SUPPLY"
    using merged_view(2)[OF wf] all sup by (simp add: db L)
  show "durable acct (sm_db sm') = L" "repr (sm_db sm') L {} sm'" "dirtyAccounts sm' = []"
    "totalSupplyTracker sm' = TOTAL_SUPPLY" "\<exists>xs. st_batch_height S xs h db = (Inr (), sm_db sm')"
    using r b by (auto simp: sm')
qed

lemma commit_p0_rejects:
  assumes "repr db L P sm" and "ledger_supply L \<noteq> TOTAL_SUPPLY"
  shows "\<exists>e. CommitWithP0Verify S h sm = (Inl e, sm)"
  using assms merged_view(2)[of sm]
  by (auto simp: CommitWithP0Verify_def repr_def Let_def split: sum.splits)

end

end
