(* ===== verification/State_Claims.thy ===== *)
theory State_Claims
  imports Ledger_Refinement
begin

text \<open>
  The guarantees of the state manager over the sharded account store: refinement of the
  specification on success and on failure, the exact change of the total supply, replay
  rejection, who can lose funds, the durable commit behind the P0 check, and the rollback of a
  block by snapshot.
\<close>

definition sm_ok :: "('s \<Rightarrow> bool) \<Rightarrow> ('s \<Rightarrow> string \<rightharpoonup> account) \<Rightarrow> 's state_manager \<Rightarrow> bool" where
  "sm_ok sinv acct sm \<longleftrightarrow> sm_wf sinv sm \<and> coherent_upto acct {} sm"

abbreviation sharded_sm_ok :: "'d account_env \<Rightarrow> ('d \<Rightarrow> bytes \<rightharpoonup> bytes) \<Rightarrow> 'd sstore state_manager \<Rightarrow> bool" where
  "sharded_sm_ok E kv \<equiv> sm_ok (sstore_wf E kv) (shard_acct E kv)"

abbreviation ledger_of :: "'d account_env \<Rightarrow> ('d \<Rightarrow> bytes \<rightharpoonup> bytes) \<Rightarrow> 'd sstore state_manager \<Rightarrow> ledger" where
  "ledger_of E kv \<equiv> ledger (shard_acct E kv)"

abbreviation store_readable :: "'d account_env \<Rightarrow> 'd sstore \<Rightarrow> bool" where
  "store_readable E s \<equiv> (\<forall>a. \<exists>x. SS_GetAccount E s a = Inr x)"

context account_store
begin

lemma sm_ok_repr: "sm_ok store_inv acct sm \<longleftrightarrow> repr (sm_db sm) (ledger acct sm) {} sm"
  by (simp add: sm_ok_def repr_def)

lemma repr_ok: "repr db L {} sm \<Longrightarrow> sm_ok store_inv acct sm \<and> ledger acct sm = L \<and> sm_db sm = db"
  by (simp add: sm_ok_def repr_def)

lemma execute_ok:
  assumes "sm_ok store_inv acct sm" and "ExecuteTransaction S cfg cl now skip tx sm = (Inr u, sm')"
  shows "exec_spec cfg cl now skip tx (ledger acct sm) = Inr (ledger acct sm')"
    and "sm_ok store_inv acct sm'" and "sm_db sm' = sm_db sm"
  using refinesD(1)[OF execute_refines assms(1)[unfolded sm_ok_repr] assms(2)] repr_ok by auto

lemma execute_err:
  assumes "sm_ok store_inv acct sm" and "ExecuteTransaction S cfg cl now skip tx sm = (Inl e, sm')"
    and "reads_ok (sm_db sm)"
  shows "exec_spec cfg cl now skip tx (ledger acct sm) = Inl e"
    and "sm_ok store_inv acct sm'" and "ledger acct sm' = ledger acct sm" and "sm_db sm' = sm_db sm"
  using refinesD(2)[OF execute_refines assms(1)[unfolded sm_ok_repr] assms(2,3)] repr_ok by auto

lemma execute_total:
  assumes "sm_ok store_inv acct sm" and "reads_ok (sm_db sm)"
    and "exec_spec cfg cl now skip tx (ledger acct sm) = Inr L"
  shows "\<exists>sm'. ExecuteTransaction S cfg cl now skip tx sm = (Inr (), sm') \<and> ledger acct sm' = L"
proof (cases "ExecuteTransaction S cfg cl now skip tx sm")
  case (Pair r sm')
  with assms execute_ok(1)[OF assms(1)] execute_err(1)[OF assms(1) _ assms(2)] show ?thesis
    by (cases r) auto
qed

lemma ok_finite: "sm_ok store_inv acct sm \<Longrightarrow> finite_ledger (ledger acct sm)"
  using repr_finite by (simp add: sm_ok_repr)

end

lemma sharded_reads_ok:
  "sharded_env E kv \<Longrightarrow> account_store.reads_ok (sharded_ops E) s \<longleftrightarrow> store_readable E s"
  using account_store.reads_ok_def[OF sharded_env.sharded_account_store]
  by (simp add: sharded_ops_def)

lemmas sharded_execute_ok = account_store.execute_ok[OF sharded_env.sharded_account_store]
lemmas sharded_execute_err = account_store.execute_err[OF sharded_env.sharded_account_store]
lemmas sharded_execute_total = account_store.execute_total[OF sharded_env.sharded_account_store]
lemmas sharded_ok_finite = account_store.ok_finite[OF sharded_env.sharded_account_store]

section \<open>A running instance\<close>

text \<open>A fresh manager on the reference store, the genesis account holding the whole supply in the
  cache, and a signed transfer.\<close>

definition genesis_account :: account where
  "genesis_account = (NewAccount GenesisAddress)\<lparr>AvailableBalance := TOTAL_SUPPLY\<rparr>"

definition demo_sm :: "ref_db sstore state_manager" where
  "demo_sm = UpdateAccount genesis_account (NewStateManager ref_sstore)"

lemma demo_sm_ok [simp]: "sharded_sm_ok ref_env ref_kv demo_sm"
  by (auto simp: sm_ok_def sm_wf_def coherent_upto_def demo_sm_def NewStateManager_def genesis_account_def
      UpdateAccount_def goset_insert_def gomap_wf_def)

lemma ref_readable [simp]: "store_readable ref_env (sm_db demo_sm)"
proof
  fix a
  have "map_of (shards ref_sstore) (getShardKey a) = Some ref_empty"
    using getShardKey_charset[of a] by (simp add: ref_sstore_def map_of_map_restrict[of "\<lambda>_. ref_empty"] restrict_map_def)
  then show "\<exists>x. SS_GetAccount ref_env (sm_db demo_sm) a = Inr x"
    by (simp add: demo_sm_def NewStateManager_def SS_GetAccount_def getShard_def ref_env_def ref_leveldb_def)
qed

definition demo_reward :: transaction where
  "demo_reward = NewRewardTx 0 ''F1'' 5"

lemma demo_ledger: "ledger_of ref_env ref_kv demo_sm a = (if a = GenesisAddress then genesis_account else NewAccount a)"
  by (auto simp: ledger_def view_def demo_sm_def NewStateManager_def genesis_account_def map_add_def)

lemma demo_reward_runs:
  "\<exists>sm'. ExecuteTransaction (sharded_ops ref_env) shipped_config demo_crypto 0 True demo_reward demo_sm = (Inr (), sm')"
proof -
  have "\<exists>L. exec_spec shipped_config demo_crypto 0 True demo_reward (ledger_of ref_env ref_kv demo_sm) = Inr L"
    by (simp add: exec_spec_def demo_reward_def NewRewardTx_def IsSystemTx_def system_spec_def demo_ledger
        genesis_account_def SubBalance_def TOTAL_SUPPLY_def GenesisAddress_def)
  then show ?thesis
    using sharded_execute_total[OF ref.sharded_env_axioms demo_sm_ok]
    by (simp add: sharded_reads_ok[OF ref.sharded_env_axioms]) blast
qed

text \<open>A transfer signed with the demonstration scheme.\<close>

definition demo_pk :: bytes where
  "demo_pk = [0]"

definition demo_user :: string where
  "demo_user = DeriveAddress (sha3_256 demo_crypto) demo_pk"

definition demo_tx :: "string \<Rightarrow> u64 \<Rightarrow> u64 \<Rightarrow> transaction" where
  "demo_tx to amount fee = (let tx = (NewTransferTx 0 demo_user to amount fee 0)\<lparr>PublicKey := demo_pk\<rparr>
     in tx\<lparr>Signature := demo_pk @ SignData tx\<rparr>)"

definition demo_sm2 :: "ref_db sstore state_manager" where
  "demo_sm2 = UpdateAccount ((NewAccount demo_user)\<lparr>AvailableBalance := TOTAL_SUPPLY\<rparr>) (NewStateManager ref_sstore)"

lemma demo_sm2_ok [simp]: "sharded_sm_ok ref_env ref_kv demo_sm2"
  by (auto simp: sm_ok_def sm_wf_def coherent_upto_def demo_sm2_def NewStateManager_def
      UpdateAccount_def goset_insert_def gomap_wf_def)

lemma demo_sm2_db: "sm_db demo_sm2 = sm_db demo_sm"
  by (simp add: demo_sm2_def demo_sm_def NewStateManager_def)

lemma demo_ledger2: "ledger_of ref_env ref_kv demo_sm2 a
    = (if a = demo_user then (NewAccount demo_user)\<lparr>AvailableBalance := TOTAL_SUPPLY\<rparr> else NewAccount a)"
  by (auto simp: ledger_def view_def demo_sm2_def NewStateManager_def map_add_def)

lemma demo_supply2: "ledger_supply (ledger_of ref_env ref_kv demo_sm2) = TOTAL_SUPPLY"
  by (subst ledger_supply_superset[of "{demo_user}"]) (auto simp: demo_ledger2 TotalBalance_def)

lemma demo_user_ne [simp]: "demo_user \<noteq> ''''"
  by (simp add: demo_user_def DeriveAddress_def Let_def)

lemma demo_user_eq: "demo_user = CHR ''F'' # replicate 36 CHR ''0''"
  by (simp add: demo_user_def DeriveAddress_def Let_def pad_zeros_def demo_crypto_def demo_digest_def
      demo_pk_def copy_into_def base36Encode_def big_SetBytes_def numeral_eq_Suc)

lemma demo_user_F1 [simp]: "''F1'' \<noteq> demo_user" "''F2'' \<noteq> demo_user"
  by (simp_all add: demo_user_eq numeral_eq_Suc)

lemma demo_user_genesis: "GenesisAddress \<noteq> demo_user"
  by (simp add: GenesisAddress_def demo_user_eq numeral_eq_Suc)

lemma demo_tx_simps [simp]:
  "Type (demo_tx to n fee) = TxTransfer" "From (demo_tx to n fee) = demo_user" "To (demo_tx to n fee) = to"
  "Amount (demo_tx to n fee) = n" "GasFee (demo_tx to n fee) = fee" "TxNonce (demo_tx to n fee) = 0"
  "\<not> IsSystemTx TxTransfer"
  by (simp_all add: demo_tx_def NewTransferTx_def Let_def IsSystemTx_def)

lemma demo_tx_executes [simp]: "executes demo_crypto (demo_tx to n fee)"
  by (simp add: executes_def demo_tx_def NewTransferTx_def Let_def demo_user_def Verify_def demo_crypto_def
      demo_pk_def SignData_def)

lemma demo_tx_valid:
  "to \<noteq> '''' \<Longrightarrow> to \<noteq> demo_user \<Longrightarrow> n \<noteq> 0 \<Longrightarrow> Tx_Validate shipped_config 0 True (demo_tx to n 1) = Inr ()"
  by (simp add: demo_tx_def NewTransferTx_def Tx_Validate_def RequiresGasFee_def IsSystemTx_def Let_def
      demo_pk_def shipped_config_def setDefault_def)

lemma demo_tx_runs:
  assumes "to \<noteq> ''''" and "to \<noteq> demo_user" and "n \<noteq> 0" and "n + 1 \<le> TOTAL_SUPPLY"
  shows "\<exists>sm'. ExecuteTransaction (sharded_ops ref_env) shipped_config demo_crypto 0 True (demo_tx to n 1) demo_sm2 = (Inr (), sm')"
proof -
  have "\<exists>L. exec_spec shipped_config demo_crypto 0 True (demo_tx to n 1) (ledger_of ref_env ref_kv demo_sm2) = Inr L"
    using demo_tx_valid[OF assms(1-3)] demo_tx_executes[of to n 1] assms(4)
    by (simp add: exec_spec_def executes_def Let_def checkSenderBalance_def RequiresGasFee_def demo_ledger2 not_less
        transfer_spec_def SubBalance_def IsSystemTx_def)
  then show ?thesis
    using sharded_execute_total[OF ref.sharded_env_axioms demo_sm2_ok]
    by (simp add: sharded_reads_ok[OF ref.sharded_env_axioms] demo_sm2_db) blast
qed

section \<open>Claims\<close>

text \<open>C1: functional refinement of transaction execution. A transaction that the state manager
  executes successfully changes the ledger exactly as the specification says, through the cache,
  the aliased account pointers and the dirty marks; it leaves the cache coherent with the store
  and does not write the store.\<close>

theorem execute_implements_spec:
  assumes "sharded_env E kv" and "sharded_sm_ok E kv sm"
    and "ExecuteTransaction (sharded_ops E) cfg cl now skip tx sm = (Inr (), sm')"
  shows "exec_spec cfg cl now skip tx (ledger_of E kv sm) = Inr (ledger_of E kv sm')
    \<and> sharded_sm_ok E kv sm' \<and> sm_db sm' = sm_db sm"
  using sharded_execute_ok[OF assms] by blast

theorem execute_implements_spec_witness:
  "\<exists>sm'. ExecuteTransaction (sharded_ops ref_env) shipped_config demo_crypto 0 True demo_reward demo_sm = (Inr (), sm')
     \<and> sharded_sm_ok ref_env ref_kv sm'"
  using demo_reward_runs execute_implements_spec[OF ref.sharded_env_axioms demo_sm_ok] by blast



text \<open>C3: the exact effect of a transaction on the total supply. Transfers, stakes, unstakes,
  rewards, slashes and confiscations conserve it; the only exceptions are a transfer to the
  genesis account, which destroys its fee, and a system transaction without sender, which creates
  its amount.\<close>

theorem execute_supply:
  assumes "sharded_env E kv" and "sharded_sm_ok E kv sm"
    and "ExecuteTransaction (sharded_ops E) cfg cl now skip tx sm = (Inr (), sm')"
  shows "ledger_supply (ledger_of E kv sm') = ledger_supply (ledger_of E kv sm) + supply_delta cl tx"
  using exec_spec_supply[OF sharded_ok_finite[OF assms(1,2)] sharded_execute_ok(1)[OF assms]] by blast

theorem execute_supply_witness:
  "\<exists>sm'. ExecuteTransaction (sharded_ops ref_env) shipped_config demo_crypto 0 True demo_reward demo_sm = (Inr (), sm')
     \<and> ledger_supply (ledger_of ref_env ref_kv sm') = ledger_supply (ledger_of ref_env ref_kv demo_sm)"
  using demo_reward_runs execute_supply[OF ref.sharded_env_axioms demo_sm_ok]
  by (fastforce simp: supply_delta_def demo_reward_def NewRewardTx_def IsSystemTx_def GenesisAddress_def)

text \<open>C2: the P0 commit. When \<^verbatim>\<open>CommitWithP0Verify\<close> returns without error the total supply is
  exactly the constant, the store alone (as a restarted node reads it, with no cache) holds the
  whole ledger, the height marker is the block height, and the manager goes on with the same
  ledger, a clean dirty set and a tracker equal to the constant.\<close>

theorem commit_durable:
  assumes "sharded_env E kv" and "sharded_sm_ok E kv sm"
    and "CommitWithP0Verify (sharded_ops E) h sm = (Inr (), sm')"
  shows "ledger_supply (ledger_of E kv sm) = TOTAL_SUPPLY
    \<and> durable (shard_acct E kv) (sm_db sm') = ledger_of E kv sm
    \<and> ledger_of E kv sm' = ledger_of E kv sm
    \<and> GetStateHeight (sm_db sm') = Inr h
    \<and> sharded_sm_ok E kv sm' \<and> dirtyAccounts sm' = [] \<and> totalSupplyTracker sm' = TOTAL_SUPPLY"
proof -
  note A = sharded_env.sharded_account_store[OF assms(1)]
  note r = assms(2)[unfolded account_store.sm_ok_repr[OF A]]
  note c = account_store.commit_p0_sound[OF A r assms(3)]
  from c(6) obtain xs where "SaveAccountsBatchWithHeight E xs h (sm_db sm) = (Inr (), sm_db sm')"
    by (auto simp: sharded_ops_def)
  then have "GetStateHeight (sm_db sm') = Inr h"
    by (rule batch_height_marker)
  with c(1,2,3,5) account_store.repr_ok[OF A c(4)] show ?thesis by simp
qed

text \<open>The demo manager commits: every step of the reference store succeeds.\<close>

lemma demo_commit:
  "\<exists>sm'. CommitWithP0Verify (sharded_ops ref_env) 1 demo_sm = (Inr (), sm')"
proof -
  obtain xs where xs: "SS_GetAllAccounts ref_env ref_sstore = Inr xs"
    using ref_collect_ok unfolding SS_GetAllAccounts_def by blast
  have ok: "sm_wf (sstore_wf ref_env ref_kv) demo_sm" using demo_sm_ok by (simp add: sm_ok_def)
  have "map_supply (accountMap xs (accountCache demo_sm)) = ledger_supply (ledger_of ref_env ref_kv demo_sm)"
    using ref_store.merged_view(2)[OF ok] xs by (simp add: sharded_ops_def demo_sm_def NewStateManager_def)
  also have "\<dots> = TOTAL_SUPPLY"
    by (subst ledger_supply_superset[of "{GenesisAddress}"])
      (auto simp: demo_ledger genesis_account_def TotalBalance_def)
  finally have sup: "map_supply (accountMap xs (accountCache demo_sm)) = TOTAL_SUPPLY" .
  obtain ds where ds: "dirty_list demo_sm = Some ds" using dirty_list_wf[OF ok] by blast
  obtain s' where "SaveAccountsBatchWithHeight ref_env ds 1 ref_sstore = (Inr (), s')"
    using ref_batch_height_ok[OF ref_sstore_open] by blast
  with xs sup ds show ?thesis
    by (simp add: CommitWithP0Verify_def sharded_ops_def demo_sm_def NewStateManager_def Let_def)
qed

theorem commit_durable_witness:
  "\<exists>sm'. CommitWithP0Verify (sharded_ops ref_env) 1 demo_sm = (Inr (), sm') \<and> GetStateHeight (sm_db sm') = Inr 1"
  using demo_commit commit_durable[OF ref.sharded_env_axioms demo_sm_ok] by blast

text \<open>A block whose execution changed the supply can never be committed: the P0 check refuses
  it before anything is written, whatever the height.\<close>

theorem commit_refuses_wrong_supply:
  assumes "sharded_env E kv" and "sharded_sm_ok E kv sm" and "ledger_supply (ledger_of E kv sm) \<noteq> TOTAL_SUPPLY"
  shows "\<exists>e. CommitWithP0Verify (sharded_ops E) h sm = (Inl e, sm)"
proof -
  note A = sharded_env.sharded_account_store[OF assms(1)]
  show ?thesis
    by (rule account_store.commit_p0_rejects[OF A assms(2)[unfolded account_store.sm_ok_repr[OF A]] assms(3)])
qed

theorem commit_refuses_wrong_supply_witness:
  "\<exists>e. CommitWithP0Verify (sharded_ops ref_env) 1 (NewStateManager ref_sstore) = (Inl e, NewStateManager ref_sstore)"
proof (rule commit_refuses_wrong_supply[OF ref.sharded_env_axioms])
  show "sharded_sm_ok ref_env ref_kv (NewStateManager ref_sstore)"
    by (simp add: sm_ok_def sm_wf_def coherent_upto_def NewStateManager_def)
  have "ledger_of ref_env ref_kv (NewStateManager ref_sstore) = NewAccount"
    by (simp add: ledger_def view_def NewStateManager_def fun_eq_iff)
  then show "ledger_supply (ledger_of ref_env ref_kv (NewStateManager ref_sstore)) \<noteq> TOTAL_SUPPLY"
    by (simp add: ledger_supply_def TOTAL_SUPPLY_def)
qed

text \<open>The fee of a transfer to the genesis account is lost, and the block that contains it
  cannot be committed: from a ledger with the right supply, after such a transfer with a non-zero
  fee every \<^verbatim>\<open>CommitWithP0Verify\<close> fails and writes nothing.\<close>

theorem transfer_to_genesis_blocks_commit:
  assumes "sharded_env E kv" and "sharded_sm_ok E kv sm" and "ledger_supply (ledger_of E kv sm) = TOTAL_SUPPLY"
    and "Type tx = TxTransfer" and "To tx = GenesisAddress" and "executes cl tx" and "GasFee tx \<noteq> 0"
    and "ExecuteTransaction (sharded_ops E) cfg cl now skip tx sm = (Inr (), sm')"
  shows "ledger_supply (ledger_of E kv sm') = TOTAL_SUPPLY - GasFee tx
    \<and> (\<forall>h. \<exists>e. CommitWithP0Verify (sharded_ops E) h sm' = (Inl e, sm'))"
proof -
  note A = sharded_env.sharded_account_store[OF assms(1)]
  have "supply_delta cl tx = - GasFee tx"
    using assms(4-6) by (simp add: supply_delta_def IsSystemTx_def)
  then have s: "ledger_supply (ledger_of E kv sm') = TOTAL_SUPPLY - GasFee tx"
    using exec_spec_supply[OF sharded_ok_finite[OF assms(1,2)] sharded_execute_ok(1)[OF assms(1,2,8)]] assms(3)
    by simp
  then have "ledger_supply (ledger_of E kv sm') \<noteq> TOTAL_SUPPLY"
    using assms(7) by (simp add: diff_eq_eq)
  with s account_store.commit_p0_rejects[OF A sharded_execute_ok(2)[OF assms(1,2,8), unfolded account_store.sm_ok_repr[OF A]]]
  show ?thesis by blast
qed

theorem transfer_to_genesis_blocks_commit_witness:
  "\<exists>sm'. ExecuteTransaction (sharded_ops ref_env) shipped_config demo_crypto 0 True
       (demo_tx GenesisAddress 5 1) demo_sm2 = (Inr (), sm')
     \<and> (\<forall>h. \<exists>e. CommitWithP0Verify (sharded_ops ref_env) h sm' = (Inl e, sm'))"
proof -
  obtain sm' where run: "ExecuteTransaction (sharded_ops ref_env) shipped_config demo_crypto 0 True
       (demo_tx GenesisAddress 5 1) demo_sm2 = (Inr (), sm')"
    using demo_tx_runs[of GenesisAddress 5] demo_user_genesis by (auto simp: GenesisAddress_def TOTAL_SUPPLY_def)
  from transfer_to_genesis_blocks_commit[OF ref.sharded_env_axioms demo_sm2_ok demo_supply2 _ _ _ _ run] run
  show ?thesis by simp
qed

lemma spec_nonce:
  assumes "exec_spec cfg cl now skip tx L = Inr L'" and "\<not> IsSystemTx (Type tx)" and "executes cl tx"
  shows "TxNonce tx = Nonce (L (From tx))" and "Nonce (L' (From tx)) = Nonce (L (From tx)) + 1"
proof -
  have sys: "exec_spec cfg cl now skip tx L =
      (case Tx_Validate cfg now skip tx of Inl e \<Rightarrow> Inl (InvalidTx e)
       | Inr _ \<Rightarrow> case checkSenderBalance tx (L (From tx)) of
            Some e \<Rightarrow> Inl e
          | None \<Rightarrow>
              if TxNonce tx \<noteq> Nonce (L (From tx)) then Inl (InvalidNonce (Nonce (L (From tx))) (TxNonce tx))
              else if Type tx = TxTransfer then transfer_spec tx L
              else if Type tx = TxStake then stake_spec Stake tx L
              else if Type tx = TxUnstake then stake_spec Unstake tx L
              else Inl (UnknownTxType (Type tx)))"
    using assms(2,3) by (cases "Tx_Validate cfg now skip tx") (simp_all add: exec_spec_def executes_def Let_def)
  with assms(1) show "TxNonce tx = Nonce (L (From tx))"
    by (auto split: sum.splits option.splits if_splits)
  from assms(1) sys consider "transfer_spec tx L = Inr L'" | "stake_spec Stake tx L = Inr L'" | "stake_spec Unstake tx L = Inr L'"
    by (auto split: sum.splits option.splits if_splits)
  then show "Nonce (L' (From tx)) = Nonce (L (From tx)) + 1"
    by cases (auto simp: transfer_spec_def stake_spec_def credit_def bump_nonce_def debit_def Let_def
        dest: Stake_InrD(4) Unstake_InrD(4) split: sum.splits if_splits)
qed

text \<open>C4: replay protection. A transaction that was executed on behalf of its sender (valid
  signature, matching address) advances the sender's nonce past its own, so executing the same
  transaction again on the resulting state fails, at any later time and with any timestamp
  policy.\<close>

theorem replay_rejected:
  assumes "sharded_env E kv" and "sharded_sm_ok E kv sm"
    and "\<not> IsSystemTx (Type tx)" and "executes cl tx"
    and "ExecuteTransaction (sharded_ops E) cfg cl now skip tx sm = (Inr (), sm')"
  shows "\<exists>e sm''. ExecuteTransaction (sharded_ops E) cfg cl now' skip' tx sm' = (Inl e, sm'')"
proof (rule ccontr)
  assume "\<nexists>e sm''. ExecuteTransaction (sharded_ops E) cfg cl now' skip' tx sm' = (Inl e, sm'')"
  then obtain u sm'' where again: "ExecuteTransaction (sharded_ops E) cfg cl now' skip' tx sm' = (Inr u, sm'')"
    by (metis obj_sumE surj_pair)
  note ok = sharded_execute_ok[OF assms(1,2,5)]
  from spec_nonce[OF ok(1) assms(3,4)] spec_nonce(1)[OF sharded_execute_ok(1)[OF assms(1) ok(2) again] assms(3,4)]
  show False by simp
qed

theorem replay_rejected_witness:
  "\<exists>sm' e sm''. ExecuteTransaction (sharded_ops ref_env) shipped_config demo_crypto 0 True (demo_tx ''F1'' 5 1) demo_sm2 = (Inr (), sm')
     \<and> ExecuteTransaction (sharded_ops ref_env) shipped_config demo_crypto 9 True (demo_tx ''F1'' 5 1) sm' = (Inl e, sm'')"
proof -
  obtain sm' where run: "ExecuteTransaction (sharded_ops ref_env) shipped_config demo_crypto 0 True (demo_tx ''F1'' 5 1) demo_sm2 = (Inr (), sm')"
    using demo_tx_runs[of "''F1''" 5] demo_user_F1 by (auto simp: TOTAL_SUPPLY_def)
  from replay_rejected[OF ref.sharded_env_axioms demo_sm2_ok _ _ run] run show ?thesis by simp
qed

text \<open>An account that is not the payer only receives.\<close>

definition receives :: "account \<Rightarrow> account \<Rightarrow> bool" where
  "receives x y \<longleftrightarrow> (\<exists>n. y = AddBalance n x)"

lemma receives_simps [simp, intro]: "receives x x" "receives x (AddBalance n x)"
    "receives x (AddBalance m (AddBalance n x))"
proof -
  show "receives x x" unfolding receives_def by (rule exI[of _ 0]) (simp add: AddBalance_def)
  show "receives x (AddBalance n x)" unfolding receives_def by blast
  show "receives x (AddBalance m (AddBalance n x))"
    unfolding receives_def by (rule exI[of _ "n + m"]) (simp add: AddBalance_def add.assoc)
qed

lemma spec_others:
  assumes "exec_spec cfg cl now skip tx L = Inr L'" and "\<not> IsSystemTx (Type tx)"
    and "Verify cl (PublicKey tx) (SignData tx) (Signature tx)"
    and "a \<noteq> DeriveAddress (sha3_256 cl) (PublicKey tx)"
  shows "receives (L a) (L' a) \<and> (a \<noteq> To tx \<longrightarrow> a \<noteq> GenesisAddress \<longrightarrow> L' a = L a)"
proof -
  let ?o = "DeriveAddress (sha3_256 cl) (PublicKey tx)"
  from assms(1-3) consider
    (conf) "confiscate_spec ?o L = Inr L'"
    | (transfer) "transfer_spec tx L = Inr L'" "?o = From tx"
    | (stake) m where "stake_spec m tx L = Inr L'" "?o = From tx"
    by (auto simp: exec_spec_def punish_spec_def Let_def split: sum.splits option.splits if_splits)
  then show ?thesis
  proof cases
    case conf
    then show ?thesis using assms(4)
      by (auto simp: confiscate_spec_def credit_def split: if_splits)
  next
    case transfer
    then show ?thesis using assms(4)
      by (auto simp: transfer_spec_def credit_def bump_nonce_def debit_def Let_def split: sum.splits if_splits)
  next
    case stake
    then show ?thesis using assms(4)
      by (auto simp: stake_spec_def bump_nonce_def split: sum.splits)
  qed
qed



text \<open>Executing a well-formed transaction whose signature does not verify.\<close>

lemma unverified_confiscates:
  assumes "sharded_env E kv" and "sharded_sm_ok E kv sm" and "store_readable E (sm_db sm)"
    and "\<not> IsSystemTx (Type tx)" and "Tx_Validate cfg now skip tx = Inr ()"
    and "\<not> Verify cl (PublicKey tx) (SignData tx) (Signature tx)"
    and "From tx \<noteq> GenesisAddress" and "TotalBalance (ledger_of E kv sm (From tx)) \<noteq> 0"
  shows "\<exists>sm'. ExecuteTransaction (sharded_ops E) cfg cl now skip tx sm = (Inr (), sm')
    \<and> AvailableBalance (ledger_of E kv sm' (From tx)) = 0 \<and> StakedBalance (ledger_of E kv sm' (From tx)) = 0
    \<and> AvailableBalance (ledger_of E kv sm' GenesisAddress)
        = AvailableBalance (ledger_of E kv sm GenesisAddress) + TotalBalance (ledger_of E kv sm (From tx))"
proof -
  let ?L = "ledger_of E kv sm"
  let ?L' = "(credit GenesisAddress (TotalBalance (?L (From tx))) ?L)
        (From tx := (?L (From tx))\<lparr>AvailableBalance := 0, StakedBalance := 0, NodeType := NodeRegular\<rparr>)"
  have "exec_spec cfg cl now skip tx ?L = Inr ?L'"
    using assms(4-8) by (simp add: exec_spec_def punish_spec_def confiscate_spec_def Let_def)
  from sharded_execute_total[OF assms(1,2) _ this] assms(3,7) sharded_reads_ok[OF assms(1)]
  show ?thesis by (auto simp: credit_def)
qed

text \<open>C38: anyone can have a third party's funds confiscated. A transfer that names a victim as
  sender and carries a signature that does not verify is well formed; executing it succeeds,
  empties the victim's available and staked balances into the genesis account, and asks for no
  key of the victim.\<close>

theorem forged_signature_confiscates_victim:
  assumes "sharded_env E kv" and "sharded_sm_ok E kv sm" and "store_readable E (sm_db sm)"
    and "\<not> IsSystemTx (Type tx)" and "Tx_Validate cfg now skip tx = Inr ()"
    and "\<not> Verify cl (PublicKey tx) (SignData tx) (Signature tx)"
    and "From tx \<noteq> GenesisAddress" and "TotalBalance (ledger_of E kv sm (From tx)) \<noteq> 0"
  shows "\<exists>sm'. ExecuteTransaction (sharded_ops E) cfg cl now skip tx sm = (Inr (), sm')
    \<and> AvailableBalance (ledger_of E kv sm' (From tx)) = 0 \<and> StakedBalance (ledger_of E kv sm' (From tx)) = 0
    \<and> AvailableBalance (ledger_of E kv sm' GenesisAddress)
        = AvailableBalance (ledger_of E kv sm GenesisAddress) + TotalBalance (ledger_of E kv sm (From tx))"
  using unverified_confiscates[OF assms] .

theorem forged_signature_confiscates_victim_witness:
  "\<exists>sm'. ExecuteTransaction (sharded_ops ref_env) shipped_config demo_crypto 0 True
       ((demo_tx ''F1'' 5 1)\<lparr>Signature := [1]\<rparr>) demo_sm2 = (Inr (), sm')
     \<and> AvailableBalance (ledger_of ref_env ref_kv sm' demo_user) = 0"
proof -
  let ?tx = "(demo_tx ''F1'' 5 1)\<lparr>Signature := [1]\<rparr>"
  have "Tx_Validate shipped_config 0 True ?tx = Inr ()"
    using demo_user_F1(1)[symmetric]
    by (simp add: demo_tx_def NewTransferTx_def Tx_Validate_def RequiresGasFee_def IsSystemTx_def Let_def
      demo_pk_def shipped_config_def setDefault_def)
  moreover have "\<not> Verify demo_crypto (PublicKey ?tx) (SignData ?tx) (Signature ?tx)"
    by (simp add: Verify_def demo_crypto_def demo_tx_def Let_def demo_pk_def)
  moreover have "TotalBalance (ledger_of ref_env ref_kv demo_sm2 demo_user) \<noteq> 0"
    by (simp add: demo_ledger2 TotalBalance_def TOTAL_SUPPLY_def)
  moreover have "\<forall>a. \<exists>x. SS_GetAccount ref_env (sm_db demo_sm2) a = Inr x"
    using ref_readable by (simp add: demo_sm2_db)
  ultimately show ?thesis
    using forged_signature_confiscates_victim[OF ref.sharded_env_axioms demo_sm2_ok, of ?tx shipped_config 0 True demo_crypto]
      demo_user_genesis by auto
qed

text \<open>C39: \<^verbatim>\<open>Amount + GasFee\<close> wraps around. A signed transfer to a fresh account whose amount plus fee
  is \<open>2 ^ 64\<close> costs its sender nothing, is executed whatever the sender's balance, and leaves the
  receiver with \<open>2 ^ 64 - GasFee\<close> units; the sum the P0 check computes is unchanged.\<close>

theorem overflow_transfer_mints:
  assumes "sharded_env E kv" and "sharded_sm_ok E kv sm" and "store_readable E (sm_db sm)"
    and "Type tx = TxTransfer" and "Tx_Validate cfg now skip tx = Inr ()" and "executes cl tx"
    and "TxNonce tx = Nonce (ledger_of E kv sm (From tx))" and "Amount tx = - GasFee tx"
    and "To tx \<noteq> GenesisAddress" and "From tx \<noteq> GenesisAddress" and "To tx \<noteq> From tx"
    and "AvailableBalance (ledger_of E kv sm (To tx)) = 0"
  shows "\<exists>sm'. ExecuteTransaction (sharded_ops E) cfg cl now skip tx sm = (Inr (), sm')
    \<and> AvailableBalance (ledger_of E kv sm' (From tx)) = AvailableBalance (ledger_of E kv sm (From tx))
    \<and> AvailableBalance (ledger_of E kv sm' (To tx)) = - GasFee tx
    \<and> ledger_supply (ledger_of E kv sm') = ledger_supply (ledger_of E kv sm)"
proof -
  let ?L = "ledger_of E kv sm"
  let ?L' = "credit GenesisAddress (GasFee tx) (credit (To tx) (Amount tx)
      (bump_nonce (From tx) (debit (From tx) (Amount tx + GasFee tx) ?L)))"
  have "SubBalance (Amount tx + GasFee tx) (?L (From tx)) = Inr (?L (From tx))"
    using assms(8) by (simp add: SubBalance_def)
  then have spec: "exec_spec cfg cl now skip tx ?L = Inr ?L'"
    using assms(4-9)
    by (simp add: exec_spec_def executes_def Let_def transfer_spec_def checkSenderBalance_def RequiresGasFee_def
        IsSystemTx_def del: SubBalance_Inr_iff)
  have "ledger_supply ?L' = ledger_supply ?L"
    using exec_spec_supply[OF sharded_ok_finite[OF assms(1,2)] spec] assms(4,9) by (simp add: supply_delta_def IsSystemTx_def)
  with sharded_execute_total[OF assms(1,2) _ spec] assms sharded_reads_ok[OF assms(1)]
  show ?thesis by (auto simp: credit_def bump_nonce_def debit_def)
qed

theorem overflow_transfer_mints_witness:
  "\<exists>sm'. ExecuteTransaction (sharded_ops ref_env) shipped_config demo_crypto 0 True
       (demo_tx ''F1'' (- 1) 1) demo_sm2 = (Inr (), sm')
     \<and> AvailableBalance (ledger_of ref_env ref_kv sm' ''F1'') = - 1"
proof -
  have "\<forall>a. \<exists>x. SS_GetAccount ref_env (sm_db demo_sm2) a = Inr x"
    using ref_readable by (simp add: demo_sm2_db)
  with overflow_transfer_mints[OF ref.sharded_env_axioms demo_sm2_ok, of "demo_tx ''F1'' (- 1) 1" shipped_config 0 True demo_crypto]
    demo_tx_valid[of "''F1''" "- 1"] demo_user_genesis demo_user_F1
  show ?thesis
    by (auto simp: demo_ledger2 GenesisAddress_def)
qed

text \<open>The full supply check computes the supply of the ledger the manager shows, cache over
  store, and reports it correct exactly when it equals the constant; an initialised tracker is
  brought to that value.\<close>

theorem verify_total_supply_exact:
  assumes "sharded_env E kv" and "sharded_sm_ok E kv sm"
    and "VerifyTotalSupply (sharded_ops E) sm = (Inr (tot, ok), sm')"
  shows "tot = ledger_supply (ledger_of E kv sm) \<and> (ok \<longleftrightarrow> tot = TOTAL_SUPPLY)
    \<and> (trackerInitialized sm \<longrightarrow> totalSupplyTracker sm' = tot) \<and> ledger_of E kv sm' = ledger_of E kv sm"
proof -
  note A = sharded_env.sharded_account_store[OF assms(1)]
  from assms(3) obtain xs where xs: "st_all (sharded_ops E) (sm_db sm) = Inr xs"
    and t: "tot = map_supply (accountMap xs (accountCache sm))" "ok \<longleftrightarrow> tot = TOTAL_SUPPLY"
      "sm' = (if trackerInitialized sm \<and> totalSupplyTracker sm \<noteq> tot then sm\<lparr>totalSupplyTracker := tot\<rparr> else sm)"
    by (auto simp: VerifyTotalSupply_def Let_def split: sum.splits)
  have "tot = ledger_supply (ledger_of E kv sm)"
    using account_store.merged_view(2)[OF A _ xs] assms(2) t(1) by (simp add: sm_ok_def)
  with t(2,3) show ?thesis by (auto simp: ledger_def view_def fun_eq_iff)
qed

theorem verify_total_supply_exact_witness:
  "\<exists>tot sm'. VerifyTotalSupply (sharded_ops ref_env) demo_sm2 = (Inr (tot, True), sm')"
proof -
  obtain xs where "SS_GetAllAccounts ref_env (sm_db demo_sm2) = Inr xs"
    using ref_collect_ok unfolding SS_GetAllAccounts_def by blast
  then obtain tot ok sm' where run: "VerifyTotalSupply (sharded_ops ref_env) demo_sm2 = (Inr (tot, ok), sm')"
    by (simp add: VerifyTotalSupply_def sharded_ops_def Let_def)
  from verify_total_supply_exact[OF ref.sharded_env_axioms demo_sm2_ok run] run demo_supply2 show ?thesis by auto
qed

section \<open>Rolling back a block\<close>

lemma GetAccount_db [simp]: "sm_db (snd (GetAccount S a sm)) = sm_db sm"
  by (auto simp: GetAccount_def split: option.splits sum.splits)

lemma bindS_db:
  assumes "sm_db (snd (m sm)) = d" and "\<And>a s. sm_db s = d \<Longrightarrow> sm_db (snd (f a s)) = d"
  shows "sm_db (snd (bindS m f sm)) = d"
  using assms by (auto simp: bindS_def split: prod.splits sum.splits)

lemma execute_handlers_db:
  "sm_db (snd (confiscateAllFunds S a sm)) = sm_db sm"
  "sm_db (snd (executeTransfer S tx sm)) = sm_db sm"
  "sm_db (snd (executeStake S cfg tx sm)) = sm_db sm"
  "sm_db (snd (executeUnstake S cfg tx sm)) = sm_db sm"
  "sm_db (snd (executeSystemTx S tx sm)) = sm_db sm"
  unfolding confiscateAllFunds_def executeTransfer_def executeStake_def executeUnstake_def executeSystemTx_def
    payGasFee_def updateParties_def
  by (auto simp: Let_def split: sum.split intro!: bindS_db) 

lemma execute_db: "sm_db (snd (ExecuteTransaction S cfg cl now skip tx sm)) = sm_db sm"
  by (auto simp: ExecuteTransaction_def punish_def execute_handlers_db split: sum.split option.split prod.splits intro!: bindS_db)
    (metis execute_handlers_db(1) snd_conv)+

text \<open>Executing the transactions of a block, successes and failures alike.\<close>

definition execute_all ::
    "'s store_ops \<Rightarrow> ConsensusConfig \<Rightarrow> crypto_lib \<Rightarrow> i64 \<Rightarrow> bool \<Rightarrow> transaction list \<Rightarrow> 's state_manager \<Rightarrow> 's state_manager" where
  "execute_all S cfg cl now skip txs sm = foldl (\<lambda>s tx. snd (ExecuteTransaction S cfg cl now skip tx s)) sm txs"

text \<open>Rolling back. Whatever transactions run between \<^verbatim>\<open>CreateSnapshot\<close> and
  \<^verbatim>\<open>RestoreSnapshot\<close>, failed or not, on any store, the restored manager has the cache, the dirty
  set, the store and so the ledger of the moment of the snapshot.\<close>

theorem snapshot_rollback:
  fixes sm :: "'s state_manager"
  shows "let sm' = RestoreSnapshot (CreateSnapshot sm) (execute_all S cfg cl now skip txs sm) in
    accountCache sm' = accountCache sm \<and> dirtyAccounts sm' = dirtyAccounts sm \<and> sm_db sm' = sm_db sm
    \<and> ledger acct sm' = ledger acct sm"
proof -
  have "sm_db (execute_all S cfg cl now skip txs sm) = sm_db sm"
    unfolding execute_all_def by (induction txs arbitrary: sm) (simp_all add: execute_db)
  then show ?thesis
    by (simp add: RestoreSnapshot_def CreateSnapshot_def Let_def ledger_def view_def fun_eq_iff)
qed

end
