(* ===== verification/Chain_Database.thy ===== *)
theory Chain_Database
  imports Flat_Files Core_Chain State_Claims
begin

text \<open>
  The database of a node, \<^verbatim>\<open>storage/database.go\<close> and \<^verbatim>\<open>storage/extended.go\<close>: one LevelDB for
  metadata and indexes, the sharded account store and the flat-file block store behind one
  interface. Keys of the LevelDB are told apart by their first byte (\<open>m\<close> metadata, \<open>t\<close> transactions,
  \<open>x\<close> transfers, \<open>s\<close> timestamps, \<open>v\<close> validators, \<open>p\<close> peers).

  The JSON codecs and LevelDB are parameters, gathered in \<open>db_env\<close>. An operation that fails in the
  middle keeps what it has already written.

  Lemmas: a saved block becomes the latest block, reads back, and its transactions are found by
  hash, while every other block stays; the account operations satisfy the contract of
  \<open>account_store\<close>; the paging of the transfer list is a slice of the reversed index; pruning the
  transfer index removes exactly the old records.
\<close>

section \<open>State and parameters\<close>

record TransferRecord =
  TRTxHash :: string
  TRFrom :: string
  TRTo :: string
  TRAmount :: u64
  TRGasFee :: u64
  TRBlockHeight :: u64
  TRTimestamp :: i64
  TRNonce :: u64

record 'd db_env =
  accEnv :: "'d account_env"
  blk_ToJSON :: "block \<Rightarrow> bytes"
  blk_FromJSON :: "bytes \<Rightarrow> block option"
  tx_ToJSON :: "transaction \<Rightarrow> bytes"
  tx_FromJSON :: "bytes \<Rightarrow> transaction option"
  tr_Marshal :: "TransferRecord \<Rightarrow> bytes"
  tr_Unmarshal :: "bytes \<Rightarrow> TransferRecord option"

record 'd Database =
  db :: 'd
  stateStore :: "'d sstore"
  blockStore :: BlockStore

abbreviation kv_engine :: "'d db_env \<Rightarrow> 'd leveldb" where
  "kv_engine E \<equiv> engine (accEnv E)"

definition OpenDatabase :: "(error + 'd) \<Rightarrow> (error + BlockStore) \<Rightarrow> (error + 'd sstore) \<Rightarrow> error + 'd Database" where
  "OpenDatabase leveldb_open block_open shards_open = (case leveldb_open of
     Inl e \<Rightarrow> Inl e
   | Inr d \<Rightarrow> (case block_open of
       Inl e \<Rightarrow> Inl e
     | Inr bs \<Rightarrow> (case shards_open of
         Inl e \<Rightarrow> Inl e
       | Inr ss \<Rightarrow> Inr \<lparr>db = d, stateStore = ss, blockStore = bs\<rparr>)))"

definition on_blocks :: "(BlockStore, 'a) step \<Rightarrow> ('d Database, 'a) step" where
  "on_blocks m D = (case m (blockStore D) of (r, bs) \<Rightarrow> (r, D\<lparr>blockStore := bs\<rparr>))"

definition on_state :: "('d sstore, 'a) step \<Rightarrow> ('d Database, 'a) step" where
  "on_state m D = (case m (stateStore D) of (r, ss) \<Rightarrow> (r, D\<lparr>stateStore := ss\<rparr>))"

definition db_Put :: "'d db_env \<Rightarrow> bytes \<Rightarrow> bytes \<Rightarrow> ('d Database, unit) step" where
  "db_Put E k v D = (case ldb_put (kv_engine E) (db D) k v of
     Inl e \<Rightarrow> (Inl e, D) | Inr d \<Rightarrow> (Inr (), D\<lparr>db := d\<rparr>))"

text \<open>A call whose error the code drops.\<close>

definition ignore_error :: "('s, 'a) step \<Rightarrow> ('s, unit) step" where
  "ignore_error m s = (Inr (), snd (m s))"

fun forS :: "('a \<Rightarrow> ('s, unit) step) \<Rightarrow> 'a list \<Rightarrow> ('s, unit) step" where
  "forS f [] = Pair (Inr ())"
| "forS f (x # xs) = bindS (f x) (\<lambda>_. forS f xs)"

section \<open>Keys\<close>

definition latestHeightKey :: bytes where
  "latestHeightKey = string_bytes ''meta:latest_height''"

definition makeTxKey :: "hash \<Rightarrow> bytes" where
  "makeTxKey h = string_bytes ''t'' @ h"

definition makeTransferKey :: "u64 \<Rightarrow> hash \<Rightarrow> bytes" where
  "makeTransferKey height txHash = string_bytes ''x'' @ be_put64 height @ copy_into 32 txHash"

definition timestampKey :: "i64 \<Rightarrow> bytes" where
  "timestampKey timestamp = string_bytes ''s'' @ be_put64 timestamp"

section \<open>Blocks\<close>

definition SaveLatestHeight :: "'d db_env \<Rightarrow> u64 \<Rightarrow> ('d Database, unit) step" where
  "SaveLatestHeight E height = db_Put E latestHeightKey (be_put64 height)"

definition GetLatestHeight :: "'d db_env \<Rightarrow> 'd Database \<Rightarrow> error + u64" where
  "GetLatestHeight E D = (case ldb_get (kv_engine E) (db D) latestHeightKey of
     Inl e \<Rightarrow> if e = ErrNotFound then Inr 0 else Inl e
   | Inr data \<Rightarrow> be_get64 data)"

definition SaveBlockTimestamp :: "'d db_env \<Rightarrow> u64 \<Rightarrow> i64 \<Rightarrow> ('d Database, unit) step" where
  "SaveBlockTimestamp E height timestamp = db_Put E (timestampKey timestamp) (be_put64 height)"

definition SaveTransaction :: "'d db_env \<Rightarrow> crypto_lib \<Rightarrow> transaction \<Rightarrow> ('d Database, unit) step" where
  "SaveTransaction E cl tx = db_Put E (makeTxKey (Tx_Hash cl tx)) (tx_ToJSON E tx)"

definition GetTransaction :: "'d db_env \<Rightarrow> hash \<Rightarrow> 'd Database \<Rightarrow> error + transaction" where
  "GetTransaction E h D = (case ldb_get (kv_engine E) (db D) (makeTxKey h) of
     Inl e \<Rightarrow> Inl e
   | Inr data \<Rightarrow> (case tx_FromJSON E data of None \<Rightarrow> Inl ErrDecode | Some tx \<Rightarrow> Inr tx))"

definition transferRecord :: "crypto_lib \<Rightarrow> transaction \<Rightarrow> u64 \<Rightarrow> TransferRecord" where
  "transferRecord cl tx blockHeight = \<lparr>TRTxHash = Hash_String (Tx_Hash cl tx), TRFrom = From tx, TRTo = To tx,
     TRAmount = Amount tx, TRGasFee = GasFee tx, TRBlockHeight = blockHeight, TRTimestamp = Timestamp tx,
     TRNonce = TxNonce tx\<rparr>"

definition SaveTransfer :: "'d db_env \<Rightarrow> crypto_lib \<Rightarrow> u64 \<Rightarrow> transaction \<Rightarrow> ('d Database, unit) step" where
  "SaveTransfer E cl blockHeight tx =
     db_Put E (makeTransferKey blockHeight (Tx_Hash cl tx)) (tr_Marshal E (transferRecord cl tx blockHeight))"

definition saveTransfers :: "'d db_env \<Rightarrow> crypto_lib \<Rightarrow> block \<Rightarrow> ('d Database, unit) step" where
  "saveTransfers E cl b = forS (\<lambda>tx. if Type tx = 0 then ignore_error (SaveTransfer E cl (Height (Header b)) tx)
     else Pair (Inr ())) (BTransactions b)"

definition SaveBlock :: "'d db_env \<Rightarrow> crypto_lib \<Rightarrow> block \<Rightarrow> ('d Database, unit) step" where
  "SaveBlock E cl b =
     bindS (on_blocks (WriteBlock cl (Height (Header b)) (blk_ToJSON E b))) (\<lambda>_.
     bindS (SaveLatestHeight E (Height (Header b))) (\<lambda>_.
     bindS (ignore_error (SaveBlockTimestamp E (Height (Header b)) (HTimestamp (Header b)))) (\<lambda>_.
     bindS (forS (SaveTransaction E cl) (BTransactions b)) (\<lambda>_.
       saveTransfers E cl b))))"

definition SaveBlockForBackfill :: "'d db_env \<Rightarrow> crypto_lib \<Rightarrow> block \<Rightarrow> ('d Database, unit) step" where
  "SaveBlockForBackfill E cl b =
     bindS (on_blocks (WriteBlock cl (Height (Header b)) (blk_ToJSON E b))) (\<lambda>_.
     bindS (ignore_error (SaveBlockTimestamp E (Height (Header b)) (HTimestamp (Header b)))) (\<lambda>_.
     bindS (forS (\<lambda>tx. ignore_error (SaveTransaction E cl tx)) (BTransactions b)) (\<lambda>_.
       saveTransfers E cl b)))"

definition GetBlockByHeight :: "'d db_env \<Rightarrow> ConsensusConfig \<Rightarrow> crypto_lib \<Rightarrow> u64 \<Rightarrow> ('d Database, block) step" where
  "GetBlockByHeight E cfg cl height =
     bindS (on_blocks (if sint (VerifyBlockHash (Storage cfg)) = 1 then ReadBlockWithVerify cl height else ReadBlock height)) (\<lambda>data.
       case blk_FromJSON E data of None \<Rightarrow> Pair (Inl ErrDecode) | Some b \<Rightarrow> Pair (Inr b))"

definition GetLatestBlock :: "'d db_env \<Rightarrow> ConsensusConfig \<Rightarrow> crypto_lib \<Rightarrow> ('d Database, block) step" where
  "GetLatestBlock E cfg cl D = (case GetLatestHeight E D of
     Inl e \<Rightarrow> (Inl e, D)
   | Inr height \<Rightarrow> if height = 0 then (Inl ErrNotFound, D) else GetBlockByHeight E cfg cl height D)"

text \<open>The loop stops early only on \<^verbatim>\<open>leveldb.ErrNotFound\<close>, which the block store never returns: its
  errors are made by \<^verbatim>\<open>fmt.Errorf\<close> or come from the file system. Every read error is therefore
  returned. A hang stays a hang.\<close>

fun rangeLoop :: "'d db_env \<Rightarrow> ConsensusConfig \<Rightarrow> crypto_lib \<Rightarrow> u64 list \<Rightarrow> ('d Database, block list) step" where
  "rangeLoop E cfg cl [] = Pair (Inr [])"
| "rangeLoop E cfg cl (h # hs) = bindS (GetBlockByHeight E cfg cl h) (\<lambda>b.
     bindS (rangeLoop E cfg cl hs) (\<lambda>bl. Pair (Inr (b # bl))))"

definition GetBlockRange ::
    "'d db_env \<Rightarrow> ConsensusConfig \<Rightarrow> crypto_lib \<Rightarrow> u64 \<Rightarrow> u64 \<Rightarrow> ('d Database, block list) step" where
  "GetBlockRange E cfg cl fromHeight toHeight =
     (if toHeight < fromHeight then Pair (Inr [])
      else if \<not> make_cap_ok (toHeight - fromHeight + 1) 8 then Pair (Inl Panic)
      else rangeLoop E cfg cl (heightsFromTo fromHeight toHeight))"

definition GetEarliestHeight :: "('d Database, u64) step" where
  "GetEarliestHeight D = (case on_blocks GetEarliestBlockHeight D of
     (Inr height, D') \<Rightarrow> (Inr (if height > 0 then height else 1), D')
   | (Inl e, D') \<Rightarrow> if e = Deadlock then (Inl Deadlock, D') else (Inr 1, D'))"

definition db_HasBlock :: "u64 \<Rightarrow> ('d Database, bool) step" where
  "db_HasBlock height = on_blocks (HasBlock height)"

definition db_DeleteBlocksAboveHeight :: "'d db_env \<Rightarrow> u64 \<Rightarrow> ('d Database, unit) step" where
  "db_DeleteBlocksAboveHeight E targetHeight D = (case on_blocks (DeleteBlocksAboveHeight targetHeight) D of
     (Inl e, D') \<Rightarrow> if e = Deadlock then (Inl Deadlock, D') else SaveLatestHeight E targetHeight D'
   | (Inr _, D') \<Rightarrow> SaveLatestHeight E targetHeight D')"

definition PruneBlocks :: "'d db_env \<Rightarrow> u64 \<Rightarrow> ('d Database, nat) step" where
  "PruneBlocks E keepBlocks D = (case GetLatestHeight E D of
     Inl e \<Rightarrow> (Inl e, D)
   | Inr latest \<Rightarrow> on_blocks (PruneChunks latest keepBlocks) D)"

section \<open>Accounts\<close>

definition db_SaveAccountsBatch :: "'d db_env \<Rightarrow> account list \<Rightarrow> ('d Database, unit) step" where
  "db_SaveAccountsBatch E accounts =
     (if accounts = [] then Pair (Inr ()) else on_state (SaveAccountsBatch (accEnv E) accounts))"

definition database_ops :: "'d db_env \<Rightarrow> 'd Database store_ops" where
  "database_ops E = \<lparr>
     st_get = (\<lambda>D. SS_GetAccount (accEnv E) (stateStore D)),
     st_all = (\<lambda>D. SS_GetAllAccounts (accEnv E) (stateStore D)),
     st_save = (\<lambda>acc. on_state (SaveAccount (accEnv E) acc)),
     st_batch = db_SaveAccountsBatch E,
     st_batch_height = (\<lambda>accs height. on_state (SaveAccountsBatchWithHeight (accEnv E) accs height)),
     st_clear = on_state (ClearAllAccounts (accEnv E))\<rparr>"

section \<open>Transaction and transfer queries\<close>

text \<open>Newest block first; the scan stops once \<open>limit\<close> transactions were found.\<close>

definition involves :: "string \<Rightarrow> transaction \<Rightarrow> bool" where
  "involves address tx \<longleftrightarrow> From tx = address \<or> To tx = address"

definition GetTransactionsByAddress ::
    "'d db_env \<Rightarrow> ConsensusConfig \<Rightarrow> crypto_lib \<Rightarrow> string \<Rightarrow> i64 \<Rightarrow> ('d Database, transaction list) step" where
  "GetTransactionsByAddress E cfg cl address limit D =
     (let lim = (if sint limit \<le> 0 then 100 else nat (sint limit)) in
      case GetLatestHeight E D of
        Inl e \<Rightarrow> (Inl e, D)
      | Inr latest \<Rightarrow>
          (let fromHeight = (if latest > 200 then latest - 200 else 1) in
           bindS (GetBlockRange E cfg cl fromHeight latest) (\<lambda>blocks.
             if \<not> make_cap_ok (of_nat lim) 8 then Pair (Inl Panic)
             else Pair (Inr (take lim (filter (involves address) (concat (map BTransactions (rev blocks))))))) D))"

fun decodeRecords :: "'d db_env \<Rightarrow> (bytes \<times> bytes) list \<Rightarrow> TransferRecord list" where
  "decodeRecords E [] = []"
| "decodeRecords E ((k, v) # es) = (case tr_Unmarshal E v of
     None \<Rightarrow> decodeRecords E es | Some r \<Rightarrow> r # decodeRecords E es)"

text \<open>The paging loop, from the last record to the first: skip \<open>offset\<close> records, then collect up to
  \<open>limit\<close> of them. The limit is at least one here.\<close>

fun pageLoop :: "int \<Rightarrow> nat \<Rightarrow> TransferRecord list \<Rightarrow> TransferRecord list \<Rightarrow> TransferRecord list" where
  "pageLoop offset limit [] acc = acc"
| "pageLoop offset limit (r # rs) acc =
     (if offset > 0 then pageLoop (offset - 1) limit rs acc
      else let acc' = acc @ [r] in if limit \<le> length acc' then acc' else pageLoop offset limit rs acc')"

definition getTransfersWhere ::
    "'d db_env \<Rightarrow> (TransferRecord \<Rightarrow> bool) \<Rightarrow> i64 \<Rightarrow> i64 \<Rightarrow> 'd Database \<Rightarrow> error + TransferRecord list \<times> nat" where
  "getTransfersWhere E keep offset limit D =
     (let lim = (if sint limit \<le> 0 then 20 else nat (sint limit)) in
      case ldb_iter (kv_engine E) (db D) (string_bytes ''x'') of
        (es, Some e) \<Rightarrow> Inl e
      | (es, None) \<Rightarrow> (let allRecords = filter keep (decodeRecords E es) in
          Inr (pageLoop (sint offset) lim (rev allRecords) [], length allRecords)))"

definition GetTransfers :: "'d db_env \<Rightarrow> i64 \<Rightarrow> i64 \<Rightarrow> 'd Database \<Rightarrow> error + TransferRecord list \<times> nat" where
  "GetTransfers E = getTransfersWhere E (\<lambda>_. True)"

definition GetTransfersByAddress ::
    "'d db_env \<Rightarrow> string \<Rightarrow> i64 \<Rightarrow> i64 \<Rightarrow> 'd Database \<Rightarrow> error + TransferRecord list \<times> nat" where
  "GetTransfersByAddress E address = getTransfersWhere E (\<lambda>r. TRFrom r = address \<or> TRTo r = address)"

definition oldTransferKeys :: "u64 \<Rightarrow> (bytes \<times> bytes) list \<Rightarrow> bytes list" where
  "oldTransferKeys minHeight es =
     filter (\<lambda>k. 9 \<le> length k \<and> (be_fold (take 8 (drop 1 k)) :: u64) < minHeight) (map fst es)"

definition PruneTransfersBelowHeight :: "'d db_env \<Rightarrow> u64 \<Rightarrow> ('d Database, nat) step" where
  "PruneTransfersBelowHeight E minHeight D = (case ldb_iter (kv_engine E) (db D) (string_bytes ''x'') of
     (es, Some e) \<Rightarrow> (Inl e, D)
   | (es, None) \<Rightarrow>
       (let ks = oldTransferKeys minHeight es in
        if ks = [] then (Inr 0, D)
        else case ldb_write (kv_engine E) (db D) (map LDelete ks) of
          Inl e \<Rightarrow> (Inl e, D) | Inr d \<Rightarrow> (Inr (length ks), D\<lparr>db := d\<rparr>)))"

definition GetTransferCount :: "'d db_env \<Rightarrow> 'd Database \<Rightarrow> nat \<times> error option" where
  "GetTransferCount E D = (case ldb_iter (kv_engine E) (db D) (string_bytes ''x'') of (es, err) \<Rightarrow> (length es, err))"

section \<open>Validators, peers and timestamps\<close>

definition SaveValidator :: "'d db_env \<Rightarrow> string \<Rightarrow> bytes \<Rightarrow> u64 \<Rightarrow> ('d Database, unit) step" where
  "SaveValidator E address publicKey stakedAmount =
     db_Put E (string_bytes (''v'' @ address)) (publicKey @ be_put64 stakedAmount)"

text \<open>A value shorter than eight bytes makes the slice length negative, and Go panics.\<close>

definition GetAllValidators :: "'d db_env \<Rightarrow> 'd Database \<Rightarrow> error + (string, bytes) gomap \<times> error option" where
  "GetAllValidators E D = (case ldb_iter (kv_engine E) (db D) (string_bytes ''v'') of
     (es, err) \<Rightarrow> if list_ex (\<lambda>(k, v). length v < 8) es then Inl Panic
       else Inr (foldl (\<lambda>m (k, v). AList.update (bytes_string (drop 1 k)) (take (length v - 8) v) m) [] es, err))"

definition SavePeer :: "'d db_env \<Rightarrow> string \<Rightarrow> i64 \<Rightarrow> ('d Database, unit) step" where
  "SavePeer E address lastSeen = db_Put E (string_bytes (''p'' @ address)) (be_put64 lastSeen)"

definition GetAllPeers :: "'d db_env \<Rightarrow> 'd Database \<Rightarrow> error + (string, i64) gomap \<times> error option" where
  "GetAllPeers E D = (case ldb_iter (kv_engine E) (db D) (string_bytes ''p'') of
     (es, err) \<Rightarrow> if list_ex (\<lambda>(k, v). length v < 8) es then Inl Panic
       else Inr (foldl (\<lambda>m (k, v). AList.update (bytes_string (drop 1 k)) (be_fold (take 8 v)) m) [] es, err))"

text \<open>The deletion loop over the timestamp index: it stops at the first entry that is recent enough,
  drops delete errors, and panics on a key too short to hold a timestamp. \<open>del\<close> is
  \<^verbatim>\<open>db.Delete\<close>, a batch of one deletion.\<close>

fun pruneTimestamps :: "'d db_env \<Rightarrow> i64 \<Rightarrow> (bytes \<times> bytes) list \<Rightarrow> ('d Database, unit) step" where
  "pruneTimestamps E cutoffTime [] D = (Inr (), D)"
| "pruneTimestamps E cutoffTime ((k, v) # es) D = (case be_get64 (drop 1 k) of
     Inl e \<Rightarrow> (Inl e, D)
   | Inr timestamp \<Rightarrow>
       if sint cutoffTime \<le> sint timestamp then (Inr (), D)
       else pruneTimestamps E cutoffTime es (case ldb_write (kv_engine E) (db D) [LDelete k] of
          Inl e \<Rightarrow> D | Inr d \<Rightarrow> D\<lparr>db := d\<rparr>))"

definition pruneTimestampIndex :: "'d db_env \<Rightarrow> i64 \<Rightarrow> i64 \<Rightarrow> ('d Database, unit) step" where
  "pruneTimestampIndex E currentTime retentionDays D =
     (let retentionTime = retentionDays * 24 * 60 * 60; cutoffTime = currentTime - retentionTime in
      pruneTimestamps E cutoffTime (fst (ldb_iter (kv_engine E) (db D) (string_bytes ''s''))) D)"

definition CleanupOldBlocks :: "'d db_env \<Rightarrow> ConsensusConfig \<Rightarrow> i64 \<Rightarrow> ('d Database, unit) step" where
  "CleanupOldBlocks E cfg currentTime =
     (let retentionDays = LedgerRetentionDays (Storage cfg); keepBlocks = retentionDays * 17280 in
      bindS (PruneBlocks E keepBlocks) (\<lambda>_. pruneTimestampIndex E currentTime retentionDays))"

definition GetOldestBlockTime :: "'d db_env \<Rightarrow> 'd Database \<Rightarrow> error + i64" where
  "GetOldestBlockTime E D = (case fst (ldb_iter (kv_engine E) (db D) (string_bytes ''s'')) of
     [] \<Rightarrow> Inl ErrNotFound
   | (k, v) # es \<Rightarrow> be_get64 (drop 1 k))"

section \<open>Key separation\<close>

lemma key_heads:
  "latestHeightKey = of_char (CHR ''m'') # string_bytes ''eta:latest_height''"
  "makeTxKey h = of_char (CHR ''t'') # h"
  "makeTransferKey n h = of_char (CHR ''x'') # be_put64 n @ copy_into 32 h"
  "timestampKey t = of_char (CHR ''s'') # be_put64 t"
  by (simp_all add: latestHeightKey_def makeTxKey_def makeTransferKey_def timestampKey_def string_bytes_def)

lemma keys_distinct [simp]:
  "makeTxKey h \<noteq> latestHeightKey" "latestHeightKey \<noteq> makeTxKey h"
  "makeTransferKey n g \<noteq> latestHeightKey" "makeTransferKey n g \<noteq> makeTxKey h"
  "makeTxKey h \<noteq> makeTransferKey n g" "latestHeightKey \<noteq> makeTransferKey n g"
  "timestampKey t \<noteq> latestHeightKey" "timestampKey t \<noteq> makeTxKey h"
  "latestHeightKey \<noteq> timestampKey t" "makeTxKey h \<noteq> timestampKey t"
  by (simp_all add: key_heads)

lemma makeTxKey_inject [simp]: "makeTxKey h = makeTxKey g \<longleftrightarrow> h = g"
  by (simp add: makeTxKey_def)

section \<open>Paging\<close>

lemma pageLoop_take:
  assumes "length acc < limit" and "offset \<le> 0"
  shows "pageLoop offset limit rs acc = acc @ take (limit - length acc) rs"
  using assms
proof (induction offset limit rs acc rule: pageLoop.induct)
  case (2 offset limit r rs acc)
  show ?case
  proof (cases "limit \<le> length (acc @ [r])")
    case True
    then have "limit - length acc = 1" using 2(3) by simp
    then show ?thesis using 2(4) True by simp
  next
    case False
    then have "limit - length acc = Suc (limit - length (acc @ [r]))" by simp
    then show ?thesis using 2 False by simp
  qed
qed simp

lemma pageLoop_spec:
  assumes "0 < limit"
  shows "pageLoop offset limit rs [] = take limit (drop (nat offset) rs)"
proof (cases "offset \<le> 0")
  case True
  then show ?thesis using pageLoop_take[of "[]" limit offset rs] assms by simp
next
  case False
  then show ?thesis
  proof (induction rs arbitrary: offset)
    case (Cons r rs)
    then have n: "nat offset = Suc (nat (offset - 1))" by simp
    show ?case
    proof (cases "offset - 1 \<le> 0")
      case True
      then show ?thesis using Cons.prems pageLoop_take[of "[]" limit "offset - 1" rs] assms n by simp
    next
      case False
      then show ?thesis using Cons.IH[OF False] Cons.prems n by simp
    qed
  qed simp
qed

lemma decodeRecords_filter: "decodeRecords E es = List.map_filter (\<lambda>(k, v). tr_Unmarshal E v) es"
  by (induction E es rule: decodeRecords.induct) (simp_all add: map_filter_simps split: option.split)

section \<open>Effects on the key-value store\<close>

locale database_env = leveldb_spec "kv_engine E" kv
  for E :: "'d db_env" and kv :: "'d \<Rightarrow> bytes \<rightharpoonup> bytes"
begin

lemma db_Put_ok:
  assumes "db_Put E k v D = (Inr u, D')"
  shows "kv (db D') = (kv (db D))(k \<mapsto> v)" "blockStore D' = blockStore D" "stateStore D' = stateStore D"
  using assms put_ok by (auto simp: db_Put_def split: sum.splits)

lemma db_Put_any:
  assumes "db_Put E k v D = (r, D')"
  shows "kv (db D') = kv (db D) \<or> kv (db D') = (kv (db D))(k \<mapsto> v)" "blockStore D' = blockStore D" "stateStore D' = stateStore D"
  using assms put_ok by (auto simp: db_Put_def split: sum.splits)

lemma save_txs:
  assumes "forS (SaveTransaction E cl) txs D = (Inr u, D')"
  shows "kv (db D') = kv (db D) ++ map_of (rev (map (\<lambda>tx. (makeTxKey (Tx_Hash cl tx), tx_ToJSON E tx)) txs))
    \<and> blockStore D' = blockStore D \<and> stateStore D' = stateStore D"
  using assms
proof (induction txs arbitrary: D)
  case (Cons tx txs)
  then obtain D1 where 1: "SaveTransaction E cl tx D = (Inr (), D1)" and r: "forS (SaveTransaction E cl) txs D1 = (Inr u, D')"
    by (auto simp: bindS_Inr_iff)
  note p = db_Put_ok[OF 1[unfolded SaveTransaction_def]]
  show ?case using Cons.IH[OF r] p by (simp add: map_add_def fun_eq_iff split: option.split)
qed simp

text \<open>Steps that only touch transfer keys.\<close>

definition transfers_only :: "'d Database \<Rightarrow> 'd Database \<Rightarrow> bool" where
  "transfers_only D D' \<longleftrightarrow> blockStore D' = blockStore D \<and> stateStore D' = stateStore D
     \<and> (\<forall>k. (\<forall>n g. k \<noteq> makeTransferKey n g) \<longrightarrow> kv (db D') k = kv (db D) k)"

lemma transfers_only_order [simp]: "reflp transfers_only" "transp transfers_only"
  by (auto simp: transfers_only_def reflp_def transp_def)

lemma forS_in: "reflp R \<Longrightarrow> transp R \<Longrightarrow> (\<And>x. steps_in R (f x)) \<Longrightarrow> steps_in R (forS f xs)"
  by (induction xs) (auto intro: steps_in_bind)

lemma save_transfers: "steps_in transfers_only (saveTransfers E cl b)"
proof -
  have "steps_in transfers_only (ignore_error (SaveTransfer E cl h tx))" for h tx
    unfolding steps_in_def
  proof
    fix D :: "'d Database"
    obtain r D' where p: "SaveTransfer E cl h tx D = (r, D')" by (cases "SaveTransfer E cl h tx D")
    then show "transfers_only D (snd (ignore_error (SaveTransfer E cl h tx) D))"
      using db_Put_any[OF p[unfolded SaveTransfer_def]] by (auto simp: ignore_error_def transfers_only_def)
  qed
  then show ?thesis unfolding saveTransfers_def by (intro forS_in) (auto intro: transfers_only_order)
qed

lemma ignore_error_Inr: "ignore_error m s = (Inr u, s') \<longleftrightarrow> s' = snd (m s)"
  by (auto simp: ignore_error_def)

lemma SaveBlock_ok:
  assumes "SaveBlock E cl b D = (Inr u, D')"
  shows "WriteBlock cl (Height (Header b)) (blk_ToJSON E b) (blockStore D) = (Inr (), blockStore D')"
    and "stateStore D' = stateStore D"
    and "kv (db D') latestHeightKey = Some (be_put64 (Height (Header b)))"
    and "kv (db D') (makeTxKey g) = (kv (db D) ++ map_of (rev (map (\<lambda>tx. (makeTxKey (Tx_Hash cl tx), tx_ToJSON E tx)) (BTransactions b)))) (makeTxKey g)"
proof -
  let ?h = "Height (Header b)" and ?M = "map_of (rev (map (\<lambda>tx. (makeTxKey (Tx_Hash cl tx), tx_ToJSON E tx)) (BTransactions b)))"
  from assms obtain D1 D2 D3 D4 where 1: "on_blocks (WriteBlock cl ?h (blk_ToJSON E b)) D = (Inr (), D1)"
    and 2: "SaveLatestHeight E ?h D1 = (Inr (), D2)"
    and 3: "D3 = snd (SaveBlockTimestamp E ?h (HTimestamp (Header b)) D2)"
    and 4: "forS (SaveTransaction E cl) (BTransactions b) D3 = (Inr (), D4)"
    and 5: "saveTransfers E cl b D4 = (Inr u, D')"
    unfolding SaveBlock_def bindS_Inr_iff ignore_error_Inr by auto
  have w: "WriteBlock cl ?h (blk_ToJSON E b) (blockStore D) = (Inr (), blockStore D1)" "db D1 = db D" "stateStore D1 = stateStore D"
    using 1 by (auto simp: on_blocks_def split: prod.splits)
  note p2 = db_Put_ok[OF 2[unfolded SaveLatestHeight_def]]
  have p3: "kv (db D3) = kv (db D2) \<or> kv (db D3) = (kv (db D2))(timestampKey (HTimestamp (Header b)) \<mapsto> be_put64 ?h)"
    "blockStore D3 = blockStore D2" "stateStore D3 = stateStore D2"
    using db_Put_any[of "timestampKey (HTimestamp (Header b))" "be_put64 ?h" D2] 3
    by (cases "SaveBlockTimestamp E ?h (HTimestamp (Header b)) D2"; simp add: SaveBlockTimestamp_def)+
  note p4 = save_txs[OF 4]
  have p5: "transfers_only D4 D'" using steps_inD[OF save_transfers 5] .
  show "WriteBlock cl ?h (blk_ToJSON E b) (blockStore D) = (Inr (), blockStore D')" "stateStore D' = stateStore D"
    using w p2 p3 p4 p5 by (simp_all add: transfers_only_def)
  have m: "?M latestHeightKey = None" by (auto simp: map_of_eq_None_iff)
  have "kv (db D') latestHeightKey = kv (db D4) latestHeightKey" using p5 by (simp add: transfers_only_def)
  also have "\<dots> = kv (db D3) latestHeightKey" using p4 m by (simp add: map_add_def)
  also have "\<dots> = Some (be_put64 ?h)" using p3(1) p2 by auto
  finally show "kv (db D') latestHeightKey = Some (be_put64 ?h)" .
  have "kv (db D') (makeTxKey g) = (kv (db D3) ++ ?M) (makeTxKey g)" using p4 p5 by (simp add: transfers_only_def)
  moreover have "kv (db D3) (makeTxKey g) = kv (db D) (makeTxKey g)" using p3(1) p2 w by auto
  ultimately show "kv (db D') (makeTxKey g) = (kv (db D) ++ ?M) (makeTxKey g)"
    by (simp add: map_add_def split: option.split)
qed

end

section \<open>The account contract\<close>

lemma on_state_eq: "on_state m D = (r, D') \<Longrightarrow> m (stateStore D) = (r, stateStore D')"
  by (auto simp: on_state_def split: prod.splits)

text \<open>The database keeps the contract of the sharded store, whatever happens to its other parts.\<close>

lemma database_account_store:
  assumes "account_store (sharded_ops (accEnv E)) I acct"
  shows "account_store (database_ops E) (\<lambda>D. I (stateStore D)) (\<lambda>D. acct (stateStore D))"
proof
  fix D D' :: "'a Database" and a x xs r h
  assume i: "I (stateStore D)"
  show "finite (dom (acct (stateStore D)))" using account_store.acct_finite[OF assms i] .
  show "Address x = a" if "acct (stateStore D) a = Some x" using account_store.acct_address[OF assms i that] .
  show "x = (case acct (stateStore D) a of Some y \<Rightarrow> y | None \<Rightarrow> NewAccount a)" if "st_get (database_ops E) D a = Inr x"
    using account_store.get_ok[OF assms i, of a x] that by (simp add: database_ops_def sharded_ops_def)
  show "distinct (map Address xs) \<and> by_address xs = acct (stateStore D)" if "st_all (database_ops E) D = Inr xs"
    using account_store.all_ok[OF assms i, of xs] that by (simp add: database_ops_def sharded_ops_def)
  show "I (stateStore D') \<and> (\<forall>u. r = Inr u \<longrightarrow> acct (stateStore D') = (acct (stateStore D))(Address x \<mapsto> x))"
    if "st_save (database_ops E) x D = (r, D')"
    by (rule account_store.save_ok[OF assms i]) (use that in \<open>simp add: database_ops_def sharded_ops_def on_state_eq\<close>)
  show "I (stateStore D') \<and> (\<forall>u. r = Inr u \<longrightarrow> acct (stateStore D') = Map.empty)" if "st_clear (database_ops E) D = (r, D')"
    by (rule account_store.clear_ok[OF assms i]) (use that in \<open>simp add: database_ops_def sharded_ops_def on_state_eq\<close>)
  assume d: "distinct (map Address xs)"
  show "I (stateStore D') \<and> (\<forall>u. r = Inr u \<longrightarrow> acct (stateStore D') = acct (stateStore D) ++ by_address xs)"
    if "st_batch_height (database_ops E) xs h D = (r, D')"
    by (rule account_store.batch_height_ok[OF assms i d, where h = h]) (use that in \<open>simp add: database_ops_def sharded_ops_def on_state_eq\<close>)
  show "I (stateStore D') \<and> (\<forall>u. r = Inr u \<longrightarrow> acct (stateStore D') = acct (stateStore D) ++ by_address xs)"
    if b: "st_batch (database_ops E) xs D = (r, D')"
  proof (cases "xs = []")
    case True
    then show ?thesis using b i by (auto simp: database_ops_def db_SaveAccountsBatch_def by_address_def)
  next
    case False
    then show ?thesis
      by (intro account_store.batch_ok[OF assms i d]) (use b in \<open>simp add: database_ops_def sharded_ops_def db_SaveAccountsBatch_def on_state_eq\<close>)
  qed
qed

section \<open>Claims\<close>

text \<open>Every LevelDB read is answered, and the block files are read without faults.\<close>

definition db_readable :: "'d db_env \<Rightarrow> ('d \<Rightarrow> bytes \<rightharpoonup> bytes) \<Rightarrow> 'd Database \<Rightarrow> bool" where
  "db_readable E kv D \<longleftrightarrow> faults (blockStore D) = [] \<and> \<not> mu (blockStore D)
     \<and> (\<forall>k. ldb_get (kv_engine E) (db D) k = (case kv (db D) k of None \<Rightarrow> Inl ErrNotFound | Some v \<Rightarrow> Inr v))"

lemma GetBlockByHeight_run:
  assumes "block_at (files (blockStore D)) h = Some (blk_ToJSON E b)" and "sint (VerifyBlockHash (Storage cfg)) \<noteq> 1"
    and "faults (blockStore D) = []" and "\<not> mu (blockStore D)" and "blk_FromJSON E (blk_ToJSON E b) = Some b"
  shows "fst (GetBlockByHeight E cfg cl h D) = Inr b"
  using ReadBlock_run[OF assms(1,3,4)] assms(2,5) by (auto simp: GetBlockByHeight_def bindS_def on_blocks_def)

text \<open>A saved block becomes the latest block. After a successful \<^verbatim>\<open>SaveBlock\<close> of a block of less
  than 4 GiB the latest height is its height, the latest block is that block, each of its
  transactions is found under its hash (or another one of the block with the same hash), every
  block that was readable at another height still is, and the accounts are untouched.\<close>

theorem saved_block_is_latest:
  assumes "leveldb_spec (kv_engine E) kv" and "SaveBlock E cl b D = (Inr (), D')" and "db_readable E kv D'"
    and "block_fits (Height (Header b)) (blk_ToJSON E b) (blockStore D)"
    and "blk_FromJSON E (blk_ToJSON E b) = Some b" and "\<And>tx. tx \<in> set (BTransactions b) \<Longrightarrow> tx_FromJSON E (tx_ToJSON E tx) = Some tx"
    and "sint (VerifyBlockHash (Storage cfg)) \<noteq> 1"
  shows "GetLatestHeight E D' = Inr (Height (Header b))
    \<and> (Height (Header b) \<noteq> 0 \<longrightarrow> fst (GetLatestBlock E cfg cl D') = Inr b)
    \<and> (\<forall>tx\<in>set (BTransactions b). \<exists>tx'\<in>set (BTransactions b). Tx_Hash cl tx' = Tx_Hash cl tx \<and> GetTransaction E (Tx_Hash cl tx) D' = Inr tx')
    \<and> (\<forall>h'. h' \<noteq> Height (Header b) \<longrightarrow> fst (ReadBlock h' (blockStore D)) = Inr d' \<longrightarrow> fst (ReadBlock h' (blockStore D')) = Inr d')
    \<and> stateStore D' = stateStore D"
proof -
  have env: "database_env E kv" using assms(1) by (rule database_env.intro)
  note S = database_env.SaveBlock_ok[OF env assms(2)]
  have R: "faults (blockStore D') = []" "\<not> mu (blockStore D')"
    "\<And>k v. kv (db D') k = Some v \<Longrightarrow> ldb_get (kv_engine E) (db D') k = Inr v"
    using assms(3) by (simp_all add: db_readable_def)
  have lh: "GetLatestHeight E D' = Inr (Height (Header b))"
    using R(3)[OF S(3)] be_get64_put64[of "Height (Header b)" "[]"] by (simp add: GetLatestHeight_def)
  have "block_at (files (blockStore D')) (Height (Header b)) = Some (blk_ToJSON E b)"
    using flat.written[OF S(1) assms(4)] .
  then have lb: "fst (GetBlockByHeight E cfg cl (Height (Header b)) D') = Inr b"
    using GetBlockByHeight_run assms(5,7) R by blast
  have txs: "\<exists>tx'\<in>set (BTransactions b). Tx_Hash cl tx' = Tx_Hash cl tx \<and> GetTransaction E (Tx_Hash cl tx) D' = Inr tx'"
    if "tx \<in> set (BTransactions b)" for tx
  proof -
    let ?M = "map_of (rev (map (\<lambda>tx. (makeTxKey (Tx_Hash cl tx), tx_ToJSON E tx)) (BTransactions b)))"
    have "?M (makeTxKey (Tx_Hash cl tx)) \<noteq> None" using that by (simp add: map_of_eq_None_iff image_image)
    then obtain v where v: "?M (makeTxKey (Tx_Hash cl tx)) = Some v" by blast
    then obtain tx' where tx': "tx' \<in> set (BTransactions b)" "Tx_Hash cl tx' = Tx_Hash cl tx" "v = tx_ToJSON E tx'"
      by (auto dest!: map_of_SomeD)
    have "kv (db D') (makeTxKey (Tx_Hash cl tx)) = Some (tx_ToJSON E tx')"
      using S(4)[of "Tx_Hash cl tx"] v tx'(3) by (simp add: map_add_def)
    from R(3)[OF this] have "GetTransaction E (Tx_Hash cl tx) D' = Inr tx'"
      using assms(6)[OF tx'(1)] by (simp add: GetTransaction_def)
    with tx' show ?thesis by blast
  qed
  have others: "fst (ReadBlock h' (blockStore D')) = Inr d'"
    if "h' \<noteq> Height (Header b)" "fst (ReadBlock h' (blockStore D)) = Inr d'" for h'
  proof -
    have "block_at (files (blockStore D)) h' = Some d'" using that(2) ReadBlock_ok(1) by (metis prod.collapse)
    from flat.kept[OF S(1) that(1) this] ReadBlock_run[OF _ R(1,2)] show ?thesis by fastforce
  qed
  show ?thesis using lh lb txs others S(2) by (auto simp: GetLatestBlock_def)
qed

section \<open>An instance\<close>

text \<open>The reference engine with byte codecs for transactions and blocks in the style of the account
  codec; the transfer codec keeps only the amount.\<close>

lemma length_enc_bytes [simp]: "length (enc_bytes xs) = 2 * length xs + 1"
  by (induction xs) auto

definition ref_tx_ToJSON :: "transaction \<Rightarrow> bytes" where
  "ref_tx_ToJSON t = be_put64 (Amount t) @ be_put64 (GasFee t) @ be_put64 (TxNonce t) @ be_put64 (Timestamp t)
     @ be_put64 (GasLimit t) @ [Type t] @ enc_bytes (string_bytes (From t)) @ enc_bytes (string_bytes (To t))
     @ enc_bytes (TxData t) @ enc_bytes (Signature t) @ enc_bytes (PublicKey t)"

definition ref_tx_FromJSON :: "bytes \<Rightarrow> transaction option" where
  "ref_tx_FromJSON b = (if length b < 41 then None else
     let (fr, r) = dec_bytes (drop 41 b); (t, r) = dec_bytes r; (da, r) = dec_bytes r; (sg, r) = dec_bytes r; (pk, r) = dec_bytes r
     in Some \<lparr>Type = b ! 40, From = bytes_string fr, To = bytes_string t, Amount = be_fold (take 8 b),
        GasFee = be_fold (take 8 (drop 8 b)), TxNonce = be_fold (take 8 (drop 16 b)),
        Timestamp = be_fold (take 8 (drop 24 b)), TxData = da, GasLimit = be_fold (take 8 (drop 32 b)),
        Signature = sg, PublicKey = pk\<rparr>)"

lemma ref_tx_roundtrip [simp]: "ref_tx_FromJSON (ref_tx_ToJSON t) = Some t"
  using dec_enc_bytes[of "PublicKey t" "[]"]
  by (simp add: ref_tx_FromJSON_def ref_tx_ToJSON_def nth_append)

fun dec_txs :: "nat \<Rightarrow> bytes \<Rightarrow> transaction list" where
  "dec_txs 0 r = []"
| "dec_txs (Suc n) r = (case dec_bytes r of (b, r') \<Rightarrow>
     (case ref_tx_FromJSON b of None \<Rightarrow> [] | Some t \<Rightarrow> t # dec_txs n r'))"

lemma dec_txs_concat: "dec_txs (length ts) (concat (map (\<lambda>t. enc_bytes (ref_tx_ToJSON t)) ts)) = ts"
  by (induction ts) auto

definition ref_blk_ToJSON :: "block \<Rightarrow> bytes" where
  "ref_blk_ToJSON b = (let h = Header b in be_put64 (Height h) @ be_put64 (HTimestamp h) @ enc_bytes (PreviousHash h)
     @ enc_bytes (StateRoot h) @ enc_bytes (TxRoot h) @ enc_bytes (string_bytes (Proposer h)) @ enc_bytes (HVRFProof h)
     @ enc_bytes (HVRFOutput h) @ enc_bytes (HSignature h) @ enc_bytes (BData b)
     @ enc_bytes (map (\<lambda>_. 0) (BTransactions b)) @ concat (map (\<lambda>t. enc_bytes (ref_tx_ToJSON t)) (BTransactions b)))"

definition ref_blk_FromJSON :: "bytes \<Rightarrow> block option" where
  "ref_blk_FromJSON b = (let (ph, r) = dec_bytes (drop 16 b); (sr, r) = dec_bytes r; (tr, r) = dec_bytes r; (pr, r) = dec_bytes r;
       (vp, r) = dec_bytes r; (vo, r) = dec_bytes r; (sg, r) = dec_bytes r; (da, r) = dec_bytes r; (n, r) = dec_bytes r
     in Some \<lparr>Header = \<lparr>Height = be_fold (take 8 b), PreviousHash = ph, HTimestamp = be_fold (take 8 (drop 8 b)), StateRoot = sr,
          TxRoot = tr, Proposer = bytes_string pr, HVRFProof = vp, HVRFOutput = vo, HSignature = sg\<rparr>,
        BTransactions = dec_txs (length n) r, BData = da, IsCheckpointPlaceholder = False, CheckpointHash = zero_hash\<rparr>)"

lemma ref_blk_roundtrip:
  "\<not> IsCheckpointPlaceholder b \<Longrightarrow> CheckpointHash b = zero_hash \<Longrightarrow> ref_blk_FromJSON (ref_blk_ToJSON b) = Some b"
  using dec_txs_concat[of "BTransactions b"] by (simp add: ref_blk_FromJSON_def ref_blk_ToJSON_def Let_def)

definition demo_tx_block :: block where
  "demo_tx_block = NewBlock demo_crypto 1700000001000 7 zero_hash GenesisAddress [demo_reward]"

definition demo_db_env :: "ref_db db_env" where
  "demo_db_env = \<lparr>accEnv = ref_env, blk_ToJSON = ref_blk_ToJSON, blk_FromJSON = ref_blk_FromJSON,
     tx_ToJSON = ref_tx_ToJSON, tx_FromJSON = ref_tx_FromJSON,
     tr_Marshal = (\<lambda>r. be_put64 (TRAmount r)),
     tr_Unmarshal = (\<lambda>b. Some \<lparr>TRTxHash = [], TRFrom = ''F1'', TRTo = ''F2'', TRAmount = be_fold b, TRGasFee = 0,
        TRBlockHeight = 0, TRTimestamp = 0, TRNonce = 0\<rparr>)\<rparr>"

lemma demo_db_env_simps [simp]: "engine ref_env = ref_leveldb" "accEnv demo_db_env = ref_env"
    "blk_ToJSON demo_db_env = ref_blk_ToJSON" "blk_FromJSON demo_db_env = ref_blk_FromJSON"
    "tx_ToJSON demo_db_env = ref_tx_ToJSON" "tx_FromJSON demo_db_env = ref_tx_FromJSON"
  by (simp_all add: demo_db_env_def ref_env_def)

interpretation demo_db: database_env demo_db_env ref_kv
  by (rule database_env.intro) (simp add: Level_DB.ref.leveldb_spec_axioms)

interpretation demo_db_accounts: account_store "database_ops demo_db_env"
    "\<lambda>D. sstore_wf ref_env ref_kv (stateStore D)" "\<lambda>D. shard_acct ref_env ref_kv (stateStore D)"
  by (rule database_account_store) (simp add: demo_db_env_def ref_store.account_store_axioms)

definition demo_database :: "ref_db Database" where
  "demo_database = \<lparr>db = ref_empty, stateStore = ref_sstore, blockStore = demo_store\<rparr>"

lemma ref_get: "ldb_get ref_leveldb d k = (case ref_kv d k of None \<Rightarrow> Inl ErrNotFound | Some v \<Rightarrow> Inr v)"
  by (simp add: ref_leveldb_def ref_kv_def)

lemma ref_puts: "ldb_put ref_leveldb d k v = Inr (ref_apply (LPut k v) d)"
  by (simp add: ref_leveldb_def)

lemma demo_put: "db_Put demo_db_env k v D = (Inr (), D\<lparr>db := ref_apply (LPut k v) (db D)\<rparr>)"
  by (simp add: db_Put_def ref_puts)

text \<open>On the reference engine only the block file can make a save fail.\<close>

lemma demo_save_run:
  assumes "WriteBlock cl (Height (Header b)) (ref_blk_ToJSON b) (blockStore D) = (Inr (), bs)"
  shows "\<exists>D'. SaveBlock demo_db_env cl b D = (Inr (), D')"
proof -
  have ok: "\<exists>D'. forS f xs D = (Inr (), D')" if always: "\<And>x D. \<exists>D'. f x D = (Inr (), D')" for f and xs :: "'a list" and D :: "ref_db Database"
  proof (induction xs arbitrary: D)
    case (Cons x xs)
    obtain D1 where "f x D = (Inr (), D1)" using always by blast
    with Cons[of D1] show ?case by (simp add: bindS_def)
  qed simp
  have "\<exists>D'. SaveTransaction demo_db_env cl tx D = (Inr (), D')"
    "\<exists>D'. (if Type tx = 0 then ignore_error (SaveTransfer demo_db_env cl (Height (Header b)) tx) else Pair (Inr ())) D = (Inr (), D')" for tx D
    by (simp_all add: SaveTransaction_def demo_put ignore_error_def)
  note ok1 = ok[of "SaveTransaction demo_db_env cl", OF this(1)]
    and ok2 = ok[of "\<lambda>tx. if Type tx = 0 then ignore_error (SaveTransfer demo_db_env cl (Height (Header b)) tx) else Pair (Inr ())", OF this(2)]
  let ?D1 = "D\<lparr>blockStore := bs\<rparr>"
  let ?D2 = "?D1\<lparr>db := ref_apply (LPut latestHeightKey (be_put64 (Height (Header b)))) (db ?D1)\<rparr>"
  let ?D3 = "?D2\<lparr>db := ref_apply (LPut (timestampKey (HTimestamp (Header b))) (be_put64 (Height (Header b)))) (db ?D2)\<rparr>"
  obtain D4 where 4: "forS (SaveTransaction demo_db_env cl) (BTransactions b) ?D3 = (Inr (), D4)" using ok1 by blast
  obtain D5 where 5: "saveTransfers demo_db_env cl b D4 = (Inr (), D5)" using ok2 unfolding saveTransfers_def by blast
  show ?thesis
    using 4 5 assms
    by (simp add: SaveBlock_def bindS_def on_blocks_def SaveLatestHeight_def demo_put ignore_error_def SaveBlockTimestamp_def)
qed

lemma demo_tx_block_fits: "block_fits (Height (Header demo_tx_block)) (ref_blk_ToJSON demo_tx_block) demo_store"
  by (simp add: block_fits_def ref_blk_ToJSON_def ref_tx_ToJSON_def demo_tx_block_def NewBlock_def CalculateTxRoot_def
      CalculateHash_def demo_reward_def NewRewardTx_def GenesisAddress_def Let_def demo_crypto_def demo_digest_def)

theorem saved_block_is_latest_witness:
  "\<exists>D'. SaveBlock demo_db_env demo_crypto demo_tx_block demo_database = (Inr (), D')
     \<and> GetLatestHeight demo_db_env D' = Inr 7 \<and> fst (GetLatestBlock demo_db_env shipped_config demo_crypto D') = Inr demo_tx_block"
proof -
  have h: "Height (Header demo_tx_block) = 7" by (simp add: demo_tx_block_def NewBlock_def)
  obtain bs where w: "WriteBlock demo_crypto 7 (ref_blk_ToJSON demo_tx_block) demo_store = (Inr (), bs)" "faults bs = []" "\<not> mu bs"
    using WriteBlock_run[of demo_store demo_crypto 7] by auto
  obtain D' where s: "SaveBlock demo_db_env demo_crypto demo_tx_block demo_database = (Inr (), D')"
    using demo_save_run[of demo_crypto demo_tx_block demo_database bs] w(1) h by (auto simp: demo_database_def)
  have bs: "blockStore D' = bs"
    using demo_db.SaveBlock_ok(1)[OF s] w(1) h by (simp add: demo_database_def)
  have r: "db_readable demo_db_env ref_kv D'" using w bs by (simp add: db_readable_def ref_get)
  have v: "sint (VerifyBlockHash (Storage shipped_config)) \<noteq> 1" by (simp add: shipped_config_def)
  have rt: "blk_FromJSON demo_db_env (blk_ToJSON demo_db_env demo_tx_block) = Some demo_tx_block"
    by (simp add: ref_blk_roundtrip demo_tx_block_def NewBlock_def)
  have l: "leveldb_spec (kv_engine demo_db_env) ref_kv" by (simp add: Level_DB.ref.leveldb_spec_axioms)
  have f: "block_fits (Height (Header demo_tx_block)) (blk_ToJSON demo_db_env demo_tx_block) (blockStore demo_database)"
    using demo_tx_block_fits by (simp add: demo_database_def)
  from saved_block_is_latest[OF l s r f rt _ v] h s show ?thesis by auto
qed

text \<open>A page of the transfer list is a slice of the newest-first list. With the records of the
  index in key order, the query for an address returns the matching records from the newest to
  the oldest, without the first \<open>offset\<close> of them and at most \<open>limit\<close> (20 when not positive), together
  with the number of all matching records.\<close>

theorem transfers_page:
  fixes E :: "'d db_env" and address :: string
  assumes "ldb_iter (kv_engine E) (db D) (string_bytes ''x'') = (es, None)"
  defines "recs \<equiv> filter (\<lambda>r. TRFrom r = address \<or> TRTo r = address) (List.map_filter (\<lambda>(k, v). tr_Unmarshal E v) es)"
  shows "GetTransfersByAddress E address offset limit D
    = Inr (take (if sint limit \<le> 0 then 20 else nat (sint limit)) (drop (nat (sint offset)) (rev recs)), length recs)"
  using assms by (auto simp: GetTransfersByAddress_def getTransfersWhere_def decodeRecords_filter pageLoop_spec Let_def)

theorem transfers_page_witness:
  "GetTransfersByAddress demo_db_env ''F1'' 0 5
     (demo_database\<lparr>db := ref_apply (LPut (makeTransferKey 3 zero_hash) (be_put64 8)) ref_empty\<rparr>)
   = Inr ([\<lparr>TRTxHash = [], TRFrom = ''F1'', TRTo = ''F2'', TRAmount = 8, TRGasFee = 0, TRBlockHeight = 0, TRTimestamp = 0, TRNonce = 0\<rparr>], 1)"
proof -
  let ?D = "demo_database\<lparr>db := ref_apply (LPut (makeTransferKey 3 zero_hash) (be_put64 8)) ref_empty\<rparr>"
  have it: "ldb_iter (kv_engine demo_db_env) (db ?D) (string_bytes ''x'') = ([(makeTransferKey 3 zero_hash, be_put64 8)], None)"
    by (simp add: ref_leveldb_def has_prefix_def key_heads string_bytes_def)
  show ?thesis unfolding transfers_page[OF it] by (simp add: demo_db_env_def map_filter_simps)
qed

lemma transfer_key_height: "be_fold (take 8 (drop (Suc 0) (makeTransferKey h g))) = h" "9 \<le> length (makeTransferKey h g)"
  by (simp_all add: makeTransferKey_def)

lemma transfer_key_prefix: "has_prefix (string_bytes ''x'') (makeTransferKey h g)"
  by (simp add: has_prefix_def makeTransferKey_def string_bytes_def)

text \<open>Pruning the transfer index is exact. It removes the record of every transfer below the given
  height and no other: records from that height on, transactions, metadata and every other key
  stay as they were, and the returned count is the number of removed keys.\<close>

theorem prune_transfers_exact:
  assumes "leveldb_spec (kv_engine E) kv" and "PruneTransfersBelowHeight E minHeight D = (Inr n, D')"
  shows "kv (db D') (makeTransferKey h g) = (if h < minHeight then None else kv (db D) (makeTransferKey h g))
    \<and> (\<not> has_prefix (string_bytes ''x'') k \<longrightarrow> kv (db D') k = kv (db D) k)
    \<and> n = card (dom (kv (db D)) - dom (kv (db D')))"
proof -
  obtain es where it: "ldb_iter (kv_engine E) (db D) (string_bytes ''x'') = (es, None)"
    using assms(2) by (auto simp: PruneTransfersBelowHeight_def split: prod.splits option.splits)
  have es: "set es = {(k, v). kv (db D) k = Some v \<and> has_prefix (string_bytes ''x'') k}" "distinct (map fst es)"
    using leveldb_spec.iter_entries[OF assms(1) it] leveldb_spec.iter_distinct[OF assms(1) it] by simp_all
  let ?ks = "oldTransferKeys minHeight es"
  have ks: "k \<in> set ?ks \<longleftrightarrow> kv (db D) k \<noteq> None \<and> has_prefix (string_bytes ''x'') k \<and> 9 \<le> length k
      \<and> (be_fold (take 8 (drop 1 k)) :: u64) < minHeight" for k
    using es(1) by (force simp: oldTransferKeys_def)
  have n: "n = length ?ks" and kv': "kv (db D') = kv (db D) |` (- set ?ks)"
    using assms(2) it leveldb_spec.write_ok[OF assms(1), of "db D" "map LDelete ?ks"]
    by (auto simp: PruneTransfersBelowHeight_def Let_def apply_batch_deletes restrict_map_def split: if_splits sum.splits)
  have "distinct ?ks" using es(2) by (simp add: oldTransferKeys_def)
  moreover have "set ?ks = dom (kv (db D)) - dom (kv (db D'))" using ks by (auto simp: kv' restrict_map_def)
  ultimately have "n = card (dom (kv (db D)) - dom (kv (db D')))" using n distinct_card by metis
  moreover have "kv (db D') (makeTransferKey h g) = (if h < minHeight then None else kv (db D) (makeTransferKey h g))"
    using ks[of "makeTransferKey h g"] by (auto simp: kv' restrict_map_def transfer_key_height transfer_key_prefix)
  ultimately show ?thesis using ks[of k] by (auto simp: kv' restrict_map_def)
qed

theorem prune_transfers_exact_witness:
  "\<exists>n D'. PruneTransfersBelowHeight demo_db_env 4 (demo_database\<lparr>db := ref_apply (LPut (makeTransferKey 3 zero_hash) [8]) ref_empty\<rparr>) = (Inr n, D')
     \<and> ref_kv (db D') (makeTransferKey 3 zero_hash) = None"
proof -
  let ?D = "demo_database\<lparr>db := ref_apply (LPut (makeTransferKey 3 zero_hash) [8]) ref_empty\<rparr>"
  have "\<exists>n D'. PruneTransfersBelowHeight demo_db_env 4 D = (Inr n, D')" for D
    by (auto simp: PruneTransfersBelowHeight_def ref_leveldb_def Let_def)
  then obtain n D' where p: "PruneTransfersBelowHeight demo_db_env 4 ?D = (Inr n, D')" by blast
  have "leveldb_spec (kv_engine demo_db_env) ref_kv" by (simp add: Level_DB.ref.leveldb_spec_axioms)
  from prune_transfers_exact[OF this p, of 3 zero_hash] p show ?thesis by (simp add: word_less_nat_alt)
qed

lemma db_delete_never_returns:
  "fst (db_DeleteBlocksAboveHeight E targetHeight D) = Inl Deadlock \<and> db (snd (db_DeleteBlocksAboveHeight E targetHeight D)) = db D"
proof -
  obtain bs' where "DeleteBlocksAboveHeight targetHeight (blockStore D) = (Inl Deadlock, bs')"
    using delete_hangs[of targetHeight "blockStore D"] by (metis prod.collapse)
  then show ?thesis by (simp add: db_DeleteBlocksAboveHeight_def on_blocks_def)
qed

end
