(* ===== verification/Validators.thy ===== *)
theory Validators
  imports State_Claims Core_Chain "HOL-Library.Product_Lexorder"
begin

text \<open>
  The validator set and the consensus engine, \<^verbatim>\<open>consensus/validator.go\<close>: loading the set from the
  accounts or a checkpoint, the ranking of the active set, the selection of the proposer of a
  height from a seed, and the reward transactions of a block. \<^verbatim>\<open>time.Now()\<close> is the argument \<open>now\<close>.
  The sort of the active set is by the pair of negated stake and address, the sort of the proposer
  selection by address; \<^verbatim>\<open>sort.Slice\<close> is not stable, but validators have distinct addresses.
  A log line that slices an address shorter than ten bytes panics.

  Lemmas: the active set is the top of the ranking and does not depend on the order of the
  accounts; the selected proposer is always an active validator and is the same for every node
  with the same active set; the precomputed order of a cycle agrees with the selection height by
  height.
\<close>

section \<open>Validator set\<close>

record ValidatorSet =
  vs_validators :: "validator list"
  activeValidators :: "validator list"
  lastUpdate :: i64

definition NewValidatorSet :: "i64 \<Rightarrow> ValidatorSet" where
  "NewValidatorSet now = \<lparr>vs_validators = [], activeValidators = [], lastUpdate = now\<rparr>"

definition loadedValidator :: "i64 \<Rightarrow> string \<Rightarrow> u64 \<Rightarrow> bytes \<Rightarrow> validator" where
  "loadedValidator now address stake key = \<lparr>VAddress = address, StakedAmount = stake, Status = ValActive,
     VRFPublicKey = key, VRFPrivateKey = [], LastBlockTime = now, LastHeartbeat = now, TotalBlocks = 0,
     MissedBlocks = 0\<rparr>"

definition LoadFromState ::
    "'s store_ops \<Rightarrow> ConsensusConfig \<Rightarrow> i64 \<Rightarrow> 's \<Rightarrow> (ValidatorSet, unit) step" where
  "LoadFromState S cfg now db vs = (case st_all S db of
     Inl e \<Rightarrow> (Inl e, vs)
   | Inr accounts \<Rightarrow> (Inr (), vs\<lparr>vs_validators :=
       map (\<lambda>acc. loadedValidator now (Address acc) (StakedBalance acc) []) (filter (IsValidator cfg) accounts)\<rparr>))"

definition LoadFromCheckpoint :: "i64 \<Rightarrow> ValidatorSnapshot list \<Rightarrow> ValidatorSet \<Rightarrow> ValidatorSet" where
  "LoadFromCheckpoint now snapshots vs =
     (let vals = map (\<lambda>s. loadedValidator now (VSAddress s) (VSStake s) (VSVRFPubKey s)) snapshots
      in vs\<lparr>vs_validators := vals, activeValidators := vals, lastUpdate := now\<rparr>)"

definition rank :: "validator \<Rightarrow> int \<times> string" where
  "rank v = (- uint (StakedAmount v), VAddress v)"

definition UpdateActiveSet :: "ConsensusConfig \<Rightarrow> i64 \<Rightarrow> (ValidatorSet, unit) step" where
  "UpdateActiveSet cfg now vs =
     (let active = sort_key rank (filter (IsActive cfg) (vs_validators vs));
          activeSetSize = sint (ActiveValidatorSet (Validators cfg)) in
      if int (length active) > activeSetSize then
        (if activeSetSize < 0 then (Inl Panic, vs)
         else (Inr (), vs\<lparr>activeValidators := take (nat activeSetSize) active, lastUpdate := now\<rparr>))
      else (Inr (), vs\<lparr>activeValidators := active, lastUpdate := now\<rparr>))"

definition IsActiveValidator :: "string \<Rightarrow> ValidatorSet \<Rightarrow> bool" where
  "IsActiveValidator address vs = list_ex (\<lambda>v. VAddress v = address) (activeValidators vs)"

fun update_stake :: "string \<Rightarrow> u64 \<Rightarrow> validator list \<Rightarrow> validator list option" where
  "update_stake a n [] = None"
| "update_stake a n (v # vs) =
     (if VAddress v = a then Some (v\<lparr>StakedAmount := n\<rparr> # vs)
      else map_option ((#) v) (update_stake a n vs))"

definition log_address :: "string \<Rightarrow> ('s, unit) step" where
  "log_address a s = (case slice_to 10 a of Inl e \<Rightarrow> (Inl e, s) | Inr _ \<Rightarrow> (Inr (), s))"

definition AddValidator :: "ConsensusConfig \<Rightarrow> i64 \<Rightarrow> validator \<Rightarrow> (ValidatorSet, unit) step" where
  "AddValidator cfg now v vs = (case update_stake (VAddress v) (StakedAmount v) (vs_validators vs) of
     Some vals \<Rightarrow> bindS (UpdateActiveSet cfg now) (\<lambda>_. log_address (VAddress v)) (vs\<lparr>vs_validators := vals\<rparr>)
   | None \<Rightarrow> UpdateActiveSet cfg now (vs\<lparr>vs_validators := vs_validators vs @ [v]\<rparr>))"

definition RemoveValidator :: "ConsensusConfig \<Rightarrow> i64 \<Rightarrow> string \<Rightarrow> (ValidatorSet, unit) step" where
  "RemoveValidator cfg now address vs =
     bindS (UpdateActiveSet cfg now) (\<lambda>_. log_address address)
       (vs\<lparr>vs_validators := filter (\<lambda>v. VAddress v \<noteq> address) (vs_validators vs)\<rparr>)"

section \<open>Consensus engine\<close>

definition cycleInterval :: "ConsensusConfig \<Rightarrow> u64" where
  "cycleInterval cfg = (let n = CheckpointInterval (Blocks cfg) in if n = 0 then 5 else n)"

definition positionIndex :: "crypto_lib \<Rightarrow> hash \<Rightarrow> u64 \<Rightarrow> u64 \<Rightarrow> nat \<Rightarrow> nat" where
  "positionIndex cl seedHash cycleStart offset cnt =
     (let seed = seedHash @ Uint64ToBytes cycleStart;
          positionSeed = seed @ Uint64ToBytes offset;
          randomSeed = sha3_256 cl positionSeed;
          randomValue = (be_fold (take 8 randomSeed) :: u64)
      in unat (randomValue mod of_nat cnt))"

definition SelectProposer :: "ConsensusConfig \<Rightarrow> crypto_lib \<Rightarrow> u64 \<Rightarrow> hash \<Rightarrow> ValidatorSet \<Rightarrow> error + string" where
  "SelectProposer cfg cl height prevBlockHash vs =
     (let activeVals = activeValidators vs in
      if activeVals = [] then Inl NoActiveValidators
      else let sortedValidators = sort_key VAddress activeVals;
               cycleOffset = (if height = 0 then 0 else (height - 1) mod cycleInterval cfg);
               cycleStart = height - cycleOffset;
               selectedIndex = positionIndex cl prevBlockHash cycleStart cycleOffset (length sortedValidators)
           in if selectedIndex < length sortedValidators
              then Inr (VAddress (sortedValidators ! selectedIndex)) else Inl Panic)"

definition GetCycleProposers ::
    "ConsensusConfig \<Rightarrow> crypto_lib \<Rightarrow> u64 \<Rightarrow> hash \<Rightarrow> ValidatorSet \<Rightarrow> error + string list" where
  "GetCycleProposers cfg cl cycleStartHeight seedHash vs =
     (let activeVals = activeValidators vs in
      if activeVals = [] then Inl NoActiveValidators
      else let sortedValidators = sort_key VAddress activeVals
           in Inr (map (\<lambda>i. VAddress (sortedValidators
                 ! positionIndex cl seedHash cycleStartHeight (of_nat i) (length sortedValidators)))
               [0..<unat (cycleInterval cfg)]))"

definition filterOnlineValidators ::
    "string \<Rightarrow> string list option \<Rightarrow> validator list \<Rightarrow> validator list" where
  "filterOnlineValidators nodeAddress onlinePeers vals = (case onlinePeers of
     None \<Rightarrow> vals
   | Some online \<Rightarrow> filter (\<lambda>v. VAddress v = nodeAddress \<or> VAddress v \<in> set online) vals)"

definition VerifyProposer :: "block \<Rightarrow> ValidatorSet \<Rightarrow> error + unit" where
  "VerifyProposer b vs = (if \<not> IsActiveValidator (Proposer (Header b)) vs then Inl NotActiveValidator else Inr ())"

definition CreateRewardTransactions ::
    "'s store_ops \<Rightarrow> ConsensusConfig \<Rightarrow> i64 \<Rightarrow> string \<Rightarrow> 's state_manager \<Rightarrow> transaction list \<times> 's state_manager" where
  "CreateRewardTransactions S cfg now proposer sm = (case GetAccount S GenesisAddress sm of
     (Inl e, sm') \<Rightarrow> ([NewRewardTx now proposer (BlockReward cfg)], sm')
   | (Inr genesisAccount, sm') \<Rightarrow>
       (let currentReward = CalculateBlockReward cfg (AvailableBalance genesisAccount) in
        if currentReward = 0 then ([], sm') else ([NewRewardTx now proposer currentReward], sm')))"

definition ce_CalculateStateRoot :: hash where
  "ce_CalculateStateRoot = replicate 32 0"

text \<open>The callbacks the node installs: the events the state manager recorded, applied in order.\<close>

fun apply_events :: "ConsensusConfig \<Rightarrow> i64 \<Rightarrow> validator_event list \<Rightarrow> (ValidatorSet, unit) step" where
  "apply_events cfg now [] vs = (Inr (), vs)"
| "apply_events cfg now (ValidatorAdded a n # es) vs =
     bindS (AddValidator cfg now (loadedValidator now a n [])) (\<lambda>_. apply_events cfg now es) vs"
| "apply_events cfg now (ValidatorRemoved a # es) vs =
     bindS (RemoveValidator cfg now a) (\<lambda>_. apply_events cfg now es) vs"

section \<open>The ranking\<close>

definition distinct_validators :: "validator list \<Rightarrow> bool" where
  "distinct_validators vs \<longleftrightarrow> distinct (map VAddress vs)"

lemma sort_key_unique:
  assumes "set xs = set ys" and "distinct_validators xs" and "distinct_validators ys"
    and "\<And>x y. f x = f y \<Longrightarrow> VAddress x = VAddress y"
  shows "sort_key f xs = sort_key f ys"
proof -
  have d: "distinct xs" "distinct ys" "inj_on VAddress (set xs)"
    using assms(2,3) by (simp_all add: distinct_validators_def distinct_map)
  have "mset xs = mset ys"
    using assms(1) d by (simp add: set_eq_iff_mset_eq_distinct)
  then have "mset xs = mset (sort_key f ys)" by simp
  moreover have "inj_on f (set xs)"
    using assms(4) d(3) by (meson inj_onD inj_onI)
  ultimately show ?thesis
    by (rule sort_key_inj_key_eq) simp
qed

lemma rank_address: "rank x = rank y \<Longrightarrow> VAddress x = VAddress y"
  by (simp add: rank_def)

lemma distinct_ranks:
  assumes "distinct xs" and "inj_on VAddress (set xs)"
  shows "distinct (map rank (sort_key rank xs))"
proof -
  have "inj_on rank (set xs)"
    using assms(2) rank_address unfolding inj_on_def by blast
  then show ?thesis using assms(1) by (simp add: distinct_map)
qed

definition outranks :: "validator \<Rightarrow> validator \<Rightarrow> bool" where
  "outranks v w \<longleftrightarrow> StakedAmount w < StakedAmount v
     \<or> (StakedAmount w = StakedAmount v \<and> VAddress v < VAddress w)"

lemma rank_less: "rank v < rank w \<longleftrightarrow> outranks v w"
  by (auto simp: rank_def outranks_def less_prod_def' word_less_def word_uint_eq_iff)

lemma active_set_facts:
  assumes "UpdateActiveSet cfg now vs = (Inr (), vs')" and "distinct_validators (vs_validators vs)"
    and "0 \<le> sint (ActiveValidatorSet (Validators cfg))"
  defines "N \<equiv> nat (sint (ActiveValidatorSet (Validators cfg)))"
  shows "activeValidators vs' = take N (sort_key rank (filter (IsActive cfg) (vs_validators vs)))"
    and "vs_validators vs' = vs_validators vs"
  using assms by (auto simp: UpdateActiveSet_def Let_def split: if_splits)

lemma update_active_ok:
  "0 \<le> sint (ActiveValidatorSet (Validators cfg)) \<Longrightarrow> \<exists>vs'. UpdateActiveSet cfg now vs = (Inr (), vs')"
  by (auto simp: UpdateActiveSet_def Let_def)

lemma take_drop_sorted:
  assumes "sorted (map f xs)" and "distinct (map f xs)" and "v \<in> set (take n xs)" and "w \<in> set (drop n xs)"
  shows "f v < f w"
proof -
  have "sorted_wrt (<) (map f xs)" using assms(1,2) by (simp add: strict_sorted_iff)
  then have "sorted_wrt (<) (map f (take n xs @ drop n xs))" by simp
  then have "\<forall>x\<in>set (map f (take n xs)). \<forall>y\<in>set (map f (drop n xs)). x < y"
    unfolding map_append sorted_wrt_append by blast
  with assms(3,4) show ?thesis by simp
qed

section \<open>Selection\<close>

lemma positionIndex_bound:
  assumes "0 < n" and "n < 2 ^ 64"
  shows "positionIndex cl h s k n < n"
proof -
  have n: "unat (of_nat n :: u64) = n" using assms(2) by (simp add: unat_of_nat)
  have "of_nat n \<noteq> (0 :: u64)" using assms(1) n by (metis neq0_conv unat_0)
  then show ?thesis
    using n assms(1) by (simp add: positionIndex_def Let_def unat_mod)
qed

lemma select_proposer_spec:
  assumes "activeValidators vs \<noteq> []" and "length (activeValidators vs) < 2 ^ 64"
  shows "SelectProposer cfg cl height h vs = Inr (VAddress (sort_key VAddress (activeValidators vs) !
    (let off = (if height = 0 then 0 else (height - 1) mod cycleInterval cfg)
     in positionIndex cl h (height - off) off (length (activeValidators vs)))))"
  using assms positionIndex_bound[of "length (activeValidators vs)"]
  by (simp add: SelectProposer_def Let_def)

lemma selected_is_active:
  assumes "i < length xs"
  shows "VAddress (sort_key VAddress xs ! i) \<in> VAddress ` set xs"
  using assms nth_mem[of i "sort_key VAddress xs"] by (simp add: image_iff) blast

lemma cycleInterval_pos: "cycleInterval cfg \<noteq> 0"
  by (simp add: cycleInterval_def Let_def)

lemma cycle_offset:
  fixes n s :: u64
  assumes "n \<noteq> 0" and "s \<noteq> 0" and "(s - 1) mod n = 0" and "i < unat n" and "unat s + i < 2 ^ 64"
  shows "s + of_nat i \<noteq> 0" and "(s + of_nat i - 1) mod n = of_nat i"
proof -
  have i: "unat (of_nat i :: u64) = i" using assms(5) by (simp add: unat_of_nat)
  have si: "unat (s + of_nat i) = unat s + i"
    using assms(5) i by (simp add: unat_word_ariths)
  have s: "0 < unat s" using assms(2) by (metis gr0I unat_eq_zero)
  show "s + of_nat i \<noteq> 0" using si s by (metis add_is_0 neq0_conv unat_0)
  have s1: "unat (s - 1) = unat s - 1" using s by (simp add: unat_minus_one assms(2))
  have "unat (s + of_nat i - 1) = unat s + i - 1"
    using si \<open>s + of_nat i \<noteq> 0\<close> by (simp add: unat_minus_one)
  then have "unat ((s + of_nat i - 1) mod n) = (unat s - 1 + i) mod unat n"
    using s by (simp add: unat_mod)
  also have "\<dots> = ((unat s - 1) mod unat n + i) mod unat n" by (simp add: mod_add_left_eq)
  also have "(unat s - 1) mod unat n = 0"
    using arg_cong[OF assms(3), of unat] s1 by (simp add: unat_mod)
  finally show "(s + of_nat i - 1) mod n = of_nat i"
    using assms(4) i by (simp add: word_unat_eq_iff)
qed

section \<open>Claims\<close>

text \<open>Whoever is selected as proposer is an active validator, and a proposer is selected for every
  height and every seed as long as there is an active validator; with none the selection reports
  an error.\<close>

theorem proposer_is_active:
  assumes "length (activeValidators vs) < 2 ^ 64"
  shows "(activeValidators vs = [] \<longrightarrow> SelectProposer cfg cl height h vs = Inl NoActiveValidators)
    \<and> (activeValidators vs \<noteq> [] \<longrightarrow>
        (\<exists>a. SelectProposer cfg cl height h vs = Inr a \<and> IsActiveValidator a vs))"
proof (cases "activeValidators vs = []")
  case False
  let ?n = "length (activeValidators vs)"
  let ?k = "let off = (if height = 0 then 0 else (height - 1) mod cycleInterval cfg)
    in positionIndex cl h (height - off) off ?n"
  have "?k < ?n" using positionIndex_bound[OF _ assms] False by (simp add: Let_def)
  from selected_is_active[OF this] False show ?thesis
    unfolding select_proposer_spec[OF False assms] by (auto simp: IsActiveValidator_def list_ex_iff)
qed (simp add: SelectProposer_def)

definition demo_vs :: ValidatorSet where
  "demo_vs = LoadFromCheckpoint 0 [\<lparr>VSAddress = ''F1'', VSStake = 5, VSVRFPubKey = []\<rparr>,
     \<lparr>VSAddress = ''F2'', VSStake = 9, VSVRFPubKey = []\<rparr>] (NewValidatorSet 0)"

lemma demo_vs_facts [simp]: "activeValidators demo_vs \<noteq> []" "length (activeValidators demo_vs) < 2 ^ 64"
    "distinct_validators (activeValidators demo_vs)"
  by (simp_all add: demo_vs_def LoadFromCheckpoint_def Let_def distinct_validators_def loadedValidator_def)

theorem proposer_is_active_witness:
  "\<exists>a. SelectProposer shipped_config demo_crypto 7 zero_hash demo_vs = Inr a \<and> IsActiveValidator a demo_vs"
  using proposer_is_active[OF demo_vs_facts(2), of shipped_config demo_crypto 7 zero_hash] by simp



text \<open>The precomputed order of a cycle is the order of the selections. For a cycle that starts
  at height \<open>s\<close> (one past a multiple of the interval), entry \<open>i\<close> of \<^verbatim>\<open>GetCycleProposers\<close> is what
  \<^verbatim>\<open>SelectProposer\<close> returns for height \<open>s + i\<close> with the same seed hash.\<close>

theorem cycle_order_agrees:
  assumes "activeValidators vs \<noteq> []" and "length (activeValidators vs) < 2 ^ 64"
    and "s \<noteq> 0" and "(s - 1) mod cycleInterval cfg = 0"
    and "i < unat (cycleInterval cfg)" and "unat s + i < 2 ^ 64"
  shows "\<exists>ps. GetCycleProposers cfg cl s h vs = Inr ps \<and> length ps = unat (cycleInterval cfg)
    \<and> SelectProposer cfg cl (s + of_nat i) h vs = Inr (ps ! i)"
proof -
  note o = cycle_offset[OF cycleInterval_pos assms(3-6)]
  show ?thesis
    using assms(1,5) o by (simp add: GetCycleProposers_def select_proposer_spec[OF assms(1,2)] Let_def)
qed

theorem cycle_order_agrees_witness:
  "\<exists>ps. GetCycleProposers (shipped_config\<lparr>Blocks := (Blocks shipped_config)\<lparr>CheckpointInterval := 5\<rparr>\<rparr>) demo_crypto 6 zero_hash demo_vs = Inr ps
     \<and> SelectProposer (shipped_config\<lparr>Blocks := (Blocks shipped_config)\<lparr>CheckpointInterval := 5\<rparr>\<rparr>) demo_crypto 8 zero_hash demo_vs = Inr (ps ! 2)"
proof -
  let ?cfg = "shipped_config\<lparr>Blocks := (Blocks shipped_config)\<lparr>CheckpointInterval := 5\<rparr>\<rparr>"
  have n: "cycleInterval ?cfg = 5" by (simp add: cycleInterval_def)
  have "\<exists>ps. GetCycleProposers ?cfg demo_crypto 6 zero_hash demo_vs = Inr ps \<and> length ps = unat (cycleInterval ?cfg)
    \<and> SelectProposer ?cfg demo_crypto (6 + of_nat 2) zero_hash demo_vs = Inr (ps ! 2)"
    by (rule cycle_order_agrees) (use demo_vs_facts in \<open>simp_all add: n\<close>)
  then show ?thesis by auto
qed

text \<open>C19: the active set is the top of the ranking. After an update it contains only validators that
  are active with enough stake, at most the configured number of them, ordered by stake and then
  by address, every qualified validator that was left out is outranked by every member, and none
  is left out while there is room.\<close>

theorem active_set_is_top:
  assumes "distinct_validators (vs_validators vs)" and "0 \<le> sint (ActiveValidatorSet (Validators cfg))"
    and "UpdateActiveSet cfg now vs = (Inr (), vs')"
  shows "set (activeValidators vs') \<subseteq> {v \<in> set (vs_validators vs). IsActive cfg v}
    \<and> length (activeValidators vs') = min (nat (sint (ActiveValidatorSet (Validators cfg)))) (length (filter (IsActive cfg) (vs_validators vs)))
    \<and> sorted_wrt outranks (activeValidators vs')
    \<and> (\<forall>v\<in>set (activeValidators vs'). \<forall>w\<in>set (vs_validators vs). IsActive cfg w \<longrightarrow> w \<notin> set (activeValidators vs') \<longrightarrow> outranks v w)"
proof -
  let ?N = "nat (sint (ActiveValidatorSet (Validators cfg)))"
  let ?xs = "sort_key rank (filter (IsActive cfg) (vs_validators vs))"
  have act: "activeValidators vs' = take ?N ?xs"
    using active_set_facts(1)[OF assms(3,1,2)] .
  have d: "distinct (map rank ?xs)"
    by (rule distinct_ranks) (use assms(1) in \<open>auto simp: distinct_validators_def distinct_map inj_on_def\<close>)
  have srt: "sorted_wrt (<) (map rank ?xs)" using d by (simp add: strict_sorted_iff)
  have "sorted_wrt outranks ?xs"
    using srt by (simp add: sorted_wrt_map rank_less)
  then have "sorted_wrt outranks (activeValidators vs')" by (simp add: act sorted_wrt_take)
  moreover have "outranks v w" if "v \<in> set (take ?N ?xs)" "w \<in> set (vs_validators vs)" "IsActive cfg w" "w \<notin> set (take ?N ?xs)" for v w
  proof -
    have "w \<in> set ?xs" using that by simp
    then have "w \<in> set (drop ?N ?xs)" using that(4) by (metis Un_iff append_take_drop_id set_append)
    with take_drop_sorted[of rank ?xs v ?N w] d that(1) show ?thesis by (simp add: rank_less)
  qed
  moreover have "set (take ?N ?xs) \<subseteq> {v \<in> set (vs_validators vs). IsActive cfg v}"
    using set_take_subset[of ?N ?xs] by auto
  moreover have "length (activeValidators vs') = min ?N (length (filter (IsActive cfg) (vs_validators vs)))"
    by (simp add: act min.commute)
  ultimately show ?thesis unfolding act by blast
qed

theorem active_set_is_top_witness:
  "\<exists>vs'. UpdateActiveSet shipped_config 1 demo_vs = (Inr (), vs') \<and> sorted_wrt outranks (activeValidators vs')"
proof -
  have N: "0 \<le> sint (ActiveValidatorSet (Validators shipped_config))"
    by (simp add: shipped_config_def setDefault_def)
  obtain vs' where run: "UpdateActiveSet shipped_config 1 demo_vs = (Inr (), vs')" using update_active_ok[OF N] by blast
  have "distinct_validators (vs_validators demo_vs)"
    by (simp add: demo_vs_def LoadFromCheckpoint_def Let_def distinct_validators_def loadedValidator_def)
  from active_set_is_top[OF this N run] run show ?thesis by blast
qed

end
