(* ===== verification/Checkpoint_Files.thy ===== *)
theory Checkpoint_Files
  imports Core_Chain
begin

text \<open>
  The single checkpoint file and the single state snapshot file, \<^verbatim>\<open>storage/checkpoint.go\<close>: the
  temporary, delete, commit protocol and its recovery.

  A save is the list of actions it performs on the \<^verbatim>\<open>checkpoints\<close> directory. The operating system
  may refuse any action: \<open>fails a\<close> says how many bytes a refused write leaves behind (\<open>None\<close> is
  success). A crash leaves the directory after any prefix of the actions, and a write may be cut
  off at any byte; \<open>crash_of\<close> is the relation of the directories a crash can leave. The encoding of
  a checkpoint (\<^verbatim>\<open>encoding/json\<close>) is a parameter.

  Lemmas: a save that reports success is what the next load returns; after a crash at any moment of
  a save the next load returns the old or the new checkpoint; the first checkpoint ever and the
  state snapshot do not have that protection.
\<close>

section \<open>Directory actions\<close>

type_synonym directory = "string \<rightharpoonup> bytes"

datatype fs_action = WriteFile string bytes | Remove string | Rename string string

fun apply_action :: "fs_action \<Rightarrow> directory \<Rightarrow> directory" where
  "apply_action (WriteFile n b) d = d(n \<mapsto> b)"
| "apply_action (Remove n) d = d(n := None)"
| "apply_action (Rename a b) d = (case d a of None \<Rightarrow> d | Some x \<Rightarrow> (d(b \<mapsto> x))(a := None))"

definition apply_actions :: "fs_action list \<Rightarrow> directory \<Rightarrow> directory" where
  "apply_actions acts d = foldl (\<lambda>d a. apply_action a d) d acts"

text \<open>One call: the outcome and the actions that took effect.\<close>

definition perform :: "(fs_action \<Rightarrow> nat option) \<Rightarrow> fs_action \<Rightarrow> bool \<times> fs_action list" where
  "perform fails a = (case fails a of
     None \<Rightarrow> (True, [a])
   | Some k \<Rightarrow> (False, (case a of WriteFile n b \<Rightarrow> [WriteFile n (take k b)] | _ \<Rightarrow> [])))"

inductive crash_of :: "fs_action list \<Rightarrow> directory \<Rightarrow> directory \<Rightarrow> bool" where
  crash_now: "crash_of acts d d"
| crash_torn: "crash_of (WriteFile n b # acts) d (d(n \<mapsto> take k b))"
| crash_later: "crash_of acts (apply_action a d) d' \<Longrightarrow> crash_of (a # acts) d d'"

inductive_simps crash_nil [simp]: "crash_of [] d d'"
inductive_simps crash_cons [simp]: "crash_of (a # acts) d d'"

section \<open>Saving and loading the checkpoint\<close>

record checkpoint_codec =
  cp_Serialize :: "Checkpoint \<Rightarrow> bytes"
  cp_Deserialize :: "bytes \<Rightarrow> Checkpoint option"

definition tempFile :: string where "tempFile = ''checkpoint_new.tmp''"

definition latestFile :: string where "latestFile = ''checkpoint_latest.dat''"

definition stateTempFile :: string where "stateTempFile = ''state_new.tmp.gz''"

definition stateLatestFile :: string where "stateLatestFile = ''state_latest.dat.gz''"

definition HasPrefix :: "string \<Rightarrow> string \<Rightarrow> bool" where
  "HasPrefix s p \<longleftrightarrow> take (length p) s = p"

definition stale_name :: "string \<Rightarrow> bool" where
  "stale_name name \<longleftrightarrow> name \<noteq> latestFile \<and> name \<noteq> stateLatestFile
     \<and> (HasPrefix name ''checkpoint_'' \<or> HasPrefix name ''state_'')"

text \<open>The temporary, delete, commit sequence both saves run, up to the rename.\<close>

definition tdc :: "(fs_action \<Rightarrow> nat option) \<Rightarrow> string \<Rightarrow> string \<Rightarrow> bytes \<Rightarrow> directory \<Rightarrow> (error + unit) \<times> fs_action list" where
  "tdc fails temp latest data d =
     (case perform fails (WriteFile temp data) of
        (False, t) \<Rightarrow> (Inl ErrIO, t)
      | (True, t) \<Rightarrow>
          let (removed, r) = (if d latest \<noteq> None then perform fails (Remove latest) else (True, [])) in
          if \<not> removed then (Inl ErrIO, t @ r @ snd (perform fails (Remove temp)))
          else (case perform fails (Rename temp latest) of
             (False, c) \<Rightarrow> (Inl ErrIO, t @ r @ c)
           | (True, c) \<Rightarrow> (Inr (), t @ r @ c)))"

text \<open>\<open>names\<close> is what \<^verbatim>\<open>os.ReadDir\<close> lists after the commit.\<close>

definition SaveCheckpoint ::
    "checkpoint_codec \<Rightarrow> bool \<Rightarrow> (fs_action \<Rightarrow> nat option) \<Rightarrow> string list \<Rightarrow> Checkpoint \<Rightarrow> directory
      \<Rightarrow> (error + unit) \<times> fs_action list" where
  "SaveCheckpoint C mkdir_ok fails names checkpoint d =
     (if \<not> mkdir_ok then (Inl ErrIO, [])
      else case tdc fails tempFile latestFile (cp_Serialize C checkpoint) d of
        (Inl e, acts) \<Rightarrow> (Inl e, acts)
      | (Inr _, acts) \<Rightarrow>
          (Inr (), acts @ concat (map (\<lambda>name. snd (perform fails (Remove name))) (filter stale_name names))))"

definition recoverCheckpointTransaction ::
    "(fs_action \<Rightarrow> nat option) \<Rightarrow> directory \<Rightarrow> (error + unit) \<times> fs_action list" where
  "recoverCheckpointTransaction fails d =
     (if d tempFile = None then (Inr (), [])
      else if d latestFile = None then
        (case perform fails (Rename tempFile latestFile) of
           (False, c) \<Rightarrow> (Inl ErrIO, c) | (True, c) \<Rightarrow> (Inr (), c))
      else (Inr (), snd (perform fails (Remove tempFile))))"

definition GetLatestCheckpoint ::
    "checkpoint_codec \<Rightarrow> (fs_action \<Rightarrow> nat option) \<Rightarrow> directory \<Rightarrow> (error + Checkpoint option) \<times> fs_action list" where
  "GetLatestCheckpoint C fails d = (case recoverCheckpointTransaction fails d of
     (Inl e, acts) \<Rightarrow> (Inl e, acts)
   | (Inr _, acts) \<Rightarrow> (case apply_actions acts d latestFile of
       None \<Rightarrow> (Inr None, acts)
     | Some data \<Rightarrow> (case cp_Deserialize C data of
         None \<Rightarrow> (Inl ErrDecode, acts) | Some cp \<Rightarrow> (Inr (Some cp), acts))))"

definition LoadCheckpoint ::
    "checkpoint_codec \<Rightarrow> (fs_action \<Rightarrow> nat option) \<Rightarrow> u64 \<Rightarrow> directory \<Rightarrow> (error + Checkpoint option) \<times> fs_action list" where
  "LoadCheckpoint C fails height d = GetLatestCheckpoint C fails d"

definition ListCheckpoints ::
    "checkpoint_codec \<Rightarrow> (fs_action \<Rightarrow> nat option) \<Rightarrow> directory \<Rightarrow> (error + u64 list) \<times> fs_action list" where
  "ListCheckpoints C fails d = (case GetLatestCheckpoint C fails d of
     (Inl e, acts) \<Rightarrow> (Inl e, acts)
   | (Inr None, acts) \<Rightarrow> (Inr [], acts)
   | (Inr (Some cp), acts) \<Rightarrow> (Inr [CPHeight cp], acts))"

definition CleanOldCheckpoints ::
    "checkpoint_codec \<Rightarrow> (fs_action \<Rightarrow> nat option) \<Rightarrow> i64 \<Rightarrow> directory \<Rightarrow> (error + unit) \<times> fs_action list" where
  "CleanOldCheckpoints C fails keepCount d = (case ListCheckpoints C fails d of
     (Inl e, acts) \<Rightarrow> (Inl e, acts)
   | (Inr heights, acts) \<Rightarrow>
       if int (length heights) \<le> sint keepCount then (Inr (), acts)
       else if sint keepCount < 0 then (Inl Panic, acts)
       else (Inr (), acts @ concat (map (\<lambda>h.
         snd (perform fails (Remove (''checkpoint_'' @ dec_u64 h @ ''.dat'')))
         @ snd (perform fails (Remove (''state_'' @ dec_u64 h @ ''.dat.gz'')))) (drop (nat (sint keepCount)) heights))))"

section \<open>The state snapshot file\<close>

definition SaveStateSnapshot ::
    "bool \<Rightarrow> (fs_action \<Rightarrow> nat option) \<Rightarrow> bytes \<Rightarrow> directory \<Rightarrow> (error + unit) \<times> fs_action list" where
  "SaveStateSnapshot mkdir_ok fails snapshotData d =
     (if \<not> mkdir_ok then (Inl ErrIO, []) else tdc fails stateTempFile stateLatestFile snapshotData d)"

definition LoadStateSnapshot :: "u64 \<Rightarrow> directory \<Rightarrow> error + bytes" where
  "LoadStateSnapshot height d = (case d stateLatestFile of None \<Rightarrow> Inl ErrNotFound | Some b \<Rightarrow> Inr b)"

section \<open>Effects\<close>

lemma apply_actions_simps [simp]:
  "apply_actions [] d = d"
  "apply_actions (a # acts) d = apply_actions acts (apply_action a d)"
  "apply_actions (xs @ ys) d = apply_actions ys (apply_actions xs d)"
  by (simp_all add: apply_actions_def)

lemma file_names [simp]:
  "tempFile \<noteq> latestFile" "latestFile \<noteq> tempFile" "stateTempFile \<noteq> stateLatestFile" "stateLatestFile \<noteq> stateTempFile"
  "tempFile \<noteq> stateLatestFile" "latestFile \<noteq> stateTempFile"
  by (simp_all add: tempFile_def latestFile_def stateTempFile_def stateLatestFile_def)

lemma not_stale [simp]: "\<not> stale_name latestFile" "\<not> stale_name stateLatestFile" "stale_name stateTempFile" "stale_name tempFile"
  by (simp_all add: stale_name_def) (simp_all add: stateTempFile_def stateLatestFile_def tempFile_def latestFile_def HasPrefix_def)

lemma perform_remove: "snd (perform fails (Remove n)) \<in> {[], [Remove n]}"
  by (simp add: perform_def split: option.split)

definition removals :: "string set \<Rightarrow> fs_action list \<Rightarrow> bool" where
  "removals N acts \<longleftrightarrow> (\<forall>a\<in>set acts. \<exists>n\<in>N. a = Remove n)"

lemma removals_keep:
  assumes "removals N acts" and "n \<notin> N"
  shows "apply_actions acts d n = d n"
  using assms
proof (induction acts arbitrary: d)
  case (Cons a acts)
  then obtain m where "a = Remove m" "m \<noteq> n" by (auto simp: removals_def)
  with Cons show ?case by (simp add: removals_def)
qed simp

lemma cleanup_removals:
  "removals {n. stale_name n} (concat (map (\<lambda>name. snd (perform fails (Remove name))) (filter stale_name names)))"
  unfolding removals_def
proof
  fix a assume "a \<in> set (concat (map (\<lambda>name. snd (perform fails (Remove name))) (filter stale_name names)))"
  then obtain name where "stale_name name" "a \<in> set (snd (perform fails (Remove name)))" by auto
  then show "\<exists>n\<in>{n. stale_name n}. a = Remove n" using perform_remove[of fails name] by auto
qed

lemma crash_removals:
  assumes "crash_of acts d d'" and "removals N acts" and "n \<notin> N"
  shows "d' n = d n"
  using assms
proof (induction rule: crash_of.induct)
  case (crash_later acts a d d')
  then have "d' n = apply_action a d n" by (simp add: removals_def)
  moreover obtain m where "a = Remove m" "m \<noteq> n" using crash_later by (auto simp: removals_def)
  ultimately show ?case by simp
qed (simp_all add: removals_def)

lemma crash_append:
  "crash_of (xs @ ys) d d' \<Longrightarrow> crash_of xs d d' \<or> crash_of ys (apply_actions xs d) d'"
  by (induction xs arbitrary: d) auto

lemma crash_end: "crash_of acts d (apply_actions acts d)"
  by (induction acts arbitrary: d) auto

text \<open>Nothing is lost: a complete old or new file is in place, or the new one is ready to be renamed.\<close>

definition one_complete :: "string \<Rightarrow> string \<Rightarrow> bytes \<Rightarrow> bytes \<Rightarrow> directory \<Rightarrow> bool" where
  "one_complete temp latest old new d \<longleftrightarrow>
     d latest \<in> {Some old, Some new} \<or> (d latest = None \<and> d temp = Some new)"

lemma tdc_crash:
  assumes "tdc fails temp latest new d = (r, acts)" and "temp \<noteq> latest" and "d latest = Some old" and "crash_of acts d d'"
  shows "one_complete temp latest old new d'"
  using assms
  by (auto simp: tdc_def perform_def one_complete_def Let_def split: option.splits if_splits)

lemma tdc_done:
  assumes "tdc fails temp latest new d = (Inr (), acts)" and "temp \<noteq> latest"
  shows "apply_actions acts d latest = Some new" and "apply_actions acts d temp = None"
  using assms by (auto simp: tdc_def perform_def Let_def split: option.splits if_splits)

lemma tdc_others:
  assumes "tdc fails temp latest new d = (r, acts)" and "n \<noteq> temp" and "n \<noteq> latest"
  shows "apply_actions acts d n = d n"
  using assms by (auto simp: tdc_def perform_def Let_def split: option.splits if_splits prod.splits)

lemma save_latest:
  assumes "SaveCheckpoint C mkdir_ok fails names newCp d = (Inr (), acts)"
  shows "apply_actions acts d latestFile = Some (cp_Serialize C newCp)"
proof -
  let ?clean = "concat (map (\<lambda>name. snd (perform fails (Remove name))) (filter stale_name names))"
  from assms obtain base where t: "tdc fails tempFile latestFile (cp_Serialize C newCp) d = (Inr (), base)"
    and acts: "acts = base @ ?clean"
    by (auto simp: SaveCheckpoint_def split: if_splits prod.splits sum.splits)
  then show ?thesis
    unfolding acts apply_actions_simps using tdc_done(1)[OF t] removals_keep[OF cleanup_removals, of latestFile] by simp
qed

lemma load_complete:
  assumes "one_complete tempFile latestFile old new d" and "cp_Deserialize C old = Some cp" and "cp_Deserialize C new = Some cp'"
  shows "fst (GetLatestCheckpoint C (\<lambda>_. None) d) \<in> {Inr (Some cp), Inr (Some cp')}"
  using assms
  by (auto simp: one_complete_def GetLatestCheckpoint_def recoverCheckpointTransaction_def perform_def)

section \<open>Claims\<close>

text \<open>C7: the checkpoint survives every failure. Start from a directory with a readable checkpoint and
  save a new one. Whatever calls the operating system refuses, and at whatever moment the process
  dies (in the middle of a write included), the next load finds a checkpoint, and it is the old one
  or the new one, whole.\<close>

theorem checkpoint_crash_safe:
  assumes "d latestFile = Some old" and "cp_Deserialize C old = Some oldCp"
    and "cp_Deserialize C (cp_Serialize C newCp) = Some newCp"
    and "SaveCheckpoint C mkdir_ok fails names newCp d = (r, acts)" and "crash_of acts d d'"
  shows "fst (GetLatestCheckpoint C (\<lambda>_. None) d') \<in> {Inr (Some oldCp), Inr (Some newCp)}"
proof -
  let ?new = "cp_Serialize C newCp"
  obtain q base where t: "tdc fails tempFile latestFile ?new d = (q, base)"
    by (cases "tdc fails tempFile latestFile ?new d")
  have "one_complete tempFile latestFile old ?new d'"
  proof (cases "crash_of base d d' \<or> \<not> mkdir_ok")
    case True
    then show ?thesis using tdc_crash[OF t _ assms(1)] assms(1,4,5) by (auto simp: SaveCheckpoint_def one_complete_def)
  next
    case False
    let ?clean = "concat (map (\<lambda>name. snd (perform fails (Remove name))) (filter stale_name names))"
    from False assms(4,5) t have q: "q = Inr ()" and "acts = base @ ?clean"
      by (auto simp: SaveCheckpoint_def split: sum.splits)
    with False assms(5) have c: "crash_of ?clean (apply_actions base d) d'" using crash_append by blast
    have "d' latestFile = apply_actions base d latestFile"
      by (rule crash_removals[OF c cleanup_removals]) simp
    with tdc_done(1)[of fails tempFile latestFile ?new d base] t q show ?thesis by (simp add: one_complete_def)
  qed
  then show ?thesis by (rule load_complete[OF _ assms(2,3)])
qed

definition demo_cp :: "u64 \<Rightarrow> Checkpoint" where
  "demo_cp h = NewCheckpoint h (replicate 32 0) (replicate 32 0) (replicate 32 0) 0 ''F1''"

definition demo_cp_codec :: checkpoint_codec where
  "demo_cp_codec = \<lparr>cp_Serialize = (\<lambda>c. be_put64 (CPHeight c)),
     cp_Deserialize = (\<lambda>b. if length b = 8 then Some (demo_cp (be_fold b)) else None)\<rparr>"

lemma demo_cp_codec [simp]:
  "cp_Deserialize demo_cp_codec (be_put64 h) = Some (demo_cp h)" "cp_Serialize demo_cp_codec (demo_cp h) = be_put64 h"
  by (simp_all add: demo_cp_codec_def demo_cp_def NewCheckpoint_def)

theorem checkpoint_crash_safe_witness:
  "fst (GetLatestCheckpoint demo_cp_codec (\<lambda>_. None) (Map.empty(tempFile \<mapsto> be_put64 2)))
     \<in> {Inr (Some (demo_cp 1)), Inr (Some (demo_cp 2))}"
proof -
  let ?d = "Map.empty(latestFile \<mapsto> be_put64 1)"
  have o: "?d latestFile = Some (be_put64 1)" "cp_Deserialize demo_cp_codec (be_put64 1) = Some (demo_cp 1)"
    "cp_Deserialize demo_cp_codec (cp_Serialize demo_cp_codec (demo_cp 2)) = Some (demo_cp 2)" by simp_all
  have s: "SaveCheckpoint demo_cp_codec True (\<lambda>_. None) [] (demo_cp 2) ?d
    = (Inr (), [WriteFile tempFile (be_put64 2), Remove latestFile, Rename tempFile latestFile])"
    by (simp add: SaveCheckpoint_def tdc_def perform_def)
  have "?d(tempFile \<mapsto> be_put64 2, latestFile := None) = Map.empty(tempFile \<mapsto> be_put64 2)" by auto
  then have c: "crash_of [WriteFile tempFile (be_put64 2), Remove latestFile, Rename tempFile latestFile]
     ?d (Map.empty(tempFile \<mapsto> be_put64 2))" by simp
  show ?thesis by (rule checkpoint_crash_safe[OF o s c])
qed

text \<open>A save that reports success is what the next load returns, at every height asked for, and
  the directory then lists exactly that height.\<close>

theorem checkpoint_save_load:
  assumes "SaveCheckpoint C mkdir_ok fails names newCp d = (Inr (), acts)"
    and "cp_Deserialize C (cp_Serialize C newCp) = Some newCp"
  shows "fst (LoadCheckpoint C (\<lambda>_. None) height (apply_actions acts d)) = Inr (Some newCp)
    \<and> fst (ListCheckpoints C (\<lambda>_. None) (apply_actions acts d)) = Inr [CPHeight newCp]"
proof -
  have "apply_actions acts d latestFile = Some (cp_Serialize C newCp)" by (rule save_latest[OF assms(1)])
  then have "fst (GetLatestCheckpoint C (\<lambda>_. None) (apply_actions acts d)) = Inr (Some newCp)"
    using assms(2) by (auto simp: GetLatestCheckpoint_def recoverCheckpointTransaction_def perform_def)
  then show ?thesis
    by (auto simp: LoadCheckpoint_def ListCheckpoints_def split: prod.splits sum.splits option.splits)
qed

theorem checkpoint_save_load_witness:
  "\<exists>acts. SaveCheckpoint demo_cp_codec True (\<lambda>_. None) [''checkpoint_7.dat''] (demo_cp 2) Map.empty = (Inr (), acts)
     \<and> fst (LoadCheckpoint demo_cp_codec (\<lambda>_. None) 0 (apply_actions acts Map.empty)) = Inr (Some (demo_cp 2))"
proof -
  obtain acts where s: "SaveCheckpoint demo_cp_codec True (\<lambda>_. None) [''checkpoint_7.dat''] (demo_cp 2) Map.empty = (Inr (), acts)"
    by (auto simp: SaveCheckpoint_def tdc_def perform_def)
  from checkpoint_save_load[OF s, of 0] s show ?thesis by simp
qed

text \<open>The very first checkpoint has no such protection. When the process dies in the middle of
  writing it, recovery promotes the torn temporary file to the checkpoint, and if the torn bytes do
  not decode, every later load fails, although the directory held no checkpoint before and a load
  would have reported that there is none.\<close>

theorem first_checkpoint_torn:
  assumes "d latestFile = None" and "cp_Deserialize C (take k (cp_Serialize C newCp)) = None"
  shows "\<exists>acts d'. SaveCheckpoint C True (\<lambda>_. None) names newCp d = (Inr (), acts) \<and> crash_of acts d d'
    \<and> fst (GetLatestCheckpoint C (\<lambda>_. None) d') = Inl ErrDecode
    \<and> fst (GetLatestCheckpoint C (\<lambda>_. None) (apply_actions (snd (GetLatestCheckpoint C (\<lambda>_. None) d')) d')) = Inl ErrDecode"
proof -
  let ?torn = "take k (cp_Serialize C newCp)"
  obtain acts where s: "SaveCheckpoint C True (\<lambda>_. None) names newCp d = (Inr (), acts)"
    and "\<exists>rest. acts = WriteFile tempFile (cp_Serialize C newCp) # rest"
    using assms(1) by (auto simp: SaveCheckpoint_def tdc_def perform_def)
  then have c: "crash_of acts d (d(tempFile \<mapsto> ?torn))" by auto
  have g: "GetLatestCheckpoint C (\<lambda>_. None) (d(tempFile \<mapsto> ?torn)) = (Inl ErrDecode, [Rename tempFile latestFile])"
    using assms by (simp add: GetLatestCheckpoint_def recoverCheckpointTransaction_def perform_def)
  moreover have "fst (GetLatestCheckpoint C (\<lambda>_. None) (apply_actions [Rename tempFile latestFile] (d(tempFile \<mapsto> ?torn)))) = Inl ErrDecode"
    using assms by (simp add: GetLatestCheckpoint_def recoverCheckpointTransaction_def perform_def)
  ultimately show ?thesis using s c by (intro exI[of _ acts] exI[of _ "d(tempFile \<mapsto> ?torn)"]) simp
qed

theorem first_checkpoint_torn_witness:
  "\<exists>acts d'. SaveCheckpoint demo_cp_codec True (\<lambda>_. None) [] (demo_cp 2) Map.empty = (Inr (), acts) \<and> crash_of acts Map.empty d'
    \<and> fst (GetLatestCheckpoint demo_cp_codec (\<lambda>_. None) d') = Inl ErrDecode"
  using first_checkpoint_torn[of Map.empty demo_cp_codec 3 "demo_cp 2" "[]"] by (auto simp: demo_cp_codec_def)

text \<open>The state snapshot can be lost. A crash between the deletion of the old snapshot and the
  rename leaves a directory from which no state snapshot loads, and the next successful save of a
  checkpoint deletes the complete temporary file as well.\<close>

theorem state_snapshot_lost:
  assumes "d stateLatestFile = Some old"
    and "SaveStateSnapshot True (\<lambda>_. None) data d = (Inr (), acts)"
  shows "\<exists>d'. crash_of acts d d' \<and> LoadStateSnapshot h d' = Inl ErrNotFound \<and> d' stateTempFile = Some data
    \<and> (\<forall>cp acts'. SaveCheckpoint C True (\<lambda>_. None) [stateTempFile] cp d' = (Inr (), acts') \<longrightarrow>
        apply_actions acts' d' stateTempFile = None \<and> apply_actions acts' d' stateLatestFile = None)"
proof -
  let ?d = "(d(stateTempFile \<mapsto> data))(stateLatestFile := None)"
  have acts: "acts = [WriteFile stateTempFile data, Remove stateLatestFile, Rename stateTempFile stateLatestFile]"
    using assms by (simp add: SaveStateSnapshot_def tdc_def perform_def)
  have n: "stateTempFile \<noteq> tempFile" "stateTempFile \<noteq> latestFile" "stateLatestFile \<noteq> tempFile" "stateLatestFile \<noteq> latestFile"
    by (simp_all add: tempFile_def latestFile_def stateTempFile_def stateLatestFile_def)
  have "apply_actions acts' ?d stateTempFile = None \<and> apply_actions acts' ?d stateLatestFile = None"
    if "SaveCheckpoint C True (\<lambda>_. None) [stateTempFile] cp ?d = (Inr (), acts')" for cp acts'
    using that n n[symmetric] by (auto simp: SaveCheckpoint_def tdc_def perform_def Let_def split: if_splits option.splits)
  then show ?thesis by (intro exI[of _ ?d]) (simp add: acts LoadStateSnapshot_def)
qed

theorem state_snapshot_lost_witness:
  "\<exists>acts d'. SaveStateSnapshot True (\<lambda>_. None) [2] (Map.empty(stateLatestFile \<mapsto> [1])) = (Inr (), acts)
     \<and> crash_of acts (Map.empty(stateLatestFile \<mapsto> [1])) d' \<and> LoadStateSnapshot 5 d' = Inl ErrNotFound"
proof -
  obtain acts where s: "SaveStateSnapshot True (\<lambda>_. None) [2] (Map.empty(stateLatestFile \<mapsto> [1])) = (Inr (), acts)"
    by (simp add: SaveStateSnapshot_def tdc_def perform_def)
  have "(Map.empty(stateLatestFile \<mapsto> [1])) stateLatestFile = Some [1 :: u8]" by simp
  from state_snapshot_lost[OF this s, of 5 demo_cp_codec] s show ?thesis by blast
qed

end
