(* ===== verification/State_Root.thy ===== *)
theory State_Root
  imports State_Claims
begin

text \<open>
  The Merkle state root (\<^verbatim>\<open>state/merkle.go\<close>) and the checkpoint snapshots
  (\<^verbatim>\<open>state/checkpoint_snapshot.go\<close>). JSON and gzip are library code: the argument \<open>C\<close> holds them,
  with the round trips as the laws of \<open>snapshot_codec_spec\<close>. The file system is a map from paths
  to contents and \<open>disk\<close> says which paths cannot be created.

  Lemmas: the root depends only on the accounts shown by cache and store together, not on map
  order or on what is cached; two equal roots over equally many accounts mean equal accounts or a
  SHA-256 collision; a snapshot sent to another node and applied there reproduces the ledger.
\<close>

section \<open>Merkle tree\<close>

definition dec_u8 :: "u8 \<Rightarrow> string" where
  "dec_u8 n = dec_nat (unat n)"

definition accountText :: "account \<Rightarrow> string" where
  "accountText acc = Address acc @ '':'' @ dec_u64 (AvailableBalance acc) @ '':'' @ dec_u64 (StakedBalance acc)
     @ '':'' @ dec_u64 (Nonce acc) @ '':'' @ dec_u8 (NodeType acc)"

definition hashAccount :: "crypto_lib \<Rightarrow> account \<Rightarrow> bytes" where
  "hashAccount cl acc = sha2_256 cl (string_bytes (accountText acc))"

definition hashPair :: "crypto_lib \<Rightarrow> bytes \<Rightarrow> bytes \<Rightarrow> bytes" where
  "hashPair cl left right = sha2_256 cl (left @ right)"

fun merkleParents :: "crypto_lib \<Rightarrow> bytes list \<Rightarrow> bytes list" where
  "merkleParents cl (x # y # rest) = hashPair cl x y # merkleParents cl rest"
| "merkleParents cl _ = []"

definition padLeaves :: "bytes list \<Rightarrow> bytes list" where
  "padLeaves leaves = (if odd (length leaves) then leaves @ [last leaves] else leaves)"

lemma length_merkleParents [simp]: "length (merkleParents cl xs) = length xs div 2"
  by (induction cl xs rule: merkleParents.induct) auto

lemma length_padLeaves: "length (padLeaves xs) = 2 * ((length xs + 1) div 2)"
  by (auto simp: padLeaves_def elim: oddE evenE)

function buildMerkleTree :: "crypto_lib \<Rightarrow> bytes list \<Rightarrow> bytes" where
  "buildMerkleTree cl leaves =
     (if leaves = [] then replicate 32 0
      else if length leaves = 1 then hd leaves
      else buildMerkleTree cl (merkleParents cl (padLeaves leaves)))"
  by pat_completeness auto
termination
proof (relation "measure (\<lambda>(cl, leaves). length leaves)")
  fix cl :: crypto_lib and leaves :: "bytes list"
  assume "leaves \<noteq> []" "length leaves \<noteq> 1"
  then have "2 \<le> length leaves" by (cases leaves) (auto simp: Suc_le_eq)
  then show "((cl, merkleParents cl (padLeaves leaves)), cl, leaves) \<in> measure (\<lambda>(cl, leaves). length leaves)"
    by (simp add: length_padLeaves)
qed simp

declare buildMerkleTree.simps [simp del]

definition CalculateStateRoot :: "'s store_ops \<Rightarrow> crypto_lib \<Rightarrow> 's state_manager \<Rightarrow> error + hash" where
  "CalculateStateRoot S cl sm = (case st_all S (sm_db sm) of
     Inl e \<Rightarrow> Inl e
   | Inr accounts \<Rightarrow>
       (let mergedAccounts = map snd (accountMap accounts (accountCache sm)) in
        if mergedAccounts = [] then Inr (replicate 32 0)
        else let leaves = map (hashAccount cl) (sort_key Address mergedAccounts)
             in Inr (copy_into 32 (buildMerkleTree cl leaves))))"

definition VerifyStateRoot :: "'s store_ops \<Rightarrow> crypto_lib \<Rightarrow> hash \<Rightarrow> 's state_manager \<Rightarrow> error + unit" where
  "VerifyStateRoot S cl expectedRoot sm = (case CalculateStateRoot S cl sm of
     Inl e \<Rightarrow> Inl e
   | Inr actualRoot \<Rightarrow> if actualRoot \<noteq> expectedRoot then Inl StateRootMismatch else Inr ())"

section \<open>Checkpoint snapshots\<close>

record CheckpointSnapshot =
  SnapHeight :: u64
  SnapAccounts :: "account list"

record snapshot_codec =
  json_Marshal :: "CheckpointSnapshot \<Rightarrow> error + bytes"
  json_Unmarshal :: "bytes \<Rightarrow> error + CheckpointSnapshot"
  gzip :: "bytes \<Rightarrow> error + bytes"
  gunzip :: "bytes \<Rightarrow> error + bytes"

definition CreateCheckpointSnapshot ::
    "'s store_ops \<Rightarrow> u64 \<Rightarrow> 's state_manager \<Rightarrow> error + CheckpointSnapshot" where
  "CreateCheckpointSnapshot S height sm = (case st_all S (sm_db sm) of
     Inl e \<Rightarrow> Inl e
   | Inr accounts \<Rightarrow> Inr \<lparr>SnapHeight = height,
       SnapAccounts = map snd (accountMap accounts (accountCache sm))\<rparr>)"

definition Compress :: "snapshot_codec \<Rightarrow> CheckpointSnapshot \<Rightarrow> error + bytes" where
  "Compress C snapshot = (case json_Marshal C snapshot of
     Inl e \<Rightarrow> Inl e
   | Inr data \<Rightarrow> gzip C data)"

definition Serialize :: "snapshot_codec \<Rightarrow> CheckpointSnapshot \<Rightarrow> error + bytes" where
  "Serialize C snapshot = (case json_Marshal C snapshot of
     Inl e \<Rightarrow> Inl e
   | Inr data \<Rightarrow> gzip C data)"

definition DeserializeCheckpointSnapshot :: "snapshot_codec \<Rightarrow> bytes \<Rightarrow> error + CheckpointSnapshot" where
  "DeserializeCheckpointSnapshot C data = (case gunzip C data of
     Inl e \<Rightarrow> Inl e
   | Inr buf \<Rightarrow> json_Unmarshal C buf)"

definition SaveToFile :: "snapshot_codec \<Rightarrow> (string \<Rightarrow> error option) \<Rightarrow> string \<Rightarrow> CheckpointSnapshot
    \<Rightarrow> (string \<rightharpoonup> bytes, unit) step" where
  "SaveToFile C disk path snapshot fs = (case json_Marshal C snapshot of
     Inl e \<Rightarrow> (Inl e, fs)
   | Inr data \<Rightarrow> (case disk path of
       Some e \<Rightarrow> (Inl e, fs)
     | None \<Rightarrow> (case gzip C data of
         Inl e \<Rightarrow> (Inl e, fs(path \<mapsto> []))
       | Inr z \<Rightarrow> (Inr (), fs(path \<mapsto> z)))))"

definition LoadCheckpointSnapshotFromFile ::
    "snapshot_codec \<Rightarrow> (string \<rightharpoonup> bytes) \<Rightarrow> string \<Rightarrow> error + CheckpointSnapshot" where
  "LoadCheckpointSnapshotFromFile C fs path = (case fs path of
     None \<Rightarrow> Inl ErrIO
   | Some file \<Rightarrow> (case gunzip C file of
       Inl e \<Rightarrow> Inl e
     | Inr buf \<Rightarrow> json_Unmarshal C buf))"

fun save_accounts :: "'s store_ops \<Rightarrow> account list \<Rightarrow> ('s, unit) step" where
  "save_accounts S [] db = (Inr (), db)"
| "save_accounts S (acc # accs) db = (case st_save S acc db of
     (Inl e, db') \<Rightarrow> (Inl e, db')
   | (Inr _, db') \<Rightarrow> save_accounts S accs db')"

definition ApplyCheckpointSnapshot :: "'s store_ops \<Rightarrow> CheckpointSnapshot \<Rightarrow> ('s state_manager, unit) step" where
  "ApplyCheckpointSnapshot S snapshot sm =
     (let totalSupply = sum_balances (SnapAccounts snapshot); expectedSupply = (1400000000000000 :: u64) in
      if totalSupply \<noteq> expectedSupply then (Inl (SupplyMismatch totalSupply), sm)
      else case st_clear S (sm_db sm) of
        (Inl e, db) \<Rightarrow> (Inl e, sm\<lparr>sm_db := db\<rparr>)
      | (Inr _, db) \<Rightarrow> (case save_accounts S (SnapAccounts snapshot) db of
          (Inl e, db') \<Rightarrow> (Inl e, sm\<lparr>sm_db := db'\<rparr>)
        | (Inr _, db') \<Rightarrow> (Inr (), sm\<lparr>sm_db := db', accountCache := [], dirtyAccounts := []\<rparr>)))"

section \<open>The root depends on the accounts only\<close>

lemma sort_by_address_unique:
  assumes "set xs = set ys" and "distinct (map Address xs)" and "distinct (map Address ys)"
  shows "sort_key Address xs = sort_key Address ys"
proof -
  have "mset xs = mset ys"
    using assms by (metis distinct_map set_eq_iff_mset_eq_distinct)
  then show ?thesis
    using assms(2) by (intro sort_key_inj_key_eq) (auto simp: distinct_map)
qed

definition merged :: "account list \<Rightarrow> 's state_manager \<Rightarrow> account list" where
  "merged accounts sm = map snd (accountMap accounts (accountCache sm))"

context account_store
begin

lemma view_Address: "sm_wf store_inv sm \<Longrightarrow> view acct sm a = Some x \<Longrightarrow> Address x = a"
  using acct_address[of "sm_db sm" a x] by (auto simp: view_def sm_wf_def map_add_Some_iff)

lemma merged_accounts:
  assumes "sm_wf store_inv sm" and "st_all S (sm_db sm) = Inr xs"
  shows "set (merged xs sm) = ran (view acct sm)" and "distinct (map Address (merged xs sm))"
    and "by_address (merged xs sm) = view acct sm" and "length (merged xs sm) = card (dom (view acct sm))"
proof -
  let ?m = "accountMap xs (accountCache sm)"
  note v = merged_view(1)[OF assms]
  have wf: "distinct (map fst ?m)" using gomap_wf_accountMap[of xs "accountCache sm"] by (simp add: gomap_wf_def)
  have key: "Address (snd e) = fst e" if "e \<in> set ?m" for e
  proof -
    have "view acct sm (fst e) = Some (snd e)"
      using that wf by (simp flip: v)
    then show ?thesis by (rule view_Address[OF assms(1)])
  qed
  have eq: "map Address (merged xs sm) = map fst ?m" using key by (simp add: merged_def)
  then show d: "distinct (map Address (merged xs sm))" using wf by simp
  show "set (merged xs sm) = ran (view acct sm)"
    using wf by (simp add: merged_def ran_distinct flip: v)
  have "map (\<lambda>x. (Address x, x)) (merged xs sm) = ?m"
    using key by (simp add: merged_def map_idI)
  then show "by_address (merged xs sm) = view acct sm" by (simp add: by_address_def v)
  have "card (dom (view acct sm)) = length (map fst ?m)"
    using distinct_card[OF wf] by (simp add: dom_map_of_conv_image_fst flip: v)
  then show "length (merged xs sm) = card (dom (view acct sm))" by (simp add: merged_def)
qed

lemma root_eq:
  assumes "sm_wf store_inv sm" and "CalculateStateRoot S cl sm = Inr r"
  obtains xs where "set xs = ran (view acct sm)" "distinct (map Address xs)" "sorted (map Address xs)"
    "by_address xs = view acct sm" "length xs = card (dom (view acct sm))"
    "r = (if xs = [] then replicate 32 0 else copy_into 32 (buildMerkleTree cl (map (hashAccount cl) xs)))"
proof -
  from assms(2) obtain ys where ys: "st_all S (sm_db sm) = Inr ys"
    by (auto simp: CalculateStateRoot_def split: sum.splits)
  note m = merged_accounts[OF assms(1) ys]
  let ?xs = "sort_key Address (merged ys sm)"
  have d: "distinct (map Address ?xs)"
    using m(2) by (simp add: distinct_map)
  moreover have "by_address ?xs = view acct sm"
  proof
    fix a
    have "by_address ?xs a = Some x \<longleftrightarrow> by_address (merged ys sm) a = Some x" for x
      using d m(2) by (simp add: by_address_Some_iff)
    then show "by_address ?xs a = view acct sm a" unfolding m(3) by (metis option.exhaust)
  qed
  moreover have "?xs = [] \<longleftrightarrow> merged ys sm = []" by (metis length_0_conv length_sort)
  ultimately show thesis
    using that[of ?xs] m assms(2) ys by (simp add: CalculateStateRoot_def merged_def Let_def split: if_splits)
qed

end

text \<open>Two managers over possibly different stores that show the same accounts have the same root.\<close>

lemma root_of_accounts:
  assumes "account_store S inv1 acct1" and "account_store S' inv2 acct2"
    and "sm_wf inv1 sm" and "sm_wf inv2 sm'" and "view acct1 sm = view acct2 sm'"
    and "CalculateStateRoot S cl sm = Inr r" and "CalculateStateRoot S' cl sm' = Inr r'"
  shows "r = r'"
proof -
  obtain xs where x: "set xs = ran (view acct1 sm)" "distinct (map Address xs)" "sorted (map Address xs)"
    "r = (if xs = [] then replicate 32 0 else copy_into 32 (buildMerkleTree cl (map (hashAccount cl) xs)))"
    using account_store.root_eq[OF assms(1,3,6)] by metis
  obtain ys where y: "set ys = ran (view acct2 sm')" "distinct (map Address ys)" "sorted (map Address ys)"
    "r' = (if ys = [] then replicate 32 0 else copy_into 32 (buildMerkleTree cl (map (hashAccount cl) ys)))"
    using account_store.root_eq[OF assms(2,4,7)] by metis
  have "sort_key Address xs = sort_key Address ys"
    using x y assms(5) by (intro sort_by_address_unique) simp_all
  then have "xs = ys"
    using x(3) y(3) by (simp add: sort_key_id_if_sorted)
  with x y show ?thesis by simp
qed

section \<open>Binding\<close>

definition sha2_collision :: "crypto_lib \<Rightarrow> bool" where
  "sha2_collision cl \<longleftrightarrow> (\<exists>x y. x \<noteq> y \<and> sha2_256 cl x = sha2_256 cl y)"

lemma padLeaves_inject:
  assumes "padLeaves xs = padLeaves ys" and "length xs = length ys"
  shows "xs = ys"
  using assms by (auto simp: padLeaves_def split: if_splits)

lemma merkleParents_inject:
  assumes "\<not> sha2_collision cl" and "length xs = length ys" and "even (length xs)"
    and "\<forall>x\<in>set xs. length x = 32" and "\<forall>y\<in>set ys. length y = 32"
    and "merkleParents cl xs = merkleParents cl ys"
  shows "xs = ys"
  using assms(2-)
proof (induction xs arbitrary: ys rule: induct_list012)
  case (3 x y rest)
  note 1 = 3
  from 1(3) obtain x' y' rest' where ys: "ys = x' # y' # rest'"
    by (metis (no_types) length_0_conv length_Suc_conv)
  with 1 have rest: "rest = rest'" by simp
  from 1(7) ys have "sha2_256 cl (x @ y) = sha2_256 cl (x' @ y')" by (simp add: hashPair_def)
  with assms(1) have "x @ y = x' @ y'" unfolding sha2_collision_def by blast
  with 1 ys have "x = x'" "y = y'" by auto
  with rest ys show ?case by simp
qed (auto simp: length_Suc_conv)

lemma length_parents_32:
  assumes "\<And>x. length (sha2_256 cl x) = 32"
  shows "\<forall>x\<in>set (merkleParents cl xs). length x = 32"
  by (induction xs rule: induct_list012) (auto simp: hashPair_def assms)

lemma merkle_inject:
  assumes "\<not> sha2_collision cl" and "\<And>x. length (sha2_256 cl x) = 32"
    and "length xs = length ys" and "\<forall>x\<in>set xs. length x = 32" and "\<forall>y\<in>set ys. length y = 32"
    and "buildMerkleTree cl xs = buildMerkleTree cl ys"
  shows "xs = ys"
  using assms(3-)
proof (induction "length xs" arbitrary: xs ys rule: less_induct)
  case (less xs)
  note 1 = less
  show ?case
  proof (cases "length xs \<le> 1")
    case True
    with 1(2,5) show ?thesis
      by (cases xs; cases ys) (auto simp: buildMerkleTree.simps)
  next
    case False
    then have ne: "xs \<noteq> []" "length xs \<noteq> 1" "ys \<noteq> []" "length ys \<noteq> 1" using 1(2) by auto
    have pad: "\<forall>x\<in>set (padLeaves zs). length x = 32" if "\<forall>x\<in>set zs. length x = 32" "zs \<noteq> []" for zs :: "bytes list"
      using that by (auto simp: padLeaves_def)
    have "merkleParents cl (padLeaves xs) = merkleParents cl (padLeaves ys)"
    proof (rule 1(1))
      show "length (merkleParents cl (padLeaves xs)) < length xs"
        using False by (simp add: length_padLeaves)
      show "buildMerkleTree cl (merkleParents cl (padLeaves xs)) = buildMerkleTree cl (merkleParents cl (padLeaves ys))"
        using 1(5) ne by (simp add: buildMerkleTree.simps[of cl xs] buildMerkleTree.simps[of cl ys])
    qed (use 1(2) length_parents_32[OF assms(2)] in \<open>simp_all add: length_padLeaves\<close>)
    then have "padLeaves xs = padLeaves ys"
      by (rule merkleParents_inject[OF assms(1) _ _ pad[OF 1(3) ne(1)] pad[OF 1(4) ne(3)], rotated -1])
        (simp_all add: length_padLeaves 1(2))
    then show ?thesis using 1(2) by (rule padLeaves_inject)
  qed
qed

section \<open>The text of an account\<close>

lemma dec_nat_no_colon: "CHR '':'' \<notin> set (dec_nat n)"
  using dec_nat_digits[of "CHR '':''" n] by (auto simp: is_digit_def)

lemma split_first_field:
  "c \<notin> set d \<Longrightarrow> c \<notin> set d' \<Longrightarrow> d @ c # xs = d' @ c # ys \<Longrightarrow> d = d' \<and> xs = ys"
proof (induction d arbitrary: d')
  case Nil
  then show ?case by (cases d') auto
next
  case (Cons x d)
  then show ?case by (cases d') auto
qed

lemma split_last_field:
  assumes "c \<notin> set d" and "c \<notin> set d'" and "xs @ c # d = ys @ c # d'"
  shows "xs = ys \<and> d = d'"
proof -
  have "rev d @ c # rev xs = rev d' @ c # rev ys"
    using arg_cong[OF assms(3), of rev] by simp
  from split_first_field[OF _ _ this] assms(1,2) show ?thesis by simp
qed

definition same_content :: "account \<Rightarrow> account \<Rightarrow> bool" where
  "same_content x y \<longleftrightarrow> Address x = Address y \<and> AvailableBalance x = AvailableBalance y
     \<and> StakedBalance x = StakedBalance y \<and> Nonce x = Nonce y \<and> NodeType x = NodeType y"

lemma accountText_inject: "accountText x = accountText y \<Longrightarrow> same_content x y"
proof -
  assume eq: "accountText x = accountText y"
  have e4: "(Address x @ '':'' @ dec_u64 (AvailableBalance x) @ '':'' @ dec_u64 (StakedBalance x)
      @ '':'' @ dec_u64 (Nonce x)) = (Address y @ '':'' @ dec_u64 (AvailableBalance y) @ '':'' @ dec_u64 (StakedBalance y)
      @ '':'' @ dec_u64 (Nonce y)) \<and> dec_u8 (NodeType x) = dec_u8 (NodeType y)"
    by (rule split_last_field[of "CHR '':''"])
      (use eq dec_nat_no_colon in \<open>simp_all add: accountText_def dec_u8_def\<close>)
  have e3: "(Address x @ '':'' @ dec_u64 (AvailableBalance x) @ '':'' @ dec_u64 (StakedBalance x))
      = (Address y @ '':'' @ dec_u64 (AvailableBalance y) @ '':'' @ dec_u64 (StakedBalance y))
      \<and> dec_u64 (Nonce x) = dec_u64 (Nonce y)"
    by (rule split_last_field[of "CHR '':''"]) (use e4 dec_nat_no_colon in \<open>simp_all add: dec_u64_def\<close>)
  have e2: "(Address x @ '':'' @ dec_u64 (AvailableBalance x)) = (Address y @ '':'' @ dec_u64 (AvailableBalance y))
      \<and> dec_u64 (StakedBalance x) = dec_u64 (StakedBalance y)"
    by (rule split_last_field[of "CHR '':''"]) (use e3 dec_nat_no_colon in \<open>simp_all add: dec_u64_def\<close>)
  have e1: "Address x = Address y \<and> dec_u64 (AvailableBalance x) = dec_u64 (AvailableBalance y)"
    by (rule split_last_field[of "CHR '':''"]) (use e2 dec_nat_no_colon in \<open>simp_all add: dec_u64_def\<close>)
  show ?thesis
    using e1 e2 e3 e4 by (simp add: same_content_def dec_u64_def dec_u8_def word_unat_eq_iff)
qed

lemma hashAccount_inject:
  "\<not> sha2_collision cl \<Longrightarrow> hashAccount cl x = hashAccount cl y \<Longrightarrow> same_content x y"
  unfolding sha2_collision_def hashAccount_def by (metis accountText_inject string_bytes_inject)

lemma root_binds_lists:
  assumes "\<not> sha2_collision cl" and "\<And>x. length (sha2_256 cl x) = 32" and "length xs = length ys"
    and "buildMerkleTree cl (map (hashAccount cl) xs) = buildMerkleTree cl (map (hashAccount cl) ys)"
  shows "list_all2 same_content xs ys"
proof -
  have "map (hashAccount cl) xs = map (hashAccount cl) ys"
    by (rule merkle_inject[OF assms(1,2)]) (use assms in \<open>auto simp: hashAccount_def\<close>)
  then show ?thesis
    using hashAccount_inject[OF assms(1)] by (simp add: list_all2_conv_all_nth list_eq_iff_nth_eq)
qed

lemma length_merkle_32:
  assumes "\<And>x. length (sha2_256 cl x) = 32" and "\<forall>x\<in>set xs. length x = 32"
  shows "length (buildMerkleTree cl xs) = 32"
  using assms(2)
proof (induction "length xs" arbitrary: xs rule: less_induct)
  case less
  show ?case
  proof (cases "length xs \<le> 1")
    case True
    with less.prems show ?thesis by (cases xs) (auto simp: buildMerkleTree.simps)
  next
    case False
    then have "length (merkleParents cl (padLeaves xs)) < length xs" by (simp add: length_padLeaves)
    from less.hyps[OF this] length_parents_32[OF assms(1)] False show ?thesis
      by (auto simp: buildMerkleTree.simps[of cl xs])
  qed
qed

section \<open>Applying a snapshot\<close>

lemma map_add_snoc_address: "m ++ map_of (map (\<lambda>x. (Address x, x)) (rev (x # xs)))
    = (m(Address x \<mapsto> x)) ++ map_of (map (\<lambda>x. (Address x, x)) (rev xs))"
  by (auto simp: fun_eq_iff map_add_def split: option.split)

locale snapshot_codec_spec =
  fixes C :: snapshot_codec
  assumes json_ok: "json_Marshal C s = Inr d \<Longrightarrow> json_Unmarshal C d = Inr s"
    and gzip_ok: "gzip C d = Inr z \<Longrightarrow> gunzip C z = Inr d"
begin

lemma snapshot_wire: "Serialize C s = Inr z \<Longrightarrow> DeserializeCheckpointSnapshot C z = Inr s"
  by (auto simp: Serialize_def DeserializeCheckpointSnapshot_def json_ok dest: gzip_ok split: sum.splits)

lemma snapshot_file:
  "SaveToFile C disk p s fs = (Inr (), fs') \<Longrightarrow> LoadCheckpointSnapshotFromFile C fs' p = Inr s"
  by (auto simp: SaveToFile_def LoadCheckpointSnapshotFromFile_def json_ok
      dest: gzip_ok split: sum.splits option.splits)

end

context account_store
begin

lemma save_accounts_ok:
  "store_inv db \<Longrightarrow> save_accounts S xs db = (r, db') \<Longrightarrow> store_inv db' \<and>
     (r = Inr () \<longrightarrow> acct db' = acct db ++ map_of (map (\<lambda>x. (Address x, x)) (rev xs)))"
proof (induction xs arbitrary: db)
  case (Cons x xs)
  obtain r1 db1 where sv: "st_save S x db = (r1, db1)" by fastforce
  note s = save_ok[OF Cons.prems(1) sv]
  show ?case
  proof (cases r1)
    case (Inl e)
    with Cons.prems s sv show ?thesis by auto
  next
    case (Inr u)
    with s have db1: "store_inv db1" "acct db1 = (acct db)(Address x \<mapsto> x)" by auto
    have run: "save_accounts S xs db1 = (r, db')" using Cons.prems(2) sv Inr by simp
    from Cons.IH[OF db1(1) run] show ?thesis
      unfolding map_add_snoc_address db1(2) .
  qed
qed simp

lemma apply_snapshot_ok:
  assumes "store_inv (sm_db sm)" and "ApplyCheckpointSnapshot S snap sm = (Inr u, sm')"
  shows "view acct sm' = map_of (map (\<lambda>x. (Address x, x)) (rev (SnapAccounts snap)))"
    and "sm_ok store_inv acct sm'" and "sum_balances (SnapAccounts snap) = TOTAL_SUPPLY"
proof -
  from assms(2) obtain db db' where c: "st_clear S (sm_db sm) = (Inr (), db)"
    and sv: "save_accounts S (SnapAccounts snap) db = (Inr (), db')"
    and sm': "sm' = sm\<lparr>sm_db := db', accountCache := [], dirtyAccounts := []\<rparr>"
    and sup: "sum_balances (SnapAccounts snap) = TOTAL_SUPPLY"
    by (auto simp: ApplyCheckpointSnapshot_def Let_def TOTAL_SUPPLY_def split: if_splits prod.splits sum.splits)
  from clear_ok[OF assms(1) c] have db: "store_inv db" "acct db = Map.empty" by auto
  from save_accounts_ok[OF db(1) sv] db(2) have "store_inv db'"
    "acct db' = map_of (map (\<lambda>x. (Address x, x)) (rev (SnapAccounts snap)))" by auto
  then show "view acct sm' = map_of (map (\<lambda>x. (Address x, x)) (rev (SnapAccounts snap)))"
    "sm_ok store_inv acct sm'" "sum_balances (SnapAccounts snap) = TOTAL_SUPPLY"
    using sup by (simp_all add: sm' view_def sm_ok_def sm_wf_def coherent_upto_def)
qed

lemma created_snapshot:
  assumes "sm_wf store_inv sm" and "CreateCheckpointSnapshot S h sm = Inr snap"
  shows "by_address (SnapAccounts snap) = view acct sm" and "distinct (map Address (SnapAccounts snap))"
  using assms merged_accounts[OF assms(1)]
  by (auto simp: CreateCheckpointSnapshot_def merged_def split: sum.splits)

end

lemma by_address_rev:
  "distinct (map Address xs) \<Longrightarrow> map_of (map (\<lambda>x. (Address x, x)) (rev xs)) = by_address xs"
  using map_of_rev_wf[OF gomap_wf_by_address] by (simp add: by_address_def rev_map)

section \<open>An instance of the codec\<close>

fun dec_accounts :: "nat \<Rightarrow> bytes \<Rightarrow> account list" where
  "dec_accounts 0 r = []"
| "dec_accounts (Suc n) r = (case dec_bytes r of (b, r') \<Rightarrow>
     (case ref_FromJSON b of None \<Rightarrow> [] | Some a \<Rightarrow> a # dec_accounts n r'))"

definition ref_codec :: snapshot_codec where
  "ref_codec = \<lparr>
     json_Marshal = (\<lambda>s. Inr (be_put64 (SnapHeight s) @ enc_bytes (map (\<lambda>_. 0) (SnapAccounts s))
        @ concat (map (\<lambda>a. enc_bytes (ref_ToJSON a)) (SnapAccounts s)))),
     json_Unmarshal = (\<lambda>d. case dec_bytes (drop 8 d) of (n, r) \<Rightarrow>
        Inr \<lparr>SnapHeight = be_fold (take 8 d), SnapAccounts = dec_accounts (length n) r\<rparr>),
     gzip = Inr, gunzip = Inr\<rparr>"

lemma dec_accounts_concat:
  "dec_accounts (length xs) (concat (map (\<lambda>a. enc_bytes (ref_ToJSON a)) xs)) = xs"
  by (induction xs) (auto simp: ref_json_roundtrip)

interpretation ref_codec: snapshot_codec_spec ref_codec
  by unfold_locales (auto simp: ref_codec_def dec_accounts_concat)

lemma ref_save_ok:
  assumes "all_shards_open s"
  shows "\<exists>s'. SaveAccount ref_env x s = (Inr (), s') \<and> all_shards_open s'"
proof -
  obtain d where "map_of (shards s) (getShardKey (Address x)) = Some d"
    using assms getShardKey_charset[of "Address x"] by (auto simp: all_shards_open_def)
  then show ?thesis
    using assms by (auto simp: SaveAccount_def getShard_def ref_env_def ref_leveldb_def all_shards_open_def)
qed

lemma ref_save_accounts_ok:
  "all_shards_open s \<Longrightarrow> \<exists>s'. save_accounts (sharded_ops ref_env) xs s = (Inr (), s')"
proof (induction xs arbitrary: s)
  case (Cons x xs)
  from ref_save_ok[OF Cons.prems, of x] Cons.IH show ?case by (auto simp: sharded_ops_def)
qed simp

lemma ref_clear_ok: "all_shards_open s \<Longrightarrow> \<exists>s'. clear_shards ref_env ds s = (Inr (), s') \<and> all_shards_open s'"
proof (induction ds arbitrary: s)
  case (Cons b ds)
  obtain k d where b: "b = (k, d)" by (cases b)
  have "all_shards_open (set_shard k d' s)" for d'
    using Cons.prems by (auto simp: all_shards_open_def)
  with Cons.IH show ?case by (simp add: b ref_env_def ref_leveldb_def)
qed simp

lemma ref_apply_ok:
  assumes "sum_balances (SnapAccounts snap) = TOTAL_SUPPLY" and "all_shards_open (sm_db sm)"
  shows "\<exists>sm'. ApplyCheckpointSnapshot (sharded_ops ref_env) snap sm = (Inr (), sm')"
proof -
  obtain db where db: "ClearAllAccounts ref_env (sm_db sm) = (Inr (), db)" "all_shards_open db"
    using ref_clear_ok[OF assms(2)] unfolding ClearAllAccounts_def by blast
  obtain db' where "save_accounts (sharded_ops ref_env) (SnapAccounts snap) db = (Inr (), db')"
    using ref_save_accounts_ok[OF db(2)] by blast
  with db assms(1) show ?thesis
    by (simp add: ApplyCheckpointSnapshot_def sharded_ops_def TOTAL_SUPPLY_def)
qed

lemma demo_created_supply:
  assumes "CreateCheckpointSnapshot (sharded_ops ref_env) h demo_sm = Inr snap"
  shows "sum_balances (SnapAccounts snap) = TOTAL_SUPPLY"
proof -
  have wf: "sm_wf (sstore_wf ref_env ref_kv) demo_sm" using demo_sm_ok by (simp add: sm_ok_def)
  note c = ref_store.created_snapshot[OF wf assms]
  have "sum_balances (SnapAccounts snap) = fin_sum TotalBalance (view (shard_acct ref_env ref_kv) demo_sm)"
    using fin_sum_map_of[OF gomap_wf_by_address[OF c(2)], of TotalBalance] c(1)
    by (simp add: by_address_def sum_balances_eq comp_def)
  also have "\<dots> = TOTAL_SUPPLY"
    by (simp add: view_def demo_sm_def NewStateManager_def genesis_account_def fin_sum_def TotalBalance_def)
  finally show ?thesis .
qed

section \<open>Claims\<close>

text \<open>C27: the state root is a function of the accounts alone. Two nodes, with different stores,
  different engines, different cache contents and any map iteration order, compute the same root
  whenever cache over store shows the same accounts.\<close>

theorem state_root_deterministic:
  assumes "sharded_env E kv" and "sharded_env E' kv'" and "sharded_sm_ok E kv sm" and "sharded_sm_ok E' kv' sm'"
    and "view (shard_acct E kv) sm = view (shard_acct E' kv') sm'"
    and "CalculateStateRoot (sharded_ops E) cl sm = Inr r" and "CalculateStateRoot (sharded_ops E') cl sm' = Inr r'"
  shows "r = r'"
  by (rule root_of_accounts[OF sharded_env.sharded_account_store[OF assms(1)]
        sharded_env.sharded_account_store[OF assms(2)] _ _ assms(5-7)])
    (use assms(3,4) in \<open>simp_all add: sm_ok_def\<close>)

text \<open>The demonstration manager before and after its commit: the same accounts, once in the
  cache and once in the store.\<close>

lemma ref_root_ok: "\<exists>r. CalculateStateRoot (sharded_ops ref_env) cl sm = Inr r"
  using ref_collect_ok[of "shards (sm_db sm)"]
  by (auto simp: CalculateStateRoot_def sharded_ops_def SS_GetAllAccounts_def Let_def)

definition demo_stored :: "ref_db sstore state_manager" where
  "demo_stored = NewStateManager (snd (SaveAccount ref_env genesis_account ref_sstore))"

lemma demo_stored_facts:
  "sharded_sm_ok ref_env ref_kv demo_stored"
  "view (shard_acct ref_env ref_kv) demo_stored = view (shard_acct ref_env ref_kv) demo_sm"
proof -
  obtain s' where run: "SaveAccount ref_env genesis_account ref_sstore = (Inr (), s')"
    using ref_save_ok[OF ref_sstore_open] by blast
  note s = ref.save_account_sound(1)[OF ref_sstore_wf run] ref.save_account_sound(2)[OF ref_sstore_wf run, of "()"]
  show "sharded_sm_ok ref_env ref_kv demo_stored"
    using run s by (simp add: demo_stored_def sm_ok_def sm_wf_def coherent_upto_def NewStateManager_def)
  show "view (shard_acct ref_env ref_kv) demo_stored = view (shard_acct ref_env ref_kv) demo_sm"
    using run s by (simp add: demo_stored_def view_def NewStateManager_def demo_sm_def genesis_account_def)
qed

theorem state_root_deterministic_witness:
  "CalculateStateRoot (sharded_ops ref_env) demo_crypto demo_sm
     = CalculateStateRoot (sharded_ops ref_env) demo_crypto demo_stored"
proof -
  obtain r r' where "CalculateStateRoot (sharded_ops ref_env) demo_crypto demo_sm = Inr r"
    "CalculateStateRoot (sharded_ops ref_env) demo_crypto demo_stored = Inr r'"
    using ref_root_ok by metis
  with state_root_deterministic[OF ref.sharded_env_axioms ref.sharded_env_axioms demo_sm_ok demo_stored_facts(1)]
    demo_stored_facts(2) show ?thesis by simp
qed



text \<open>C15: moving a checkpoint snapshot to another node. If a node creates a snapshot, serialises
  it, and another node deserialises it and applies it without error, then the receiving node
  shows exactly the sender's accounts from its store, its cache is coherent, and whenever both
  compute the state root the roots agree.\<close>

theorem snapshot_transfer:
  assumes "sharded_env E kv" and "sharded_env E' kv'" and "snapshot_codec_spec C"
    and "sharded_sm_ok E kv sm" and "sstore_wf E' kv' (sm_db tm)"
    and "CreateCheckpointSnapshot (sharded_ops E) h sm = Inr snap" and "Serialize C snap = Inr z"
    and "DeserializeCheckpointSnapshot C z = Inr snap'"
    and "ApplyCheckpointSnapshot (sharded_ops E') snap' tm = (Inr (), tm')"
  shows "view (shard_acct E' kv') tm' = view (shard_acct E kv) sm \<and> sharded_sm_ok E' kv' tm'
    \<and> ledger_supply (ledger_of E' kv' tm') = TOTAL_SUPPLY
    \<and> (\<forall>cl r r'. CalculateStateRoot (sharded_ops E) cl sm = Inr r \<longrightarrow>
         CalculateStateRoot (sharded_ops E') cl tm' = Inr r' \<longrightarrow> r = r')"
proof -
  note A = sharded_env.sharded_account_store[OF assms(1)] and A' = sharded_env.sharded_account_store[OF assms(2)]
  have wf: "sm_wf (sstore_wf E kv) sm" using assms(4) by (simp add: sm_ok_def)
  have snap: "snap' = snap" using snapshot_codec_spec.snapshot_wire[OF assms(3,7)] assms(8) by simp
  note c = account_store.created_snapshot[OF A wf assms(6)]
  note ap = account_store.apply_snapshot_ok[OF A' assms(5) assms(9)[unfolded snap]]
  have v: "view (shard_acct E' kv') tm' = view (shard_acct E kv) sm"
    using ap(1) by_address_rev[OF c(2)] c(1) by simp
  have wf': "sm_wf (sstore_wf E' kv') tm'" using ap(2) by (simp add: sm_ok_def)
  have "ledger_supply (ledger_of E' kv' tm') = fin_sum TotalBalance (by_address (SnapAccounts snap))"
    using ledger_supply_or_new(1)[OF account_store.finite_view[OF A' wf']]
    by (simp add: account_store.ledger_view[OF A'] v c(1))
  also have "\<dots> = TOTAL_SUPPLY"
    using fin_sum_map_of[OF gomap_wf_by_address[OF c(2)], of TotalBalance] ap(3)
    by (simp add: by_address_def sum_balances_eq comp_def)
  finally show ?thesis
    using v ap(2) root_of_accounts[OF A A' wf wf' v[symmetric]] by blast
qed

theorem snapshot_transfer_witness:
  "\<exists>snap z tm'. CreateCheckpointSnapshot (sharded_ops ref_env) 9 demo_sm = Inr snap
     \<and> Serialize ref_codec snap = Inr z
     \<and> ApplyCheckpointSnapshot (sharded_ops ref_env) snap (NewStateManager ref_sstore) = (Inr (), tm')
     \<and> view (shard_acct ref_env ref_kv) tm' = view (shard_acct ref_env ref_kv) demo_sm"
proof -
  have wf: "sm_wf (sstore_wf ref_env ref_kv) demo_sm" using demo_sm_ok by (simp add: sm_ok_def)
  obtain snap where snap: "CreateCheckpointSnapshot (sharded_ops ref_env) 9 demo_sm = Inr snap"
    using ref_collect_ok[of "shards (sm_db demo_sm)"]
    by (auto simp: CreateCheckpointSnapshot_def sharded_ops_def SS_GetAllAccounts_def)
  obtain z where z: "Serialize ref_codec snap = Inr z" by (simp add: Serialize_def ref_codec_def)
  have dz: "DeserializeCheckpointSnapshot ref_codec z = Inr snap" by (rule ref_codec.snapshot_wire[OF z])
  have "sum_balances (SnapAccounts snap) = TOTAL_SUPPLY"
    using demo_created_supply[OF snap] .
  then obtain tm' where ap: "ApplyCheckpointSnapshot (sharded_ops ref_env) snap (NewStateManager ref_sstore) = (Inr (), tm')"
    using ref_apply_ok[of snap "NewStateManager ref_sstore"] by (auto simp: NewStateManager_def)
  have "sstore_wf ref_env ref_kv (sm_db (NewStateManager ref_sstore))" by (simp add: NewStateManager_def)
  from snapshot_transfer[OF ref.sharded_env_axioms ref.sharded_env_axioms ref_codec.snapshot_codec_spec_axioms
      demo_sm_ok this snap z dz ap] snap z ap
  show ?thesis by blast
qed

text \<open>The P0 check of a snapshot can be satisfied by repeated accounts. The check adds up the
  list, the store keeps one account per address: a snapshot that lists an account with half the
  supply twice is accepted, and the node is left with half the supply.\<close>

theorem duplicate_accounts_pass_snapshot_check:
  "\<exists>snap sm'. ApplyCheckpointSnapshot (sharded_ops ref_env) snap (NewStateManager ref_sstore) = (Inr (), sm')
     \<and> ledger_supply (ledger_of ref_env ref_kv sm') = TOTAL_SUPPLY div 2"
proof -
  let ?x = "(NewAccount ''F1'')\<lparr>AvailableBalance := TOTAL_SUPPLY div 2\<rparr>"
  let ?snap = "\<lparr>SnapHeight = 9, SnapAccounts = [?x, ?x]\<rparr>"
  have "sum_balances (SnapAccounts ?snap) = TOTAL_SUPPLY"
    by (simp add: sum_balances_def TOTAL_SUPPLY_def)
  then obtain sm' where run: "ApplyCheckpointSnapshot (sharded_ops ref_env) ?snap (NewStateManager ref_sstore) = (Inr (), sm')"
    using ref_apply_ok[of ?snap "NewStateManager ref_sstore"] by (auto simp: NewStateManager_def)
  have "sstore_wf ref_env ref_kv (sm_db (NewStateManager ref_sstore))" by (simp add: NewStateManager_def)
  note ap = ref_store.apply_snapshot_ok[OF this run]
  have "ledger_supply (ledger_of ref_env ref_kv sm') = fin_sum TotalBalance (view (shard_acct ref_env ref_kv) sm')"
    using ledger_supply_or_new(1)[OF ref_store.finite_view] ap(2) by (simp add: ref_store.ledger_view sm_ok_def)
  also have "\<dots> = TOTAL_SUPPLY div 2"
    using ap(1) by (simp add: fin_sum_def TotalBalance_def)
  finally show ?thesis using run by blast
qed

text \<open>A balance query is not neutral for the state root. Asking for the balance of an address
  that no node has heard of leaves every balance as it was, but puts an empty account into the
  cache, so the state root of that node is taken over one more leaf.\<close>

theorem balance_query_adds_leaf:
  assumes "sharded_env E kv" and "sharded_sm_ok E kv sm" and "view (shard_acct E kv) sm a = None"
    and "GetBalance (sharded_ops E) a sm = (Inr b, sm')"
  shows "b = 0 \<and> ledger_of E kv sm' = ledger_of E kv sm
    \<and> view (shard_acct E kv) sm' = (view (shard_acct E kv) sm)(a \<mapsto> NewAccount a)
    \<and> card (dom (view (shard_acct E kv) sm')) = card (dom (view (shard_acct E kv) sm)) + 1"
proof -
  note A = sharded_env.sharded_account_store[OF assms(1)]
  have inv: "sstore_wf E kv (sm_db sm)" and wf: "sm_wf (sstore_wf E kv) sm"
    using assms(2) by (simp_all add: sm_ok_def sm_wf_def)
  from assms(3) have none: "map_of (accountCache sm) a = None" "shard_acct E kv (sm_db sm) a = None"
    by (auto simp: view_def map_add_None)
  from assms(4) obtain x where g: "GetAccount (sharded_ops E) a sm = (Inr x, sm')" and b: "b = AvailableBalance x"
    by (auto simp: GetBalance_def bindS_Inr_iff)
  with none(1) have x: "st_get (sharded_ops E) (sm_db sm) a = Inr x"
    and sm': "sm' = sm\<lparr>accountCache := AList.update a x (accountCache sm)\<rparr>"
    by (auto simp: GetAccount_def split: sum.splits)
  have "x = NewAccount a" using account_store.get_ok[OF A inv x] none(2) by simp
  moreover from this have v: "view (shard_acct E kv) sm' = (view (shard_acct E kv) sm)(a \<mapsto> NewAccount a)"
    by (auto simp: view_def sm' fun_eq_iff map_add_def)
  moreover from v have "dom (view (shard_acct E kv) sm') = insert a (dom (view (shard_acct E kv) sm))"
    by simp
  then have "card (dom (view (shard_acct E kv) sm')) = card (dom (view (shard_acct E kv) sm)) + 1"
    using assms(3) account_store.finite_view[OF A wf] by (simp add: domIff)
  moreover from v assms(3) have "ledger_of E kv sm' = ledger_of E kv sm"
    by (simp add: ledger_def fun_eq_iff)
  ultimately show ?thesis using b by simp
qed

theorem balance_query_adds_leaf_witness:
  "\<exists>b sm'. GetBalance (sharded_ops ref_env) ''F1'' demo_sm = (Inr b, sm')
     \<and> card (dom (view (shard_acct ref_env ref_kv) sm')) = card (dom (view (shard_acct ref_env ref_kv) demo_sm)) + 1"
proof -
  have none: "view (shard_acct ref_env ref_kv) demo_sm ''F1'' = None"
    by (simp add: view_def demo_sm_def NewStateManager_def genesis_account_def GenesisAddress_def)
  obtain x where "SS_GetAccount ref_env (sm_db demo_sm) ''F1'' = Inr x" using ref_readable by blast
  then obtain b sm' where run: "GetBalance (sharded_ops ref_env) ''F1'' demo_sm = (Inr b, sm')"
    by (cases "map_of (accountCache demo_sm) ''F1''")
      (simp_all add: GetBalance_def bindS_def GetAccount_def sharded_ops_def)
  from balance_query_adds_leaf[OF ref.sharded_env_axioms demo_sm_ok none run] run show ?thesis by blast
qed

end
