(* ===== verification/Node_Pool.thy ===== *)
theory Node_Pool
  imports Chain_Database Validators Checkpoint_Files State_Root
begin

text \<open>
  The node and its transaction pool: \<^verbatim>\<open>node.go\<close> and \<^verbatim>\<open>transaction.go\<close>. The pool is a directory with
  one JSON file per transaction, named after the first eight bytes of its hash. The database the
  node holds and the one its state manager holds are the same object, so the node's state carries
  it once, inside the state manager.

  Lemmas: what a client can put into the pool; the nonces the pool hands out; what the block
  producer takes from the pool, in which order and with which nonces.
\<close>

section \<open>The node\<close>

text \<open>What the node hands to its peer-to-peer server, in order.\<close>

datatype outgoing = OutBlock block | OutCheckpoint Checkpoint bytes | OutSyncRequest u64 u64 | OutCheckpointRequest

record 'd node =
  n_address :: string
  n_privateKey :: bytes
  n_state :: "'d Database state_manager"
  n_chain :: Blockchain
  n_vals :: ValidatorSet
  n_pending :: "(string, bytes) gomap"
  n_checkpoints :: directory
  n_pendingData :: "bytes option"
  n_validatorActivated :: bool
  n_syncedHeight :: u64
  n_outbox :: "outgoing list"

text \<open>The parameters of a run: the libraries, the consensus configuration, the clock readings (in
  milliseconds, a later one for the second validation of a produced block, and in seconds), the
  random bytes of the cipher, the behaviour of the file system, and what the peer-to-peer server
  reports (\<open>None\<close> when there is no server).\<close>

record 'd node_env =
  nd_db :: "'d db_env"
  nd_cfg :: ConsensusConfig
  nd_cl :: crypto_lib
  nd_cp :: checkpoint_codec
  nd_snap :: snapshot_codec
  nd_now :: i64
  nd_now2 :: i64
  nd_now_s :: i64
  nd_disk_ok :: bool
  nd_gcm_nonce :: bytes
  nd_fails :: "fs_action \<Rightarrow> nat option"
  nd_readdir :: "directory \<Rightarrow> string list"
  nd_bestPeer :: "u64 option"
  nd_seedPeers :: nat

abbreviation n_ops :: "'d node_env \<Rightarrow> 'd Database store_ops" where
  "n_ops N \<equiv> database_ops (nd_db N)"

abbreviation n_db :: "'d node \<Rightarrow> 'd Database" where
  "n_db n \<equiv> sm_db (n_state n)"

definition on_sm :: "('d Database state_manager, 'a) step \<Rightarrow> ('d node, 'a) step" where
  "on_sm m n = (case m (n_state n) of (r, sm) \<Rightarrow> (r, n\<lparr>n_state := sm\<rparr>))"

definition on_db :: "('d Database, 'a) step \<Rightarrow> ('d node, 'a) step" where
  "on_db m = on_sm (\<lambda>sm. case m (sm_db sm) of (r, D) \<Rightarrow> (r, sm\<lparr>sm_db := D\<rparr>))"

definition on_chain :: "(Blockchain, 'a) step \<Rightarrow> ('d node, 'a) step" where
  "on_chain m n = (case m (n_chain n) of (r, bc) \<Rightarrow> (r, n\<lparr>n_chain := bc\<rparr>))"

definition isActiveValidator :: "string \<Rightarrow> 'd node \<Rightarrow> bool" where
  "isActiveValidator address n = IsActiveValidator address (n_vals n)"

text \<open>The state manager calls the installed callbacks while it executes; the events it records are
  applied to the validator set right after the transaction.\<close>

definition executeTx :: "'d node_env \<Rightarrow> i64 \<Rightarrow> bool \<Rightarrow> transaction \<Rightarrow> ('d node, unit) step" where
  "executeTx N now skip tx n =
     (case ExecuteTransaction (n_ops N) (nd_cfg N) (nd_cl N) now skip tx (n_state n) of
        (r, sm) \<Rightarrow> (case apply_events (nd_cfg N) (nd_now_s N) (validatorEvents sm) (n_vals n) of
           (Inl e, vs) \<Rightarrow> (Inl e, n\<lparr>n_state := sm\<lparr>validatorEvents := []\<rparr>, n_vals := vs\<rparr>)
         | (Inr _, vs) \<Rightarrow> (r, n\<lparr>n_state := sm\<lparr>validatorEvents := []\<rparr>, n_vals := vs\<rparr>)))"

section \<open>The transaction pool\<close>

definition pendingName :: "crypto_lib \<Rightarrow> transaction \<Rightarrow> string" where
  "pendingName cl tx = ''tx_'' @ hex_encode (take 8 (Tx_Hash cl tx)) @ ''.json''"

definition pendingFiles :: "'d node_env \<Rightarrow> (string, bytes) gomap \<Rightarrow> (string \<times> transaction) list" where
  "pendingFiles N dir = List.map_filter (\<lambda>(name, data). map_option (Pair name) (tx_FromJSON (nd_db N) data)) (sort_key fst dir)"

definition countPendingTransactions :: "'d node_env \<Rightarrow> string \<Rightarrow> 'd node \<Rightarrow> nat" where
  "countPendingTransactions N address n =
     length (filter (\<lambda>(name, tx). From tx = address \<and> Type tx \<noteq> TxReward \<and> Type tx \<noteq> TxSlash) (pendingFiles N (n_pending n)))"

definition assignNonce :: "'d node_env \<Rightarrow> transaction \<Rightarrow> ('d node, transaction) step" where
  "assignNonce N tx =
     (if Type tx = TxReward \<or> Type tx = TxSlash then Pair (Inr tx)
      else if TxNonce tx \<noteq> 0 then Pair (Inl NonceSpecified)
      else bindS (on_sm (GetNonce (n_ops N) (From tx))) (\<lambda>currentNonce n.
        let tx' = tx\<lparr>TxNonce := currentNonce + of_nat (countPendingTransactions N (From tx) n)\<rparr> in
        case slice_to 10 (From tx) of Inl e \<Rightarrow> (Inl e, n) | Inr _ \<Rightarrow> (Inr tx', n)))"

definition SubmitTransaction :: "'d node_env \<Rightarrow> transaction \<Rightarrow> ('d node, unit) step" where
  "SubmitTransaction N tx n =
     (if \<not> isActiveValidator (n_address n) n then (Inl NotAValidatorNode, n)
      else if map_of (n_pending n) (pendingName (nd_cl N) tx) \<noteq> None then (Inl DuplicateTx, n)
      else bindS (assignNonce N tx) (\<lambda>tx' n.
        case Tx_Validate (nd_cfg N) (nd_now N) False tx' of
          Inl e \<Rightarrow> (Inl e, n)
        | Inr _ \<Rightarrow> (case VerifySignature tx' of
            Inl e \<Rightarrow> (Inl e, n)
          | Inr _ \<Rightarrow>
              if \<not> nd_disk_ok N then (Inl ErrIO, n)
              else (Inr (), n\<lparr>n_pending := AList.update (pendingName (nd_cl N) tx) (tx_ToJSON (nd_db N) tx') (n_pending n)\<rparr>))) n)"

definition HandleReceivedTransaction :: "transaction \<Rightarrow> ('d node, unit) step" where
  "HandleReceivedTransaction tx n = (Inl Other, n)"

text \<open>Every file that decodes is taken into the block and removed from the directory.\<close>

definition loadPendingTransactions :: "'d node_env \<Rightarrow> 'd node \<Rightarrow> transaction list \<times> 'd node" where
  "loadPendingTransactions N n =
     (map snd (pendingFiles N (n_pending n)),
      n\<lparr>n_pending := filter (\<lambda>(name, data). tx_FromJSON (nd_db N) data = None) (n_pending n)\<rparr>)"

section \<open>Selecting transactions for a block\<close>

definition txsByAccount :: "transaction list \<Rightarrow> (string, transaction list) gomap" where
  "txsByAccount txs = foldl (\<lambda>m tx. AList.update (From tx)
     ((case map_of m (From tx) of None \<Rightarrow> [] | Some l \<Rightarrow> l) @ [tx]) m) []
     (filter (\<lambda>tx. \<not> (Type tx = TxReward \<or> Type tx = TxSlash)) txs)"

text \<open>The balance test of one transaction; a failing state query skips the transaction.\<close>

definition affordable :: "'d node_env \<Rightarrow> string \<Rightarrow> transaction \<Rightarrow> 'd node \<Rightarrow> bool \<times> 'd node" where
  "affordable N address tx n =
     (if Type tx = TxTransfer then
        (case on_sm (GetBalance (n_ops N) address) n of
           (Inl _, n') \<Rightarrow> (False, n') | (Inr balance, n') \<Rightarrow> (\<not> balance < Amount tx + GasFee tx, n'))
      else if Type tx = TxStake then
        (case on_sm (GetBalance (n_ops N) address) n of
           (Inl _, n') \<Rightarrow> (False, n') | (Inr balance, n') \<Rightarrow> (\<not> balance < Amount tx, n'))
      else if Type tx = TxUnstake then
        (case on_sm (State_Manager.GetAccount (n_ops N) address) n of
           (Inl _, n') \<Rightarrow> (False, n') | (Inr acc, n') \<Rightarrow> (\<not> StakedBalance acc < Amount tx, n'))
      else (True, n))"

fun selectForAccount ::
    "'d node_env \<Rightarrow> string \<Rightarrow> u64 \<Rightarrow> u64 list \<Rightarrow> transaction list \<Rightarrow> 'd node \<Rightarrow> transaction list \<times> 'd node" where
  "selectForAccount N address currentNonce seen [] n = ([], n)"
| "selectForAccount N address currentNonce seen (tx # txs) n =
     (if TxNonce tx \<in> set seen then selectForAccount N address currentNonce seen txs n
      else if TxNonce tx \<noteq> currentNonce then selectForAccount N address currentNonce seen txs n
      else case affordable N address tx n of
        (False, n') \<Rightarrow> selectForAccount N address currentNonce seen txs n'
      | (True, n') \<Rightarrow> (case selectForAccount N address (currentNonce + 1) (TxNonce tx # seen) txs n' of
            (sel, n'') \<Rightarrow> (tx # sel, n'')))"

fun selectAll :: "'d node_env \<Rightarrow> (string, transaction list) gomap \<Rightarrow> 'd node \<Rightarrow> transaction list \<times> 'd node" where
  "selectAll N [] n = ([], n)"
| "selectAll N ((address, txs) # rest) n = (case on_sm (GetNonce (n_ops N) address) n of
     (Inl _, n') \<Rightarrow> selectAll N rest n'
   | (Inr currentNonce, n') \<Rightarrow> (case selectForAccount N address currentNonce [] txs n' of
       (sel, n1) \<Rightarrow> (case selectAll N rest n1 of (others, n2) \<Rightarrow> (sel @ others, n2))))"

text \<open>The log lines slice the sender's address, so one sender shorter than ten bytes panics.\<close>

definition validateAndDeduplicateTransactions :: "'d node_env \<Rightarrow> transaction list \<Rightarrow> ('d node, transaction list) step" where
  "validateAndDeduplicateTransactions N txs n =
     (if txs = [] then (Inr [], n)
      else if list_ex (\<lambda>tx. \<not> (Type tx = TxReward \<or> Type tx = TxSlash) \<and> length (From tx) < 10) txs then (Inl Panic, n)
      else case selectAll N (txsByAccount txs) n of
        (validTxs, n') \<Rightarrow> (Inr (validTxs @ filter (\<lambda>tx. Type tx = TxReward \<or> Type tx = TxSlash) txs), n'))"

section \<open>The node over a correct LevelDB\<close>

locale node_ctx = sharded_env "accEnv (nd_db N)" kv
  for N :: "'d node_env" and kv :: "'d \<Rightarrow> bytes \<rightharpoonup> bytes"
begin

sublocale accounts: account_store "n_ops N" "\<lambda>D. sstore_wf (accEnv (nd_db N)) kv (stateStore D)"
    "\<lambda>D. shard_acct (accEnv (nd_db N)) kv (stateStore D)"
  by (rule database_account_store[OF sharded_account_store])

definition node_ok :: "'d node \<Rightarrow> bool" where
  "node_ok n \<longleftrightarrow> sm_ok (\<lambda>D. sstore_wf (accEnv (nd_db N)) kv (stateStore D))
     (\<lambda>D. shard_acct (accEnv (nd_db N)) kv (stateStore D)) (n_state n)"

definition node_ledger :: "'d node \<Rightarrow> ledger" where
  "node_ledger n = ledger (\<lambda>D. shard_acct (accEnv (nd_db N)) kv (stateStore D)) (n_state n)"

lemma node_ok_repr: "node_ok n \<longleftrightarrow> accounts.repr (n_db n) (node_ledger n) {} (n_state n)"
  unfolding node_ok_def node_ledger_def by (rule accounts.sm_ok_repr)

lemma node_repr: "accounts.repr D L {} sm \<Longrightarrow> n_state n = sm \<Longrightarrow> node_ok n \<and> node_ledger n = L \<and> n_db n = D"
  unfolding node_ok_def node_ledger_def using accounts.repr_ok by blast

text \<open>Steps that may fill the cache and nothing else.\<close>

definition looks :: "'d node \<Rightarrow> 'd node \<Rightarrow> bool" where
  "looks n n' \<longleftrightarrow> (\<exists>sm. n' = n\<lparr>n_state := sm\<rparr>) \<and> n_db n' = n_db n
     \<and> (node_ok n \<longrightarrow> node_ok n' \<and> node_ledger n' = node_ledger n)"

lemma looks_order [simp]: "reflp looks" "transp looks"
proof -
  have "\<exists>sm. n = n\<lparr>n_state := sm\<rparr>" for n :: "'d node" by (rule exI[of _ "n_state n"]) simp
  then show "reflp looks" by (simp add: reflp_def looks_def)
  show "transp looks" unfolding looks_def by (rule transpI) auto
qed

lemmas looks_refl [simp] = reflpD[OF looks_order(1)] and looks_trans = transpD[OF looks_order(2)]

lemma get_account_looks:
  assumes "on_sm (State_Manager.GetAccount (n_ops N) a) n = (r, n')"
  shows "looks n n'" and "node_ok n \<Longrightarrow> r = Inr x \<Longrightarrow> x = node_ledger n a"
proof -
  obtain sm where g: "State_Manager.GetAccount (n_ops N) a (n_state n) = (r, sm)" and n': "n' = n\<lparr>n_state := sm\<rparr>"
    using assms by (auto simp: on_sm_def split: prod.splits)
  have db: "sm_db sm = n_db n" using GetAccount_db[of "n_ops N" a "n_state n"] g by simp
  show "looks n n'"
  proof (cases r)
    case (Inl e)
    then have "sm = n_state n" using accounts.get_err g by blast
    then show ?thesis using n' by simp
  next
    case (Inr x)
    have "node_ok n' \<and> node_ledger n' = node_ledger n" if "node_ok n"
      using node_repr[OF accounts.repr_get(2)[OF that[unfolded node_ok_repr] g[unfolded Inr]], of n'] n' by simp
    then show ?thesis using n' db by (auto simp: looks_def)
  qed
  show "x = node_ledger n a" if "node_ok n" "r = Inr x"
    using accounts.repr_get(1)[OF that(1)[unfolded node_ok_repr]] g that(2) by blast
qed

lemma query_looks:
  assumes "on_sm (bindS (State_Manager.GetAccount (n_ops N) a) (\<lambda>acc sm. (Inr (g acc), sm))) n = (r, n')"
  shows "looks n n'" and "node_ok n \<Longrightarrow> r = Inr x \<Longrightarrow> x = g (node_ledger n a)"
proof -
  obtain q n1 where q: "on_sm (State_Manager.GetAccount (n_ops N) a) n = (q, n1)"
    by (cases "on_sm (State_Manager.GetAccount (n_ops N) a) n")
  have "(r, n') = (case q of Inl e \<Rightarrow> (Inl e, n1) | Inr acc \<Rightarrow> (Inr (g acc), n1))"
    using assms q by (auto simp: on_sm_def bindS_def split: prod.splits sum.splits)
  then show "looks n n'" "node_ok n \<Longrightarrow> r = Inr x \<Longrightarrow> x = g (node_ledger n a)"
    using get_account_looks[OF q] by (auto split: sum.splits)
qed

lemmas get_balance_looks = query_looks[where g = AvailableBalance, folded GetBalance_def]
lemmas get_nonce_looks = query_looks[where g = Nonce, folded GetNonce_def]

lemma affordable_looks: "looks n (snd (affordable N a tx n))"
  using get_balance_looks(1)[of a n] get_account_looks(1)[of a n]
  by (auto simp: affordable_def split: prod.split sum.split)

lemma select_account_looks: "looks n (snd (selectForAccount N a c seen txs n))"
proof (induction txs arbitrary: c seen n)
  case (Cons tx txs)
  obtain ok n1 where f: "affordable N a tx n = (ok, n1)" by (cases "affordable N a tx n")
  then have 1: "looks n n1" using affordable_looks[of n a tx] by simp
  show ?case
    using Cons[of n c seen] Cons[of n1 c seen] Cons[of n1 "c + 1" "TxNonce tx # seen"] f looks_trans[OF 1]
    by (cases ok) (auto split: prod.split)
qed simp

lemma select_all_looks: "looks n (snd (selectAll N groups n))"
proof (induction groups arbitrary: n)
  case (Cons g groups)
  obtain a txs where g: "g = (a, txs)" by (cases g)
  obtain r n1 where q: "on_sm (GetNonce (n_ops N) a) n = (r, n1)" by (cases "on_sm (GetNonce (n_ops N) a) n")
  note 1 = get_nonce_looks(1)[OF q]
  show ?case
  proof (cases r)
    case (Inl e)
    then show ?thesis using Cons[of n1] looks_trans[OF 1] g q by simp
  next
    case (Inr c)
    obtain sel n2 where s: "selectForAccount N a c [] txs n1 = (sel, n2)" by (cases "selectForAccount N a c [] txs n1")
    have "looks n n2" using looks_trans[OF 1] select_account_looks[of n1 a c "[]" txs] s by simp
    then show ?thesis using Cons[of n2] looks_trans Inr g q s by (auto split: prod.split)
  qed
qed simp

lemma validate_looks:
  assumes "validateAndDeduplicateTransactions N txs n = (r, n')"
  shows "looks n n'"
  using assms select_all_looks[of n "txsByAccount txs"]
  by (auto simp: validateAndDeduplicateTransactions_def split: if_splits prod.splits)

end

section \<open>Nonces of the selected transactions\<close>

definition consecutive :: "u64 \<Rightarrow> transaction list \<Rightarrow> bool" where
  "consecutive c txs \<longleftrightarrow> map TxNonce txs = map (\<lambda>i. c + of_nat i) [0..<length txs]"

lemma consecutive_Nil [simp]: "consecutive c []"
  by (simp add: consecutive_def)

lemma consecutive_Cons [simp]: "consecutive c (tx # txs) \<longleftrightarrow> TxNonce tx = c \<and> consecutive (c + 1) txs"
proof -
  have "map (\<lambda>i. c + of_nat i) [0..<Suc k] = c # map (\<lambda>i. c + 1 + of_nat i) [0..<k]" for k
    by (simp add: upt_conv_Cons map_Suc_upt[symmetric] del: upt_Suc)
  then show ?thesis by (simp add: consecutive_def del: upt_Suc)
qed

lemma select_account_nonces:
  assumes "selectForAccount N a c seen txs n = (sel, n')"
  shows "consecutive c sel \<and> set sel \<subseteq> set txs"
  using assms
proof (induction txs arbitrary: c seen n sel n')
  case (Cons tx txs)
  obtain ok n1 where f: "affordable N a tx n = (ok, n1)" by (cases "affordable N a tx n")
  obtain sel1 n2 where s: "selectForAccount N a (c + 1) (TxNonce tx # seen) txs n1 = (sel1, n2)"
    by (cases "selectForAccount N a (c + 1) (TxNonce tx # seen) txs n1")
  show ?case
    using Cons.prems Cons.IH[of c seen n sel n'] Cons.IH[of c seen n1 sel n'] Cons.IH[OF s] f s
    by (cases ok) (auto split: if_splits)
qed simp

definition user_tx :: "transaction \<Rightarrow> bool" where
  "user_tx tx \<longleftrightarrow> \<not> (Type tx = TxReward \<or> Type tx = TxSlash)"

lemma txsByAccount_spec:
  "gomap_wf (txsByAccount txs)
   \<and> map_of (txsByAccount txs) a = (let l = filter (\<lambda>tx. user_tx tx \<and> From tx = a) txs in if l = [] then None else Some l)"
proof (induction txs rule: rev_induct)
  case (snoc tx txs)
  have step: "txsByAccount (txs @ [tx]) = (if user_tx tx then AList.update (From tx)
      ((case map_of (txsByAccount txs) (From tx) of None \<Rightarrow> [] | Some l \<Rightarrow> l) @ [tx]) (txsByAccount txs) else txsByAccount txs)"
    by (simp add: txsByAccount_def user_tx_def)
  show ?case using snoc unfolding step by (auto simp: Let_def)
qed (simp add: txsByAccount_def)

lemma txsByAccount_group:
  assumes "(a, l) \<in> set (txsByAccount txs)"
  shows "\<forall>tx\<in>set l. user_tx tx \<and> From tx = a \<and> tx \<in> set txs"
proof -
  have "map_of (txsByAccount txs) a = Some l"
    using assms txsByAccount_spec[of txs a] by (metis gomap_wf_def map_of_is_SomeI)
  then show ?thesis using txsByAccount_spec[of txs a] by (auto simp: Let_def split: if_splits)
qed

context node_ctx
begin

lemma select_all_nonces:
  assumes "selectAll N groups n = (out, n')" and "node_ok n" and "distinct (map fst groups)"
    and "\<forall>(a, l)\<in>set groups. \<forall>tx\<in>set l. From tx = a"
  shows "consecutive (Nonce (node_ledger n a)) (filter (\<lambda>tx. From tx = a) out)
    \<and> set out \<subseteq> \<Union> (set ` snd ` set groups)"
  using assms
proof (induction groups arbitrary: n out n')
  case (Cons g groups)
  obtain b l where g: "g = (b, l)" by (cases g)
  obtain r n1 where q: "on_sm (GetNonce (n_ops N) b) n = (r, n1)" by (cases "on_sm (GetNonce (n_ops N) b) n")
  note 1 = get_nonce_looks(1)[OF q]
  have ok1: "node_ok n1" "node_ledger n1 = node_ledger n" using 1 Cons.prems(2) by (auto simp: looks_def)
  show ?case
  proof (cases r)
    case (Inl e)
    then show ?thesis using Cons.IH[of n1 out n'] Cons.prems ok1 g q by auto
  next
    case (Inr c)
    have c: "c = Nonce (node_ledger n b)" using get_nonce_looks(2)[OF q Cons.prems(2)] Inr by blast
    obtain sel n2 where s: "selectForAccount N b c [] l n1 = (sel, n2)" by (cases "selectForAccount N b c [] l n1")
    obtain others n3 where o: "selectAll N groups n2 = (others, n3)" by (cases "selectAll N groups n2")
    have out: "out = sel @ others" using Cons.prems(1) g q Inr s o by simp
    have sel: "consecutive c sel" "set sel \<subseteq> set l" using select_account_nonces[OF s] by auto
    have "looks n1 n2" using select_account_looks[of n1 b c "[]" l] s by simp
    then have ok2: "node_ok n2" "node_ledger n2 = node_ledger n" using ok1 by (auto simp: looks_def)
    have IH: "consecutive (Nonce (node_ledger n a)) (filter (\<lambda>tx. From tx = a) others)"
        "set others \<subseteq> \<Union> (set ` snd ` set groups)"
      using Cons.IH[OF o ok2(1)] Cons.prems(3,4) ok2(2) by auto
    have froms: "\<forall>tx\<in>set sel. From tx = b" using sel(2) Cons.prems(4) g by auto
    show ?thesis
    proof (cases "a = b")
      case True
      have "b \<notin> fst ` set groups" using Cons.prems(3) g by auto
      moreover have "\<exists>a'\<in>fst ` set groups. From tx = a'" if t: "tx \<in> set others" for tx
      proof -
        obtain p where p: "p \<in> set groups" "tx \<in> set (snd p)" using IH(2) t by blast
        then have "From tx = fst p" using Cons.prems(4) by (cases p) auto
        with p(1) show ?thesis by blast
      qed
      ultimately have "\<forall>tx\<in>set others. From tx \<noteq> b" by blast
      then have "filter (\<lambda>tx. From tx = a) out = sel" using froms True out by (simp add: filter_id_conv)
      then show ?thesis using True c sel out IH(2) g by auto
    next
      case False
      then have "filter (\<lambda>tx. From tx = a) out = filter (\<lambda>tx. From tx = a) others" using froms out by (simp add: filter_empty_conv)
      then show ?thesis using IH sel out g by auto
    qed
  qed
qed simp

end

section \<open>Claims\<close>

text \<open>C23: the transactions selected for a block are executable in order. Of the transactions handed to
  the selection, those kept for any one sender carry consecutive nonces that start at the nonce of
  the sender in the ledger, every kept transaction was handed in, all system transactions are
  kept, and the ledger is not changed by selecting.\<close>

theorem selected_nonces_consecutive:
  assumes "node_ctx N kv" and "node_ctx.node_ok N kv n"
    and "validateAndDeduplicateTransactions N txs n = (Inr out, n')"
  shows "consecutive (Nonce (node_ctx.node_ledger N kv n a)) (filter (\<lambda>tx. user_tx tx \<and> From tx = a) out)
    \<and> set out \<subseteq> set txs \<and> filter (\<lambda>tx. \<not> user_tx tx) out = filter (\<lambda>tx. \<not> user_tx tx) txs
    \<and> node_ctx.node_ledger N kv n' = node_ctx.node_ledger N kv n \<and> n_db n' = n_db n"
proof -
  obtain sel n1 where s: "selectAll N (txsByAccount txs) n = (sel, n1)" by (cases "selectAll N (txsByAccount txs) n")
  have w: "distinct (map fst (txsByAccount txs))" using txsByAccount_spec[of txs undefined] by (simp add: gomap_wf_def)
  have gr: "\<forall>(a, l)\<in>set (txsByAccount txs). \<forall>tx\<in>set l. From tx = a" using txsByAccount_group by blast
  note N = node_ctx.select_all_nonces[OF assms(1) s assms(2) w gr]
  have sub: "tx \<in> set sel \<Longrightarrow> user_tx tx \<and> tx \<in> set txs" for tx
    using N txsByAccount_group by fastforce
  have out: "out = sel @ filter (\<lambda>tx. \<not> user_tx tx) txs"
    using assms(3) s by (auto simp: validateAndDeduplicateTransactions_def user_tx_def txsByAccount_def split: if_splits)
  have "filter (\<lambda>tx. user_tx tx \<and> From tx = a) out = filter (\<lambda>tx. From tx = a) sel"
    using sub by (auto simp: out filter_empty_conv intro: filter_cong)
  moreover have "filter (\<lambda>tx. \<not> user_tx tx) out = filter (\<lambda>tx. \<not> user_tx tx) txs"
    using sub by (auto simp: out filter_empty_conv)
  ultimately show ?thesis
    using N sub out node_ctx.validate_looks[OF assms(1,3)] assms(2) node_ctx.looks_def[OF assms(1)] by auto
qed

text \<open>The pool does not check signatures. Two transactions that differ only in their signature and
  public key, both present, get the same answer from \<^verbatim>\<open>SubmitTransaction\<close>: whether the signature
  belongs to the sender plays no part. (What the execution does with a forged signature is the
  confiscation of the claimed sender's funds.)\<close>

theorem submit_ignores_signature:
  assumes "Signature tx \<noteq> []" and "PublicKey tx \<noteq> []" and "sig \<noteq> []" and "pk \<noteq> []"
  shows "fst (SubmitTransaction N (tx\<lparr>Signature := sig, PublicKey := pk\<rparr>) n) = fst (SubmitTransaction N tx n)"
proof -
  let ?f = "\<lambda>t. t\<lparr>Signature := sig, PublicKey := pk\<rparr>"
  have name: "pendingName (nd_cl N) (?f tx) = pendingName (nd_cl N) tx"
    by (simp add: pendingName_def Tx_Hash_def SignData_def)
  have nonce: "assignNonce N (?f tx) n = (case assignNonce N tx n of (Inl e, m) \<Rightarrow> (Inl e, m) | (Inr t, m) \<Rightarrow> (Inr (?f t), m))"
    by (auto simp: assignNonce_def bindS_def Let_def split: prod.split sum.split)
  have kept: "assignNonce N tx n = (Inr t, m) \<Longrightarrow> Signature t = Signature tx \<and> PublicKey t = PublicKey tx" for t m
    by (auto simp: assignNonce_def bindS_Inr_iff Let_def slice_to_def split: if_splits)
  have val: "Tx_Validate (nd_cfg N) (nd_now N) False (?f t) = Tx_Validate (nd_cfg N) (nd_now N) False t"
    "VerifySignature (?f t) = VerifySignature t" if "Signature t \<noteq> []" "PublicKey t \<noteq> []" for t
    by (cases t, use that assms(3,4) in \<open>simp only: Tx_Validate_def VerifySignature_def transaction.simps if_False\<close>)+
  obtain r m where a: "assignNonce N tx n = (r, m)" by (cases "assignNonce N tx n")
  show ?thesis
  proof (cases r)
    case (Inl e)
    then show ?thesis using a nonce name by (simp add: SubmitTransaction_def bindS_def)
  next
    case (Inr t)
    then show ?thesis using a nonce name val[of t] kept[of t m] assms(1,2)
      by (simp add: SubmitTransaction_def bindS_def split: sum.split)
  qed
qed

text \<open>Anyone can submit a reward. A validator node accepts an unsigned reward transaction from any
  client, for any receiver and amount, and the next selection of transactions for a block contains
  it.\<close>

theorem client_reward_reaches_block:
  assumes "isActiveValidator (n_address n) n" and "map_of (n_pending n) (pendingName (nd_cl N) tx) = None" and "nd_disk_ok N"
    and "Type tx = TxReward" and "Tx_Validate (nd_cfg N) (nd_now N) False tx = Inr ()"
    and "tx_FromJSON (nd_db N) (tx_ToJSON (nd_db N) tx) = Some tx"
  shows "\<exists>n'. SubmitTransaction N tx n = (Inr (), n') \<and> tx \<in> set (fst (loadPendingTransactions N n'))
    \<and> (\<forall>txs n1 out n2. loadPendingTransactions N n' = (txs, n1) \<longrightarrow> validateAndDeduplicateTransactions N txs n1 = (Inr out, n2) \<longrightarrow> tx \<in> set out)"
proof -
  let ?n = "n\<lparr>n_pending := AList.update (pendingName (nd_cl N) tx) (tx_ToJSON (nd_db N) tx) (n_pending n)\<rparr>"
  have "SubmitTransaction N tx n = (Inr (), ?n)"
    using assms by (simp add: SubmitTransaction_def bindS_def assignNonce_def VerifySignature_def IsSystemTx_def)
  moreover have "(pendingName (nd_cl N) tx, tx_ToJSON (nd_db N) tx) \<in> set (n_pending ?n)"
    using map_of_SomeD[of "n_pending ?n"] by simp
  then have "tx \<in> set (fst (loadPendingTransactions N ?n))"
    using assms(6) by (force simp: loadPendingTransactions_def pendingFiles_def List.map_filter_def)
  moreover have "tx \<in> set out" if "tx \<in> set txs" "validateAndDeduplicateTransactions N txs n1 = (Inr out, n2)" for txs n1 out n2
    using that assms(4) by (auto simp: validateAndDeduplicateTransactions_def split: if_splits prod.splits)
  ultimately show ?thesis by (metis fst_conv)
qed

text \<open>Pending transactions can be lost. The producer empties the pool before it selects, in the
  order of the file names, so when a sender has two pending transactions and the file of the later
  nonce sorts first, that transaction is neither in the block nor in the pool afterwards.\<close>

theorem out_of_order_transaction_lost:
  assumes "node_ctx N kv" and "node_ctx.node_ok N kv n" and "loadPendingTransactions N n = ([t1, t2], n1)"
    and "user_tx t1" and "user_tx t2" and "From t1 = a" and "From t2 = a" and "10 \<le> length a" and "t1 \<noteq> t2"
    and "TxNonce t1 \<noteq> Nonce (node_ctx.node_ledger N kv n a)"
    and "validateAndDeduplicateTransactions N [t1, t2] n1 = (Inr out, n2)"
  shows "t1 \<notin> set out \<and> pendingFiles N (n_pending n2) = []"
proof -
  have n1: "n_pending n1 = filter (\<lambda>(name, data). tx_FromJSON (nd_db N) data = None) (n_pending n)" "n_state n1 = n_state n"
    using assms(3) by (auto simp: loadPendingTransactions_def)
  have "n_pending n2 = n_pending n1"
    using node_ctx.validate_looks[OF assms(1,11)] by (auto simp: node_ctx.looks_def[OF assms(1)])
  then have pool: "pendingFiles N (n_pending n2) = []"
    by (auto simp: n1 pendingFiles_def List.map_filter_def filter_empty_conv)
  have ok1: "node_ctx.node_ok N kv n1" "node_ctx.node_ledger N kv n1 = node_ctx.node_ledger N kv n"
    using assms(2) n1(2) by (simp_all add: node_ctx.node_ok_def[OF assms(1)] node_ctx.node_ledger_def[OF assms(1)])
  have g: "txsByAccount [t1, t2] = [(a, [t1, t2])]" using assms(4-7) by (simp add: txsByAccount_def user_tx_def)
  have "t1 \<notin> set (fst (selectAll N [(a, [t1, t2])] n1))"
  proof (cases "on_sm (GetNonce (n_ops N) a) n1")
    case (Pair r m)
    show ?thesis
    proof (cases r)
      case (Inr c)
      have "c = Nonce (node_ctx.node_ledger N kv n a)"
        using node_ctx.get_nonce_looks(2)[OF assms(1) Pair ok1(1)] Inr ok1(2) by simp
      then have skip: "selectForAccount N a c [] [t1, t2] m = selectForAccount N a c [] [t2] m" using assms(10) by simp
      obtain sel m' where s: "selectForAccount N a c [] [t2] m = (sel, m')" by (cases "selectForAccount N a c [] [t2] m")
      then have "t1 \<notin> set sel" using select_account_nonces[OF s] assms(9) by auto
      then show ?thesis using Pair Inr skip s by (simp del: selectForAccount.simps)
    qed (use Pair in simp)
  qed
  then have "t1 \<notin> set out"
    using assms(4,5,11) g by (auto simp: validateAndDeduplicateTransactions_def user_tx_def split: if_splits prod.splits)
  then show ?thesis using pool by blast
qed

section \<open>A running node\<close>

definition demo_node_env :: "ref_db node_env" where
  "demo_node_env = \<lparr>nd_db = demo_db_env, nd_cfg = shipped_config, nd_cl = demo_crypto, nd_cp = demo_cp_codec,
     nd_snap = ref_codec, nd_now = 0, nd_now2 = 0, nd_now_s = 0, nd_disk_ok = True, nd_gcm_nonce = [],
     nd_fails = (\<lambda>_. None), nd_readdir = (\<lambda>_. []), nd_bestPeer = Some 0, nd_seedPeers = 0\<rparr>"

definition demo_node :: "(string, bytes) gomap \<Rightarrow> ref_db node" where
  "demo_node pool = \<lparr>n_address = ''F1'', n_privateKey = [1],
     n_state = UpdateAccount ((NewAccount demo_user)\<lparr>AvailableBalance := TOTAL_SUPPLY\<rparr>) (NewStateManager demo_database),
     n_chain = bc_Initialize demo_genesis NewBlockchain, n_vals = demo_vs, n_pending = pool, n_checkpoints = Map.empty,
     n_pendingData = None, n_validatorActivated = True, n_syncedHeight = 0, n_outbox = []\<rparr>"

lemma demo_node_env_simps [simp]:
  "nd_db demo_node_env = demo_db_env" "nd_cfg demo_node_env = shipped_config" "nd_cl demo_node_env = demo_crypto"
  "nd_now demo_node_env = 0" "nd_now2 demo_node_env = 0" "nd_now_s demo_node_env = 0" "nd_disk_ok demo_node_env"
  "nd_cp demo_node_env = demo_cp_codec" "nd_snap demo_node_env = ref_codec" "nd_gcm_nonce demo_node_env = []"
  "nd_fails demo_node_env = (\<lambda>_. None)" "nd_readdir demo_node_env = (\<lambda>_. [])" "nd_bestPeer demo_node_env = Some 0"
  "nd_seedPeers demo_node_env = 0"
  by (simp_all add: demo_node_env_def)

interpretation demo_node: node_ctx demo_node_env ref_kv
  by (rule node_ctx.intro) (simp add: ref.sharded_env_axioms)

lemma demo_node_facts [simp]:
  "demo_node.node_ok (demo_node pool)" "n_pending (demo_node pool) = pool"
  "isActiveValidator (n_address (demo_node pool)) (demo_node pool)"
proof -
  show "demo_node.node_ok (demo_node pool)"
    by (auto simp: demo_node.node_ok_def sm_ok_def sm_wf_def coherent_upto_def demo_node_def NewStateManager_def
      UpdateAccount_def goset_insert_def gomap_wf_def demo_database_def)
qed (simp_all add: demo_node_def isActiveValidator_def IsActiveValidator_def demo_vs_def LoadFromCheckpoint_def
    loadedValidator_def Let_def)

lemma demo_node_ledger: "demo_node.node_ledger (demo_node pool) a
    = (if a = demo_user then (NewAccount demo_user)\<lparr>AvailableBalance := TOTAL_SUPPLY\<rparr> else NewAccount a)"
  by (auto simp: demo_node.node_ledger_def ledger_def view_def demo_node_def NewStateManager_def map_add_def demo_database_def)

lemma demo_validate: "\<exists>out n'. validateAndDeduplicateTransactions demo_node_env [demo_tx ''F2'' 5 1] n = (Inr out, n')"
  by (auto simp: validateAndDeduplicateTransactions_def demo_user_eq split: prod.split)

theorem selected_nonces_consecutive_witness:
  "\<exists>out n'. validateAndDeduplicateTransactions demo_node_env [demo_tx ''F2'' 5 1] (demo_node []) = (Inr out, n')
     \<and> consecutive 0 (filter (\<lambda>tx. user_tx tx \<and> From tx = demo_user) out)"
proof -
  obtain out n' where v: "validateAndDeduplicateTransactions demo_node_env [demo_tx ''F2'' 5 1] (demo_node []) = (Inr out, n')"
    using demo_validate by blast
  from selected_nonces_consecutive[OF demo_node.node_ctx_axioms demo_node_facts(1) v, of demo_user] v
  show ?thesis by (auto simp: demo_node_ledger)
qed

theorem submit_ignores_signature_witness:
  "fst (SubmitTransaction demo_node_env ((demo_tx ''F2'' 5 1)\<lparr>Signature := [9], PublicKey := [8]\<rparr>) (demo_node []))
     = fst (SubmitTransaction demo_node_env (demo_tx ''F2'' 5 1) (demo_node []))"
  by (rule submit_ignores_signature) (simp_all add: demo_tx_def Let_def demo_pk_def)

theorem client_reward_reaches_block_witness:
  "\<exists>n'. SubmitTransaction demo_node_env (NewRewardTx 0 ''F9'' 1000) (demo_node []) = (Inr (), n')
     \<and> NewRewardTx 0 ''F9'' 1000 \<in> set (fst (loadPendingTransactions demo_node_env n'))"
proof -
  have v: "Tx_Validate shipped_config 0 False (NewRewardTx 0 ''F9'' 1000) = Inr ()"
    by (simp add: Tx_Validate_def NewRewardTx_def RequiresGasFee_def IsSystemTx_def GenesisAddress_def timestamp_drift_def
        shipped_config_def setDefault_def)
  show ?thesis
    using client_reward_reaches_block[of "demo_node []" demo_node_env "NewRewardTx 0 ''F9'' 1000"] v
    by (auto simp: NewRewardTx_def)
qed

theorem out_of_order_transaction_lost_witness:
  "\<exists>out n1 n2. loadPendingTransactions demo_node_env
       (demo_node [(''a'', ref_tx_ToJSON ((demo_tx ''F2'' 5 1)\<lparr>TxNonce := 1\<rparr>)), (''b'', ref_tx_ToJSON (demo_tx ''F2'' 5 1))])
       = ([(demo_tx ''F2'' 5 1)\<lparr>TxNonce := 1\<rparr>, demo_tx ''F2'' 5 1], n1)
     \<and> validateAndDeduplicateTransactions demo_node_env [(demo_tx ''F2'' 5 1)\<lparr>TxNonce := 1\<rparr>, demo_tx ''F2'' 5 1] n1 = (Inr out, n2)
     \<and> (demo_tx ''F2'' 5 1)\<lparr>TxNonce := 1\<rparr> \<notin> set out \<and> pendingFiles demo_node_env (n_pending n2) = []"
proof -
  let ?t2 = "demo_tx ''F2'' 5 1" and ?t1 = "(demo_tx ''F2'' 5 1)\<lparr>TxNonce := 1\<rparr>"
  let ?n = "demo_node [(''a'', ref_tx_ToJSON ?t1), (''b'', ref_tx_ToJSON ?t2)]"
  obtain n1 where l: "loadPendingTransactions demo_node_env ?n = ([?t1, ?t2], n1)"
    by (simp add: loadPendingTransactions_def pendingFiles_def map_filter_simps)
  obtain out n2 where v: "validateAndDeduplicateTransactions demo_node_env [?t1, ?t2] n1 = (Inr out, n2)"
    by (cases "selectAll demo_node_env (txsByAccount [?t1, ?t2]) n1")
      (auto simp: validateAndDeduplicateTransactions_def demo_user_eq)
  have u: "user_tx ?t1" "user_tx ?t2" by (simp_all add: user_tx_def)
  have ne: "?t1 \<noteq> ?t2" by (metis demo_tx_simps(6) transaction.select_convs(6) transaction.surjective transaction.update_convs(6) zero_neq_one)
  have "?t1 \<notin> set out \<and> pendingFiles demo_node_env (n_pending n2) = []"
    by (rule out_of_order_transaction_lost[OF demo_node.node_ctx_axioms demo_node_facts(1) l u _ _ _ ne _ v, of demo_user])
      (simp_all add: demo_node_ledger demo_user_eq)
  with l v show ?thesis by blast
qed

end
