(* ===== verification/Node_Producer.thy ===== *)
theory Node_Producer
  imports Node_Pool
begin

text \<open>
  Block production, \<^verbatim>\<open>block_producer.go\<close>: building, executing, saving, committing and announcing a
  block (\<^verbatim>\<open>produceBlock\<close>), the checkpoint written afterwards (\<^verbatim>\<open>generateCheckpoint\<close>) and the decisions
  of the production loop (\<^verbatim>\<open>StartBlockProduction\<close>).

  Between the decision to produce and the production the loop sleeps, so other goroutines may have
  changed the node; the two are separate definitions. A Go panic ends the process and a deadlock
  the goroutine, so neither runs the rollback that follows an ordinary error.

  Lemmas: a block that is produced is durable in all three stores and keeps the supply; a failed
  production leaves tip, ledger and latest checkpoint as they were; the production loop replaces a
  silent proposer in the second round and never produces behind a peer; a checkpoint carries the
  validators with the highest stakes.
\<close>

section \<open>Errors that end a goroutine\<close>

definition fatal :: "error \<Rightarrow> bool" where
  "fatal e \<longleftrightarrow> e = Panic \<or> e = Deadlock"

text \<open>\<^verbatim>\<open>if err := m(); err != nil { undo(); return err }\<close> and
  \<^verbatim>\<open>if err := m(); err != nil { log.Printf(...) }\<close>.\<close>

definition on_error :: "('s \<Rightarrow> 's) \<Rightarrow> ('s, 'a) step \<Rightarrow> ('s, 'a) step" where
  "on_error undo m s = (case m s of
     (Inl e, s') \<Rightarrow> (Inl e, if fatal e then s' else undo s')
   | (Inr a, s') \<Rightarrow> (Inr a, s'))"

definition warn :: "('s, 'a) step \<Rightarrow> ('s, unit) step" where
  "warn m s = (case m s of
     (Inl e, s') \<Rightarrow> (if fatal e then Inl e else Inr (), s')
   | (Inr a, s') \<Rightarrow> (Inr (), s'))"

definition lift_result :: "('s \<Rightarrow> error + 'a) \<Rightarrow> ('s, 'a) step" where
  "lift_result f s = (f s, s)"

definition on_files :: "(directory \<Rightarrow> (error + 'a) \<times> fs_action list) \<Rightarrow> ('d node, 'a) step" where
  "on_files m n = (case m (n_checkpoints n) of
     (r, acts) \<Rightarrow> (r, n\<lparr>n_checkpoints := apply_actions acts (n_checkpoints n)\<rparr>))"

definition send :: "'d node_env \<Rightarrow> outgoing \<Rightarrow> ('d node, unit) step" where
  "send N m n = (Inr (), if nd_bestPeer N = None then n else n\<lparr>n_outbox := n_outbox n @ [m]\<rparr>)"

section \<open>Building a block\<close>

definition newTimestamp :: "ConsensusConfig \<Rightarrow> i64 \<Rightarrow> block \<Rightarrow> i64" where
  "newTimestamp cfg currentTimestamp prevBlock =
     (let minTimestamp = HTimestamp (Header prevBlock) + BlockIntervalSeconds (Blocks cfg) * 1000
      in if sint minTimestamp \<le> sint currentTimestamp then currentTimestamp else minTimestamp)"

definition newHeader :: "'d node_env \<Rightarrow> u64 \<Rightarrow> block \<Rightarrow> 'd node \<Rightarrow> error + BlockHeader" where
  "newHeader N height prevBlock n =
     (let prevHash = Block_Hash (nd_cl N) prevBlock;
          header = \<lparr>Height = height, PreviousHash = prevHash, HTimestamp = newTimestamp (nd_cfg N) (nd_now N) prevBlock,
            StateRoot = ce_CalculateStateRoot, TxRoot = zero_hash, Proposer = n_address n,
            HVRFProof = [], HVRFOutput = [], HSignature = []\<rparr>
      in case ComputeVRF (nd_cl N) (n_privateKey n) (prevHash @ Uint64ToBytes height) of
        Inl e \<Rightarrow> Inl e
      | Inr prf \<Rightarrow> Inr (header\<lparr>HVRFProof := Proof prf, HVRFOutput := Output prf\<rparr>))"

definition sealBlock :: "'d node_env \<Rightarrow> BlockHeader \<Rightarrow> transaction list \<Rightarrow> 'd node \<Rightarrow> error + block" where
  "sealBlock N header allTxs n =
     (let header1 = header\<lparr>TxRoot := CalculateTxRoot (nd_cl N) allTxs\<rparr> in
      case Sign (nd_cl N) (n_privateKey n) (Header_SignData header1) of
        Inl e \<Rightarrow> Inl e
      | Inr signature \<Rightarrow> Inr \<lparr>Header = header1\<lparr>HSignature := signature\<rparr>, BTransactions = allTxs, BData = [],
          IsCheckpointPlaceholder = False, CheckpointHash = zero_hash\<rparr>)"

definition calculateBlockSize :: "'d node_env \<Rightarrow> block \<Rightarrow> u64" where
  "calculateBlockSize N b = of_nat (length (blk_ToJSON (nd_db N) b))"

text \<open>A failure inside is only logged, so the block is returned in every case. \<^verbatim>\<open>n_pendingData\<close> is the
  content of \<^verbatim>\<open>pending_data.json\<close>, if it can be read.\<close>

definition tryAddBlockData :: "'d node_env \<Rightarrow> u64 \<Rightarrow> block \<Rightarrow> 'd node \<Rightarrow> block" where
  "tryAddBlockData N height b n = (case n_pendingData n of
     None \<Rightarrow> b
   | Some data \<Rightarrow>
       (let currentSize = calculateBlockSize N b;
            maxBlockSize = MaxBlockSize (Blocks (nd_cfg N));
            threshold = maxBlockSize * BlockDataThresholdPercent (Blocks (nd_cfg N)) div 100
        in if data = [] then b
           else if threshold \<le> currentSize then b
           else case EncryptData (nd_cl N) (nd_gcm_nonce N) data height of
             Inl e \<Rightarrow> b
           | Inr encrypted \<Rightarrow>
               if maxBlockSize < currentSize + of_nat (length encrypted) then b
               else b\<lparr>BData := encrypted\<rparr>))"

definition takeTransactions :: "'d node_env \<Rightarrow> ('d node, transaction list) step" where
  "takeTransactions N n = (case loadPendingTransactions N n of
     (rawUserTxs, n1) \<Rightarrow> validateAndDeduplicateTransactions N rawUserTxs n1)"

definition rewardTransactions :: "'d node_env \<Rightarrow> ('d node, transaction list) step" where
  "rewardTransactions N n =
     (case CreateRewardTransactions (n_ops N) (nd_cfg N) (nd_now N) (n_address n) (n_state n) of
        (txs, sm) \<Rightarrow> (Inr txs, n\<lparr>n_state := sm\<rparr>))"

definition buildBlock :: "'d node_env \<Rightarrow> u64 \<Rightarrow> block \<Rightarrow> ('d node, block) step" where
  "buildBlock N height prevBlock =
     bindS (lift_result (newHeader N height prevBlock)) (\<lambda>header.
     bindS (takeTransactions N) (\<lambda>userTxs.
     bindS (rewardTransactions N) (\<lambda>rewardTxs.
     bindS (lift_result (sealBlock N header (userTxs @ rewardTxs))) (\<lambda>b n.
       (Inr (tryAddBlockData N height b n), n)))))"

section \<open>Checkpoints\<close>

definition verifyTotalSupply :: "'d node_env \<Rightarrow> ('d node, unit) step" where
  "verifyTotalSupply N = bindS (on_sm (VerifyTotalSupplyDual (n_ops N))) (\<lambda>(totalSupply, isCorrect).
     Pair (if isCorrect then Inr () else Inl (SupplyMismatch totalSupply)))"

text \<open>Heights from the tip downwards, at most a hundred and never zero.\<close>

definition backHeights :: "u64 \<Rightarrow> u64 list" where
  "backHeights current = map (\<lambda>i. current - of_nat i) [0..<min 100 (unat current)]"

fun findLoop :: "'d node_env \<Rightarrow> u64 list \<Rightarrow> ('d node, u64) step" where
  "findLoop N [] n = (Inr 1, n)"
| "findLoop N (h # hs) n = (case on_sm (ReloadStateFromHeight (n_ops N) h) n of
     (Inl e, n1) \<Rightarrow> findLoop N hs n1
   | (Inr _, n1) \<Rightarrow> (case verifyTotalSupply N n1 of
       (Inl e, n2) \<Rightarrow> findLoop N hs n2
     | (Inr _, n2) \<Rightarrow> (Inr h, n2)))"

definition findLastValidBlock :: "'d node_env \<Rightarrow> ('d node, u64) step" where
  "findLastValidBlock N n = findLoop N (backHeights (latestHeight (n_chain n))) n"

text \<open>The repair that precedes the checkpoint: height and block the checkpoint is made for.\<close>

definition repairSupply :: "'d node_env \<Rightarrow> u64 \<Rightarrow> block \<Rightarrow> ('d node, u64 \<times> block) step" where
  "repairSupply N height b n = (case verifyTotalSupply N n of
     (Inr _, n1) \<Rightarrow> (Inr (height, b), n1)
   | (Inl e, n1) \<Rightarrow>
       if fatal e then (Inl e, n1)
       else bindS (findLastValidBlock N) (\<lambda>validHeight.
         if validHeight < height then
           bindS (on_db (GetBlockByHeight (nd_db N) (nd_cfg N) (nd_cl N) validHeight)) (\<lambda>targetBlock.
           bindS (on_chain (RollbackToHeight validHeight (Some targetBlock))) (\<lambda>_.
           bindS (on_sm (ReloadStateFromHeight (n_ops N) validHeight)) (\<lambda>_.
           bindS (warn (on_db (db_DeleteBlocksAboveHeight (nd_db N) validHeight))) (\<lambda>_.
             Pair (Inr (validHeight, targetBlock))))))
         else Pair (Inr (height, b))) n1)"

text \<open>Validators of the checkpoint: accounts with enough stake, the highest stakes first. The order of
  equal stakes follows the iteration order of a map and is not specified.\<close>

definition stakeCandidates :: "ConsensusConfig \<Rightarrow> account list \<Rightarrow> account list" where
  "stakeCandidates cfg allAccounts =
     sort_key (\<lambda>acc. - int (unat (StakedBalance acc)))
       (filter (\<lambda>acc. ValidatorStakeRequired (Economics cfg) \<le> StakedBalance acc) allAccounts)"

definition validatorSnapshots :: "ConsensusConfig \<Rightarrow> account list \<Rightarrow> error + ValidatorSnapshot list" where
  "validatorSnapshots cfg allAccounts =
     (let candidates = stakeCandidates cfg allAccounts;
          maxValidators = sint (MaxValidators (Validators cfg))
      in if maxValidators < 0 \<or> list_ex (\<lambda>acc. length (Address acc) < 10) candidates then Inl Panic
         else Inr (map (\<lambda>acc. \<lparr>VSAddress = Address acc, VSStake = StakedBalance acc, VSVRFPubKey = []\<rparr>)
           (take (nat maxValidators) candidates)))"

definition writeCheckpoint :: "'d node_env \<Rightarrow> u64 \<Rightarrow> block \<Rightarrow> ('d node, unit) step" where
  "writeCheckpoint N height b =
     bindS (lift_result (\<lambda>n. CalculateStateRoot (n_ops N) (nd_cl N) (n_state n))) (\<lambda>stateRoot.
     bindS (lift_result (\<lambda>n. GetAllAccountsMerged (n_ops N) (n_state n))) (\<lambda>allAccounts.
     bindS (lift_result (\<lambda>_. validatorSnapshots (nd_cfg N) allAccounts)) (\<lambda>validators.
     bindS (lift_result (\<lambda>n. Checkpoint_Sign (nd_cl N) (n_privateKey n)
       ((NewCheckpoint height (Block_Hash (nd_cl N) b) (PreviousHash (Header b)) stateRoot
          (HTimestamp (Header b)) (n_address n))\<lparr>CPValidators := validators\<rparr>))) (\<lambda>checkpoint.
     bindS (\<lambda>n. on_files (SaveCheckpoint (nd_cp N) (nd_disk_ok N) (nd_fails N)
       (nd_readdir N (n_checkpoints n)) checkpoint) n) (\<lambda>_.
     bindS (lift_result (\<lambda>n. CreateCheckpointSnapshot (n_ops N) height (n_state n))) (\<lambda>snapshot.
     bindS (lift_result (\<lambda>_. Compress (nd_snap N) snapshot)) (\<lambda>compressedData.
     bindS (on_files (SaveStateSnapshot (nd_disk_ok N) (nd_fails N) compressedData)) (\<lambda>_.
       send N (OutCheckpoint checkpoint compressedData)))))))))"

definition generateCheckpoint :: "'d node_env \<Rightarrow> u64 \<Rightarrow> block \<Rightarrow> ('d node, unit) step" where
  "generateCheckpoint N height b = bindS (repairSupply N height b) (\<lambda>(h, target). writeCheckpoint N h target)"

section \<open>Producing a block\<close>

fun executeAll :: "'d node_env \<Rightarrow> i64 \<Rightarrow> bool \<Rightarrow> transaction list \<Rightarrow> ('d node, unit) step" where
  "executeAll N now skip [] n = (Inr (), n)"
| "executeAll N now skip (tx # txs) n = bindS (executeTx N now skip tx) (\<lambda>_. executeAll N now skip txs) n"

definition restore :: "StateSnapshot \<Rightarrow> 'd node \<Rightarrow> 'd node" where
  "restore snapshot n = n\<lparr>n_state := RestoreSnapshot snapshot (n_state n)\<rparr>"

text \<open>Execute, save the block, commit the state, move the tip; a failure before the tip moves restores
  the in-memory state taken at the start.\<close>

definition applyBlock :: "'d node_env \<Rightarrow> u64 \<Rightarrow> block \<Rightarrow> ('d node, unit) step" where
  "applyBlock N height b n =
     (let stateSnapshot = CreateSnapshot (n_state n) in
      bindS (on_error (restore stateSnapshot) (executeAll N (nd_now N) False (BTransactions b))) (\<lambda>_.
      bindS (on_error (restore stateSnapshot) (on_db (SaveBlock (nd_db N) (nd_cl N) b))) (\<lambda>_.
      bindS (on_error (restore stateSnapshot) (on_sm (CommitWithP0Verify (n_ops N) height))) (\<lambda>_.
        on_chain (AddBlock (nd_cfg N) (nd_cl N) (nd_now2 N) b)))) n)"

definition afterBlock :: "'d node_env \<Rightarrow> u64 \<Rightarrow> block \<Rightarrow> ('d node, unit) step" where
  "afterBlock N height b =
     bindS (send N (OutBlock b)) (\<lambda>_.
       let interval = CheckpointInterval (Blocks (nd_cfg N)) in
       if interval = 0 then Pair (Inl Panic)
       else if height mod interval = 0 then warn (generateCheckpoint N height b)
       else Pair (Inr ()))"

definition produceBlock :: "'d node_env \<Rightarrow> u64 \<Rightarrow> block \<Rightarrow> ('d node, unit) step" where
  "produceBlock N height prevBlock =
     bindS (buildBlock N height prevBlock) (\<lambda>b.
     bindS (lift_result (\<lambda>n. ValidateBlock (nd_cfg N) (nd_cl N) (nd_now N) b (n_chain n))) (\<lambda>_.
     bindS (applyBlock N height b) (\<lambda>_.
       afterBlock N height b)))"

section \<open>The production loop\<close>

record production_state =
  lastProposer :: string
  waitCount :: nat

definition maxWaitTime :: nat where "maxWaitTime = 1"

datatype decision =
    Skip
  | RequestSync u64 u64
  | Produce u64 block
  | Crash

text \<open>The unified check before producing, after the proposer is settled.\<close>

definition beforeProducing :: "'d node_env \<Rightarrow> u64 \<Rightarrow> block \<Rightarrow> decision" where
  "beforeProducing N nextHeight latest = (case nd_bestPeer N of
     Some best \<Rightarrow> if nextHeight < best then RequestSync nextHeight (best + 100) else Produce nextHeight latest
   | None \<Rightarrow> Produce nextHeight latest)"

text \<open>One round of \<^verbatim>\<open>StartBlockProduction\<close> up to the pause before \<^verbatim>\<open>produceBlock\<close>.\<close>

definition decide :: "'d node_env \<Rightarrow> 'd node \<Rightarrow> production_state \<Rightarrow> decision \<times> production_state" where
  "decide N n st =
     (if \<not> isActiveValidator (n_address n) n then (Skip, st)
      else if \<not> n_validatorActivated n then (Skip, st)
      else if 0 < nd_seedPeers N \<and> latestHeight (n_chain n) = 0 then (Skip, st)
      else case latestBlock (n_chain n) of
        None \<Rightarrow> (Crash, st)
      | Some latest \<Rightarrow>
          (let nextHeight = latestHeight (n_chain n) + 1 in
           case SelectProposer (nd_cfg N) (nd_cl N) nextHeight (Block_Hash (nd_cl N) latest) (n_vals n) of
             Inl e \<Rightarrow> (Skip, st)
           | Inr proposer \<Rightarrow>
               if proposer = n_address n then (beforeProducing N nextHeight latest, st)
               else if length proposer < 10 \<and> (proposer \<noteq> lastProposer st
                     \<or> \<not> (case nd_bestPeer N of Some best \<Rightarrow> nextHeight < best | None \<Rightarrow> False)) then (Crash, st)
               else if proposer \<noteq> lastProposer st then (Skip, \<lparr>lastProposer = proposer, waitCount = 1\<rparr>)
               else if waitCount st + 1 < maxWaitTime then (Skip, st\<lparr>waitCount := waitCount st + 1\<rparr>)
               else (case nd_bestPeer N of
                   Some best \<Rightarrow>
                     if nextHeight < best
                     then (RequestSync nextHeight (best + 100), st\<lparr>waitCount := 0\<rparr>)
                     else (beforeProducing N nextHeight latest, \<lparr>lastProposer = '''', waitCount = 0\<rparr>)
                 | None \<Rightarrow> (beforeProducing N nextHeight latest, \<lparr>lastProposer = '''', waitCount = 0\<rparr>))))"

text \<open>Before the pause the previous block is looked up in the database; the answer is only logged. After
  the pause the height is read again, and a block that arrived meanwhile cancels the production.
  The error of \<^verbatim>\<open>produceBlock\<close> is only logged.\<close>

definition probePrevious :: "'d node_env \<Rightarrow> decision \<Rightarrow> ('d node, unit) step" where
  "probePrevious N d = (case d of
     Produce nextHeight latest \<Rightarrow>
       if 1 < nextHeight then warn (on_db (GetBlockByHeight (nd_db N) (nd_cfg N) (nd_cl N) (nextHeight - 1)))
       else Pair (Inr ())
   | _ \<Rightarrow> Pair (Inr ()))"

definition carryOut :: "'d node_env \<Rightarrow> decision \<Rightarrow> production_state \<Rightarrow> 'd node \<Rightarrow> (error + unit) \<times> 'd node \<times> production_state" where
  "carryOut N d st n = (case d of
     Skip \<Rightarrow> (Inr (), n, st)
   | RequestSync from to \<Rightarrow> (case send N (OutSyncRequest from to) n of (r, n') \<Rightarrow> (r, n', st))
   | Crash \<Rightarrow> (Inl Panic, n, st)
   | Produce nextHeight latest \<Rightarrow>
       if nextHeight \<le> latestHeight (n_chain n) then (Inr (), n, st)
       else (case warn (produceBlock N nextHeight latest) n of (r, n') \<Rightarrow> (r, n', \<lparr>lastProposer = '''', waitCount = 0\<rparr>)))"


section \<open>Steps of a node\<close>

lemma on_sm_simps [simp]: "n_state (snd (on_sm m n)) = snd (m (n_state n))" "fst (on_sm m n) = fst (m (n_state n))"
  by (simp_all add: on_sm_def split: prod.split)

lemma on_sm_eq: "on_sm m n = (r, n') \<longleftrightarrow> (\<exists>sm. m (n_state n) = (r, sm) \<and> n' = n\<lparr>n_state := sm\<rparr>)"
  by (auto simp: on_sm_def split: prod.splits)

lemma on_db_eq: "on_db m n = (r, n') \<longleftrightarrow> (\<exists>D. m (n_db n) = (r, D) \<and> n' = n\<lparr>n_state := (n_state n)\<lparr>sm_db := D\<rparr>\<rparr>)"
  by (auto simp: on_db_def on_sm_eq split: prod.splits)

lemma on_chain_eq: "on_chain m n = (r, n') \<longleftrightarrow> (\<exists>bc. m (n_chain n) = (r, bc) \<and> n' = n\<lparr>n_chain := bc\<rparr>)"
  by (auto simp: on_chain_def split: prod.splits)

lemma lift_result_eq [simp]: "lift_result f n = (r, n') \<longleftrightarrow> f n = r \<and> n' = n"
  by (auto simp: lift_result_def)

lemma steps_in_lift [simp]: "reflp R \<Longrightarrow> steps_in R (lift_result f)"
  by (simp add: steps_in_def lift_result_def reflpD)

lemma on_error_Inr [simp]: "on_error h m s = (Inr a, s') \<longleftrightarrow> m s = (Inr a, s')"
  by (auto simp: on_error_def split: prod.splits sum.splits)

lemma on_error_Inl: "on_error h m s = (Inl e, s') \<longleftrightarrow> (\<exists>t. m s = (Inl e, t) \<and> s' = (if fatal e then t else h t))"
  by (auto simp: on_error_def split: prod.splits sum.splits)

lemma steps_in_warn: "steps_in R m \<Longrightarrow> steps_in R (warn m)"
  unfolding steps_in_def
proof
  fix s
  assume m: "\<forall>s. R s (snd (m s))"
  obtain q t where "m s = (q, t)" by (cases "m s")
  then show "R s (snd (warn m s))" using spec[OF m, of s] by (cases q) (simp_all add: warn_def)
qed

lemma warn_Inl: "warn m s = (Inl e, s') \<Longrightarrow> fatal e"
  by (auto simp: warn_def split: prod.splits sum.splits if_splits)

text \<open>Steps that keep the chain, the identity of the node, its checkpoints and what it sent.\<close>

definition keeps :: "'d node \<Rightarrow> 'd node \<Rightarrow> bool" where
  "keeps n n' \<longleftrightarrow> n_chain n' = n_chain n \<and> n_address n' = n_address n \<and> n_privateKey n' = n_privateKey n
     \<and> n_checkpoints n' = n_checkpoints n \<and> n_outbox n' = n_outbox n \<and> n_validatorActivated n' = n_validatorActivated n"

text \<open>Steps that write checkpoint files and send messages and do nothing else.\<close>

definition announces :: "'d node \<Rightarrow> 'd node \<Rightarrow> bool" where
  "announces n n' \<longleftrightarrow> (\<exists>dir ms. n' = n\<lparr>n_checkpoints := dir, n_outbox := n_outbox n @ ms\<rparr>)"

lemma announces_order [simp]: "reflp (announces :: 'd node \<Rightarrow> _)" "transp (announces :: 'd node \<Rightarrow> _)"
proof -
  have "n = n\<lparr>n_checkpoints := n_checkpoints n, n_outbox := n_outbox n @ []\<rparr>" for n :: "'d node" by simp
  then show "reflp (announces :: 'd node \<Rightarrow> _)" unfolding reflp_def announces_def by metis
  show "transp (announces :: 'd node \<Rightarrow> _)" unfolding transp_def announces_def by fastforce
qed

lemma announces_state: "announces n n' \<Longrightarrow> n_state n' = n_state n \<and> n_chain n' = n_chain n \<and> n_vals n' = n_vals n
    \<and> (\<exists>ms. n_outbox n' = n_outbox n @ ms)"
  by (auto simp: announces_def)

lemma on_files_announces [simp]: "steps_in announces (on_files m)"
proof -
  have "announces n (n\<lparr>n_checkpoints := d\<rparr>)" for n :: "'a node" and d
    unfolding announces_def by (rule exI[of _ d], rule exI[of _ "[]"]) simp
  then show ?thesis by (auto simp: steps_in_def on_files_def split: prod.split)
qed

lemma send_announces [simp]: "steps_in announces (send N m)"
proof -
  have "announces n (n\<lparr>n_outbox := n_outbox n @ [m]\<rparr>)" for n :: "'a node"
    unfolding announces_def by (rule exI[of _ "n_checkpoints n"], rule exI[of _ "[m]"]) simp
  then show ?thesis by (auto simp: steps_in_def send_def intro: reflpD[OF announces_order(1)])
qed

lemma write_checkpoint_announces: "steps_in announces (writeCheckpoint N h b)"
proof -
  have "steps_in announces (\<lambda>n. on_files (m n) n)" for m :: "'a node \<Rightarrow> directory \<Rightarrow> (error + 'b) \<times> fs_action list"
    unfolding steps_in_def using on_files_announces[unfolded steps_in_def] by blast
  then show ?thesis
    unfolding writeCheckpoint_def by (intro steps_in_bind[OF announces_order(2)]) simp_all
qed

lemma checkpoint_announces:
  assumes "verifyTotalSupply N n = (Inr (), n)" and "generateCheckpoint N h b n = (r, n')"
  shows "announces n n'"
proof -
  from assms(1) have "repairSupply N h b n = (Inr (h, b), n)" by (simp add: repairSupply_def)
  with assms(2) have "writeCheckpoint N h b n = (r, n')" by (simp add: generateCheckpoint_def bindS_def)
  then show ?thesis by (rule steps_inD[OF write_checkpoint_announces])
qed

section \<open>Executing a block against the specification\<close>

fun exec_all :: "ConsensusConfig \<Rightarrow> crypto_lib \<Rightarrow> i64 \<Rightarrow> bool \<Rightarrow> transaction list \<Rightarrow> ledger \<Rightarrow> error + ledger" where
  "exec_all cfg cl now skip [] L = Inr L"
| "exec_all cfg cl now skip (tx # txs) L = (case exec_spec cfg cl now skip tx L of
     Inl e \<Rightarrow> Inl e | Inr L' \<Rightarrow> exec_all cfg cl now skip txs L')"

lemma executeTx_frame:
  assumes "executeTx N now skip tx n = (r, n')"
  shows "keeps n n' \<and> n_db n' = n_db n \<and> n_pending n' = n_pending n"
proof -
  obtain q sm where e: "ExecuteTransaction (n_ops N) (nd_cfg N) (nd_cl N) now skip tx (n_state n) = (q, sm)"
    by (cases "ExecuteTransaction (n_ops N) (nd_cfg N) (nd_cl N) now skip tx (n_state n)")
  have "sm_db sm = n_db n" using execute_db[of "n_ops N" "nd_cfg N" "nd_cl N" now skip tx "n_state n"] e by simp
  with assms e show ?thesis by (auto simp: executeTx_def keeps_def split: prod.splits sum.splits)
qed

lemma executeAll_frame:
  "executeAll N now skip txs n = (r, n') \<Longrightarrow> keeps n n' \<and> n_db n' = n_db n \<and> n_pending n' = n_pending n"
proof (induction txs arbitrary: n)
  case (Cons tx txs)
  obtain q n1 where e: "executeTx N now skip tx n = (q, n1)" by (cases "executeTx N now skip tx n")
  with Cons executeTx_frame[OF e] show ?case by (cases q) (force simp: bindS_def keeps_def)+
qed (simp add: keeps_def)

lemma SaveBlock_state: "steps_in (\<lambda>D D'. stateStore D' = stateStore D) (SaveBlock E cl b)"
proof -
  let ?R = "\<lambda>D D' :: 'a Database. stateStore D' = stateStore D"
  have R: "reflp ?R" "transp ?R" by (auto simp: reflp_def transp_def)
  have put: "steps_in ?R (db_Put E k v)" for k v by (auto simp: steps_in_def db_Put_def split: sum.split)
  have blk: "steps_in ?R (on_blocks m)" for m :: "(BlockStore, 'b) step" by (auto simp: steps_in_def on_blocks_def split: prod.split)
  have ign: "steps_in ?R m \<Longrightarrow> steps_in ?R (ignore_error m)" for m :: "('a Database, 'b) step"
    by (auto simp: steps_in_def ignore_error_def split: prod.split)
  have loop: "(\<And>x. steps_in ?R (f x)) \<Longrightarrow> steps_in ?R (forS f xs)" for f :: "transaction \<Rightarrow> ('a Database, unit) step" and xs
    by (induction xs) (auto simp: R intro: steps_in_bind[OF R(2)])
  show ?thesis
    unfolding SaveBlock_def saveTransfers_def SaveLatestHeight_def SaveTransaction_def SaveTransfer_def SaveBlockTimestamp_def
    by (intro steps_in_bind[OF R(2)] loop) (auto simp: R put blk intro: ign put)
qed

section \<open>Production over a correct LevelDB\<close>

text \<open>The account shards can be enumerated; a node on such a store never mistakes a read error for a
  wrong supply.\<close>

definition enumerable :: "'d node_env \<Rightarrow> bool" where
  "enumerable N \<longleftrightarrow> (\<forall>D. \<exists>xs. st_all (n_ops N) D = Inr xs)"

context node_ctx
begin

text \<open>What \<open>node_ok\<close> and \<open>node_ledger\<close> depend on.\<close>

lemma node_state_cong:
  assumes "stateStore (n_db n') = stateStore (n_db n)" and "accountCache (n_state n') = accountCache (n_state n)"
    and "dirtyAccounts (n_state n') = dirtyAccounts (n_state n)"
  shows "node_ok n' \<longleftrightarrow> node_ok n" and "node_ledger n' = node_ledger n"
  using assms by (simp_all add: node_ok_def node_ledger_def sm_ok_def sm_wf_def coherent_upto_def durable_def ledger_def view_def fun_eq_iff)

definition quiet :: "'d node \<Rightarrow> 'd node \<Rightarrow> bool" where
  "quiet n n' \<longleftrightarrow> keeps n n' \<and> n_db n' = n_db n \<and> (node_ok n \<longrightarrow> node_ok n' \<and> node_ledger n' = node_ledger n)"

lemma quiet_order [simp]: "reflp quiet" "transp quiet"
  by (auto simp: quiet_def keeps_def reflp_def transp_def)

lemma looks_quiet: "looks n n' \<Longrightarrow> quiet n n'"
  by (auto simp: looks_def quiet_def keeps_def)

lemma take_quiet: "steps_in quiet (takeTransactions N)"
  unfolding steps_in_def
proof
  fix n
  obtain txs n1 where l: "loadPendingTransactions N n = (txs, n1)" by (cases "loadPendingTransactions N n")
  obtain r n2 where v: "validateAndDeduplicateTransactions N txs n1 = (r, n2)" by (cases "validateAndDeduplicateTransactions N txs n1")
  have "n_state n1 = n_state n" "keeps n n1" using l by (auto simp: loadPendingTransactions_def keeps_def)
  then have "quiet n n1" using node_state_cong[of n1 n] by (simp add: quiet_def)
  then show "quiet n (snd (takeTransactions N n))"
    using looks_quiet[OF validate_looks[OF v]] transpD[OF quiet_order(2)] l v by (auto simp: takeTransactions_def)
qed

lemma reward_quiet: "steps_in quiet (rewardTransactions N)"
  unfolding steps_in_def
proof
  fix n
  obtain r n1 where g: "on_sm (State_Manager.GetAccount (n_ops N) GenesisAddress) n = (r, n1)"
    by (cases "on_sm (State_Manager.GetAccount (n_ops N) GenesisAddress) n")
  have "snd (rewardTransactions N n) = n1"
    using g by (auto simp: rewardTransactions_def CreateRewardTransactions_def on_sm_eq Let_def split: sum.splits)
  then show "quiet n (snd (rewardTransactions N n))" using looks_quiet[OF get_account_looks(1)[OF g]] by simp
qed

lemma build_quiet: "steps_in quiet (buildBlock N h prev)"
  unfolding buildBlock_def
  by (intro steps_in_bind[OF quiet_order(2)] take_quiet reward_quiet) (auto simp: steps_in_def lift_result_def reflpD[OF quiet_order(1)])

lemma add_data_keeps [simp]:
  "Header (tryAddBlockData M h b n) = Header b" "BTransactions (tryAddBlockData M h b n) = BTransactions b"
  "IsCheckpointPlaceholder (tryAddBlockData M h b n) = IsCheckpointPlaceholder b"
  by (simp_all add: tryAddBlockData_def Let_def split: option.split sum.split)

lemma newHeader_Inr: "newHeader M h prev n = Inr hdr \<Longrightarrow> Height hdr = h \<and> Proposer hdr = n_address n
    \<and> HTimestamp hdr = newTimestamp (nd_cfg M) (nd_now M) prev"
  by (auto simp: newHeader_def Let_def split: sum.splits)

lemma sealBlock_Inr: "sealBlock M hdr txs n = Inr b \<Longrightarrow> Height (Header b) = Height hdr \<and> Proposer (Header b) = Proposer hdr
    \<and> HTimestamp (Header b) = HTimestamp hdr \<and> \<not> IsCheckpointPlaceholder b \<and> BTransactions b = txs"
  by (auto simp: sealBlock_def Let_def split: sum.splits)

lemma build_block:
  assumes "buildBlock N h prev n = (Inr b, n')"
  shows "Height (Header b) = h \<and> Proposer (Header b) = n_address n \<and> \<not> IsCheckpointPlaceholder b
    \<and> HTimestamp (Header b) = newTimestamp (nd_cfg N) (nd_now N) prev"
proof -
  obtain hdr txs n1 c where h: "newHeader N h prev n = Inr hdr" and c: "sealBlock N hdr txs n1 = Inr c"
    and b: "b = tryAddBlockData N h c n1"
    using assms unfolding buildBlock_def bindS_Inr_iff lift_result_eq by auto
  show ?thesis using newHeader_Inr[OF h] sealBlock_Inr[OF c] b by simp
qed

lemma execute_node_ok:
  assumes "node_ok n" and "executeTx N now skip tx n = (Inr u, n')"
  shows "exec_spec (nd_cfg N) (nd_cl N) now skip tx (node_ledger n) = Inr (node_ledger n') \<and> node_ok n'"
proof -
  obtain sm vs where e: "ExecuteTransaction (n_ops N) (nd_cfg N) (nd_cl N) now skip tx (n_state n) = (Inr (), sm)"
    and n': "n' = n\<lparr>n_state := sm\<lparr>validatorEvents := []\<rparr>, n_vals := vs\<rparr>"
    using assms(2) by (auto simp: executeTx_def split: prod.splits sum.splits)
  note x = accounts.execute_ok[OF assms(1)[unfolded node_ok_def] e]
  have "node_ok (n\<lparr>n_state := sm\<rparr>)" "node_ledger (n\<lparr>n_state := sm\<rparr>) = ledger (\<lambda>D. shard_acct (accEnv (nd_db N)) kv (stateStore D)) sm"
    using x(2) by (simp_all add: node_ok_def node_ledger_def)
  then show ?thesis using x(1) node_state_cong[of n' "n\<lparr>n_state := sm\<rparr>"] n' by (simp add: node_ledger_def)
qed

lemma execute_all_ok:
  "node_ok n \<Longrightarrow> executeAll N now skip txs n = (Inr u, n') \<Longrightarrow>
     exec_all (nd_cfg N) (nd_cl N) now skip txs (node_ledger n) = Inr (node_ledger n') \<and> node_ok n'"
proof (induction txs arbitrary: n)
  case (Cons tx txs)
  then obtain n1 where e: "executeTx N now skip tx n = (Inr (), n1)" and r: "executeAll N now skip txs n1 = (Inr u, n')"
    by (auto simp: bindS_Inr_iff)
  from execute_node_ok[OF Cons.prems(1) e] Cons.IH[OF _ r] show ?case by simp
qed simp

lemma restore_ok:
  assumes "stateStore (n_db n') = stateStore (n_db n)"
  shows "node_ok (restore (CreateSnapshot (n_state n)) n') \<longleftrightarrow> node_ok n"
    and "node_ledger (restore (CreateSnapshot (n_state n)) n') = node_ledger n"
  using node_state_cong[of "restore (CreateSnapshot (n_state n)) n'" n] assms
  by (simp_all add: restore_def RestoreSnapshot_def CreateSnapshot_def)

lemma on_state_result: "on_state m D = (r, D') \<Longrightarrow> \<exists>ss. D' = D\<lparr>stateStore := ss\<rparr>"
  unfolding on_state_def by (cases "m (stateStore D)") (simp, blast)

lemma commit_node_ok:
  assumes "node_ok n" and "on_sm (CommitWithP0Verify (n_ops N) h) n = (Inr u, n')"
  shows "ledger_supply (node_ledger n) = TOTAL_SUPPLY" and "node_ok n'" and "node_ledger n' = node_ledger n"
    and "durable (\<lambda>D. shard_acct (accEnv (nd_db N)) kv (stateStore D)) (n_db n') = node_ledger n"
    and "GetStateHeight (stateStore (n_db n')) = Inr h" and "totalSupplyTracker (n_state n') = TOTAL_SUPPLY"
    and "blockStore (n_db n') = blockStore (n_db n)" and "db (n_db n') = db (n_db n)" and "keeps n n'"
proof -
  obtain sm where c: "CommitWithP0Verify (n_ops N) h (n_state n) = (Inr u, sm)" and n': "n' = n\<lparr>n_state := sm\<rparr>"
    using assms(2) by (auto simp: on_sm_eq)
  note s = accounts.commit_p0_sound[OF assms(1)[unfolded node_ok_repr] c]
  show "ledger_supply (node_ledger n) = TOTAL_SUPPLY" "totalSupplyTracker (n_state n') = TOTAL_SUPPLY"
    "durable (\<lambda>D. shard_acct (accEnv (nd_db N)) kv (stateStore D)) (n_db n') = node_ledger n" "keeps n n'"
    using s(1-3) n' by (simp_all add: keeps_def)
  show "node_ok n'" "node_ledger n' = node_ledger n" using node_repr[OF s(4)] n' by simp_all
  obtain xs where b: "on_state (SaveAccountsBatchWithHeight (accEnv (nd_db N)) xs h) (n_db n) = (Inr (), sm_db sm)"
    using s(6) by (auto simp: database_ops_def)
  then show "GetStateHeight (stateStore (n_db n')) = Inr h"
    using batch_height_marker[OF on_state_eq[OF b]] n' by simp
  obtain ss where "sm_db sm = (n_db n)\<lparr>stateStore := ss\<rparr>"
    using on_state_result[OF b] by blast
  then show "blockStore (n_db n') = blockStore (n_db n)" "db (n_db n') = db (n_db n)"
    using n' by simp_all
qed

lemma supply_verified:
  assumes "enumerable N" and "node_ok n" and "ledger_supply (node_ledger n) = TOTAL_SUPPLY"
    and "totalSupplyTracker (n_state n) = TOTAL_SUPPLY"
  shows "verifyTotalSupply N n = (Inr (), n)"
proof -
  obtain xs where xs: "st_all (n_ops N) (n_db n) = Inr xs" using assms(1) by (auto simp: enumerable_def)
  have "sm_wf (\<lambda>D. sstore_wf (accEnv (nd_db N)) kv (stateStore D)) (n_state n)"
    using assms(2) by (simp add: node_ok_def sm_ok_def)
  from accounts.merged_view(2)[OF this xs] assms(3)
  have "map_supply (accountMap xs (accountCache (n_state n))) = TOTAL_SUPPLY" by (simp add: node_ledger_def)
  then have "VerifyTotalSupplyDual (n_ops N) (n_state n) = (Inr (TOTAL_SUPPLY, True), n_state n)"
    using xs assms(4) by (simp add: VerifyTotalSupplyDual_def VerifyTotalSupply_def VerifyTotalSupplyFast_def bindS_def Let_def)
  then show ?thesis by (simp add: verifyTotalSupply_def bindS_def on_sm_def)
qed

end

context node_ctx
begin

lemma apply_block_ok:
  assumes "node_ok n" and "applyBlock N h b n = (Inr u, n')" and "Height (Header b) = h"
  shows "exec_all (nd_cfg N) (nd_cl N) (nd_now N) False (BTransactions b) (node_ledger n) = Inr (node_ledger n')"
    and "ledger_supply (node_ledger n') = TOTAL_SUPPLY" and "node_ok n'" and "totalSupplyTracker (n_state n') = TOTAL_SUPPLY"
    and "durable (\<lambda>D. shard_acct (accEnv (nd_db N)) kv (stateStore D)) (n_db n') = node_ledger n'"
    and "GetStateHeight (stateStore (n_db n')) = Inr h"
    and "kv (db (n_db n')) latestHeightKey = Some (be_put64 h)"
    and "WriteBlock (nd_cl N) h (blk_ToJSON (nd_db N) b) (blockStore (n_db n)) = (Inr (), blockStore (n_db n'))"
    and "AddBlock (nd_cfg N) (nd_cl N) (nd_now2 N) b (n_chain n) = (Inr (), n_chain n')"
    and "n_outbox n' = n_outbox n"
proof -
  obtain n1 n2 n3 where 1: "executeAll N (nd_now N) False (BTransactions b) n = (Inr (), n1)"
    and 2: "on_db (SaveBlock (nd_db N) (nd_cl N) b) n1 = (Inr (), n2)"
    and 3: "on_sm (CommitWithP0Verify (n_ops N) h) n2 = (Inr (), n3)"
    and 4: "on_chain (AddBlock (nd_cfg N) (nd_cl N) (nd_now2 N) b) n3 = (Inr u, n')"
    using assms(2) by (auto simp: applyBlock_def Let_def bindS_Inr_iff)
  note e = execute_all_ok[OF assms(1) 1] and f = executeAll_frame[OF 1]
  obtain D where D: "SaveBlock (nd_db N) (nd_cl N) b (n_db n1) = (Inr (), D)" and n2: "n2 = n1\<lparr>n_state := (n_state n1)\<lparr>sm_db := D\<rparr>\<rparr>"
    using 2 by (auto simp: on_db_eq)
  have "database_env (nd_db N) kv" by (rule database_env.intro) unfold_locales
  note s = database_env.SaveBlock_ok[OF this D]
  have k2: "node_ok n2" "node_ledger n2 = node_ledger n1" using node_state_cong[of n2 n1] e s(2) n2 by simp_all
  note c = commit_node_ok[OF k2(1) 3]
  obtain bc where a: "AddBlock (nd_cfg N) (nd_cl N) (nd_now2 N) b (n_chain n3) = (Inr (), bc)" and n': "n' = n3\<lparr>n_chain := bc\<rparr>"
    using 4 by (auto simp: on_chain_eq)
  have k: "node_ok n'" "node_ledger n' = node_ledger n1" using node_state_cong[of n' n3] c(2,3) k2(2) n' by simp_all
  show "exec_all (nd_cfg N) (nd_cl N) (nd_now N) False (BTransactions b) (node_ledger n) = Inr (node_ledger n')"
    "ledger_supply (node_ledger n') = TOTAL_SUPPLY" "node_ok n'" "totalSupplyTracker (n_state n') = TOTAL_SUPPLY"
    "durable (\<lambda>D. shard_acct (accEnv (nd_db N)) kv (stateStore D)) (n_db n') = node_ledger n'"
    "GetStateHeight (stateStore (n_db n')) = Inr h"
    using e k c k2 n' by simp_all
  show "kv (db (n_db n')) latestHeightKey = Some (be_put64 h)" using s(3) c(8) n2 n' assms(3) by simp
  show "WriteBlock (nd_cl N) h (blk_ToJSON (nd_db N) b) (blockStore (n_db n)) = (Inr (), blockStore (n_db n'))"
    using s(1) c(7) n2 n' f assms(3) by simp
  show "AddBlock (nd_cfg N) (nd_cl N) (nd_now2 N) b (n_chain n) = (Inr (), n_chain n')" "n_outbox n' = n_outbox n"
    using a c(9) f n2 n' by (simp_all add: keeps_def)
qed

lemma apply_block_fails:
  assumes "node_ok n" and "applyBlock N h b n = (Inl e, n')" and "\<not> fatal e"
    and "stateStore (n_db n') = stateStore (n_db n)" and "GetStateHeight (stateStore (n_db n)) \<noteq> Inr h"
  shows "keeps n n' \<and> node_ok n' \<and> node_ledger n' = node_ledger n"
proof -
  let ?undo = "restore (CreateSnapshot (n_state n))"
  obtain r1 n1 where 1: "executeAll N (nd_now N) False (BTransactions b) n = (r1, n1)"
    by (cases "executeAll N (nd_now N) False (BTransactions b) n")
  obtain r2 n2 where 2: "on_db (SaveBlock (nd_db N) (nd_cl N) b) n1 = (r2, n2)" by (cases "on_db (SaveBlock (nd_db N) (nd_cl N) b) n1")
  obtain r3 n3 where 3: "on_sm (CommitWithP0Verify (n_ops N) h) n2 = (r3, n3)" by (cases "on_sm (CommitWithP0Verify (n_ops N) h) n2")
  note f = executeAll_frame[OF 1]
  obtain D where D: "SaveBlock (nd_db N) (nd_cl N) b (n_db n1) = (r2, D)" "n2 = n1\<lparr>n_state := (n_state n1)\<lparr>sm_db := D\<rparr>\<rparr>"
    using 2 by (auto simp: on_db_eq)
  have s2: "stateStore (n_db n2) = stateStore (n_db n1)" using steps_inD[OF SaveBlock_state D(1)] D(2) by simp
  have k: "keeps n n1" "keeps n n2" "keeps n n3" using f D(2) 3 by (auto simp: keeps_def on_sm_eq)
  have "n' = ?undo n1 \<or> n' = ?undo n2 \<or> n' = ?undo n3"
  proof (rule ccontr)
    assume no: "\<not> ?thesis"
    have ok: "r1 = Inr ()" "r2 = Inr ()" "r3 = Inr ()"
      using assms(2,3) 1 2 3 no by (auto simp: applyBlock_def Let_def bindS_def on_error_def split: sum.splits)
    have "node_ok n2"
      using execute_all_ok[OF assms(1) 1[unfolded ok]] node_state_cong[of n2 n1] s2 D(2) by simp
    then have "GetStateHeight (stateStore (n_db n3)) = Inr h" using commit_node_ok(5) 3 ok by blast
    moreover have "n_db n' = n_db n3"
      using assms(2) 1 2 3 ok by (auto simp: applyBlock_def Let_def bindS_def on_error_def on_chain_def split: prod.splits)
    ultimately show False using assms(4,5) by simp
  qed
  then obtain m where m: "n' = ?undo m" "keeps n m" using k by blast
  then have "stateStore (n_db m) = stateStore (n_db n)" using assms(4) by (simp add: restore_def RestoreSnapshot_def)
  from restore_ok[OF this] m assms(1) show ?thesis by (simp add: keeps_def restore_def)
qed

lemma after_block:
  assumes "enumerable N" and "node_ok n" and "ledger_supply (node_ledger n) = TOTAL_SUPPLY"
    and "totalSupplyTracker (n_state n) = TOTAL_SUPPLY" and "afterBlock N h b n = (r, n')"
  shows "announces n n' \<and> (nd_bestPeer N \<noteq> None \<longrightarrow> OutBlock b \<in> set (n_outbox n'))"
proof -
  obtain n1 where 1: "send N (OutBlock b) n = (Inr (), n1)" by (simp add: send_def)
  have a1: "announces n n1" using steps_inD[OF send_announces 1] .
  have sent: "nd_bestPeer N \<noteq> None \<longrightarrow> OutBlock b \<in> set (n_outbox n1)" using 1 by (auto simp: send_def)
  have st: "n_state n1 = n_state n" using announces_state[OF a1] by simp
  then have "node_ok n1" "node_ledger n1 = node_ledger n" using node_state_cong[of n1 n] assms(2) by simp_all
  then have v: "verifyTotalSupply N n1 = (Inr (), n1)" using supply_verified[OF assms(1)] assms(3,4) st by simp
  obtain q m where g: "generateCheckpoint N h b n1 = (q, m)" by (cases "generateCheckpoint N h b n1")
  have "n' = n1 \<or> n' = m"
    using assms(5) 1 g by (auto simp: afterBlock_def bindS_def Let_def warn_def split: if_splits sum.splits)
  then have "announces n1 n'" using checkpoint_announces[OF v g] reflpD[OF announces_order(1)] by blast
  then show ?thesis using transpD[OF announces_order(2) a1] sent announces_state[of n1 n'] by auto
qed

lemma after_block_fatal: "afterBlock N h b n = (Inl e, n') \<Longrightarrow> fatal e"
  by (auto simp: afterBlock_def bindS_Inl_iff Let_def send_def fatal_def split: if_splits dest: warn_Inl[unfolded fatal_def])

lemma produce_block_steps:
  assumes "produceBlock N h prev n = (Inr u, n')" and "node_ok n"
  obtains b n1 n2 where "buildBlock N h prev n = (Inr b, n1)" "quiet n n1"
    "Block_Validate (nd_cfg N) (nd_cl N) (nd_now N) (latestBlock (n_chain n)) b = Inr ()"
    "applyBlock N h b n1 = (Inr (), n2)" "afterBlock N h b n2 = (Inr u, n')"
proof -
  obtain b n1 n2 where b: "buildBlock N h prev n = (Inr b, n1)"
    and v: "ValidateBlock (nd_cfg N) (nd_cl N) (nd_now N) b (n_chain n1) = Inr ()"
    and a: "applyBlock N h b n1 = (Inr (), n2)" and f: "afterBlock N h b n2 = (Inr u, n')"
    using assms(1) unfolding produceBlock_def bindS_Inr_iff lift_result_eq by auto
  have "quiet n n1" by (rule steps_inD[OF build_quiet b])
  with b v a f show thesis by (intro that[of b n1 n2]) (auto simp: quiet_def keeps_def ValidateBlock_def)
qed

end

section \<open>Claims\<close>

text \<open>C5: a produced block is durable. When \<^verbatim>\<open>produceBlock\<close> succeeds on top of the tip, the new tip is a child
  of the old one at the requested height, proposed by this node; the ledger is the old one with
  the transactions of the block executed by the specification, its supply is the constant, and
  the account store alone holds it under the new height marker; the latest height of the database
  is the new one, the block file holds the block (if it fits), and the block was announced.\<close>

theorem produced_block_durable:
  assumes "node_ctx N kv" and "enumerable N" and "node_ctx.node_ok N kv n" and "latestBlock (n_chain n) = Some prev"
    and "produceBlock N h prev n = (Inr (), n')"
  shows "\<exists>b. latestBlock (n_chain n') = Some b \<and> latestHeight (n_chain n') = h \<and> child (nd_cl N) prev b
    \<and> Height (Header b) = h \<and> Proposer (Header b) = n_address n
    \<and> exec_all (nd_cfg N) (nd_cl N) (nd_now N) False (BTransactions b) (node_ctx.node_ledger N kv n)
        = Inr (node_ctx.node_ledger N kv n')
    \<and> ledger_supply (node_ctx.node_ledger N kv n') = TOTAL_SUPPLY
    \<and> durable (\<lambda>D. shard_acct (accEnv (nd_db N)) kv (stateStore D)) (n_db n') = node_ctx.node_ledger N kv n'
    \<and> GetStateHeight (stateStore (n_db n')) = Inr h
    \<and> kv (db (n_db n')) latestHeightKey = Some (be_put64 h)
    \<and> (block_fits h (blk_ToJSON (nd_db N) b) (blockStore (n_db n))
        \<longrightarrow> block_at (files (blockStore (n_db n'))) h = Some (blk_ToJSON (nd_db N) b))
    \<and> (nd_bestPeer N \<noteq> None \<longrightarrow> OutBlock b \<in> set (n_outbox n')) \<and> node_ctx.node_ok N kv n'"
proof -
  note C = assms(1)
  obtain b n1 n2 where b: "buildBlock N h prev n = (Inr b, n1)" and q: "node_ctx.quiet N kv n n1"
    and v: "Block_Validate (nd_cfg N) (nd_cl N) (nd_now N) (latestBlock (n_chain n)) b = Inr ()"
    and a: "applyBlock N h b n1 = (Inr (), n2)" and f: "afterBlock N h b n2 = (Inr (), n')"
    using node_ctx.produce_block_steps[OF C assms(5,3)] by blast
  have k: "node_ctx.node_ok N kv n1" "node_ctx.node_ledger N kv n1 = node_ctx.node_ledger N kv n" "n_db n1 = n_db n" "n_chain n1 = n_chain n"
    using q assms(3) by (simp_all add: node_ctx.quiet_def[OF C] keeps_def)
  note B = node_ctx.build_block[OF C b]
  note A = node_ctx.apply_block_ok[OF C k(1) a conjunct1[OF B]]
  note F = node_ctx.after_block[OF C assms(2) A(3,2,4) f]
  note S = announces_state[OF conjunct1[OF F]]
  have n': "node_ctx.node_ok N kv n'" "node_ctx.node_ledger N kv n' = node_ctx.node_ledger N kv n2"
    using node_ctx.node_state_cong[OF C, of n' n2] S A(3) by simp_all
  have tip: "latestBlock (n_chain n') = Some b" "latestHeight (n_chain n') = h" "child (nd_cl N) prev b"
    using A(9) S k(4) B assms(4) v validate_child unfolding AddBlock_def add_block_ok_iff Block_Validate_def by auto
  have "block_fits h (blk_ToJSON (nd_db N) b) (blockStore (n_db n)) \<Longrightarrow>
      block_at (files (blockStore (n_db n'))) h = Some (blk_ToJSON (nd_db N) b)"
    using flat.written[OF A(8)] S k(3) by simp
  then show ?thesis
    using A(1-7) n' conjunct1[OF S] F B tip k(2) by (intro exI[of _ b]) simp
qed

text \<open>C14: a failed production does no harm. When \<^verbatim>\<open>produceBlock\<close> returns an error and the account store has
  not been written (which excludes only a commit that broke off between shards, and a tip update
  refused after the commit), the tip, the ledger, the coherence of the cache, the checkpoint files and
  the messages sent are as before.\<close>

theorem failed_production_harmless:
  assumes "node_ctx N kv" and "node_ctx.node_ok N kv n" and "produceBlock N h prev n = (Inl e, n')" and "\<not> fatal e"
    and "stateStore (n_db n') = stateStore (n_db n)" and "GetStateHeight (stateStore (n_db n)) \<noteq> Inr h"
  shows "n_chain n' = n_chain n \<and> node_ctx.node_ledger N kv n' = node_ctx.node_ledger N kv n
    \<and> node_ctx.node_ok N kv n' \<and> n_checkpoints n' = n_checkpoints n \<and> n_outbox n' = n_outbox n"
proof -
  note C = assms(1)
  obtain r n1 where b: "buildBlock N h prev n = (r, n1)" by (cases "buildBlock N h prev n")
  have q: "node_ctx.quiet N kv n n1" by (rule steps_inD[OF node_ctx.build_quiet[OF C] b])
  have k: "node_ctx.node_ok N kv n1" "node_ctx.node_ledger N kv n1 = node_ctx.node_ledger N kv n" "n_db n1 = n_db n" "keeps n n1"
    using q assms(2) by (simp_all add: node_ctx.quiet_def[OF C])
  show ?thesis
  proof (cases "n' = n1")
    case True
    then show ?thesis using k by (simp add: keeps_def)
  next
    case False
    then obtain blk where a: "applyBlock N h blk n1 = (Inl e, n')"
      using assms(3,4) b node_ctx.after_block_fatal[OF C]
      by (cases r) (auto simp: produceBlock_def bindS_def[of "buildBlock N h prev"] bindS_Inl_iff)
    have "stateStore (n_db n') = stateStore (n_db n1)" "GetStateHeight (stateStore (n_db n1)) \<noteq> Inr h"
      using assms(5,6) k(3) by simp_all
    from node_ctx.apply_block_fails[OF C k(1) a assms(4) this] k show ?thesis by (simp add: keeps_def)
  qed
qed

text \<open>A silent proposer is replaced. Whatever the loop has seen so far, an activated validator whose
  chain does not move and that knows no peer ahead of the next height decides to produce the next
  block in this round or in the following one, although another validator was selected.\<close>

theorem silent_proposer_replaced:
  assumes "isActiveValidator (n_address n) n" and "n_validatorActivated n"
    and "nd_seedPeers N = 0 \<or> latestHeight (n_chain n) \<noteq> 0" and "latestBlock (n_chain n) = Some latest"
    and "SelectProposer (nd_cfg N) (nd_cl N) (latestHeight (n_chain n) + 1) (Block_Hash (nd_cl N) latest) (n_vals n) = Inr p"
    and "10 \<le> length p" and "\<forall>best. nd_bestPeer N = Some best \<longrightarrow> best \<le> latestHeight (n_chain n) + 1"
  shows "fst (decide N n st) = Produce (latestHeight (n_chain n) + 1) latest
    \<or> fst (decide N n (snd (decide N n st))) = Produce (latestHeight (n_chain n) + 1) latest"
proof -
  let ?h = "latestHeight (n_chain n) + 1"
  have go: "beforeProducing N ?h latest = Produce ?h latest"
    using assms(7) by (auto simp: beforeProducing_def split: option.split)
  have d: "decide N n s = (if p = n_address n then (Produce ?h latest, s)
      else if p \<noteq> lastProposer s then (Skip, \<lparr>lastProposer = p, waitCount = 1\<rparr>)
      else (Produce ?h latest, \<lparr>lastProposer = '''', waitCount = 0\<rparr>))" for s
    using assms go by (auto simp: decide_def Let_def maxWaitTime_def not_less split: option.split)
  show ?thesis by (cases "p = n_address n"; cases "p = lastProposer st") (simp_all add: d)
qed

text \<open>Nobody produces out of turn or from behind. A decision to produce is made only by an activated,
  active validator, for the height after its tip and on top of its tip, when no known peer is above
  that height, and when the node was selected or the selected validator is the one the node was
  already waiting for in the previous round.\<close>

theorem produces_only_in_turn:
  assumes "fst (decide N n st) = Produce h b"
  shows "isActiveValidator (n_address n) n \<and> n_validatorActivated n \<and> h = latestHeight (n_chain n) + 1
    \<and> latestBlock (n_chain n) = Some b \<and> (\<forall>best. nd_bestPeer N = Some best \<longrightarrow> best \<le> h)
    \<and> (\<exists>p. SelectProposer (nd_cfg N) (nd_cl N) h (Block_Hash (nd_cl N) b) (n_vals n) = Inr p \<and> p \<in> {n_address n, lastProposer st})"
  using assms
  by (auto simp: decide_def beforeProducing_def Let_def not_less split: if_splits option.splits sum.splits)

section \<open>Validators of a checkpoint\<close>

lemma sort_key_take_drop:
  assumes "x \<in> set (take k (sort_key f xs))" and "y \<in> set (drop k (sort_key f xs))"
  shows "f x \<le> f y"
proof -
  have "sorted (map f (take k (sort_key f xs) @ drop k (sort_key f xs)))" by simp
  then show ?thesis using assms unfolding map_append sorted_append by simp
qed

context node_ctx
begin

lemma merged_accounts:
  assumes "node_ok n" and "GetAllAccountsMerged (n_ops N) (n_state n) = Inr accs"
  shows "acc \<in> set accs \<Longrightarrow> node_ledger n (Address acc) = acc"
    and "StakedBalance (node_ledger n a) \<noteq> 0 \<Longrightarrow> node_ledger n a \<in> set accs \<and> Address (node_ledger n a) = a"
proof -
  let ?view = "view (\<lambda>D. shard_acct (accEnv (nd_db N)) kv (stateStore D)) (n_state n)"
  obtain xs where xs: "st_all (n_ops N) (n_db n) = Inr xs" and accs: "accs = map snd (accountMap xs (accountCache (n_state n)))"
    using assms(2) by (auto simp: GetAllAccountsMerged_def split: sum.splits)
  have wf: "sm_wf (\<lambda>D. sstore_wf (accEnv (nd_db N)) kv (stateStore D)) (n_state n)"
    using assms(1) by (simp add: node_ok_def sm_ok_def)
  note v = accounts.merged_view(1)[OF wf xs]
  have mem: "acc \<in> set accs \<longleftrightarrow> (\<exists>a. ?view a = Some acc)" for acc
    unfolding v[symmetric] accs using gomap_wf_accountMap[of xs "accountCache (n_state n)"]
    by (force simp: gomap_wf_def intro: map_of_is_SomeI dest: map_of_SomeD)
  have addr: "Address (node_ledger n a) = a" for a
    using accounts.repr_Address[OF assms(1)[unfolded node_ok_repr]] by simp
  have L: "node_ledger n a = or_new a (?view a)" for a by (simp add: node_ledger_def ledger_def)
  show "node_ledger n (Address acc) = acc" if "acc \<in> set accs"
  proof -
    from that mem obtain a where a: "?view a = Some acc" by blast
    then have "node_ledger n a = acc" by (simp add: L)
    with addr[of a] show ?thesis by simp
  qed
  show "node_ledger n a \<in> set accs \<and> Address (node_ledger n a) = a" if "StakedBalance (node_ledger n a) \<noteq> 0"
    using that addr mem by (auto simp: L or_new_def NewAccount_def split: option.splits)
qed

lemma elected_validators:
  assumes "node_ok n" and "GetAllAccountsMerged (n_ops N) (n_state n) = Inr accs"
    and "validatorSnapshots cfg accs = Inr vs" and "0 < ValidatorStakeRequired (Economics cfg)"
  shows "\<forall>v\<in>set vs. VSStake v = StakedBalance (node_ledger n (VSAddress v)) \<and> ValidatorStakeRequired (Economics cfg) \<le> VSStake v"
    and "int (length vs) \<le> sint (MaxValidators (Validators cfg))"
    and "ValidatorStakeRequired (Economics cfg) \<le> StakedBalance (node_ledger n a) \<Longrightarrow> a \<notin> VSAddress ` set vs \<Longrightarrow>
      int (length vs) = sint (MaxValidators (Validators cfg)) \<and> (\<forall>v\<in>set vs. StakedBalance (node_ledger n a) \<le> VSStake v)"
proof -
  let ?cs = "stakeCandidates cfg accs" and ?k = "nat (sint (MaxValidators (Validators cfg)))"
  let ?snap = "\<lambda>acc. \<lparr>VSAddress = Address acc, VSStake = StakedBalance acc, VSVRFPubKey = []\<rparr>"
  have vs: "vs = map ?snap (take ?k ?cs)" and k: "0 \<le> sint (MaxValidators (Validators cfg))"
    using assms(3) by (auto simp: validatorSnapshots_def Let_def split: if_splits)
  have cs: "x \<in> set ?cs \<longleftrightarrow> x \<in> set accs \<and> ValidatorStakeRequired (Economics cfg) \<le> StakedBalance x" for x
    by (auto simp: stakeCandidates_def)
  note M = merged_accounts[OF assms(1,2)]
  show "\<forall>v\<in>set vs. VSStake v = StakedBalance (node_ledger n (VSAddress v)) \<and> ValidatorStakeRequired (Economics cfg) \<le> VSStake v"
    using cs M(1) by (auto simp: vs dest!: in_set_takeD)
  show "int (length vs) \<le> sint (MaxValidators (Validators cfg))" using k by (simp add: vs)
  assume a: "ValidatorStakeRequired (Economics cfg) \<le> StakedBalance (node_ledger n a)" "a \<notin> VSAddress ` set vs"
  have "StakedBalance (node_ledger n a) \<noteq> 0" using a(1) assms(4) by (metis word_not_simps(1) leD)
  from M(2)[OF this] have "node_ledger n a \<in> set ?cs" "Address (node_ledger n a) = a" using cs a(1) by auto
  moreover from this a(2) have "node_ledger n a \<notin> set (take ?k ?cs)" by (force simp: vs image_iff)
  ultimately have d: "node_ledger n a \<in> set (drop ?k ?cs)" by (metis Un_iff append_take_drop_id set_append)
  then have "?k \<le> length ?cs" by (metis drop_all empty_iff list.set(1) nat_le_linear)
  moreover have "StakedBalance (node_ledger n a) \<le> StakedBalance x" if "x \<in> set (take ?k ?cs)" for x
    using sort_key_take_drop[OF that[unfolded stakeCandidates_def] d[unfolded stakeCandidates_def]]
    by (simp add: word_le_def)
  ultimately show "int (length vs) = sint (MaxValidators (Validators cfg)) \<and> (\<forall>v\<in>set vs. StakedBalance (node_ledger n a) \<le> VSStake v)"
    using k by (auto simp: vs min_def)
qed

end

text \<open>The checkpoint that is written is the one that is sent, it names the block and the state root, its
  file and the state file are in place, and its validators are accounts of the ledger with the
  required stake, at most the configured number of them; an account with enough stake is left out
  only when that number is reached and no elected validator has less.\<close>

theorem checkpoint_elects_top_stakes:
  assumes "node_ctx N kv" and "node_ctx.node_ok N kv n" and "writeCheckpoint N h b n = (Inr (), n')"
    and "0 < ValidatorStakeRequired (Economics (nd_cfg N))"
  shows "\<exists>cp data. n_checkpoints n' latestFile = Some (cp_Serialize (nd_cp N) cp) \<and> n_checkpoints n' stateLatestFile = Some data
    \<and> (nd_bestPeer N \<noteq> None \<longrightarrow> OutCheckpoint cp data \<in> set (n_outbox n'))
    \<and> CPHeight cp = h \<and> CPBlockHash cp = Block_Hash (nd_cl N) b
    \<and> CalculateStateRoot (n_ops N) (nd_cl N) (n_state n) = Inr (CPStateRoot cp)
    \<and> (\<forall>v\<in>set (CPValidators cp). VSStake v = StakedBalance (node_ctx.node_ledger N kv n (VSAddress v))
        \<and> ValidatorStakeRequired (Economics (nd_cfg N)) \<le> VSStake v)
    \<and> int (length (CPValidators cp)) \<le> sint (MaxValidators (Validators (nd_cfg N)))
    \<and> (\<forall>a. ValidatorStakeRequired (Economics (nd_cfg N)) \<le> StakedBalance (node_ctx.node_ledger N kv n a)
        \<longrightarrow> a \<notin> VSAddress ` set (CPValidators cp) \<longrightarrow>
        int (length (CPValidators cp)) = sint (MaxValidators (Validators (nd_cfg N)))
        \<and> (\<forall>v\<in>set (CPValidators cp). StakedBalance (node_ctx.node_ledger N kv n a) \<le> VSStake v))"
proof -
  let ?plain = "\<lambda>root. NewCheckpoint h (Block_Hash (nd_cl N) b) (PreviousHash (Header b)) root (HTimestamp (Header b)) (n_address n)"
  from assms(3) obtain root accs vs cp n1 snap data n2 where
    r: "CalculateStateRoot (n_ops N) (nd_cl N) (n_state n) = Inr root" and ac: "GetAllAccountsMerged (n_ops N) (n_state n) = Inr accs"
    and vs: "validatorSnapshots (nd_cfg N) accs = Inr vs"
    and cp: "Checkpoint_Sign (nd_cl N) (n_privateKey n) ((?plain root)\<lparr>CPValidators := vs\<rparr>) = Inr cp"
    and s1: "on_files (SaveCheckpoint (nd_cp N) (nd_disk_ok N) (nd_fails N) (nd_readdir N (n_checkpoints n)) cp) n = (Inr (), n1)"
    and s2: "on_files (SaveStateSnapshot (nd_disk_ok N) (nd_fails N) data) n1 = (Inr (), n2)"
    and sd: "send N (OutCheckpoint cp data) n2 = (Inr (), n')"
    unfolding writeCheckpoint_def bindS_Inr_iff lift_result_eq by auto
  have cpv: "CPHeight cp = h" "CPBlockHash cp = Block_Hash (nd_cl N) b" "CPStateRoot cp = root" "CPValidators cp = vs"
    using cp by (auto simp: Checkpoint_Sign_def NewCheckpoint_def split: sum.splits)
  have f1: "n_checkpoints n1 latestFile = Some (cp_Serialize (nd_cp N) cp)"
    using s1 save_latest by (auto simp: on_files_def split: prod.splits)
  obtain acts where t: "tdc (nd_fails N) stateTempFile stateLatestFile data (n_checkpoints n1) = (Inr (), acts)"
    and n2: "n_checkpoints n2 = apply_actions acts (n_checkpoints n1)"
    using s2 by (auto simp: on_files_def SaveStateSnapshot_def split: prod.splits if_splits)
  have "latestFile \<noteq> stateLatestFile" by (simp add: latestFile_def stateLatestFile_def)
  then have f2: "n_checkpoints n2 stateLatestFile = Some data" "n_checkpoints n2 latestFile = Some (cp_Serialize (nd_cp N) cp)"
    using tdc_done(1)[OF t] tdc_others[OF t, of latestFile] f1 n2 by simp_all
  have n': "n_checkpoints n' = n_checkpoints n2" "nd_bestPeer N \<noteq> None \<longrightarrow> OutCheckpoint cp data \<in> set (n_outbox n')"
    using sd by (auto simp: send_def split: if_splits)
  note E = node_ctx.elected_validators[OF assms(1,2) ac vs assms(4)]
  show ?thesis
    using f2 n' r by (intro exI[of _ cp] exI[of _ data] conjI E[folded cpv(4)] allI impI) (simp_all add: cpv)
qed

section \<open>A run\<close>

text \<open>The demonstration node some seconds after genesis, with an empty pool: it builds an empty block,
  commits it and writes a checkpoint, which is due at every height under the shipped parameters.\<close>

definition demo_prod_env :: "ref_db node_env" where
  "demo_prod_env = demo_node_env\<lparr>nd_now := 1700000010000, nd_now2 := 1700000010001\<rparr>"

lemma demo_prod_env_simps [simp]:
  "nd_db demo_prod_env = demo_db_env" "nd_cfg demo_prod_env = shipped_config" "nd_cl demo_prod_env = demo_crypto"
  "nd_now demo_prod_env = 1700000010000" "nd_now2 demo_prod_env = 1700000010001" "nd_disk_ok demo_prod_env"
  "nd_cp demo_prod_env = demo_cp_codec" "nd_snap demo_prod_env = ref_codec" "nd_fails demo_prod_env = (\<lambda>_. None)"
  "nd_readdir demo_prod_env = (\<lambda>_. [])" "nd_bestPeer demo_prod_env = Some 0" "nd_seedPeers demo_prod_env = 0"
  by (simp_all add: demo_prod_env_def)

interpretation demo_prod: node_ctx demo_prod_env ref_kv
  by (rule node_ctx.intro) (simp add: ref.sharded_env_axioms)

lemma demo_prod_node [simp]: "demo_prod.node_ok n = demo_node.node_ok n" "demo_prod.node_ledger n = demo_node.node_ledger n"
  by (simp_all add: demo_prod.node_ok_def demo_prod.node_ledger_def demo_node.node_ok_def demo_node.node_ledger_def)

lemma demo_enumerable: "enumerable demo_prod_env"
  using ref_collect_ok by (simp add: enumerable_def database_ops_def SS_GetAllAccounts_def)

lemma demo_prod_commits:
  assumes "demo_node.node_ok n" and "ledger_supply (demo_node.node_ledger n) = TOTAL_SUPPLY" and "all_shards_open (stateStore (n_db n))"
  shows "\<exists>n'. on_sm (CommitWithP0Verify (n_ops demo_prod_env) h) n = (Inr (), n')"
proof -
  obtain xs where xs: "st_all (n_ops demo_prod_env) (n_db n) = Inr xs" using demo_enumerable by (auto simp: enumerable_def)
  have wf: "sm_wf (\<lambda>D. sstore_wf (accEnv (nd_db demo_prod_env)) ref_kv (stateStore D)) (n_state n)"
    using assms(1) by (simp add: demo_node.node_ok_def sm_ok_def)
  obtain ds where ds: "dirty_list (n_state n) = Some ds" using dirty_list_wf[OF wf] by blast
  obtain s' where b: "SaveAccountsBatchWithHeight ref_env ds h (stateStore (n_db n)) = (Inr (), s')"
    using ref_batch_height_ok[OF assms(3)] by blast
  have "map_supply (accountMap xs (accountCache (n_state n))) = TOTAL_SUPPLY"
    using demo_prod.accounts.merged_view(2)[OF wf xs] assms(2) by (simp add: demo_node.node_ledger_def)
  then show ?thesis
    using xs ds b by (simp add: on_sm_def CommitWithP0Verify_def Let_def database_ops_def on_state_def)
qed

lemma demo_node_supply: "ledger_supply (demo_node.node_ledger (demo_node pool)) = TOTAL_SUPPLY"
  by (subst ledger_supply_superset[of "{demo_user}"]) (auto simp: demo_node_ledger TotalBalance_def)

lemma demo_no_stake: "StakedBalance (demo_node.node_ledger (demo_node pool) a) = 0"
  by (simp add: demo_node_ledger NewAccount_def)

lemma demo_readable: "\<exists>x. st_get (n_ops demo_prod_env) demo_database a = Inr x"
  using spec[OF ref_readable, of a] by (simp add: database_ops_def demo_database_def demo_sm_def NewStateManager_def)

lemma demo_node_parts: "n_db (demo_node pool) = demo_database" "n_privateKey (demo_node pool) = [1]" "n_pendingData (demo_node pool) = None"
  by (simp_all add: demo_node_def NewStateManager_def)

definition demo_header :: "u64 \<Rightarrow> BlockHeader" where
  "demo_header h = (let prevHash = Block_Hash demo_crypto demo_genesis; sig = [1] @ prevHash @ Uint64ToBytes h in
     \<lparr>Height = h, PreviousHash = prevHash, HTimestamp = 1700000010000, StateRoot = zero_hash, TxRoot = zero_hash,
      Proposer = ''F1'', HVRFProof = sig, HVRFOutput = demo_digest sig, HSignature = []\<rparr>)"

definition demo_empty_block :: "u64 \<Rightarrow> block" where
  "demo_empty_block h = \<lparr>Header = (demo_header h)\<lparr>HSignature := [1] @ Header_SignData (demo_header h)\<rparr>, BTransactions = [], BData = [],
     IsCheckpointPlaceholder = False, CheckpointHash = zero_hash\<rparr>"

lemma demo_new_header: "newHeader demo_prod_env h demo_genesis (demo_node []) = Inr (demo_header h)"
  by (simp add: newHeader_def newTimestamp_def demo_header_def Let_def ComputeVRF_def Sign_def demo_node_def hash256_def
      ce_CalculateStateRoot_def demo_genesis_def CreateGenesisBlock_def shipped_config_def setDefault_def demo_crypto_def)

lemma demo_reward_none:
  "\<exists>n1. rewardTransactions demo_prod_env (demo_node []) = (Inr [], n1) \<and> demo_prod.looks (demo_node []) n1"
proof -
  obtain r n1 where g: "on_sm (State_Manager.GetAccount (n_ops demo_prod_env) GenesisAddress) (demo_node []) = (r, n1)"
    by (cases "on_sm (State_Manager.GetAccount (n_ops demo_prod_env) GenesisAddress) (demo_node [])")
  have db: "n_db (demo_node []) = demo_database" by (simp add: demo_node_def NewStateManager_def)
  obtain y where y: "st_get (n_ops demo_prod_env) demo_database GenesisAddress = Inr y" using demo_readable by blast
  then have "fst (State_Manager.GetAccount (n_ops demo_prod_env) GenesisAddress (n_state (demo_node [])))
      \<in> range Inr"
    using db by (simp add: State_Manager.GetAccount_def split: option.split)
  then obtain x where x: "r = Inr x" using g by (auto simp: on_sm_eq)
  have "x = NewAccount GenesisAddress"
    using demo_prod.get_account_looks(2)[OF g, of x] x by (simp add: demo_node_ledger demo_user_genesis)
  then have "rewardTransactions demo_prod_env (demo_node []) = (Inr [], n1)"
    using g x by (auto simp: rewardTransactions_def CreateRewardTransactions_def on_sm_eq Let_def CalculateBlockReward_def
        NewAccount_def Threshold_0_1_Yi_def)
  then show ?thesis using demo_prod.get_account_looks(1)[OF g] by blast
qed

lemma demo_build:
  "\<exists>n1. buildBlock demo_prod_env h demo_genesis (demo_node []) = (Inr (demo_empty_block h), n1) \<and> demo_prod.looks (demo_node []) n1"
proof -
  obtain n1 where r: "rewardTransactions demo_prod_env (demo_node []) = (Inr [], n1)" and l: "demo_prod.looks (demo_node []) n1"
    using demo_reward_none by blast
  have n1: "n_privateKey n1 = [1]" "n_pendingData n1 = None" using l by (auto simp: demo_prod.looks_def demo_node_def)
  have t: "takeTransactions demo_prod_env (demo_node []) = (Inr [], demo_node [])"
    by (simp add: takeTransactions_def loadPendingTransactions_def pendingFiles_def validateAndDeduplicateTransactions_def
        map_filter_simps demo_node_def)
  have s: "sealBlock demo_prod_env (demo_header h) [] n1 = Inr (demo_empty_block h)"
    using n1 by (simp add: sealBlock_def Sign_def demo_empty_block_def CalculateTxRoot_def demo_header_def Let_def demo_crypto_def)
  show ?thesis
    using r l t s n1 by (simp add: buildBlock_def bindS_def lift_result_def demo_new_header tryAddBlockData_def)
qed

lemma demo_block_valid:
  assumes "now \<in> {1700000010000, 1700000010001}"
  shows "ValidateWithOptions shipped_config demo_crypto now (Some demo_genesis) False (demo_empty_block 1) = Inr ()"
  using assms
  by (auto simp: ValidateWithOptions_def demo_empty_block_def demo_header_def Let_def CalculateTxRoot_def
      demo_genesis_def CreateGenesisBlock_def shipped_config_def setDefault_def)

lemma demo_chain: "latestBlock (n_chain (demo_node [])) = Some demo_genesis"
  by (simp add: demo_node_def bc_Initialize_def)

lemma tdc_no_fault: "\<exists>acts. tdc (\<lambda>_. None) temp latest data d = (Inr (), acts)"
  by (cases "d latest") (simp_all add: tdc_def perform_def)

text \<open>Writing the checkpoint succeeds whenever no account has stake.\<close>

lemma demo_checkpoint:
  assumes "demo_node.node_ok n" and "\<And>a. StakedBalance (demo_node.node_ledger n a) = 0" and "n_privateKey n = [1]"
  shows "\<exists>n'. writeCheckpoint demo_prod_env h b n = (Inr (), n')"
proof -
  obtain xs where xs: "st_all (database_ops demo_db_env) (n_db n) = Inr xs" using demo_enumerable by (auto simp: enumerable_def)
  let ?accs = "map snd (accountMap xs (accountCache (n_state n)))"
  have ac: "GetAllAccountsMerged (database_ops demo_db_env) (n_state n) = Inr ?accs" using xs by (simp add: GetAllAccountsMerged_def)
  have "StakedBalance acc = 0" if "acc \<in> set ?accs" for acc
    using demo_prod.merged_accounts(1)[of n ?accs acc] ac assms(1) assms(2)[of "Address acc"] that by simp
  moreover have "ValidatorStakeRequired (Economics shipped_config) \<noteq> 0" by (simp add: shipped_config_def setDefault_def)
  ultimately have "stakeCandidates shipped_config ?accs = []"
    unfolding stakeCandidates_def by (simp add: filter_empty_conv del: set_map)
  then have vs: "validatorSnapshots shipped_config ?accs = Inr []"
    by (simp add: validatorSnapshots_def Let_def shipped_config_def setDefault_def)
  obtain root where root: "CalculateStateRoot (database_ops demo_db_env) demo_crypto (n_state n) = Inr root"
    using xs by (cases "?accs = []") (auto simp: CalculateStateRoot_def Let_def)
  obtain cp where cp: "Checkpoint_Sign demo_crypto (n_privateKey n) ((NewCheckpoint h (Block_Hash demo_crypto b)
      (PreviousHash (Header b)) root (HTimestamp (Header b)) (n_address n))\<lparr>CPValidators := []\<rparr>) = Inr cp"
    using assms(3) by (simp add: Checkpoint_Sign_def Sign_def demo_crypto_def)
  obtain n1 where 1: "on_files (SaveCheckpoint demo_cp_codec True (\<lambda>_. None) [] cp) n = (Inr (), n1)" "n_state n1 = n_state n"
    using tdc_no_fault[of tempFile latestFile "cp_Serialize demo_cp_codec cp" "n_checkpoints n"]
    by (auto simp: on_files_def SaveCheckpoint_def)
  obtain snap where snap: "CreateCheckpointSnapshot (database_ops demo_db_env) h (n_state n1) = Inr snap"
    using xs 1(2) by (simp add: CreateCheckpointSnapshot_def)
  obtain data where data: "Compress ref_codec snap = Inr data" by (simp add: Compress_def ref_codec_def)
  obtain n2 where 2: "on_files (SaveStateSnapshot True (\<lambda>_. None) data) n1 = (Inr (), n2)"
    using tdc_no_fault[of stateTempFile stateLatestFile data "n_checkpoints n1"] by (auto simp: on_files_def SaveStateSnapshot_def)
  show ?thesis
    unfolding writeCheckpoint_def using root ac vs cp 1 snap data 2
    by (simp add: bindS_def lift_result_def send_def)
qed

lemma demo_apply:
  assumes "demo_prod.looks (demo_node []) n1"
  shows "\<exists>n2. applyBlock demo_prod_env 1 (demo_empty_block 1) n1 = (Inr (), n2) \<and> n_privateKey n2 = [1]"
proof -
  have n1: "demo_node.node_ok n1" "demo_node.node_ledger n1 = demo_node.node_ledger (demo_node [])" "n_db n1 = demo_database"
    "n_chain n1 = n_chain (demo_node [])" "n_privateKey n1 = [1]"
    using assms demo_node_parts by (auto simp: demo_prod.looks_def)
  have h: "Height (Header (demo_empty_block 1)) = 1" by (simp add: demo_empty_block_def demo_header_def Let_def)
  obtain bs where w: "WriteBlock demo_crypto 1 (ref_blk_ToJSON (demo_empty_block 1)) demo_store = (Inr (), bs)"
    using WriteBlock_run[of demo_store demo_crypto 1] by auto
  obtain D where D: "SaveBlock demo_db_env demo_crypto (demo_empty_block 1) demo_database = (Inr (), D)"
    using demo_save_run[of demo_crypto "demo_empty_block 1" demo_database] w h by (auto simp: demo_database_def)
  have sD: "stateStore D = ref_sstore" using steps_inD[OF SaveBlock_state D] by (simp add: demo_database_def)
  let ?n2 = "n1\<lparr>n_state := (n_state n1)\<lparr>sm_db := D\<rparr>\<rparr>"
  have k: "demo_node.node_ok ?n2" "demo_node.node_ledger ?n2 = demo_node.node_ledger (demo_node [])"
    using demo_node.node_state_cong[of ?n2 n1] n1 sD by (simp_all add: demo_database_def)
  obtain n3 where 3: "on_sm (CommitWithP0Verify (n_ops demo_prod_env) 1) ?n2 = (Inr (), n3)"
    using demo_prod_commits[OF k(1)] k(2) demo_node_supply sD by auto
  have n3: "n_chain n3 = n_chain (demo_node [])" "n_privateKey n3 = [1]" using 3 n1 by (auto simp: on_sm_eq)
  obtain bc where "AddBlock shipped_config demo_crypto 1700000010001 (demo_empty_block 1) (n_chain n3) = (Inr (), bc)"
    using demo_block_valid n3(1) demo_chain by (simp add: AddBlock_def add_block_ok_iff)
  then show ?thesis
    using D 3 n1(3) n3(2)
    by (simp add: applyBlock_def Let_def bindS_def on_error_def demo_empty_block_def on_db_def on_sm_def on_chain_def split: prod.splits)
qed

lemma demo_produces: "\<exists>n'. produceBlock demo_prod_env 1 demo_genesis (demo_node []) = (Inr (), n')"
proof -
  obtain n1 where b: "buildBlock demo_prod_env 1 demo_genesis (demo_node []) = (Inr (demo_empty_block 1), n1)"
    and l: "demo_prod.looks (demo_node []) n1" using demo_build by blast
  have n1: "demo_node.node_ok n1" "demo_node.node_ledger n1 = demo_node.node_ledger (demo_node [])" "n_chain n1 = n_chain (demo_node [])"
    using l by (auto simp: demo_prod.looks_def)
  obtain n2 where a: "applyBlock demo_prod_env 1 (demo_empty_block 1) n1 = (Inr (), n2)" and pk: "n_privateKey n2 = [1]"
    using demo_apply[OF l] by blast
  have h: "Height (Header (demo_empty_block 1)) = 1" "BTransactions (demo_empty_block 1) = []"
    by (simp_all add: demo_empty_block_def demo_header_def Let_def)
  note A = demo_prod.apply_block_ok[OF _ a h(1), unfolded demo_prod_node, OF n1(1)]
  let ?n3 = "snd (send demo_prod_env (OutBlock (demo_empty_block 1)) n2)"
  have st: "n_state ?n3 = n_state n2" "n_privateKey ?n3 = [1]" using pk by (simp_all add: send_def)
  have k: "demo_node.node_ok ?n3" "demo_node.node_ledger ?n3 = demo_node.node_ledger (demo_node [])"
    using demo_node.node_state_cong[of ?n3 n2] st A(1,3) h(2) n1(2) by simp_all
  have v: "verifyTotalSupply demo_prod_env ?n3 = (Inr (), ?n3)"
    by (rule demo_prod.supply_verified[OF demo_enumerable]) (use k st A(4) demo_node_supply in simp_all)
  obtain n4 where "writeCheckpoint demo_prod_env 1 (demo_empty_block 1) ?n3 = (Inr (), n4)"
    using demo_checkpoint[OF k(1) _ st(2)] demo_no_stake[of "[]"] k(2) by metis
  then have "generateCheckpoint demo_prod_env 1 (demo_empty_block 1) ?n3 = (Inr (), n4)"
    using v by (simp add: generateCheckpoint_def bindS_def repairSupply_def)
  then have "afterBlock demo_prod_env 1 (demo_empty_block 1) n2 = (Inr (), n4)"
    by (simp add: afterBlock_def bindS_def send_def warn_def shipped_config_def setDefault_def)
  with b a show ?thesis
    using demo_block_valid n1(3) demo_chain
    by (simp add: produceBlock_def bindS_def lift_result_def ValidateBlock_def Block_Validate_def)
qed

theorem produced_block_durable_witness:
  "\<exists>n'. produceBlock demo_prod_env 1 demo_genesis (demo_node []) = (Inr (), n') \<and> latestHeight (n_chain n') = 1
     \<and> GetStateHeight (stateStore (n_db n')) = Inr 1 \<and> ledger_supply (demo_prod.node_ledger n') = TOTAL_SUPPLY"
proof -
  obtain n' where p: "produceBlock demo_prod_env 1 demo_genesis (demo_node []) = (Inr (), n')" using demo_produces by blast
  from produced_block_durable[OF demo_prod.node_ctx_axioms demo_enumerable _ demo_chain p] p show ?thesis by auto
qed

text \<open>A block for the wrong height is refused after it was built.\<close>

theorem failed_production_harmless_witness:
  "\<exists>e n'. produceBlock demo_prod_env 7 demo_genesis (demo_node []) = (Inl e, n') \<and> n_chain n' = n_chain (demo_node [])
     \<and> demo_prod.node_ledger n' = demo_prod.node_ledger (demo_node [])"
proof -
  obtain n1 where b: "buildBlock demo_prod_env 7 demo_genesis (demo_node []) = (Inr (demo_empty_block 7), n1)"
    and l: "demo_prod.looks (demo_node []) n1" using demo_build by blast
  have n1: "n_chain n1 = n_chain (demo_node [])" "n_db n1 = n_db (demo_node [])" using l by (auto simp: demo_prod.looks_def)
  have v: "ValidateBlock shipped_config demo_crypto 1700000010000 (demo_empty_block 7) (n_chain n1) = Inl (InvalidHeight 1 7)"
    using n1(1) demo_chain
    by (simp add: ValidateBlock_def Block_Validate_def ValidateWithOptions_def demo_empty_block_def demo_header_def Let_def
        demo_genesis_def CreateGenesisBlock_def)
  then have p: "produceBlock demo_prod_env 7 demo_genesis (demo_node []) = (Inl (InvalidHeight 1 7), n1)"
    using b by (simp add: produceBlock_def bindS_def lift_result_def)
  have s: "stateStore (n_db n1) = stateStore (n_db (demo_node []))" using n1(2) by simp
  have g: "GetStateHeight (stateStore (n_db (demo_node []))) \<noteq> Inr 7"
    by (simp add: demo_node_def NewStateManager_def demo_database_def GetStateHeight_def ref_sstore_def)
  from failed_production_harmless[OF demo_prod.node_ctx_axioms _ p _ s g] p show ?thesis by (simp add: fatal_def)
qed

definition demo_validator :: string where
  "demo_validator = ''FVALIDATOR01''"

definition demo_loop_node :: "ref_db node" where
  "demo_loop_node = (demo_node [])\<lparr>n_address := demo_validator, n_vals := LoadFromCheckpoint 0
     [\<lparr>VSAddress = demo_validator, VSStake = 5, VSVRFPubKey = []\<rparr>, \<lparr>VSAddress = demo_user, VSStake = 5, VSVRFPubKey = []\<rparr>]
     (NewValidatorSet 0)\<rparr>"

lemma demo_loop_facts:
  "isActiveValidator (n_address demo_loop_node) demo_loop_node" "n_validatorActivated demo_loop_node"
  "latestBlock (n_chain demo_loop_node) = Some demo_genesis" "latestHeight (n_chain demo_loop_node) = 0"
  by (simp_all add: demo_loop_node_def isActiveValidator_def IsActiveValidator_def LoadFromCheckpoint_def loadedValidator_def Let_def
      demo_node_def bc_Initialize_def demo_genesis_def CreateGenesisBlock_def)

lemma demo_loop_proposer:
  "\<exists>p. SelectProposer shipped_config demo_crypto h s (n_vals demo_loop_node) = Inr p \<and> 10 \<le> length p"
proof -
  let ?vs = "activeValidators (n_vals demo_loop_node)"
  have m: "VAddress ` set ?vs = {demo_validator, demo_user}" "length ?vs = 2"
    by (simp_all add: demo_loop_node_def LoadFromCheckpoint_def loadedValidator_def Let_def)
  then have ne: "?vs \<noteq> []" "length ?vs < 2 ^ 64" by auto
  have len: "\<forall>a\<in>{demo_validator, demo_user}. 10 \<le> length a" by (simp add: demo_validator_def demo_user_eq)
  have "10 \<le> length (VAddress (sort_key VAddress ?vs ! positionIndex demo_crypto s k j (length ?vs)))" for k j
    by (rule bspec[OF len], unfold m(1)[symmetric], rule selected_is_active[OF positionIndex_bound]) (simp_all add: m(2))
  then show ?thesis
    unfolding select_proposer_spec[OF ne] Let_def by blast
qed

theorem silent_proposer_replaced_witness:
  "let st = \<lparr>lastProposer = [], waitCount = 0\<rparr> in fst (decide demo_prod_env demo_loop_node st) = Produce 1 demo_genesis
     \<or> fst (decide demo_prod_env demo_loop_node (snd (decide demo_prod_env demo_loop_node st))) = Produce 1 demo_genesis"
proof -
  obtain p where p: "SelectProposer shipped_config demo_crypto 1 (Block_Hash demo_crypto demo_genesis) (n_vals demo_loop_node) = Inr p"
    "10 \<le> length p" using demo_loop_proposer by blast
  show ?thesis
    using silent_proposer_replaced[of demo_loop_node demo_prod_env demo_genesis p "\<lparr>lastProposer = [], waitCount = 0\<rparr>"] p demo_loop_facts
    by (simp add: Let_def)
qed

theorem produces_only_in_turn_witness:
  "\<exists>st. fst (decide demo_prod_env demo_loop_node st) = Produce 1 demo_genesis \<and> n_validatorActivated demo_loop_node"
proof -
  obtain p where p: "SelectProposer shipped_config demo_crypto 1 (Block_Hash demo_crypto demo_genesis) (n_vals demo_loop_node) = Inr p"
    "10 \<le> length p" using demo_loop_proposer by blast
  then have d: "fst (decide demo_prod_env demo_loop_node \<lparr>lastProposer = p, waitCount = 1\<rparr>) = Produce 1 demo_genesis"
    using demo_loop_facts by (simp add: decide_def Let_def beforeProducing_def maxWaitTime_def)
  from produces_only_in_turn[OF d] d show ?thesis by blast
qed

theorem checkpoint_elects_top_stakes_witness:
  "\<exists>n' cp. writeCheckpoint demo_prod_env 0 demo_genesis (demo_node []) = (Inr (), n')
     \<and> n_checkpoints n' latestFile = Some (cp_Serialize demo_cp_codec cp) \<and> CPHeight cp = 0"
proof -
  obtain n' where w: "writeCheckpoint demo_prod_env 0 demo_genesis (demo_node []) = (Inr (), n')"
    using demo_checkpoint[OF demo_node_facts(1) demo_no_stake demo_node_parts(2)] by blast
  from checkpoint_elects_top_stakes[OF demo_prod.node_ctx_axioms _ w] w show ?thesis
    by (auto simp: shipped_config_def setDefault_def)
qed

end
