(* ===== verification/Node_Recovery.thy ===== *)
theory Node_Recovery
  imports Node_Producer
begin

text \<open>
  Starting a node: the chain tip from the checkpoint and the validator set from the account store
  (\<^verbatim>\<open>node_blockchain.go\<close>), and the replay of blocks that were saved but not committed
  (\<^verbatim>\<open>RecoverStateIfNeeded\<close>, \<^verbatim>\<open>node.go\<close>), in the order of \<^verbatim>\<open>main.go\<close>. Also the chain reorganization of
  \<^verbatim>\<open>node_blockchain.go\<close>.

  Lemmas: the replay brings the account store to the state of the last saved block, whatever the
  clock shows by then; it leaves the tip at the checkpoint; reading a block at start makes the node
  unable to append to the same chunk; a reorganization never completes.
\<close>

section \<open>Starting\<close>

definition latestCheckpoint :: "'d node_env \<Rightarrow> ('d node, Checkpoint option) step" where
  "latestCheckpoint N = on_files (GetLatestCheckpoint (nd_cp N) (nd_fails N))"

definition placeholderBlock :: "Checkpoint \<Rightarrow> string \<Rightarrow> block" where
  "placeholderBlock checkpoint proposer = \<lparr>
     Header = \<lparr>Height = CPHeight checkpoint, PreviousHash = CPPreviousHash checkpoint, HTimestamp = CPTimestamp checkpoint,
       StateRoot = CPStateRoot checkpoint, TxRoot = zero_hash, Proposer = proposer, HVRFProof = [], HVRFOutput = [],
       HSignature = []\<rparr>,
     BTransactions = [], BData = [], IsCheckpointPlaceholder = False, CheckpointHash = zero_hash\<rparr>"

definition emptyBlock :: "i64 \<Rightarrow> block" where
  "emptyBlock now_seconds = \<lparr>
     Header = \<lparr>Height = 0, PreviousHash = zero_hash, HTimestamp = now_seconds, StateRoot = zero_hash, TxRoot = zero_hash,
       Proposer = '''', HVRFProof = [], HVRFOutput = [], HSignature = []\<rparr>,
     BTransactions = [], BData = [], IsCheckpointPlaceholder = False, CheckpointHash = zero_hash\<rparr>"

definition loadCheckpointValidators :: "'d node_env \<Rightarrow> Checkpoint \<Rightarrow> 'd node \<Rightarrow> 'd node" where
  "loadCheckpointValidators N checkpoint n =
     (if CPValidators checkpoint \<noteq> []
      then n\<lparr>n_vals := LoadFromCheckpoint (nd_now_s N) (CPValidators checkpoint) (n_vals n)\<rparr> else n)"

text \<open>The state snapshot is loaded and dropped, so it does not appear.\<close>

definition InitializeBlockchain :: "'d node_env \<Rightarrow> ('d node, unit) step" where
  "InitializeBlockchain N n = (case latestCheckpoint N n of
     (Inr (Some checkpoint), n1) \<Rightarrow>
       (case on_db (GetBlockByHeight (nd_db N) (nd_cfg N) (nd_cl N) (CPHeight checkpoint)) (loadCheckpointValidators N checkpoint n1) of
          (Inr checkpointBlock, n2) \<Rightarrow> (Inr (), n2\<lparr>n_chain := bc_Initialize checkpointBlock (n_chain n2)\<rparr>)
        | (Inl e, n2) \<Rightarrow>
            if fatal e then (Inl e, n2)
            else (Inr (), n2\<lparr>n_chain := SetLatestBlockWithHash (placeholderBlock checkpoint '''') (CPBlockHash checkpoint) (n_chain n2)\<rparr>))
   | (_, n1) \<Rightarrow> (Inr (), n1\<lparr>n_chain := bc_Initialize (emptyBlock (nd_now_s N)) (n_chain n1)\<rparr>))"

text \<open>The consensus engine gets copies of the node's address and keys, which the model reads from the
  node itself.\<close>

definition InitializeValidators :: "'d node_env \<Rightarrow> ('d node, unit) step" where
  "InitializeValidators N n =
     (if activeValidators (n_vals n) = [] then
        (case LoadFromState (n_ops N) (nd_cfg N) (nd_now_s N) (n_db n) (n_vals n) of
           (Inl e, vs) \<Rightarrow> (Inl e, n\<lparr>n_vals := vs\<rparr>)
         | (Inr _, vs) \<Rightarrow> (case UpdateActiveSet (nd_cfg N) (nd_now_s N) vs of (r, vs') \<Rightarrow> (r, n\<lparr>n_vals := vs'\<rparr>)))
      else (Inr (), n))"

section \<open>Replaying blocks\<close>

text \<open>An execution error is only logged and the next transaction follows.\<close>

fun replayTxs :: "'d node_env \<Rightarrow> transaction list \<Rightarrow> ('d node, unit) step" where
  "replayTxs N [] n = (Inr (), n)"
| "replayTxs N (tx # txs) n = bindS (warn (executeTx N (nd_now N) True tx)) (\<lambda>_. replayTxs N txs) n"

fun replayBlocks :: "'d node_env \<Rightarrow> u64 list \<Rightarrow> ('d node, unit) step" where
  "replayBlocks N [] = Pair (Inr ())"
| "replayBlocks N (height # heights) =
     bindS (on_db (GetBlockByHeight (nd_db N) (nd_cfg N) (nd_cl N) height)) (\<lambda>b.
     bindS (replayTxs N (BTransactions b)) (\<lambda>_.
     bindS (on_sm (CommitWithP0Verify (n_ops N) height)) (\<lambda>_.
       replayBlocks N heights)))"

text \<open>The loop counter wraps only for a block height of \<open>2 ^ 64 - 1\<close>, which is left out.\<close>

definition RecoverStateIfNeeded :: "'d node_env \<Rightarrow> ('d node, unit) step" where
  "RecoverStateIfNeeded N n = (case GetLatestHeight (nd_db N) (n_db n) of
     Inl e \<Rightarrow> (Inl e, n)
   | Inr blockHeight \<Rightarrow> (case GetStateHeight (stateStore (n_db n)) of
       Inl e \<Rightarrow> (Inl e, n)
     | Inr stateHeight \<Rightarrow>
         if stateHeight = 0 \<and> 0 < blockHeight then on_db (on_state (SaveStateHeight blockHeight)) n
         else if blockHeight = stateHeight then (Inr (), n)
         else if blockHeight < stateHeight then on_db (on_state (SaveStateHeight blockHeight)) n
         else replayBlocks N (heightsFromTo (stateHeight + 1) blockHeight) n))"

text \<open>The start of \<^verbatim>\<open>main\<close>, up to the peer-to-peer server; every error ends the process.\<close>

definition startNode :: "'d node_env \<Rightarrow> ('d node, unit) step" where
  "startNode N = bindS (InitializeBlockchain N) (\<lambda>_. bindS (RecoverStateIfNeeded N) (\<lambda>_. InitializeValidators N))"

section \<open>Reorganization\<close>

definition PerformChainReorganization :: "'d node_env \<Rightarrow> u64 \<Rightarrow> block \<Rightarrow> ('d node, unit) step" where
  "PerformChainReorganization N rollbackHeight correctBlock n =
     (case on_db (GetBlockByHeight (nd_db N) (nd_cfg N) (nd_cl N) rollbackHeight) n of
        (Inl e, n1) \<Rightarrow> (Inl (if fatal e then e else TargetBlockMissing), n1)
      | (Inr targetBlock, n1) \<Rightarrow>
          if Block_Hash (nd_cl N) targetBlock \<noteq> PreviousHash (Header correctBlock)
          then (Inl (DeepFork rollbackHeight), n1)
          else
            bindS (on_db (db_DeleteBlocksAboveHeight (nd_db N) rollbackHeight)) (\<lambda>_.
            bindS (on_chain (RollbackToHeight rollbackHeight (Some targetBlock))) (\<lambda>_.
            bindS (on_sm (ReloadStateFromHeight (n_ops N) rollbackHeight)) (\<lambda>_.
            bindS (\<lambda>n. case slice_to 10 (Proposer (Header correctBlock)) of Inl e \<Rightarrow> (Inl e, n) | Inr _ \<Rightarrow> (Inr (), n)) (\<lambda>_.
            bindS (executeAll N (nd_now N) True (BTransactions correctBlock)) (\<lambda>_.
            bindS (on_sm (CommitWithP0Verify (n_ops N) (Height (Header correctBlock)))) (\<lambda>_.
            bindS (\<lambda>n. (Inr (), n\<lparr>n_chain := SetLatestBlock correctBlock (n_chain n)\<rparr>)) (\<lambda>_.
              on_db (SaveBlock (nd_db N) (nd_cl N) correctBlock)))))))) n1)"

section \<open>Executing again\<close>

text \<open>What was executed with the clock check executes without it, at any later time, to the same
  ledger.\<close>

lemma validate_skip: "Tx_Validate cfg now skip tx = Inr u \<Longrightarrow> Tx_Validate cfg now' True tx = Inr ()"
  by (auto simp: Tx_Validate_def split: if_splits)

lemma exec_spec_skip: "exec_spec cfg cl now skip tx L = Inr L' \<Longrightarrow> exec_spec cfg cl now' True tx L = Inr L'"
  using validate_skip[of cfg now skip tx] by (auto simp: exec_spec_def split: sum.splits if_splits)

lemma exec_all_skip: "exec_all cfg cl now skip txs L = Inr L' \<Longrightarrow> exec_all cfg cl now' True txs L = Inr L'"
proof (induction txs arbitrary: L)
  case (Cons tx txs)
  then obtain L1 where "exec_spec cfg cl now skip tx L = Inr L1" "exec_all cfg cl now skip txs L1 = Inr L'"
    by (auto split: sum.splits)
  then show ?case using exec_spec_skip Cons.IH by fastforce
qed simp

text \<open>The events of a transaction are about its sender, whose address was derived from a key.\<close>

fun event_address :: "validator_event \<Rightarrow> string" where
  "event_address (ValidatorAdded a s) = a"
| "event_address (ValidatorRemoved a) = a"

definition tells :: "string set \<Rightarrow> 's state_manager \<Rightarrow> 's state_manager \<Rightarrow> bool" where
  "tells A sm sm' \<longleftrightarrow> (\<exists>es. validatorEvents sm' = validatorEvents sm @ es \<and> event_address ` set es \<subseteq> A)"

lemma tells_order [simp]: "reflp (tells A)" "transp (tells A)"
proof -
  show "reflp (tells A)" by (simp add: reflp_def tells_def)
  show "transp (tells A)" unfolding transp_def tells_def by (metis append_assoc image_Un le_sup_iff set_append)
qed

lemma tells_mono: "tells A sm sm' \<Longrightarrow> A \<subseteq> B \<Longrightarrow> tells B sm sm'"
  unfolding tells_def by blast

lemma tells_same: "validatorEvents sm' = validatorEvents sm \<Longrightarrow> tells A sm sm'"
  by (simp add: tells_def)

lemma tells_one: "validatorEvents sm' = validatorEvents sm @ [e] \<Longrightarrow> event_address e \<in> A \<Longrightarrow> tells A sm sm'"
  by (simp add: tells_def)

lemma events_poke_update [simp]:
  "validatorEvents (poke a x sm) = validatorEvents sm" "validatorEvents (UpdateAccount x sm) = validatorEvents sm"
  "validatorEvents (updateParties tx sm) = validatorEvents sm"
  "validatorEvents (snd (State_Manager.GetAccount S a sm)) = validatorEvents sm"
  by (auto simp: poke_def UpdateAccount_def updateParties_def Let_def State_Manager.GetAccount_def split: option.splits sum.splits)

lemma bindS_events:
  assumes "validatorEvents (snd (m sm)) = d" and "\<And>a s. validatorEvents s = d \<Longrightarrow> validatorEvents (snd (f a s)) = d"
  shows "validatorEvents (snd (bindS m f sm)) = d"
  using assms by (auto simp: bindS_def split: prod.splits sum.splits)

lemma silent_handlers:
  "validatorEvents (snd (confiscateAllFunds S a sm)) = validatorEvents sm"
  "validatorEvents (snd (executeTransfer S tx sm)) = validatorEvents sm"
  "validatorEvents (snd (executeSystemTx S tx sm)) = validatorEvents sm"
  unfolding confiscateAllFunds_def executeTransfer_def executeSystemTx_def payGasFee_def
  by (auto simp: Let_def split: sum.split intro!: bindS_events)

lemma punish_events: "validatorEvents (snd (punish (confiscateAllFunds S a) sm)) = validatorEvents sm"
  using silent_handlers(1)[of S a sm] by (auto simp: punish_def split: prod.split sum.split)

lemma stake_tells: "tells {From tx} sm (snd (executeStake S cfg tx sm))" "tells {From tx} sm (snd (executeUnstake S cfg tx sm))"
proof -
  obtain r sm1 where g: "State_Manager.GetAccount S (From tx) sm = (r, sm1)" by (cases "State_Manager.GetAccount S (From tx) sm")
  then have e: "validatorEvents sm1 = validatorEvents sm" using events_poke_update(4)[of S "From tx" sm] by simp
  show "tells {From tx} sm (snd (executeStake S cfg tx sm))" "tells {From tx} sm (snd (executeUnstake S cfg tx sm))"
    using e by (cases r; auto simp: executeStake_def executeUnstake_def bindS_def g Let_def tells_def split: sum.split)+
qed

lemma execute_tells:
  assumes "ExecuteTransaction S cfg cl now skip tx sm = (r, sm')"
  shows "tells {DeriveAddress (sha3_256 cl) (PublicKey tx)} sm sm'"
proof -
  let ?m = "ExecuteTransaction S cfg cl now skip tx sm"
  obtain q sm1 where g: "State_Manager.GetAccount S (From tx) sm = (q, sm1)" by (cases "State_Manager.GetAccount S (From tx) sm")
  have e: "validatorEvents sm1 = validatorEvents sm" using events_poke_update(4)[of S "From tx" sm] g by simp
  then have s1: "tells {From tx} sm (snd (executeStake S cfg tx sm1))" "tells {From tx} sm (snd (executeUnstake S cfg tx sm1))"
    using stake_tells[of tx sm1] by (simp_all add: tells_def)
  have "validatorEvents (snd ?m) = validatorEvents sm \<or> (DeriveAddress (sha3_256 cl) (PublicKey tx) = From tx \<and>
      snd ?m \<in> {snd (executeStake S cfg tx sm1), snd (executeUnstake S cfg tx sm1)})"
    using e silent_handlers[where S = S] punish_events[of S _ sm]
    by (auto simp: ExecuteTransaction_def AddressFromPublicKey_Derive bindS_def g split: sum.split option.split)
  then show ?thesis using s1 assms by (auto intro: tells_same)
qed

lemma update_active_runs: "0 \<le> sint (ActiveValidatorSet (Validators cfg)) \<Longrightarrow> \<exists>vs'. UpdateActiveSet cfg now vs = (Inr (), vs')"
  by (auto simp: UpdateActiveSet_def Let_def)

lemma change_runs:
  assumes "0 \<le> sint (ActiveValidatorSet (Validators cfg))" and "10 \<le> length a"
  shows "\<exists>vs'. AddValidator cfg now (loadedValidator now a s []) vs = (Inr (), vs')"
    and "\<exists>vs'. RemoveValidator cfg now a vs = (Inr (), vs')"
proof -
  have l: "log_address a vs = (Inr (), vs)" for vs :: ValidatorSet using assms(2) by (simp add: log_address_def slice_to_def)
  have both: "\<exists>vs'. bindS (UpdateActiveSet cfg now) (\<lambda>_. log_address a) vs = (Inr (), vs')" for vs
    using update_active_runs[OF assms(1), of now vs] l by (auto simp: bindS_def)
  show "\<exists>vs'. RemoveValidator cfg now a vs = (Inr (), vs')" unfolding RemoveValidator_def by (rule both)
  show "\<exists>vs'. AddValidator cfg now (loadedValidator now a s []) vs = (Inr (), vs')"
    using both update_active_runs[OF assms(1)] by (simp add: AddValidator_def loadedValidator_def split: option.split)
qed

lemma apply_events_run:
  assumes "\<forall>e\<in>set es. 10 \<le> length (event_address e)" and "0 \<le> sint (ActiveValidatorSet (Validators cfg))"
  shows "\<exists>vs'. apply_events cfg now es vs = (Inr (), vs')"
  using assms(1)
proof (induction es arbitrary: vs)
  case (Cons e es)
  show ?case
  proof (cases e)
    case (ValidatorAdded a s)
    then obtain vs1 where "AddValidator cfg now (loadedValidator now a s []) vs = (Inr (), vs1)"
      using change_runs(1)[OF assms(2)] Cons.prems by fastforce
    then show ?thesis using Cons.IH[of vs1] Cons.prems ValidatorAdded by (simp add: bindS_def)
  next
    case (ValidatorRemoved a)
    then obtain vs1 where "RemoveValidator cfg now a vs = (Inr (), vs1)"
      using change_runs(2)[OF assms(2)] Cons.prems by fastforce
    then show ?thesis using Cons.IH[of vs1] Cons.prems ValidatorRemoved by (simp add: bindS_def)
  qed
qed simp

section \<open>The replay over a correct LevelDB\<close>

text \<open>What the replay needs of the machine: with all shards open, account reads are answered, the
  accounts can be enumerated and batches can be written.\<close>

definition usable :: "'d node_env \<Rightarrow> ('d \<Rightarrow> bytes \<rightharpoonup> bytes) \<Rightarrow> 'd Database \<Rightarrow> bool" where
  "usable N kv D \<longleftrightarrow> sstore_wf (accEnv (nd_db N)) kv (stateStore D) \<and> all_shards_open (stateStore D)"

definition stores_work :: "'d node_env \<Rightarrow> ('d \<Rightarrow> bytes \<rightharpoonup> bytes) \<Rightarrow> bool" where
  "stores_work N kv \<longleftrightarrow> enumerable N \<and> (\<forall>D. usable N kv D \<longrightarrow>
     (\<forall>a. \<exists>x. st_get (n_ops N) D a = Inr x)
     \<and> (\<forall>accs h. \<exists>D'. st_batch_height (n_ops N) accs h D = (Inr (), D') \<and> all_shards_open (stateStore D')))"

lemma length_DeriveAddress: "37 \<le> length (DeriveAddress sha3 pk)"
  by (simp add: DeriveAddress_def Let_def pad_zeros_def)

context node_ctx
begin

lemma node_usable: "node_ok n \<Longrightarrow> all_shards_open (stateStore (n_db n)) \<Longrightarrow> usable N kv (n_db n)"
  by (simp add: usable_def node_ok_def sm_ok_def sm_wf_def)

text \<open>A node in the middle of a replay.\<close>

definition ready :: "'d node \<Rightarrow> bool" where
  "ready n \<longleftrightarrow> node_ok n \<and> validatorEvents (n_state n) = [] \<and> all_shards_open (stateStore (n_db n))"

lemma execute_node_run:
  assumes "ready n" and "stores_work N kv" and "0 \<le> sint (ActiveValidatorSet (Validators (nd_cfg N)))"
    and "exec_spec (nd_cfg N) (nd_cl N) now skip tx (node_ledger n) = Inr L"
  shows "\<exists>n'. executeTx N now skip tx n = (Inr (), n') \<and> ready n' \<and> node_ledger n' = L"
proof -
  have ok: "node_ok n" "validatorEvents (n_state n) = []" "usable N kv (n_db n)"
    using assms(1) node_usable by (simp_all add: ready_def)
  obtain r sm where e: "ExecuteTransaction (n_ops N) (nd_cfg N) (nd_cl N) now skip tx (n_state n) = (r, sm)"
    by (cases "ExecuteTransaction (n_ops N) (nd_cfg N) (nd_cl N) now skip tx (n_state n)")
  have "accounts.reads_ok (n_db n)" using assms(2) ok(3) unfolding stores_work_def accounts.reads_ok_def by blast
  then have "r \<noteq> Inl x" for x
    using accounts.execute_err(1)[OF ok(1)[unfolded node_ok_def]] e assms(4) by (force simp: node_ledger_def)
  then have e: "ExecuteTransaction (n_ops N) (nd_cfg N) (nd_cl N) now skip tx (n_state n) = (Inr (), sm)"
    using e by (cases r) auto
  obtain es where es: "validatorEvents sm = es" "event_address ` set es \<subseteq> {DeriveAddress (sha3_256 (nd_cl N)) (PublicKey tx)}"
    using execute_tells[OF e] ok(2) by (auto simp: tells_def)
  have "\<forall>ev\<in>set es. 10 \<le> length (event_address ev)"
    using es(2) length_DeriveAddress[of "sha3_256 (nd_cl N)" "PublicKey tx"] by fastforce
  then obtain vs where "apply_events (nd_cfg N) (nd_now_s N) es (n_vals n) = (Inr (), vs)"
    using apply_events_run[OF _ assms(3)] by blast
  then have x: "executeTx N now skip tx n = (Inr (), n\<lparr>n_state := sm\<lparr>validatorEvents := []\<rparr>, n_vals := vs\<rparr>)" (is "_ = (_, ?n')")
    using e es(1) by (simp add: executeTx_def)
  have "n_db ?n' = n_db n" using executeTx_frame[OF x] by simp
  then show ?thesis using execute_node_ok[OF ok(1) x] assms(1,4) x by (auto simp: ready_def)
qed

lemma replay_txs_run:
  assumes "ready n" and "stores_work N kv" and "0 \<le> sint (ActiveValidatorSet (Validators (nd_cfg N)))"
    and "exec_all (nd_cfg N) (nd_cl N) now skip txs (node_ledger n) = Inr L"
  shows "\<exists>n'. replayTxs N txs n = (Inr (), n') \<and> ready n' \<and> node_ledger n' = L \<and> keeps n n' \<and> n_db n' = n_db n"
  using assms(1,4)
proof (induction txs arbitrary: n)
  case (Cons tx txs)
  obtain L1 where L1: "exec_spec (nd_cfg N) (nd_cl N) (nd_now N) True tx (node_ledger n) = Inr L1"
    "exec_all (nd_cfg N) (nd_cl N) now skip txs L1 = Inr L"
    using Cons.prems(2) exec_spec_skip by (fastforce split: sum.splits)
  obtain n1 where n1: "executeTx N (nd_now N) True tx n = (Inr (), n1)" "ready n1" "node_ledger n1 = L1"
    using execute_node_run[OF Cons.prems(1) assms(2,3) L1(1)] by blast
  obtain n' where "replayTxs N txs n1 = (Inr (), n')" "ready n'" "node_ledger n' = L" "keeps n1 n'" "n_db n' = n_db n1"
    using Cons.IH[OF n1(2)] L1(2) n1(3) by auto
  then show ?case using n1(1) executeTx_frame[OF n1(1)] by (auto simp: bindS_def warn_def keeps_def)
qed (simp add: keeps_def)

lemma commit_node_run:
  assumes "ready n" and "stores_work N kv" and "ledger_supply (node_ledger n) = TOTAL_SUPPLY"
  shows "\<exists>n'. on_sm (CommitWithP0Verify (n_ops N) h) n = (Inr (), n') \<and> ready n'"
proof -
  have ok: "node_ok n" "validatorEvents (n_state n) = []" "usable N kv (n_db n)"
    using assms(1) node_usable by (simp_all add: ready_def)
  have wf: "sm_wf (\<lambda>D. sstore_wf (accEnv (nd_db N)) kv (stateStore D)) (n_state n)"
    using ok(1) by (simp add: node_ok_def sm_ok_def)
  obtain xs where xs: "st_all (n_ops N) (n_db n) = Inr xs" using assms(2) unfolding stores_work_def enumerable_def by blast
  obtain ds where ds: "dirty_list (n_state n) = Some ds" using dirty_list_wf[OF wf] by blast
  obtain D' where b: "st_batch_height (n_ops N) ds h (n_db n) = (Inr (), D')" "all_shards_open (stateStore D')"
    using assms(2) ok(3) unfolding stores_work_def by blast
  have "map_supply (accountMap xs (accountCache (n_state n))) = TOTAL_SUPPLY"
    using accounts.merged_view(2)[OF wf xs] assms(3) by (simp add: node_ledger_def)
  then have c: "on_sm (CommitWithP0Verify (n_ops N) h) n
      = (Inr (), n\<lparr>n_state := (n_state n)\<lparr>sm_db := D', totalSupplyTracker := TOTAL_SUPPLY, dirtyAccounts := []\<rparr>\<rparr>)"
    using xs ds b by (simp add: on_sm_def CommitWithP0Verify_def Let_def)
  then show ?thesis using commit_node_ok(2)[OF ok(1) c] ok(2) b(2) by (simp add: ready_def)
qed

end

text \<open>Executing blocks one after the other, each at its own time and with the supply check of its
  commit.\<close>

fun exec_blocks :: "ConsensusConfig \<Rightarrow> crypto_lib \<Rightarrow> bool \<Rightarrow> (i64 \<times> block) list \<Rightarrow> ledger \<Rightarrow> error + ledger" where
  "exec_blocks cfg cl skip [] L = Inr L"
| "exec_blocks cfg cl skip ((now, b) # bs) L = (case exec_all cfg cl now skip (BTransactions b) L of
     Inl e \<Rightarrow> Inl e
   | Inr L' \<Rightarrow> if ledger_supply L' = TOTAL_SUPPLY then exec_blocks cfg cl skip bs L' else Inl (SupplyMismatch (ledger_supply L')))"

text \<open>The block files answer reads, and hold \<open>b\<close> at height \<open>h\<close>.\<close>

definition blocks_readable :: "'d node_env \<Rightarrow> 'd node \<Rightarrow> bool" where
  "blocks_readable N n \<longleftrightarrow> faults (blockStore (n_db n)) = [] \<and> \<not> mu (blockStore (n_db n)) \<and> sint (VerifyBlockHash (Storage (nd_cfg N))) \<noteq> 1"

definition stored_block :: "'d node_env \<Rightarrow> (string \<rightharpoonup> bytes) \<Rightarrow> u64 \<Rightarrow> block \<Rightarrow> bool" where
  "stored_block N fs h b \<longleftrightarrow> block_at fs h = Some (blk_ToJSON (nd_db N) b) \<and> blk_FromJSON (nd_db N) (blk_ToJSON (nd_db N) b) = Some b"

lemma GetBlock_keeps:
  assumes "GetBlockByHeight E cfg cl h D = (r, D')"
  shows "\<exists>bs. D' = D\<lparr>blockStore := bs\<rparr> \<and> keeps_files (blockStore D) bs"
proof -
  let ?m = "if sint (VerifyBlockHash (Storage cfg)) = 1 then ReadBlockWithVerify cl h else ReadBlock h"
  obtain q bs where m: "?m (blockStore D) = (q, bs)" by (cases "?m (blockStore D)")
  have "steps_in keeps_files ?m" using keeps_ReadBlock keeps_ReadBlockWithVerify by simp
  with m have "keeps_files (blockStore D) bs" by (rule steps_inD[rotated])
  moreover have "D' = D\<lparr>blockStore := bs\<rparr>"
    using assms m by (auto simp: GetBlockByHeight_def bindS_def on_blocks_def split: sum.splits option.splits)
  ultimately show ?thesis by blast
qed

lemma get_block_keeps:
  assumes "on_db (GetBlockByHeight E cfg cl h) n = (r, n')"
  shows "keeps n n' \<and> n_pending n' = n_pending n \<and> n_vals n' = n_vals n \<and> stateStore (n_db n') = stateStore (n_db n) \<and> db (n_db n') = db (n_db n)
    \<and> accountCache (n_state n') = accountCache (n_state n) \<and> dirtyAccounts (n_state n') = dirtyAccounts (n_state n)
    \<and> validatorEvents (n_state n') = validatorEvents (n_state n) \<and> keeps_files (blockStore (n_db n)) (blockStore (n_db n'))"
  using assms GetBlock_keeps by (fastforce simp: on_db_eq keeps_def)

lemma get_block_run:
  assumes "blocks_readable N n" and "stored_block N (files (blockStore (n_db n))) h b"
  shows "\<exists>n'. on_db (GetBlockByHeight (nd_db N) (nd_cfg N) (nd_cl N) h) n = (Inr b, n')"
proof -
  have "fst (GetBlockByHeight (nd_db N) (nd_cfg N) (nd_cl N) h (n_db n)) = Inr b"
    using assms by (intro GetBlockByHeight_run) (simp_all add: blocks_readable_def stored_block_def)
  then show ?thesis by (metis on_db_eq prod.collapse)
qed

context node_ctx
begin

lemma get_block_ready:
  assumes "on_db (GetBlockByHeight E cfg cl h) n = (r, n')"
  shows "ready n' \<longleftrightarrow> ready n" "node_ok n' \<longleftrightarrow> node_ok n" "node_ledger n' = node_ledger n" "blocks_readable N n \<Longrightarrow> blocks_readable N n'"
  using get_block_keeps[OF assms] node_state_cong[of n' n] by (simp_all add: ready_def blocks_readable_def keeps_files_def)

lemma replay_block_run:
  assumes "ready n" and "stores_work N kv" and "0 \<le> sint (ActiveValidatorSet (Validators (nd_cfg N)))"
    and "blocks_readable N n" and "stored_block N (files (blockStore (n_db n))) h b"
    and "exec_all (nd_cfg N) (nd_cl N) now skip (BTransactions b) (node_ledger n) = Inr L" and "ledger_supply L = TOTAL_SUPPLY"
  shows "\<exists>n'. replayBlocks N (h # hs) n = replayBlocks N hs n' \<and> ready n' \<and> node_ledger n' = L \<and> keeps n n' \<and> blocks_readable N n'
    \<and> files (blockStore (n_db n')) = files (blockStore (n_db n))
    \<and> durable (\<lambda>D. shard_acct (accEnv (nd_db N)) kv (stateStore D)) (n_db n') = L \<and> GetStateHeight (stateStore (n_db n')) = Inr h"
proof -
  obtain n1 where n1: "on_db (GetBlockByHeight (nd_db N) (nd_cfg N) (nd_cl N) h) n = (Inr b, n1)"
    using get_block_run[OF assms(4,5)] by blast
  note g = get_block_ready[OF n1] get_block_keeps[OF n1]
  obtain n2 where n2: "replayTxs N (BTransactions b) n1 = (Inr (), n2)" "ready n2" "node_ledger n2 = L" "keeps n1 n2" "n_db n2 = n_db n1"
    using replay_txs_run[of n1 now skip "BTransactions b" L] g(1,3) assms(1-3,6) by auto
  obtain n3 where n3: "on_sm (CommitWithP0Verify (n_ops N) h) n2 = (Inr (), n3)" "ready n3"
    using commit_node_run[OF n2(2) assms(2)] n2(3) assms(7) by auto
  have "node_ok n2" using n2(2) by (simp add: ready_def)
  note c = commit_node_ok[OF this n3(1)]
  have "replayBlocks N (h # hs) n = replayBlocks N hs n3" using n1 n2(1) n3(1) by (simp add: bindS_def)
  then show ?thesis
    using c n2 n3(2) g(4,5) assms(4) by (intro exI[of _ n3]) (auto simp: keeps_def blocks_readable_def keeps_files_def)
qed

lemma replay_blocks_run:
  assumes "ready n" and "stores_work N kv" and "0 \<le> sint (ActiveValidatorSet (Validators (nd_cfg N)))" and "blocks_readable N n"
    and "list_all2 (\<lambda>h (now, b). stored_block N (files (blockStore (n_db n))) h b) hs tbs"
    and "exec_blocks (nd_cfg N) (nd_cl N) skip tbs (node_ledger n) = Inr L"
  shows "\<exists>n'. replayBlocks N hs n = (Inr (), n') \<and> ready n' \<and> node_ledger n' = L \<and> keeps n n'
    \<and> (hs \<noteq> [] \<longrightarrow> durable (\<lambda>D. shard_acct (accEnv (nd_db N)) kv (stateStore D)) (n_db n') = L \<and> GetStateHeight (stateStore (n_db n')) = Inr (last hs))"
  using assms(1,4-6)
proof (induction hs arbitrary: n tbs)
  case (Cons h hs)
  obtain now b tbs' where t: "tbs = (now, b) # tbs'" "stored_block N (files (blockStore (n_db n))) h b"
    "list_all2 (\<lambda>h (now, b). stored_block N (files (blockStore (n_db n))) h b) hs tbs'"
    using Cons.prems(3) by (cases tbs) auto
  obtain L1 where L1: "exec_all (nd_cfg N) (nd_cl N) now skip (BTransactions b) (node_ledger n) = Inr L1" "ledger_supply L1 = TOTAL_SUPPLY"
    "exec_blocks (nd_cfg N) (nd_cl N) skip tbs' L1 = Inr L"
    using Cons.prems(4) t(1) by (auto split: sum.splits if_splits)
  obtain n1 where n1: "replayBlocks N (h # hs) n = replayBlocks N hs n1" "ready n1" "node_ledger n1 = L1" "keeps n n1" "blocks_readable N n1"
    "files (blockStore (n_db n1)) = files (blockStore (n_db n))"
    "durable (\<lambda>D. shard_acct (accEnv (nd_db N)) kv (stateStore D)) (n_db n1) = L1" "GetStateHeight (stateStore (n_db n1)) = Inr h"
    using replay_block_run[OF Cons.prems(1) assms(2,3) Cons.prems(2) t(2) L1(1,2)] by blast
  show ?case
  proof (cases "hs = []")
    case True
    then have "tbs' = []" using t(3) by simp
    then show ?thesis using True n1 L1(3) by auto
  next
    case False
    obtain n' where "replayBlocks N hs n1 = (Inr (), n')" "ready n'" "node_ledger n' = L" "keeps n1 n'"
      "durable (\<lambda>D. shard_acct (accEnv (nd_db N)) kv (stateStore D)) (n_db n') = L" "GetStateHeight (stateStore (n_db n')) = Inr (last hs)"
      using Cons.IH[OF n1(2,5), of tbs'] t(3) L1(3) n1(3,6) False by auto
    then show ?thesis using n1(1,4) False by (auto simp: keeps_def)
  qed
qed (simp add: keeps_def)

end

lemma heights_up: "s < h \<Longrightarrow> heightsFromTo (s + 1) h \<noteq> []" "s < h \<Longrightarrow> last (heightsFromTo (s + 1) h) = h"
proof -
  assume "s < h"
  then have "unat (s + 1) \<le> unat h" by (metis inc_le word_le_nat_alt)
  then show "heightsFromTo (s + 1) h \<noteq> []" "last (heightsFromTo (s + 1) h) = h"
    by (simp_all add: heightsFromTo_def last_map)
qed

lemma delete_hangs_on_node:
  "\<exists>n'. on_db (db_DeleteBlocksAboveHeight E h) n = (Inl Deadlock, n') \<and> n_chain n' = n_chain n \<and> n_vals n' = n_vals n
     \<and> stateStore (n_db n') = stateStore (n_db n) \<and> accountCache (n_state n') = accountCache (n_state n)"
proof -
  obtain bs where "DeleteBlocksAboveHeight h (blockStore (n_db n)) = (Inl Deadlock, bs)"
    using delete_hangs[of h "blockStore (n_db n)"] by (metis prod.collapse)
  then have "db_DeleteBlocksAboveHeight E h (n_db n) = (Inl Deadlock, (n_db n)\<lparr>blockStore := bs\<rparr>)"
    by (simp add: db_DeleteBlocksAboveHeight_def on_blocks_def)
  then show ?thesis by (simp add: on_db_def on_sm_def)
qed

section \<open>Claims\<close>


lemma initialize_at_checkpoint:
  assumes "GetLatestCheckpoint (nd_cp N) (nd_fails N) (n_checkpoints n) = (Inr (Some cp), acts)"
    and "blocks_readable N n" and "stored_block N (files (blockStore (n_db n))) (CPHeight cp) b"
  shows "\<exists>n1 n2. InitializeBlockchain N n = (Inr (), n2\<lparr>n_chain := bc_Initialize b (n_chain n2)\<rparr>)
    \<and> on_db (GetBlockByHeight (nd_db N) (nd_cfg N) (nd_cl N) (CPHeight cp)) n1 = (Inr b, n2) \<and> n_state n1 = n_state n
    \<and> (CPValidators cp = [] \<longrightarrow> n_vals n1 = n_vals n)"
proof -
  let ?n1 = "loadCheckpointValidators N cp (n\<lparr>n_checkpoints := apply_actions acts (n_checkpoints n)\<rparr>)"
  have st: "n_state ?n1 = n_state n" by (simp add: loadCheckpointValidators_def)
  then obtain n2 where "on_db (GetBlockByHeight (nd_db N) (nd_cfg N) (nd_cl N) (CPHeight cp)) ?n1 = (Inr b, n2)"
    using get_block_run[of N ?n1 "CPHeight cp" b] assms(2,3) by (auto simp: blocks_readable_def)
  then show ?thesis
    using assms(1) st
    by (intro exI[of _ ?n1] exI[of _ n2]) (simp add: InitializeBlockchain_def latestCheckpoint_def on_files_def loadCheckpointValidators_def)
qed

text \<open>A node that crashed between saving a block and committing it restarts with its tip behind its
  state: the tip is the block of the checkpoint, and the replay does not move it, while the account
  store already contains the transactions of the blocks above it. The next block the node produces
  or receives for the height above the tip is executed on top of them.\<close>

theorem restart_leaves_tip_behind:
  assumes "node_ctx N kv" and "node_ctx.ready N kv n" and "stores_work N kv" and "blocks_readable N n"
    and "0 \<le> sint (ActiveValidatorSet (Validators (nd_cfg N)))"
    and "GetLatestCheckpoint (nd_cp N) (nd_fails N) (n_checkpoints n) = (Inr (Some cp), acts)"
    and "stored_block N (files (blockStore (n_db n))) (CPHeight cp) b" and "Height (Header b) = CPHeight cp"
    and "GetLatestHeight (nd_db N) (n_db n) = Inr h" and "GetStateHeight (stateStore (n_db n)) = Inr (CPHeight cp)"
    and "0 < CPHeight cp" and "CPHeight cp < h"
    and "list_all2 (\<lambda>k (now, b). stored_block N (files (blockStore (n_db n))) k b) (heightsFromTo (CPHeight cp + 1) h) tbs"
    and "exec_blocks (nd_cfg N) (nd_cl N) False tbs (node_ctx.node_ledger N kv n) = Inr L"
  shows "\<exists>n'. bindS (InitializeBlockchain N) (\<lambda>_. RecoverStateIfNeeded N) n = (Inr (), n')
    \<and> latestBlock (n_chain n') = Some b \<and> latestHeight (n_chain n') = CPHeight cp
    \<and> node_ctx.node_ledger N kv n' = L \<and> GetStateHeight (stateStore (n_db n')) = Inr h"
proof -
  obtain n1 n2 where i: "InitializeBlockchain N n = (Inr (), n2\<lparr>n_chain := bc_Initialize b (n_chain n2)\<rparr>)" (is "_ = (_, ?n3)")
    and g: "on_db (GetBlockByHeight (nd_db N) (nd_cfg N) (nd_cl N) (CPHeight cp)) n1 = (Inr b, n2)" and st: "n_state n1 = n_state n"
    using initialize_at_checkpoint[OF assms(6,4,7)] by blast
  note K = get_block_keeps[OF g]
  have fs: "files (blockStore (n_db ?n3)) = files (blockStore (n_db n))" using K st by (simp add: keeps_files_def)
  have rd: "node_ctx.ready N kv ?n3" "node_ctx.node_ledger N kv ?n3 = node_ctx.node_ledger N kv n"
    using node_ctx.node_state_cong[OF assms(1), of ?n3 n] K st assms(2) by (simp_all add: node_ctx.ready_def[OF assms(1)])
  have br: "blocks_readable N ?n3" using K st assms(4) by (simp add: blocks_readable_def keeps_files_def)
  have h: "GetLatestHeight (nd_db N) (n_db ?n3) = Inr h" using assms(9) K st by (simp add: GetLatestHeight_def)
  have s: "GetStateHeight (stateStore (n_db ?n3)) = Inr (CPHeight cp)" using assms(10) K st by simp
  have hs: "heightsFromTo (CPHeight cp + 1) h \<noteq> []" "last (heightsFromTo (CPHeight cp + 1) h) = h"
    using assms(12) by (simp_all add: heights_up)
  obtain n' where r: "replayBlocks N (heightsFromTo (CPHeight cp + 1) h) ?n3 = (Inr (), n')" "node_ctx.node_ledger N kv n' = L"
    "keeps ?n3 n'" "GetStateHeight (stateStore (n_db n')) = Inr h"
    using node_ctx.replay_blocks_run[OF assms(1) rd(1) assms(3,5) br assms(13)[folded fs] assms(14)[folded rd(2)]] hs by auto
  have "RecoverStateIfNeeded N ?n3 = (Inr (), n')" using h s assms(11,12) r(1) by (auto simp: RecoverStateIfNeeded_def)
  then show ?thesis using i r assms(8) by (auto simp: bindS_def keeps_def bc_Initialize_def)
qed

text \<open>A node that was restarted cannot append. After a clean start from a checkpoint (block files,
  account store and checkpoint agree), no production of a block in the chunk of the checkpoint
  block succeeds, although every store works: reading the checkpoint block left read-only handles
  in the block store, and \<^verbatim>\<open>SaveBlock\<close> fails on them.\<close>

theorem restarted_node_cannot_append:
  assumes "node_ctx N kv" and "node_ctx.node_ok N kv n" and "blocks_readable N n"
    and "datFiles (blockStore (n_db n)) = []" and "idxFiles (blockStore (n_db n)) = []"
    and "GetLatestCheckpoint (nd_cp N) (nd_fails N) (n_checkpoints n) = (Inr (Some cp), acts)"
    and "stored_block N (files (blockStore (n_db n))) (CPHeight cp) b" and "0 < CPHeight cp"
    and "GetLatestHeight (nd_db N) (n_db n) = Inr (CPHeight cp)" and "GetStateHeight (stateStore (n_db n)) = Inr (CPHeight cp)"
    and "startNode N n = (Inr (), n')" and "getChunkStart h = getChunkStart (CPHeight cp)"
  shows "fst (produceBlock N h prev n') \<noteq> Inr ()"
proof
  assume p: "fst (produceBlock N h prev n') = Inr ()"
  obtain n1 n2 where i: "InitializeBlockchain N n = (Inr (), n2\<lparr>n_chain := bc_Initialize b (n_chain n2)\<rparr>)" (is "_ = (_, ?n3)")
    and g: "on_db (GetBlockByHeight (nd_db N) (nd_cfg N) (nd_cl N) (CPHeight cp)) n1 = (Inr b, n2)" and st: "n_state n1 = n_state n"
    using initialize_at_checkpoint[OF assms(6,3,7)] by blast
  note K = get_block_keeps[OF g]
  have "RecoverStateIfNeeded N ?n3 = (Inr (), ?n3)"
    using assms(8-10) K st by (auto simp: RecoverStateIfNeeded_def GetLatestHeight_def)
  then have v: "InitializeValidators N ?n3 = (Inr (), n')" using assms(11) i by (simp add: startNode_def bindS_def)
  then have s': "n_state n' = n_state n2" by (auto simp: InitializeValidators_def split: if_splits prod.splits sum.splits)
  then have ok: "node_ctx.node_ok N kv n'" using node_ctx.node_state_cong(1)[OF assms(1), of n' n] K st assms(2) by simp
  obtain q where q: "produceBlock N h prev n' = (Inr (), q)" using p by (metis prod.collapse)
  obtain c n4 n5 where q4: "node_ctx.quiet N kv n' n4" and a: "applyBlock N h c n4 = (Inr (), n5)" and bb: "buildBlock N h prev n' = (Inr c, n4)"
    using node_ctx.produce_block_steps[OF assms(1) q ok] by blast
  have h: "Height (Header c) = h" using node_ctx.build_block[OF assms(1) bb] by simp
  have ok4: "node_ctx.node_ok N kv n4" "n_db n4 = n_db n2" using q4 ok s' by (auto simp: node_ctx.quiet_def[OF assms(1)])
  from node_ctx.apply_block_ok(8)[OF assms(1) ok4(1) a h] ok4(2)
  have w: "WriteBlock (nd_cl N) h (blk_ToJSON (nd_db N) c) (blockStore (n_db n2)) = (Inr (), blockStore (n_db n5))" by simp
  obtain d where rd: "ReadBlock (CPHeight cp) (blockStore (n_db n)) = (Inr d, blockStore (n_db n2))"
    using g st assms(3) by (auto simp: on_db_eq GetBlockByHeight_def bindS_Inr_iff on_blocks_def blocks_readable_def split: prod.splits option.splits)
  have "faults (blockStore (n_db n)) = []" using assms(3) by (simp add: blocks_readable_def)
  from read_disables_writes[OF assms(4,5) this rd assms(12), of "nd_cl N" "blk_ToJSON (nd_db N) c"] w show False by simp
qed

text \<open>A reorganization never succeeds. With the rollback target on disk and its hash matching, it hangs
  while deleting the abandoned blocks and the lock stays taken; otherwise it returns an error. The
  tip, the accounts and the validator set are untouched in every case.\<close>

theorem reorganization_never_succeeds:
  assumes "PerformChainReorganization N h b n = (r, n')"
  shows "r \<noteq> Inr () \<and> n_chain n' = n_chain n \<and> n_vals n' = n_vals n \<and> stateStore (n_db n') = stateStore (n_db n)
    \<and> accountCache (n_state n') = accountCache (n_state n)
    \<and> (blocks_readable N n \<and> stored_block N (files (blockStore (n_db n))) h t \<and> Block_Hash (nd_cl N) t = PreviousHash (Header b)
        \<longrightarrow> r = Inl Deadlock)"
proof -
  obtain q n1 where g: "on_db (GetBlockByHeight (nd_db N) (nd_cfg N) (nd_cl N) h) n = (q, n1)"
    by (cases "on_db (GetBlockByHeight (nd_db N) (nd_cfg N) (nd_cl N) h) n")
  note K = get_block_keeps[OF g]
  obtain n2 where d: "on_db (db_DeleteBlocksAboveHeight (nd_db N) h) n1 = (Inl Deadlock, n2)" "n_chain n2 = n_chain n1" "n_vals n2 = n_vals n1"
    "stateStore (n_db n2) = stateStore (n_db n1)" "accountCache (n_state n2) = accountCache (n_state n1)"
    using delete_hangs_on_node by blast
  have "(\<exists>e. r = Inl e \<and> n' = n1) \<or> r = Inl Deadlock \<and> n' = n2"
    using assms g d(1) by (auto simp: PerformChainReorganization_def bindS_def split: sum.splits if_splits)
  then have "r \<noteq> Inr () \<and> n_chain n' = n_chain n \<and> n_vals n' = n_vals n \<and> stateStore (n_db n') = stateStore (n_db n)
    \<and> accountCache (n_state n') = accountCache (n_state n)"
    using K d(2-5) by (auto simp: keeps_def)
  moreover have "r = Inl Deadlock"
    if "blocks_readable N n" "stored_block N (files (blockStore (n_db n))) h t" "Block_Hash (nd_cl N) t = PreviousHash (Header b)"
    using assms get_block_run[OF that(1,2)] that(3) g d(1) by (auto simp: PerformChainReorganization_def bindS_def)
  ultimately show ?thesis by blast
qed

section \<open>A crash and two restarts\<close>

text \<open>The disk of the demonstration node after it committed block 1 and crashed: with \<open>k = 2\<close> the
  block above was saved and not committed. No file is open.\<close>

definition demo_disk :: "u64 \<Rightarrow> ref_db Database \<Rightarrow> bool" where
  "demo_disk k D \<longleftrightarrow> faults (blockStore D) = [] \<and> \<not> mu (blockStore D) \<and> datFiles (blockStore D) = [] \<and> idxFiles (blockStore D) = []
     \<and> stored_block demo_prod_env (files (blockStore D)) 1 (demo_empty_block 1)
     \<and> (k = 2 \<longrightarrow> stored_block demo_prod_env (files (blockStore D)) 2 (demo_empty_block 2))
     \<and> GetLatestHeight demo_db_env D = Inr k \<and> stateStore D = ref_sstore\<lparr>state_height := Some (be_put64 1)\<rparr>"

lemma demo_block_facts [simp]: "Height (Header (demo_empty_block h)) = h" "BTransactions (demo_empty_block h) = []"
    "ref_blk_FromJSON (ref_blk_ToJSON (demo_empty_block h)) = Some (demo_empty_block h)"
  by (simp_all add: ref_blk_roundtrip demo_empty_block_def demo_header_def Let_def)

lemma demo_block_size: "ref_blk_ToJSON (demo_empty_block h) \<noteq> [] \<and> length (ref_blk_ToJSON (demo_empty_block h)) < 2 ^ 20"
  by (simp add: ref_blk_ToJSON_def demo_empty_block_def demo_header_def Let_def Header_SignData_def Block_Hash_def demo_genesis_def
      CreateGenesisBlock_def CalculateHash_def demo_crypto_def demo_digest_def Uint64ToBytes_def)

lemma demo_save:
  fixes D :: "ref_db Database"
  assumes "writable (blockStore D)" and "faults (blockStore D) = []" and "\<not> mu (blockStore D)"
    and "length (chunk_content (blockStore D) Dat (getChunkStart h)) < 2 ^ 30"
  shows "\<exists>D'. writable (blockStore D') \<and> faults (blockStore D') = [] \<and> \<not> mu (blockStore D') \<and> stateStore D' = stateStore D
    \<and> GetLatestHeight demo_db_env D' = Inr h \<and> stored_block demo_prod_env (files (blockStore D')) h (demo_empty_block h)
    \<and> (\<forall>k b. k \<noteq> h \<and> stored_block demo_prod_env (files (blockStore D)) k b \<longrightarrow> stored_block demo_prod_env (files (blockStore D')) k b)
    \<and> chunk_content (blockStore D') Dat (getChunkStart h) = chunk_content (blockStore D) Dat (getChunkStart h)
        @ ref_blk_ToJSON (demo_empty_block h) @ sha3_256 demo_crypto (ref_blk_ToJSON (demo_empty_block h))"
proof -
  let ?d = "ref_blk_ToJSON (demo_empty_block h)"
  obtain bs where w: "WriteBlock demo_crypto h ?d (blockStore D) = (Inr (), bs)" "writable bs" "faults bs = []" "\<not> mu bs"
    using WriteBlock_run[OF assms(1-3)] by blast
  obtain D' where s: "SaveBlock demo_db_env demo_crypto (demo_empty_block h) D = (Inr (), D')"
    using demo_save_run[of demo_crypto "demo_empty_block h" D bs] w(1) by auto
  note S = demo_db.SaveBlock_ok[OF s]
  have bs: "blockStore D' = bs" using S(1) w(1) by simp
  have fits: "block_fits h ?d (blockStore D)" using demo_block_size[of h] assms(4) by (simp add: block_fits_def)
  have "GetLatestHeight demo_db_env D' = Inr h"
    using S(3) be_get64_put64[of h "[]"] by (simp add: GetLatestHeight_def ref_get)
  moreover have "chunk_content bs Dat (getChunkStart h) = chunk_content (blockStore D) Dat (getChunkStart h) @ ?d @ sha3_256 demo_crypto ?d"
    using WriteBlock_ok(1)[OF w(1)] by (simp add: chunk_content_def)
  ultimately show ?thesis
    using w bs S(2) flat.written[OF w(1) fits] flat.kept[OF w(1)] by (intro exI[of _ D']) (auto simp: stored_block_def)
qed

lemma demo_disk_exists: "k \<in> {1, 2} \<Longrightarrow> \<exists>D. demo_disk k D"
proof -
  assume k: "k \<in> {1, 2}"
  let ?D0 = "demo_database\<lparr>stateStore := ref_sstore\<lparr>state_height := Some (be_put64 1)\<rparr>\<rparr>"
  have c: "getChunkStart 2 = getChunkStart (1 :: u64)" by (simp add: getChunkStart_def ChunkSize_def)
  obtain D1 where 1: "writable (blockStore D1)" "faults (blockStore D1) = []" "\<not> mu (blockStore D1)" "stateStore D1 = stateStore ?D0"
    "GetLatestHeight demo_db_env D1 = Inr 1" "stored_block demo_prod_env (files (blockStore D1)) 1 (demo_empty_block 1)"
    "chunk_content (blockStore D1) Dat (getChunkStart 1) = ref_blk_ToJSON (demo_empty_block 1) @ sha3_256 demo_crypto (ref_blk_ToJSON (demo_empty_block 1))"
    using demo_save[of ?D0 1] by (auto simp: demo_database_def)
  have "length (chunk_content (blockStore D1) Dat (getChunkStart 2)) < 2 ^ 30"
    using demo_block_size[of 1] by (simp add: c 1(7) demo_crypto_def demo_digest_def)
  then obtain D2 where 2: "faults (blockStore D2) = []" "\<not> mu (blockStore D2)" "stateStore D2 = stateStore ?D0"
    "GetLatestHeight demo_db_env D2 = Inr 2" "stored_block demo_prod_env (files (blockStore D2)) 2 (demo_empty_block 2)"
    "stored_block demo_prod_env (files (blockStore D2)) 1 (demo_empty_block 1)"
    using demo_save[OF 1(1-3), of 2] 1(4,6) by auto
  let ?close = "\<lambda>D. D\<lparr>blockStore := (blockStore D)\<lparr>datFiles := [], idxFiles := []\<rparr>\<rparr> :: ref_db Database"
  have "demo_disk 1 (?close D1)" "demo_disk 2 (?close D2)"
    using 1 2 by (simp_all add: demo_disk_def files_def GetLatestHeight_def demo_database_def)
  then show ?thesis using k by blast
qed

definition demo_restart :: "ref_db Database \<Rightarrow> ref_db node" where
  "demo_restart D = (demo_node [])\<lparr>n_state := (n_state (demo_node []))\<lparr>sm_db := D\<rparr>, n_checkpoints := Map.empty(latestFile \<mapsto> be_put64 1)\<rparr>"

lemma demo_stores_work: "stores_work demo_prod_env ref_kv"
proof -
  have "\<exists>x. SS_GetAccount ref_env s a = Inr x" if s: "sstore_wf ref_env ref_kv s" "all_shards_open s" for s a
  proof -
    obtain d where d: "map_of (shards s) (getShardKey a) = Some d"
      using s(2) getShardKey_charset[of a] by (auto simp: all_shards_open_def)
    then have "shard_ok ref_env (getShardKey a) (ref_kv d)" using s(1) by (simp add: sstore_wf_def)
    then have "\<exists>x. acc_FromJSON ref_env v = Some x" if "ref_kv d (string_bytes a) = Some v" for v
      using that unfolding shard_ok_def by blast
    then show ?thesis using d
      by (cases "ref_kv d (string_bytes a)") (auto simp: SS_GetAccount_def getShard_def ref_get)
  qed
  moreover have "\<exists>D'. on_state (SaveAccountsBatchWithHeight ref_env accs h) D = (Inr (), D') \<and> all_shards_open (stateStore D')"
    if "all_shards_open (stateStore D)" for D :: "ref_db Database" and accs h
    using ref_batch_height_ok[OF that, of accs h] by (auto simp: on_state_def)
  ultimately show ?thesis
    using demo_enumerable by (auto simp: stores_work_def usable_def database_ops_def)
qed

lemma demo_restart_facts:
  assumes "demo_disk k D"
  shows "demo_prod.ready (demo_restart D)" "blocks_readable demo_prod_env (demo_restart D)" "n_db (demo_restart D) = D"
    "demo_prod.node_ledger (demo_restart D) = demo_node.node_ledger (demo_node [])"
    "GetStateHeight (stateStore D) = Inr 1"
    "GetLatestCheckpoint demo_cp_codec (\<lambda>_. None) (n_checkpoints (demo_restart D)) = (Inr (Some (demo_cp 1)), [])"
proof -
  have D: "stateStore D = ref_sstore\<lparr>state_height := Some (be_put64 1)\<rparr>" using assms by (simp add: demo_disk_def)
  have "shard_acct E kv (s\<lparr>state_height := x\<rparr>) = shard_acct E kv s" for E kv x and s :: "ref_db sstore"
    by (simp add: shard_acct_def fun_eq_iff)
  then have same: "sstore_wf ref_env ref_kv (stateStore D) = sstore_wf ref_env ref_kv ref_sstore"
    "shard_acct ref_env ref_kv (stateStore D) = shard_acct ref_env ref_kv ref_sstore" "all_shards_open (stateStore D)"
    using ref_sstore_open by (simp_all add: D sstore_wf_def all_shards_open_def del: ref_sstore_open)
  have "demo_node.node_ok (demo_restart D)"
    using same by (auto simp: demo_node.node_ok_def sm_ok_def sm_wf_def coherent_upto_def demo_restart_def demo_node_def NewStateManager_def
      UpdateAccount_def goset_insert_def gomap_wf_def)
  then show "demo_prod.ready (demo_restart D)"
    using same(3) by (simp add: demo_prod.ready_def demo_restart_def demo_node_def NewStateManager_def UpdateAccount_def)
  show "demo_prod.node_ledger (demo_restart D) = demo_node.node_ledger (demo_node [])"
    using same(2) by (simp add: demo_node.node_ledger_def ledger_def view_def demo_restart_def fun_eq_iff demo_node_parts demo_database_def map_add_def split: option.split)
  show "n_db (demo_restart D) = D" by (simp add: demo_restart_def)
  then show "blocks_readable demo_prod_env (demo_restart D)"
    using assms by (simp add: blocks_readable_def demo_disk_def shipped_config_def)
  show "GetStateHeight (stateStore D) = Inr 1" using be_get64_put64[of 1 "[]"] by (simp add: D GetStateHeight_def)
  show "GetLatestCheckpoint demo_cp_codec (\<lambda>_. None) (n_checkpoints (demo_restart D)) = (Inr (Some (demo_cp 1)), [])"
    by (simp add: GetLatestCheckpoint_def recoverCheckpointTransaction_def demo_restart_def tempFile_def latestFile_def)
qed

lemma demo_replay_spec:
  "exec_blocks shipped_config demo_crypto False [(t, demo_empty_block h)] (demo_node.node_ledger (demo_node []))
     = Inr (demo_node.node_ledger (demo_node []))"
  by (simp add: demo_node_supply)

lemma demo_heights: "heightsFromTo 2 2 = [2]"
  by (simp add: heightsFromTo_def)

lemma demo_active_size: "0 \<le> sint (ActiveValidatorSet (Validators shipped_config))"
  by (simp add: shipped_config_def setDefault_def)


theorem restart_leaves_tip_behind_witness:
  "\<exists>n n'. bindS (InitializeBlockchain demo_prod_env) (\<lambda>_. RecoverStateIfNeeded demo_prod_env) n = (Inr (), n')
     \<and> latestHeight (n_chain n') = 1 \<and> GetStateHeight (stateStore (n_db n')) = Inr 2"
proof -
  obtain D where D: "demo_disk 2 D" using demo_disk_exists by blast
  note F = demo_restart_facts[OF D]
  have cp: "CPHeight (demo_cp 1) = 1" by (simp add: demo_cp_def NewCheckpoint_def)
  have l: "list_all2 (\<lambda>k (now, b). stored_block demo_prod_env (files (blockStore (n_db (demo_restart D)))) k b)
      (heightsFromTo (CPHeight (demo_cp 1) + 1) 2) [(0, demo_empty_block 2)]"
    using D F(3) cp demo_heights by (simp add: demo_disk_def)
  have g: "GetLatestHeight (nd_db demo_prod_env) (n_db (demo_restart D)) = Inr 2" "GetStateHeight (stateStore (n_db (demo_restart D))) = Inr (CPHeight (demo_cp 1))"
    "stored_block demo_prod_env (files (blockStore (n_db (demo_restart D)))) (CPHeight (demo_cp 1)) (demo_empty_block 1)"
    using D F cp by (simp_all add: demo_disk_def)
  have x: "exec_blocks (nd_cfg demo_prod_env) (nd_cl demo_prod_env) False [(0, demo_empty_block 2)] (demo_prod.node_ledger (demo_restart D))
      = Inr (demo_node.node_ledger (demo_node []))"
    using demo_replay_spec F(4) by simp
  have a: "0 \<le> sint (ActiveValidatorSet (Validators (nd_cfg demo_prod_env)))" using demo_active_size by simp
  have c: "GetLatestCheckpoint (nd_cp demo_prod_env) (nd_fails demo_prod_env) (n_checkpoints (demo_restart D)) = (Inr (Some (demo_cp 1)), [])"
    using F(6) by simp
  from restart_leaves_tip_behind[OF demo_prod.node_ctx_axioms F(1) demo_stores_work F(2) a c g(3) _ g(1,2) _ _ l x] cp
  show ?thesis by auto
qed

theorem restarted_node_cannot_append_witness:
  "\<exists>n n'. startNode demo_prod_env n = (Inr (), n') \<and> latestHeight (n_chain n') = 1 \<and> fst (produceBlock demo_prod_env 2 (demo_empty_block 1) n') \<noteq> Inr ()"
proof -
  obtain D where D: "demo_disk 1 D" using demo_disk_exists by blast
  note F = demo_restart_facts[OF D]
  let ?n = "demo_restart D"
  have cp: "CPHeight (demo_cp 1) = 1" by (simp add: demo_cp_def NewCheckpoint_def)
  have g: "GetLatestHeight (nd_db demo_prod_env) (n_db ?n) = Inr (CPHeight (demo_cp 1))" "GetStateHeight (stateStore (n_db ?n)) = Inr (CPHeight (demo_cp 1))"
    "stored_block demo_prod_env (files (blockStore (n_db ?n))) (CPHeight (demo_cp 1)) (demo_empty_block 1)"
    using D F cp by (simp_all add: demo_disk_def)
  have c: "GetLatestCheckpoint (nd_cp demo_prod_env) (nd_fails demo_prod_env) (n_checkpoints ?n) = (Inr (Some (demo_cp 1)), [])"
    using F(6) by simp
  have ok: "demo_prod.node_ok ?n" using F(1) by (simp add: demo_prod.ready_def)
  have h: "datFiles (blockStore (n_db ?n)) = []" "idxFiles (blockStore (n_db ?n)) = []" using D F(3) by (simp_all add: demo_disk_def)
  obtain n1 n2 where i: "InitializeBlockchain demo_prod_env ?n = (Inr (), n2\<lparr>n_chain := bc_Initialize (demo_empty_block 1) (n_chain n2)\<rparr>)"
      (is "_ = (_, ?n3)")
    and gb: "on_db (GetBlockByHeight (nd_db demo_prod_env) (nd_cfg demo_prod_env) (nd_cl demo_prod_env) (CPHeight (demo_cp 1))) n1
      = (Inr (demo_empty_block 1), n2)" and st: "n_state n1 = n_state ?n" and v: "n_vals n1 = n_vals ?n"
    using initialize_at_checkpoint[OF c F(2) g(3)] by (auto simp: demo_cp_def NewCheckpoint_def)
  note K = get_block_keeps[OF gb]
  have "RecoverStateIfNeeded demo_prod_env ?n3 = (Inr (), ?n3)"
    using K st g(1,2) cp by (simp add: RecoverStateIfNeeded_def GetLatestHeight_def)
  moreover have "InitializeValidators demo_prod_env ?n3 = (Inr (), ?n3)"
    using K v by (simp add: InitializeValidators_def demo_restart_def demo_node_def)
  ultimately have s: "startNode demo_prod_env ?n = (Inr (), ?n3)" "latestHeight (n_chain ?n3) = 1"
    using i by (simp_all add: startNode_def bindS_def bc_Initialize_def)
  have "getChunkStart 2 = getChunkStart (CPHeight (demo_cp 1))" by (simp add: cp getChunkStart_def ChunkSize_def)
  from restarted_node_cannot_append[OF demo_prod.node_ctx_axioms ok F(2) h c g(3) _ g(1,2) s(1) this] s cp show ?thesis
    by (intro exI[of _ ?n] exI[of _ ?n3]) simp
qed

definition demo_child :: block where
  "demo_child = NewBlock demo_crypto 1700000020000 2 (Block_Hash demo_crypto (demo_empty_block 1)) GenesisAddress []"

theorem reorganization_never_succeeds_witness:
  "\<exists>n n'. PerformChainReorganization demo_prod_env 1 demo_child n = (Inl Deadlock, n')"
proof -
  obtain D where D: "demo_disk 1 D" using demo_disk_exists by blast
  note F = demo_restart_facts[OF D]
  obtain r n' where p: "PerformChainReorganization demo_prod_env 1 demo_child (demo_restart D) = (r, n')"
    by (cases "PerformChainReorganization demo_prod_env 1 demo_child (demo_restart D)")
  have "stored_block demo_prod_env (files (blockStore (n_db (demo_restart D)))) 1 (demo_empty_block 1)"
    using D F(3) by (simp add: demo_disk_def)
  then have "r = Inl Deadlock"
    using reorganization_never_succeeds[OF p, of "demo_empty_block 1"] F(2) by (simp add: demo_child_def NewBlock_def)
  with p show ?thesis by blast
qed

end
