(* ===== verification/Node_Sync.thy ===== *)
theory Node_Sync
  imports Node_Recovery
begin

text \<open>
  What a node does with data from its peers: the callbacks that \<^verbatim>\<open>InitializeP2P\<close> (\<^verbatim>\<open>node_network.go\<close>)
  hands to the peer-to-peer server, and the application of checkpoints and state snapshots.
  The flag \<^verbatim>\<open>needSyncCheckpointBlock\<close> is written and never read, and \<^verbatim>\<open>needCheckpointBlock\<close> is never
  set, so neither is part of the state.

  Lemmas: a block accepted from a peer is executed, committed, linked and saved; a block that fails
  half-way through its transactions leaves the first half in the ledger; a block that does not fit
  the chain is committed to the account store before it is refused, when it comes as a historical
  block; a checkpoint is accepted whatever its signature, a snapshot whatever its state root.
\<close>

section \<open>Blocks from peers\<close>

text \<open>The errors whose text contains \<^verbatim>\<open>invalid height\<close> or \<^verbatim>\<open>invalid previous hash\<close>.\<close>

fun mentionsHeight :: "error \<Rightarrow> bool" where
  "mentionsHeight (InvalidHeight _ _) \<longleftrightarrow> True"
| "mentionsHeight (InvalidBlock e) \<longleftrightarrow> mentionsHeight e"
| "mentionsHeight _ \<longleftrightarrow> False"

fun mentionsPrevHash :: "error \<Rightarrow> bool" where
  "mentionsPrevHash InvalidPrevHash \<longleftrightarrow> True"
| "mentionsPrevHash (InvalidBlock e) \<longleftrightarrow> mentionsPrevHash e"
| "mentionsPrevHash _ \<longleftrightarrow> False"

text \<open>Execution, commit, linking and saving, in this order and without a snapshot to return to.\<close>

definition acceptBlock :: "'d node_env \<Rightarrow> bool \<Rightarrow> block \<Rightarrow> ('d node, unit) step" where
  "acceptBlock N skipTimestamp b =
     bindS (executeAll N (nd_now N) True (BTransactions b)) (\<lambda>_.
     bindS (on_sm (CommitWithP0Verify (n_ops N) (Height (Header b)))) (\<lambda>_.
     bindS (on_chain (AddBlockWithOptions (nd_cfg N) (nd_cl N) (nd_now2 N) b skipTimestamp)) (\<lambda>_.
       on_db (SaveBlock (nd_db N) (nd_cl N) b))))"

definition addBlock :: "'d node_env \<Rightarrow> block \<Rightarrow> ('d node, unit) step" where
  "addBlock N b n =
     (if Height (Header b) = 0 then (Inr (), n)
      else case ValidateBlock (nd_cfg N) (nd_cl N) (nd_now N) b (n_chain n) of
        Inl e \<Rightarrow>
          if mentionsHeight e then
            (case on_db (SaveBlock (nd_db N) (nd_cl N) b) n of
               (Inl x, n') \<Rightarrow> (Inl (if fatal x then x else e), n')
             | (Inr _, n') \<Rightarrow> (Inl e, n'))
          else (Inl e, n)
      | Inr _ \<Rightarrow> acceptBlock N False b n)"

definition addBlockSkipTimestamp :: "'d node_env \<Rightarrow> block \<Rightarrow> ('d node, unit) step" where
  "addBlockSkipTimestamp N b = (if Height (Header b) = 0 then Pair (Inr ()) else acceptBlock N True b)"

definition saveBlockOnly :: "'d node_env \<Rightarrow> block \<Rightarrow> ('d node, unit) step" where
  "saveBlockOnly N b = on_db (SaveBlockForBackfill (nd_db N) (nd_cl N) b)"

definition replaceForkedBlock :: "'d node_env \<Rightarrow> block \<Rightarrow> ('d node, unit) step" where
  "replaceForkedBlock N b n =
     (case on_db (GetBlockByHeight (nd_db N) (nd_cfg N) (nd_cl N) (Height (Header b))) n of
        (Inl e, n1) \<Rightarrow> if fatal e then (Inl e, n1) else on_db (SaveBlock (nd_db N) (nd_cl N) b) n1
      | (Inr localBlock, n1) \<Rightarrow>
          if Block_Hash (nd_cl N) localBlock = Block_Hash (nd_cl N) b then (Inr (), n1)
          else on_db (SaveBlock (nd_db N) (nd_cl N) b) n1)"

definition verifyProposer :: "'d node_env \<Rightarrow> u64 \<Rightarrow> block \<Rightarrow> ('d node, string) step" where
  "verifyProposer N height prevBlock =
     bindS (\<lambda>n. if activeValidators (n_vals n) = []
         then (case LoadFromState (n_ops N) (nd_cfg N) (nd_now_s N) (n_db n) (n_vals n) of
            (Inl e, vs) \<Rightarrow> (Inl e, n\<lparr>n_vals := vs\<rparr>)
          | (Inr _, vs) \<Rightarrow> (case UpdateActiveSet (nd_cfg N) (nd_now_s N) vs of (r, vs') \<Rightarrow> (r, n\<lparr>n_vals := vs'\<rparr>)))
         else (Inr (), n)) (\<lambda>_.
       lift_result (\<lambda>n. SelectProposer (nd_cfg N) (nd_cl N) height (Block_Hash (nd_cl N) prevBlock) (n_vals n)))"

definition getProposerStake :: "'d node_env \<Rightarrow> string \<Rightarrow> ('d node, u64) step" where
  "getProposerStake N address n = (case on_sm (State_Manager.GetAccount (n_ops N) address) n of
     (Inl e, n') \<Rightarrow> (case slice_to 10 address of Inl x \<Rightarrow> (Inl x, n') | Inr _ \<Rightarrow> (Inr 0, n'))
   | (Inr acc, n') \<Rightarrow> (Inr (StakedBalance acc), n'))"

section \<open>Checkpoints from peers\<close>

text \<open>The checkpoint is a pointer, which a peer can leave out.\<close>

record CheckpointInfo =
  CICheckpoint :: "Checkpoint option"
  HasStateData :: bool
  CompressedSize :: u64

definition getLatestCheckpoints :: "'d node_env \<Rightarrow> int \<Rightarrow> ('d node, CheckpointInfo list) step" where
  "getLatestCheckpoints N maxCount n = (case on_files (ListCheckpoints (nd_cp N) (nd_fails N)) n of
     (Inl e, n1) \<Rightarrow> (Inr [], n1)
   | (Inr heights, n1) \<Rightarrow>
       if heights = [] then (Inr [], n1)
       else if maxCount < int (length heights) \<and> maxCount < 0 then (Inl Panic, n1)
       else
         (let info = (\<lambda>cp. \<lparr>CICheckpoint = cp, HasStateData = n_checkpoints n1 stateLatestFile \<noteq> None,
                CompressedSize = (case n_checkpoints n1 stateLatestFile of None \<Rightarrow> 0 | Some b \<Rightarrow> of_nat (length b))\<rparr>);
              load = (\<lambda>height. case LoadCheckpoint (nd_cp N) (nd_fails N) height (n_checkpoints n1) of
                (Inl e, _) \<Rightarrow> [] | (Inr cp, _) \<Rightarrow> [info cp])
          in (Inr (concat (map load (take (nat maxCount) heights))), n1)))"

definition restoreCheckpoint :: "'d node_env \<Rightarrow> nat \<Rightarrow> Checkpoint \<Rightarrow> ('d node, unit) step" where
  "restoreCheckpoint N peerCount checkpoint =
     bindS (\<lambda>n. (Inr (), loadCheckpointValidators N checkpoint n)) (\<lambda>_.
     bindS (\<lambda>n. on_files (SaveCheckpoint (nd_cp N) (nd_disk_ok N) (nd_fails N) (nd_readdir N (n_checkpoints n)) checkpoint) n) (\<lambda>_ n.
       let n1 = (if latestHeight (n_chain n) < CPHeight checkpoint
                 then n\<lparr>n_chain := SetLatestBlockWithHash (placeholderBlock checkpoint (CPProposer checkpoint)) (CPBlockHash checkpoint) (n_chain n)\<rparr>
                 else n) in
       case on_db (GetBlockByHeight (nd_db N) (nd_cfg N) (nd_cl N) (CPHeight checkpoint)) n1 of
         (Inl e, n2) \<Rightarrow>
           if fatal e then (Inl e, n2)
           else if 0 < peerCount then send N (OutSyncRequest (CPHeight checkpoint) (CPHeight checkpoint)) n2
           else (Inr (), n2)
       | (Inr b, n2) \<Rightarrow>
           (Inr (), if Block_Hash (nd_cl N) b = CPBlockHash checkpoint \<and> latestHeight (n_chain n2) \<le> CPHeight checkpoint
                    then n2\<lparr>n_chain := SetLatestBlock b (n_chain n2)\<rparr> else n2)))"

text \<open>Which checkpoints are taken over: none below the tip or below the local checkpoint; at the height of
  the local checkpoint only one with another hash and an earlier time than the tip.\<close>

definition applyCheckpoint :: "'d node_env \<Rightarrow> nat \<Rightarrow> Checkpoint \<Rightarrow> ('d node, unit) step" where
  "applyCheckpoint N peerCount checkpoint n =
     (if CPHeight checkpoint < latestHeight (n_chain n) then (Inr (), n)
      else case latestCheckpoint N n of (r, n1) \<Rightarrow>
        (let (localCheckpointHeight, localCheckpointHash) =
               (case r of Inr (Some cp) \<Rightarrow> (CPHeight cp, CPBlockHash cp) | _ \<Rightarrow> (0, zero_hash)) in
         if CPHeight checkpoint = localCheckpointHeight \<and> 0 < localCheckpointHeight then
           (if CPBlockHash checkpoint = localCheckpointHash then (Inr (), n1)
            else case latestBlock (n_chain n1) of
              None \<Rightarrow> (Inl Panic, n1)
            | Some localBlock \<Rightarrow>
                if sint (CPTimestamp checkpoint) < sint (HTimestamp (Header localBlock))
                then restoreCheckpoint N peerCount checkpoint n1 else (Inr (), n1))
         else if CPHeight checkpoint < localCheckpointHeight then (Inr (), n1)
         else restoreCheckpoint N peerCount checkpoint n1))"

text \<open>One round of the goroutine that waits for the requested block: whether it is done.\<close>

definition pollCheckpointBlock :: "'d node_env \<Rightarrow> u64 \<Rightarrow> ('d node, bool) step" where
  "pollCheckpointBlock N cpHeight n = (case on_db (GetBlockByHeight (nd_db N) (nd_cfg N) (nd_cl N) cpHeight) n of
     (Inl e, n1) \<Rightarrow> (if fatal e then Inl e else Inr False, n1)
   | (Inr b, n1) \<Rightarrow> (Inr True, if latestHeight (n_chain n1) \<le> cpHeight then n1\<lparr>n_chain := SetLatestBlock b (n_chain n1)\<rparr> else n1))"

section \<open>State snapshots from peers\<close>

definition getStateSnapshot :: "'d node_env \<Rightarrow> u64 \<Rightarrow> 'd node \<Rightarrow> error + bytes" where
  "getStateSnapshot N height n = (case LoadCheckpointSnapshotFromFile (nd_snap N) (n_checkpoints n) stateLatestFile of
     Inl e \<Rightarrow> Inl e
   | Inr snapshot \<Rightarrow> Serialize (nd_snap N) snapshot)"

definition saveSnapshot :: "'d node_env \<Rightarrow> string \<Rightarrow> CheckpointSnapshot \<Rightarrow> 'd node \<Rightarrow> 'd node" where
  "saveSnapshot N path snapshot n = n\<lparr>n_checkpoints := snd (SaveToFile (nd_snap N)
     (\<lambda>p. map_option (\<lambda>_. ErrIO) (nd_fails N (WriteFile p []))) path snapshot (n_checkpoints n))\<rparr>"

text \<open>The second attempt at the checkpoint block once the state is there.\<close>

definition retryCheckpointBlock :: "'d node_env \<Rightarrow> u64 \<Rightarrow> ('d node, unit) step" where
  "retryCheckpointBlock N height n =
     (if latestHeight (n_chain n) < height then
        (case on_db (GetBlockByHeight (nd_db N) (nd_cfg N) (nd_cl N) height) n of
           (Inl e, n1) \<Rightarrow> (if fatal e then Inl e else Inr (), n1)
         | (Inr b, n1) \<Rightarrow>
             (let n2 = (if latestHeight (n_chain n1) < height - 1 then n1\<lparr>n_chain := JumpToBlock b (n_chain n1)\<rparr> else n1)
              in warn (on_chain (AddBlock (nd_cfg N) (nd_cl N) (nd_now N) b)) n2))
      else (Inr (), n))"

definition applyStateSnapshot :: "'d node_env \<Rightarrow> u64 \<Rightarrow> bytes \<Rightarrow> ('d node, unit) step" where
  "applyStateSnapshot N height compressedData =
     bindS (lift_result (\<lambda>_. DeserializeCheckpointSnapshot (nd_snap N) compressedData)) (\<lambda>snapshot.
     bindS (on_sm (ApplyCheckpointSnapshot (n_ops N) snapshot)) (\<lambda>_ n.
       retryCheckpointBlock N height
         (saveSnapshot N stateLatestFile snapshot
           (saveSnapshot N (''state_'' @ dec_u64 height @ ''.dat.gz'') snapshot n))))"

section \<open>Accepting a block\<close>

context node_ctx
begin

lemma accept_block_ok:
  assumes "node_ok n" and "acceptBlock N skip b n = (Inr u, n')"
  shows "exec_all (nd_cfg N) (nd_cl N) (nd_now N) True (BTransactions b) (node_ledger n) = Inr (node_ledger n')"
    and "ledger_supply (node_ledger n') = TOTAL_SUPPLY" and "node_ok n'"
    and "durable (\<lambda>D. shard_acct (accEnv (nd_db N)) kv (stateStore D)) (n_db n') = node_ledger n'"
    and "GetStateHeight (stateStore (n_db n')) = Inr (Height (Header b))"
    and "kv (db (n_db n')) latestHeightKey = Some (be_put64 (Height (Header b)))"
    and "WriteBlock (nd_cl N) (Height (Header b)) (blk_ToJSON (nd_db N) b) (blockStore (n_db n)) = (Inr (), blockStore (n_db n'))"
    and "AddBlockWithOptions (nd_cfg N) (nd_cl N) (nd_now2 N) b skip (n_chain n) = (Inr (), n_chain n')"
proof -
  obtain n1 n2 n3 where 1: "executeAll N (nd_now N) True (BTransactions b) n = (Inr (), n1)"
    and 2: "on_sm (CommitWithP0Verify (n_ops N) (Height (Header b))) n1 = (Inr (), n2)"
    and 3: "on_chain (AddBlockWithOptions (nd_cfg N) (nd_cl N) (nd_now2 N) b skip) n2 = (Inr (), n3)"
    and 4: "on_db (SaveBlock (nd_db N) (nd_cl N) b) n3 = (Inr u, n')"
    using assms(2) unfolding acceptBlock_def bindS_Inr_iff by auto
  note e = execute_all_ok[OF assms(1) 1] and f = executeAll_frame[OF 1]
  note c = commit_node_ok[OF conjunct2[OF e] 2]
  obtain bc where bc: "AddBlockWithOptions (nd_cfg N) (nd_cl N) (nd_now2 N) b skip (n_chain n2) = (Inr (), bc)" and n3: "n3 = n2\<lparr>n_chain := bc\<rparr>"
    using 3 by (auto simp: on_chain_eq)
  obtain D where D: "SaveBlock (nd_db N) (nd_cl N) b (n_db n3) = (Inr (), D)" and n': "n' = n3\<lparr>n_state := (n_state n3)\<lparr>sm_db := D\<rparr>\<rparr>"
    using 4 by (auto simp: on_db_eq)
  have "database_env (nd_db N) kv" by (rule database_env.intro) unfold_locales
  note s = database_env.SaveBlock_ok[OF this D]
  have k: "node_ok n'" "node_ledger n' = node_ledger n1"
    using node_state_cong[of n' n2] c(2,3) s(2) n' n3 by simp_all
  show "exec_all (nd_cfg N) (nd_cl N) (nd_now N) True (BTransactions b) (node_ledger n) = Inr (node_ledger n')"
    "ledger_supply (node_ledger n') = TOTAL_SUPPLY" "node_ok n'"
    "GetStateHeight (stateStore (n_db n')) = Inr (Height (Header b))"
    using e k c(1,5) s(2) n' n3 by simp_all
  show "durable (\<lambda>D. shard_acct (accEnv (nd_db N)) kv (stateStore D)) (n_db n') = node_ledger n'"
    using c(4) k(2) s(2) n' n3 by (simp add: durable_def fun_eq_iff)
  show "kv (db (n_db n')) latestHeightKey = Some (be_put64 (Height (Header b)))" using s(3) n' by simp
  show "WriteBlock (nd_cl N) (Height (Header b)) (blk_ToJSON (nd_db N) b) (blockStore (n_db n)) = (Inr (), blockStore (n_db n'))"
    using s(1) c(7) n' n3 f by simp
  show "AddBlockWithOptions (nd_cfg N) (nd_cl N) (nd_now2 N) b skip (n_chain n) = (Inr (), n_chain n')"
    using bc c(9) f n' n3 by (simp add: keeps_def)
qed

lemma execute_all_run:
  assumes "ready n" and "stores_work N kv" and "0 \<le> sint (ActiveValidatorSet (Validators (nd_cfg N)))"
    and "exec_all (nd_cfg N) (nd_cl N) now skip txs (node_ledger n) = Inr L"
  shows "\<exists>n'. executeAll N now skip txs n = (Inr (), n') \<and> ready n' \<and> node_ledger n' = L \<and> keeps n n' \<and> n_db n' = n_db n"
  using assms(1,4)
proof (induction txs arbitrary: n)
  case (Cons tx txs)
  obtain L1 where L1: "exec_spec (nd_cfg N) (nd_cl N) now skip tx (node_ledger n) = Inr L1"
    "exec_all (nd_cfg N) (nd_cl N) now skip txs L1 = Inr L"
    using Cons.prems(2) by (auto split: sum.splits)
  obtain n1 where n1: "executeTx N now skip tx n = (Inr (), n1)" "ready n1" "node_ledger n1 = L1"
    using execute_node_run[OF Cons.prems(1) assms(2,3) L1(1)] by blast
  obtain n' where "executeAll N now skip txs n1 = (Inr (), n')" "ready n'" "node_ledger n' = L" "keeps n1 n'" "n_db n' = n_db n1"
    using Cons.IH[OF n1(2)] L1(2) n1(3) by auto
  then show ?case using n1(1) executeTx_frame[OF n1(1)] by (auto simp: bindS_def keeps_def)
qed (simp add: keeps_def)

lemma execute_node_fails:
  assumes "ready n" and "stores_work N kv" and "exec_spec (nd_cfg N) (nd_cl N) now skip tx (node_ledger n) = Inl e"
    and "0 \<le> sint (ActiveValidatorSet (Validators (nd_cfg N)))"
  shows "\<exists>n'. executeTx N now skip tx n = (Inl e, n') \<and> ready n' \<and> node_ledger n' = node_ledger n \<and> keeps n n' \<and> n_db n' = n_db n"
proof -
  have ok: "node_ok n" "validatorEvents (n_state n) = []" "usable N kv (n_db n)" using assms(1) node_usable by (simp_all add: ready_def)
  obtain r sm where x: "ExecuteTransaction (n_ops N) (nd_cfg N) (nd_cl N) now skip tx (n_state n) = (r, sm)"
    by (cases "ExecuteTransaction (n_ops N) (nd_cfg N) (nd_cl N) now skip tx (n_state n)")
  have rd: "accounts.reads_ok (n_db n)" using assms(2) ok(3) unfolding stores_work_def accounts.reads_ok_def by blast
  obtain e' where r: "r = Inl e'"
    using accounts.execute_ok(1)[OF ok(1)[unfolded node_ok_def]] x assms(3) by (cases r) (auto simp: node_ledger_def)
  note E = accounts.execute_err[OF ok(1)[unfolded node_ok_def] x[unfolded r] rd]
  have "e' = e" using E(1) assms(3) by (simp add: node_ledger_def)
  obtain es where es: "validatorEvents sm = es" "event_address ` set es \<subseteq> {DeriveAddress (sha3_256 (nd_cl N)) (PublicKey tx)}"
    using execute_tells[OF x] ok(2) by (auto simp: tells_def)
  have "\<forall>ev\<in>set es. 10 \<le> length (event_address ev)"
    using es(2) length_DeriveAddress[of "sha3_256 (nd_cl N)" "PublicKey tx"] by fastforce
  then obtain vs where "apply_events (nd_cfg N) (nd_now_s N) es (n_vals n) = (Inr (), vs)"
    using apply_events_run[OF _ assms(4)] by blast
  then have t: "executeTx N now skip tx n = (Inl e, n\<lparr>n_state := sm\<lparr>validatorEvents := []\<rparr>, n_vals := vs\<rparr>)" (is "_ = (_, ?n')")
    using x es(1) r \<open>e' = e\<close> by (simp add: executeTx_def)
  have "node_ok (n\<lparr>n_state := sm\<rparr>)" "node_ledger (n\<lparr>n_state := sm\<rparr>) = node_ledger n"
    using E(2,3) by (simp_all add: node_ok_def node_ledger_def)
  then have "node_ok ?n'" "node_ledger ?n' = node_ledger n" using node_state_cong[of ?n' "n\<lparr>n_state := sm\<rparr>"] by simp_all
  moreover have "all_shards_open (stateStore (n_db ?n'))" using assms(1) E(4) by (simp add: ready_def)
  ultimately show ?thesis using executeTx_frame[OF t] t by (auto simp: ready_def)
qed

lemma execute_all_app:
  "executeAll N now skip (xs @ ys) n = bindS (executeAll N now skip xs) (\<lambda>_. executeAll N now skip ys) n"
  by (induction xs arbitrary: n) (auto simp: bindS_def split: prod.split sum.split)

end

section \<open>Claims\<close>

text \<open>C6: a block accepted from a peer is durable. When \<^verbatim>\<open>addBlock\<close> succeeds, the new tip is the block, a child
  of the old tip; the ledger is the old one with its transactions executed by the specification,
  with the right supply, and the account store alone holds it under the block's height; the latest
  height of the database is that height and the block file holds the block (if it fits).\<close>

theorem peer_block_durable:
  assumes "node_ctx N kv" and "node_ctx.node_ok N kv n" and "latestBlock (n_chain n) = Some prev"
    and "addBlock N b n = (Inr (), n')" and "Height (Header b) \<noteq> 0"
  shows "latestBlock (n_chain n') = Some b \<and> latestHeight (n_chain n') = Height (Header b) \<and> child (nd_cl N) prev b
    \<and> exec_all (nd_cfg N) (nd_cl N) (nd_now N) True (BTransactions b) (node_ctx.node_ledger N kv n) = Inr (node_ctx.node_ledger N kv n')
    \<and> ledger_supply (node_ctx.node_ledger N kv n') = TOTAL_SUPPLY
    \<and> durable (\<lambda>D. shard_acct (accEnv (nd_db N)) kv (stateStore D)) (n_db n') = node_ctx.node_ledger N kv n'
    \<and> GetStateHeight (stateStore (n_db n')) = Inr (Height (Header b))
    \<and> kv (db (n_db n')) latestHeightKey = Some (be_put64 (Height (Header b)))
    \<and> (block_fits (Height (Header b)) (blk_ToJSON (nd_db N) b) (blockStore (n_db n))
        \<longrightarrow> block_at (files (blockStore (n_db n'))) (Height (Header b)) = Some (blk_ToJSON (nd_db N) b))
    \<and> node_ctx.node_ok N kv n'"
proof -
  have a: "acceptBlock N False b n = (Inr (), n')" and v: "ValidateBlock (nd_cfg N) (nd_cl N) (nd_now N) b (n_chain n) = Inr ()"
    using assms(4,5) by (auto simp: addBlock_def split: sum.splits if_splits prod.splits)
  note A = node_ctx.accept_block_ok[OF assms(1,2) a]
  have "child (nd_cl N) prev b" using v validate_child assms(3) by (auto simp: ValidateBlock_def Block_Validate_def)
  then show ?thesis using A flat.written[OF A(7)] by (auto simp: add_block_ok_iff)
qed

text \<open>A refused block is applied in part. When a transaction of a valid block from a peer fails, \<^verbatim>\<open>addBlock\<close>
  returns the error and nothing is undone: the ledger the node works with contains the transactions
  before the failing one, although tip and stores are unchanged; and the commit of whatever block
  comes next writes them to the account store.\<close>

theorem refused_block_applied_in_part:
  assumes "node_ctx N kv" and "node_ctx.ready N kv n" and "stores_work N kv"
    and "0 \<le> sint (ActiveValidatorSet (Validators (nd_cfg N)))" and "Height (Header b) \<noteq> 0"
    and "ValidateBlock (nd_cfg N) (nd_cl N) (nd_now N) b (n_chain n) = Inr ()"
    and "BTransactions b = txs @ tx # rest"
    and "exec_all (nd_cfg N) (nd_cl N) (nd_now N) True txs (node_ctx.node_ledger N kv n) = Inr L"
    and "exec_spec (nd_cfg N) (nd_cl N) (nd_now N) True tx L = Inl e" and "ledger_supply L = TOTAL_SUPPLY"
  shows "\<exists>n'. addBlock N b n = (Inl e, n') \<and> node_ctx.node_ledger N kv n' = L \<and> n_chain n' = n_chain n \<and> n_db n' = n_db n
    \<and> (\<forall>h. \<exists>n2. on_sm (CommitWithP0Verify (n_ops N) h) n' = (Inr (), n2)
        \<and> durable (\<lambda>D. shard_acct (accEnv (nd_db N)) kv (stateStore D)) (n_db n2) = L)"
proof -
  note C = assms(1)
  obtain n1 where n1: "executeAll N (nd_now N) True txs n = (Inr (), n1)" "node_ctx.ready N kv n1" "node_ctx.node_ledger N kv n1 = L"
    "keeps n n1" "n_db n1 = n_db n"
    using node_ctx.execute_all_run[OF C assms(2-4,8)] by blast
  obtain n2 where n2: "executeTx N (nd_now N) True tx n1 = (Inl e, n2)" "node_ctx.ready N kv n2" "node_ctx.node_ledger N kv n2 = L"
    "keeps n1 n2" "n_db n2 = n_db n1"
    using node_ctx.execute_node_fails[OF C n1(2) assms(3) _ assms(4)] n1(3) assms(9) by metis
  have "executeAll N (nd_now N) True (BTransactions b) n = (Inl e, n2)"
    using n1(1) n2(1) unfolding assms(7) node_ctx.execute_all_app[OF C] by (simp add: bindS_def)
  then have add: "addBlock N b n = (Inl e, n2)" using assms(5,6) by (simp add: addBlock_def acceptBlock_def bindS_def)
  have "\<exists>n3. on_sm (CommitWithP0Verify (n_ops N) h) n2 = (Inr (), n3)
      \<and> durable (\<lambda>D. shard_acct (accEnv (nd_db N)) kv (stateStore D)) (n_db n3) = L" for h
    using node_ctx.commit_node_run[OF C n2(2) assms(3), of h] node_ctx.commit_node_ok(4)[OF C, of n2 h] n2(2,3) assms(10)
    by (auto simp: node_ctx.ready_def[OF C])
  then show ?thesis using add n1(4,5) n2(3-5) by (auto simp: keeps_def)
qed

text \<open>A historical block is committed before it is checked. \<^verbatim>\<open>addBlockSkipTimestamp\<close> executes and commits the
  transactions of any block, and only then looks at its height and previous hash: a block that does
  not fit the chain is refused, but the account store holds its effects under its height.\<close>

theorem unlinked_block_committed:
  assumes "node_ctx N kv" and "node_ctx.ready N kv n" and "stores_work N kv"
    and "0 \<le> sint (ActiveValidatorSet (Validators (nd_cfg N)))" and "Height (Header b) \<noteq> 0"
    and "exec_all (nd_cfg N) (nd_cl N) (nd_now N) True (BTransactions b) (node_ctx.node_ledger N kv n) = Inr L"
    and "ledger_supply L = TOTAL_SUPPLY"
    and "ValidateWithOptions (nd_cfg N) (nd_cl N) (nd_now2 N) (latestBlock (n_chain n)) True b = Inl e"
  shows "\<exists>n'. addBlockSkipTimestamp N b n = (Inl (InvalidBlock e), n') \<and> n_chain n' = n_chain n
    \<and> node_ctx.node_ledger N kv n' = L
    \<and> durable (\<lambda>D. shard_acct (accEnv (nd_db N)) kv (stateStore D)) (n_db n') = L
    \<and> GetStateHeight (stateStore (n_db n')) = Inr (Height (Header b))"
proof -
  note C = assms(1)
  obtain n1 where n1: "executeAll N (nd_now N) True (BTransactions b) n = (Inr (), n1)" "node_ctx.ready N kv n1"
    "node_ctx.node_ledger N kv n1 = L" "keeps n n1"
    using node_ctx.execute_all_run[OF C assms(2-4,6)] by blast
  obtain n2 where n2: "on_sm (CommitWithP0Verify (n_ops N) (Height (Header b))) n1 = (Inr (), n2)"
    using node_ctx.commit_node_run[OF C n1(2) assms(3)] n1(3) assms(7) by auto
  note K = node_ctx.commit_node_ok[OF C _ n2]
  have ok: "node_ctx.node_ok N kv n1" using n1(2) by (simp add: node_ctx.ready_def[OF C])
  have ch: "n_chain n2 = n_chain n" using K(9)[OF ok] n1(4) by (simp add: keeps_def)
  then have "on_chain (AddBlockWithOptions (nd_cfg N) (nd_cl N) (nd_now2 N) b True) n2 = (Inl (InvalidBlock e), n2)"
    using assms(8) by (simp add: on_chain_def AddBlockWithOptions_def)
  then have "addBlockSkipTimestamp N b n = (Inl (InvalidBlock e), n2)"
    using assms(5) n1(1) n2 by (simp add: addBlockSkipTimestamp_def acceptBlock_def bindS_def)
  then show ?thesis using K(3-5)[OF ok] ch n1(3) by simp
qed

section \<open>Applying a checkpoint\<close>

lemma save_checkpoint_run: "\<exists>acts. SaveCheckpoint C True (\<lambda>_. None) names cp d = (Inr (), acts)"
  using tdc_no_fault[of tempFile latestFile "cp_Serialize C cp" d] by (auto simp: SaveCheckpoint_def)

text \<open>C37: anybody can hand a node a checkpoint. A checkpoint above the tip and above the local checkpoint is
  taken over whoever signed it, or nobody: its validators become the active set, its hash the hash of
  the tip, its height the height of the chain, and it replaces the checkpoint file.\<close>

theorem checkpoint_needs_no_signature:
  assumes "latestHeight (n_chain n) < CPHeight cp"
    and "GetLatestCheckpoint (nd_cp N) (nd_fails N) (n_checkpoints n) = (r, acts)"
    and "\<And>c. r = Inr (Some c) \<Longrightarrow> CPHeight c < CPHeight cp"
    and "nd_disk_ok N" and "nd_fails N = (\<lambda>_. None)" and "CPValidators cp \<noteq> []"
    and "fst (GetBlockByHeight (nd_db N) (nd_cfg N) (nd_cl N) (CPHeight cp) (n_db n)) = Inl e" and "\<not> fatal e"
  shows "\<exists>n' tip. applyCheckpoint N peerCount cp n = (Inr (), n')
    \<and> map VAddress (activeValidators (n_vals n')) = map VSAddress (CPValidators cp)
    \<and> latestHeight (n_chain n') = CPHeight cp \<and> latestBlock (n_chain n') = Some tip \<and> Block_Hash (nd_cl N) tip = CPBlockHash cp
    \<and> n_checkpoints n' latestFile = Some (cp_Serialize (nd_cp N) cp)"
proof -
  let ?n1 = "n\<lparr>n_checkpoints := apply_actions acts (n_checkpoints n)\<rparr>"
  let ?n2 = "loadCheckpointValidators N cp ?n1"
  obtain acts2 where s: "SaveCheckpoint (nd_cp N) True (\<lambda>_. None) (nd_readdir N (n_checkpoints ?n2)) cp (n_checkpoints ?n2) = (Inr (), acts2)"
    using save_checkpoint_run by blast
  let ?n3 = "?n2\<lparr>n_checkpoints := apply_actions acts2 (n_checkpoints ?n2)\<rparr>"
  let ?n4 = "?n3\<lparr>n_chain := SetLatestBlockWithHash (placeholderBlock cp (CPProposer cp)) (CPBlockHash cp) (n_chain ?n3)\<rparr>"
  have f: "n_checkpoints ?n3 latestFile = Some (cp_Serialize (nd_cp N) cp)" using save_latest[OF s] by simp
  have v: "n_chain ?n2 = n_chain n" "n_state ?n2 = n_state n" "n_vals ?n2 = LoadFromCheckpoint (nd_now_s N) (CPValidators cp) (n_vals n)"
    using assms(6) by (simp_all add: loadCheckpointValidators_def)
  obtain D where "GetBlockByHeight (nd_db N) (nd_cfg N) (nd_cl N) (CPHeight cp) (n_db n) = (Inl e, D)"
    using assms(7) by (metis prod.collapse)
  then have g: "on_db (GetBlockByHeight (nd_db N) (nd_cfg N) (nd_cl N) (CPHeight cp)) ?n4 = (Inl e, ?n4\<lparr>n_state := (n_state n)\<lparr>sm_db := D\<rparr>\<rparr>)"
    using v(2) by (simp add: on_db_eq)
  let ?n5 = "?n4\<lparr>n_state := (n_state n)\<lparr>sm_db := D\<rparr>\<rparr>"
  have "restoreCheckpoint N peerCount cp ?n1 = (if 0 < peerCount then send N (OutSyncRequest (CPHeight cp) (CPHeight cp)) ?n5 else (Inr (), ?n5))"
    using s g assms(1,4,5,8) v(1) by (simp add: restoreCheckpoint_def bindS_def on_files_def)
  moreover have "applyCheckpoint N peerCount cp n = restoreCheckpoint N peerCount cp ?n1"
  proof -
    have "\<not> CPHeight cp < latestHeight (n_chain n)" "CPHeight cp \<noteq> 0" using assms(1) by auto
    then show ?thesis
      using assms(2,3) by (cases r)
        (auto simp: applyCheckpoint_def latestCheckpoint_def on_files_def Let_def split: option.splits)
  qed
  ultimately obtain n' where n': "applyCheckpoint N peerCount cp n = (Inr (), n')" "n_vals n' = n_vals ?n2" "n_chain n' = n_chain ?n4"
    "n_checkpoints n' = n_checkpoints ?n3"
    by (cases "0 < peerCount") (simp_all add: send_def)
  have "map VAddress (activeValidators (n_vals ?n2)) = map VSAddress (CPValidators cp)"
    unfolding v(3) by (simp add: LoadFromCheckpoint_def Let_def loadedValidator_def comp_def)
  then show ?thesis
    using n' f by (intro exI[of _ n']) (simp add: SetLatestBlockWithHash_def Let_def placeholderBlock_def Block_Hash_def)
qed

text \<open>A checkpoint never lowers the tip and never touches the accounts. Whatever a peer sends, the height
  of the chain stays or becomes the height of the checkpoint, which is not below it, provided a
  block found on disk under the checkpoint's height has that height.\<close>

theorem checkpoint_never_lowers_tip:
  assumes "applyCheckpoint N peerCount cp n = (r, n')"
    and "\<And>b. fst (GetBlockByHeight (nd_db N) (nd_cfg N) (nd_cl N) (CPHeight cp) (n_db n)) = Inr b \<Longrightarrow> Height (Header b) = CPHeight cp"
  shows "latestHeight (n_chain n) \<le> latestHeight (n_chain n') \<and> latestHeight (n_chain n') \<in> {latestHeight (n_chain n), CPHeight cp}
    \<and> stateStore (n_db n') = stateStore (n_db n) \<and> accountCache (n_state n') = accountCache (n_state n)
    \<and> dirtyAccounts (n_state n') = dirtyAccounts (n_state n)"
proof (cases "CPHeight cp < latestHeight (n_chain n)")
  case True
  then show ?thesis using assms(1) by (simp add: applyCheckpoint_def)
next
  case False
  have restore: "latestHeight (n_chain m') \<in> {latestHeight (n_chain n), CPHeight cp} \<and> stateStore (n_db m') = stateStore (n_db n)
      \<and> accountCache (n_state m') = accountCache (n_state n) \<and> dirtyAccounts (n_state m') = dirtyAccounts (n_state n)"
    if m: "restoreCheckpoint N peerCount cp m = (q, m')" "n_state m = n_state n" "n_chain m = n_chain n" for m q m'
  proof -
    let ?m1 = "loadCheckpointValidators N cp m"
    have m1: "n_state ?m1 = n_state n" "n_chain ?m1 = n_chain n" using m(2,3) by (simp_all add: loadCheckpointValidators_def)
    obtain q2 m2 where s: "on_files (SaveCheckpoint (nd_cp N) (nd_disk_ok N) (nd_fails N) (nd_readdir N (n_checkpoints ?m1)) cp) ?m1 = (q2, m2)"
      by (cases "on_files (SaveCheckpoint (nd_cp N) (nd_disk_ok N) (nd_fails N) (nd_readdir N (n_checkpoints ?m1)) cp) ?m1")
    then have m2: "n_state m2 = n_state n" "n_chain m2 = n_chain n" using m1 by (auto simp: on_files_def split: prod.splits)
    define m3 where "m3 = (if latestHeight (n_chain m2) < CPHeight cp
      then m2\<lparr>n_chain := SetLatestBlockWithHash (placeholderBlock cp (CPProposer cp)) (CPBlockHash cp) (n_chain m2)\<rparr> else m2)"
    have m3: "n_state m3 = n_state n" "latestHeight (n_chain m3) \<in> {latestHeight (n_chain n), CPHeight cp}"
      using m2 by (simp_all add: m3_def SetLatestBlockWithHash_def Let_def placeholderBlock_def)
    obtain q4 m4 where g: "on_db (GetBlockByHeight (nd_db N) (nd_cfg N) (nd_cl N) (CPHeight cp)) m3 = (q4, m4)"
      by (cases "on_db (GetBlockByHeight (nd_db N) (nd_cfg N) (nd_cl N) (CPHeight cp)) m3")
    note K = get_block_keeps[OF g]
    have h: "Height (Header b) = CPHeight cp" if "q4 = Inr b" for b
      using g that m3(1) assms(2)[of b] by (auto simp: on_db_eq)
    show ?thesis
    proof (cases q2)
      case (Inl x)
      then have "m' = m2" using m(1) s by (simp add: restoreCheckpoint_def bindS_def)
      then show ?thesis using m2 by simp
    next
      case (Inr u)
      have "m' \<in> {m4, snd (send N (OutSyncRequest (CPHeight cp) (CPHeight cp)) m4)}
          \<or> (\<exists>b. q4 = Inr b \<and> m' = m4\<lparr>n_chain := SetLatestBlock b (n_chain m4)\<rparr>)"
        using m(1) s Inr g
        by (auto simp: restoreCheckpoint_def bindS_def Let_def m3_def[symmetric] split: sum.splits if_splits)
      then show ?thesis using K m3 h by (auto simp: keeps_def send_def SetLatestBlock_def)
    qed
  qed
  obtain q n1 where l: "latestCheckpoint N n = (q, n1)" by (cases "latestCheckpoint N n")
  then have n1: "n_state n1 = n_state n" "n_chain n1 = n_chain n" by (auto simp: latestCheckpoint_def on_files_def split: prod.splits)
  have "n' = n1 \<or> restoreCheckpoint N peerCount cp n1 = (r, n')"
    using assms(1) False l by (auto simp: applyCheckpoint_def Let_def split: if_splits option.splits prod.splits)
  then show ?thesis using restore[OF _ n1] n1 False by auto
qed

section \<open>Runs\<close>

text \<open>An unsigned slash of somebody's account, and a reward the genesis account cannot pay afterwards.\<close>

definition demo_slash :: transaction where
  "demo_slash = (NewRewardTx 1700000010000 ''F9'' 7)\<lparr>Type := TxSlash, From := demo_user\<rparr>"

definition demo_bad_reward :: transaction where
  "demo_bad_reward = NewRewardTx 1700000010000 ''F9'' 8"

definition demo_slashed :: ledger where
  "demo_slashed = credit GenesisAddress 7 (debit demo_user 7 (demo_node.node_ledger (demo_node [])))"

lemma demo_names [simp]: "''F9'' \<noteq> GenesisAddress" "GenesisAddress \<noteq> ''F9''" "demo_user \<noteq> ''F9''" "demo_user \<noteq> []" "GenesisAddress \<noteq> []"
    "GenesisAddress \<noteq> demo_user" "demo_user \<noteq> GenesisAddress"
  using demo_user_genesis by (auto simp: GenesisAddress_def demo_user_eq dest: arg_cong[where f = length])

lemma demo_slash_exec:
  "exec_spec shipped_config demo_crypto now True demo_slash (demo_node.node_ledger (demo_node [])) = Inr demo_slashed"
  by (simp add: exec_spec_def demo_slash_def NewRewardTx_def IsSystemTx_def system_spec_def
      SubBalance_def demo_node_ledger demo_slashed_def TOTAL_SUPPLY_def)

lemma demo_slashed_supply: "ledger_supply demo_slashed = TOTAL_SUPPLY"
proof -
  have "finite_ledger (demo_node.node_ledger (demo_node []))"
    by (rule demo_node.accounts.repr_finite[OF demo_node_facts(1)[unfolded demo_node.node_ok_repr]])
  from exec_spec_supply[OF this demo_slash_exec] show ?thesis
    by (simp add: demo_node_supply supply_delta_def demo_slash_def NewRewardTx_def IsSystemTx_def)
qed

lemma demo_bad_reward_exec: "\<exists>e. exec_spec shipped_config demo_crypto now True demo_bad_reward demo_slashed = Inl e"
  by (simp add: exec_spec_def demo_bad_reward_def NewRewardTx_def IsSystemTx_def system_spec_def demo_slashed_def credit_def debit_def
      demo_node_ledger SubBalance_def AddBalance_def)

definition demo_half_block :: block where
  "demo_half_block = NewBlock demo_crypto 1700000010000 1 (Block_Hash demo_crypto demo_genesis) GenesisAddress [demo_slash, demo_bad_reward]"

definition demo_stray_block :: block where
  "demo_stray_block = NewBlock demo_crypto 1700000010000 99 zero_hash GenesisAddress [demo_slash]"

lemma demo_half_valid: "ValidateBlock shipped_config demo_crypto 1700000010000 demo_half_block (n_chain (demo_node [])) = Inr ()"
  by (simp add: ValidateBlock_def Block_Validate_def ValidateWithOptions_def demo_half_block_def NewBlock_def demo_chain
      demo_genesis_def CreateGenesisBlock_def Let_def shipped_config_def setDefault_def Tx_Validate_def demo_slash_def demo_bad_reward_def
      NewRewardTx_def IsSystemTx_def RequiresGasFee_def timestamp_drift_def)

lemma demo_ready: "demo_prod.ready (demo_node [])"
proof -
  have "validatorEvents (n_state (demo_node [])) = []" by (simp add: demo_node_def NewStateManager_def UpdateAccount_def)
  then show ?thesis by (simp add: demo_prod.ready_def demo_node_parts demo_database_def)
qed

theorem refused_block_applied_in_part_witness:
  "\<exists>e n'. addBlock demo_prod_env demo_half_block (demo_node []) = (Inl e, n') \<and> demo_prod.node_ledger n' = demo_slashed
     \<and> demo_slashed GenesisAddress \<noteq> demo_prod.node_ledger (demo_node []) GenesisAddress"
proof -
  obtain e where e: "exec_spec shipped_config demo_crypto 1700000010000 True demo_bad_reward demo_slashed = Inl e"
    using demo_bad_reward_exec by blast
  have a: "0 \<le> sint (ActiveValidatorSet (Validators (nd_cfg demo_prod_env)))" using demo_active_size by simp
  have t: "BTransactions demo_half_block = [demo_slash] @ demo_bad_reward # []" "Height (Header demo_half_block) \<noteq> 0"
    by (simp_all add: demo_half_block_def NewBlock_def)
  have x: "exec_all (nd_cfg demo_prod_env) (nd_cl demo_prod_env) (nd_now demo_prod_env) True [demo_slash] (demo_prod.node_ledger (demo_node []))
      = Inr demo_slashed" using demo_slash_exec by simp
  have v: "ValidateBlock (nd_cfg demo_prod_env) (nd_cl demo_prod_env) (nd_now demo_prod_env) demo_half_block (n_chain (demo_node [])) = Inr ()"
    using demo_half_valid by simp
  have e': "exec_spec (nd_cfg demo_prod_env) (nd_cl demo_prod_env) (nd_now demo_prod_env) True demo_bad_reward demo_slashed = Inl e" using e by simp
  have "demo_slashed GenesisAddress \<noteq> demo_prod.node_ledger (demo_node []) GenesisAddress"
    by (simp add: demo_slashed_def credit_def debit_def AddBalance_def demo_node_ledger demo_user_genesis NewAccount_def)
  with refused_block_applied_in_part[OF demo_prod.node_ctx_axioms demo_ready demo_stores_work a t(2) v t(1) x e' demo_slashed_supply]
  show ?thesis by blast
qed

theorem unlinked_block_committed_witness:
  "\<exists>e n'. addBlockSkipTimestamp demo_prod_env demo_stray_block (demo_node []) = (Inl e, n') \<and> latestHeight (n_chain n') = 0
     \<and> GetStateHeight (stateStore (n_db n')) = Inr 99 \<and> demo_prod.node_ledger n' = demo_slashed"
proof -
  have h: "Height (Header demo_stray_block) = 99" by (simp add: demo_stray_block_def NewBlock_def)
  have a: "0 \<le> sint (ActiveValidatorSet (Validators (nd_cfg demo_prod_env)))" using demo_active_size by simp
  have x: "exec_all (nd_cfg demo_prod_env) (nd_cl demo_prod_env) (nd_now demo_prod_env) True (BTransactions demo_stray_block)
      (demo_prod.node_ledger (demo_node [])) = Inr demo_slashed"
    using demo_slash_exec by (simp add: demo_stray_block_def NewBlock_def)
  have v: "ValidateWithOptions (nd_cfg demo_prod_env) (nd_cl demo_prod_env) (nd_now2 demo_prod_env) (latestBlock (n_chain (demo_node []))) True
      demo_stray_block = Inl (InvalidHeight 1 99)"
    by (simp add: ValidateWithOptions_def demo_chain h demo_genesis_def CreateGenesisBlock_def Let_def)
  have "latestHeight (n_chain (demo_node [])) = 0" by (simp add: demo_node_def bc_Initialize_def demo_genesis_def CreateGenesisBlock_def Let_def)
  with unlinked_block_committed[OF demo_prod.node_ctx_axioms demo_ready demo_stores_work a _ x demo_slashed_supply v] h
  show ?thesis by auto
qed

theorem peer_block_durable_witness:
  "\<exists>n'. addBlock demo_prod_env (demo_empty_block 1) (demo_node []) = (Inr (), n') \<and> latestHeight (n_chain n') = 1
     \<and> GetStateHeight (stateStore (n_db n')) = Inr 1"
proof -
  let ?b = "demo_empty_block 1" and ?n = "demo_node []"
  obtain n2 where 2: "on_sm (CommitWithP0Verify (n_ops demo_prod_env) 1) ?n = (Inr (), n2)"
    using demo_prod_commits[of ?n 1] demo_node_supply by (auto simp: demo_node_parts demo_database_def)
  note c = demo_prod.commit_node_ok[unfolded demo_prod_node, OF demo_node_facts(1) 2]
  have ch: "n_chain n2 = n_chain ?n" "blockStore (n_db n2) = demo_store"
    using c(7,9) by (simp_all add: keeps_def demo_node_parts demo_database_def)
  obtain bc where bc: "AddBlockWithOptions shipped_config demo_crypto 1700000010001 ?b False (n_chain n2) = (Inr (), bc)"
    using demo_block_valid ch(1) demo_chain by (simp add: add_block_ok_iff)
  obtain bs where w: "WriteBlock demo_crypto 1 (ref_blk_ToJSON ?b) demo_store = (Inr (), bs)"
    using WriteBlock_run[of demo_store demo_crypto 1] by auto
  obtain D where D: "SaveBlock demo_db_env demo_crypto ?b (n_db n2) = (Inr (), D)"
    using demo_save_run[of demo_crypto ?b "n_db n2"] w ch(2) by auto
  have v: "ValidateBlock shipped_config demo_crypto 1700000010000 ?b (n_chain ?n) = Inr ()"
    using demo_block_valid demo_chain by (simp add: ValidateBlock_def Block_Validate_def)
  let ?n3 = "n2\<lparr>n_chain := bc\<rparr>"
  have s: "on_db (SaveBlock demo_db_env demo_crypto ?b) ?n3 = (Inr (), ?n3\<lparr>n_state := (n_state ?n3)\<lparr>sm_db := D\<rparr>\<rparr>)"
    using D by (simp add: on_db_eq)
  obtain n' where "addBlock demo_prod_env ?b ?n = (Inr (), n')"
    using v 2 bc s by (simp add: addBlock_def acceptBlock_def bindS_def on_chain_def)
  with peer_block_durable[OF demo_prod.node_ctx_axioms _ demo_chain this] show ?thesis by simp
qed

definition demo_forged_cp :: Checkpoint where
  "demo_forged_cp = (demo_cp 5)\<lparr>CPValidators := [\<lparr>VSAddress = ''F9'', VSStake = 1, VSVRFPubKey = []\<rparr>]\<rparr>"

lemma demo_no_block: "\<exists>e. fst (GetBlockByHeight demo_db_env shipped_config demo_crypto 5 demo_database) = Inl e \<and> \<not> fatal e"
  by (simp add: GetBlockByHeight_def bindS_def on_blocks_def shipped_config_def ReadBlock_def with_rlock_def readEntry_def getIdxFile_def
      fail_as_def getFile_def openChunk_def os_open_def handles_def demo_store_def demo_database_def calm_calls Let_def fatal_def)

lemma demo_forged_cp_simps: "CPHeight demo_forged_cp = 5" "CPValidators demo_forged_cp \<noteq> []"
  by (simp_all add: demo_forged_cp_def demo_cp_def NewCheckpoint_def)

lemma demo_tip: "latestHeight (n_chain (demo_node [])) = 0"
  by (simp add: demo_node_def bc_Initialize_def demo_genesis_def CreateGenesisBlock_def Let_def)

theorem checkpoint_needs_no_signature_witness:
  "\<exists>n'. applyCheckpoint demo_prod_env 0 demo_forged_cp (demo_node []) = (Inr (), n') \<and> CPSignature demo_forged_cp = []
     \<and> map VAddress (activeValidators (n_vals n')) = [''F9'']"
proof -
  obtain e where e: "fst (GetBlockByHeight demo_db_env shipped_config demo_crypto 5 demo_database) = Inl e" "\<not> fatal e"
    using demo_no_block by blast
  have g: "GetLatestCheckpoint (nd_cp demo_prod_env) (nd_fails demo_prod_env) (n_checkpoints (demo_node [])) = (Inr None, [])"
    by (simp add: GetLatestCheckpoint_def recoverCheckpointTransaction_def demo_node_def)
  have "latestHeight (n_chain (demo_node [])) < CPHeight demo_forged_cp" by (simp add: demo_tip demo_forged_cp_simps)
  from checkpoint_needs_no_signature[OF this g _ _ _ demo_forged_cp_simps(2) _ e(2), where peerCount = 0] e(1)
  show ?thesis
    by (auto simp: demo_forged_cp_simps demo_node_parts) (auto simp: demo_forged_cp_def demo_cp_def NewCheckpoint_def)
qed

theorem checkpoint_never_lowers_tip_witness:
  "\<exists>r n'. applyCheckpoint demo_prod_env 0 demo_forged_cp (demo_node []) = (r, n') \<and> 0 \<le> latestHeight (n_chain n')
     \<and> accountCache (n_state n') = accountCache (n_state (demo_node []))"
proof -
  obtain r n' where a: "applyCheckpoint demo_prod_env 0 demo_forged_cp (demo_node []) = (r, n')"
    by (cases "applyCheckpoint demo_prod_env 0 demo_forged_cp (demo_node [])")
  from checkpoint_never_lowers_tip[OF a] demo_no_block a show ?thesis
    by (auto simp: demo_forged_cp_simps demo_node_parts)
qed

end
