(* ===== verification/Node_Forks.thy ===== *)
theory Node_Forks
  imports Node_Sync
begin

text \<open>
  Forks: the comparison of checkpoints with a peer and the forced resynchronization
  (\<^verbatim>\<open>fork_resolver.go\<close>), and the activation of a validator with its own fork scan and rollback
  (\<^verbatim>\<open>node_validator.go\<close>).

  Lemmas: of two nodes with different checkpoints at the same height exactly one gives way; the one
  that does deletes its checkpoint and then hangs; the rollback height stays within the chain, or
  wraps around when the peer is younger than a checkpoint interval; the highest checkpoint seen never
  decreases; a node activates itself only one block behind its best peer.
\<close>

section \<open>Comparing checkpoints\<close>

text \<open>The package variables that remember the highest checkpoint seen.\<close>

record known_highest =
  knownHighestCheckpointHeight :: u64
  knownHighestCheckpointHash :: string

definition noteHighest :: "u64 \<Rightarrow> string \<Rightarrow> known_highest \<Rightarrow> known_highest" where
  "noteHighest height hash k = (if knownHighestCheckpointHeight k < height
     then \<lparr>knownHighestCheckpointHeight = height, knownHighestCheckpointHash = hash\<rparr> else k)"

text \<open>The height a forced resynchronization rolls back to; the subtraction in the first case wraps.\<close>

definition resyncRollbackHeight :: "u64 \<Rightarrow> u64 \<Rightarrow> u64 \<Rightarrow> u64" where
  "resyncRollbackHeight interval myHeight peerCheckpointHeight =
     (if myHeight > peerCheckpointHeight then
        (let rollbackHeight = peerCheckpointHeight - interval in if rollbackHeight < 1 then 1 else rollbackHeight)
      else
        (let localRollback = (if myHeight > interval then myHeight - interval else 1);
             peerRollback = (if peerCheckpointHeight > interval then peerCheckpointHeight - interval else 1)
         in if localRollback > peerRollback then localRollback else peerRollback))"

definition removeCheckpointFiles :: "'d node_env \<Rightarrow> 'd node \<Rightarrow> 'd node" where
  "removeCheckpointFiles N n = n\<lparr>n_checkpoints := apply_actions
     (snd (perform (nd_fails N) (Remove latestFile)) @ snd (perform (nd_fails N) (Remove stateLatestFile))) (n_checkpoints n)\<rparr>"

text \<open>The block to roll back to, or block 1.\<close>

definition rollbackTarget :: "'d node_env \<Rightarrow> u64 \<Rightarrow> ('d node, u64 \<times> block) step" where
  "rollbackTarget N rollbackHeight n =
     (case on_db (GetBlockByHeight (nd_db N) (nd_cfg N) (nd_cl N) rollbackHeight) n of
        (Inr b, n1) \<Rightarrow> (Inr (rollbackHeight, b), n1)
      | (Inl e, n1) \<Rightarrow>
          if fatal e then (Inl e, n1)
          else (case on_db (GetBlockByHeight (nd_db N) (nd_cfg N) (nd_cl N) 1) n1 of
             (Inr b, n2) \<Rightarrow> (Inr (1, b), n2)
           | (Inl e2, n2) \<Rightarrow> (Inl (if fatal e2 then e2 else NoValidBlock), n2)))"

definition ForceResyncFromPeer :: "'d node_env \<Rightarrow> u64 \<Rightarrow> ('d node, unit) step" where
  "ForceResyncFromPeer N peerCheckpointHeight n =
     (let rollbackHeight = resyncRollbackHeight (CheckpointInterval (Blocks (nd_cfg N))) (latestHeight (n_chain n)) peerCheckpointHeight in
      bindS (warn (on_db (db_DeleteBlocksAboveHeight (nd_db N) rollbackHeight))) (\<lambda>_.
      bindS (rollbackTarget N rollbackHeight) (\<lambda>(target, rollbackBlock).
      bindS (warn (on_chain (RollbackToHeight target (Some rollbackBlock)))) (\<lambda>_.
      bindS (warn (on_sm (ReloadStateFromHeight (n_ops N) target))) (\<lambda>_.
        send N (OutSyncRequest (target + 1) (peerCheckpointHeight + 1000)))))) (removeCheckpointFiles N n))"

definition RollbackToCheckpoint :: "'d node_env \<Rightarrow> u64 \<Rightarrow> ('d node, unit) step" where
  "RollbackToCheckpoint N checkpointHeight =
     bindS (on_files (LoadCheckpoint (nd_cp N) (nd_fails N) checkpointHeight)) (\<lambda>_.
     bindS (on_db (GetBlockByHeight (nd_db N) (nd_cfg N) (nd_cl N) checkpointHeight)) (\<lambda>checkpointBlock.
     bindS (on_db (db_DeleteBlocksAboveHeight (nd_db N) checkpointHeight)) (\<lambda>_.
     bindS (on_chain (RollbackToHeight checkpointHeight (Some checkpointBlock))) (\<lambda>_.
     bindS (on_sm (ReloadStateFromHeight (n_ops N) checkpointHeight)) (\<lambda>_.
     bindS (warn (on_sm (VerifyTotalSupply (n_ops N)))) (\<lambda>_.
       send N (OutSyncRequest (checkpointHeight + 1) (checkpointHeight + 1000))))))))"

section \<open>Resolving a fork\<close>

text \<open>Who gives way: the later checkpoint, and with equal times the greater hash.\<close>

definition peerWins :: "i64 \<Rightarrow> string \<Rightarrow> i64 \<Rightarrow> string \<Rightarrow> bool" where
  "peerWins myTimestamp myHash peerTimestamp peerHash \<longleftrightarrow>
     sint peerTimestamp < sint myTimestamp \<or> (peerTimestamp = myTimestamp \<and> peerHash < myHash)"

definition ResolveForkUsingCheckpoint ::
    "'d node_env \<Rightarrow> u64 \<Rightarrow> string \<Rightarrow> i64 \<Rightarrow> u64 \<Rightarrow> string \<Rightarrow> i64 \<Rightarrow> (known_highest \<times> 'd node, unit) step" where
  "ResolveForkUsingCheckpoint N myHeight myHash myTimestamp peerHeight peerHash peerTimestamp kn =
     (if length myHash < 16 \<or> length peerHash < 16 then (Inl Panic, kn)
      else case kn of (k, n) \<Rightarrow>
        (let k' = noteHighest myHeight myHash (noteHighest peerHeight peerHash k) in
         if peerHeight \<noteq> myHeight then (Inr (), (k', n))
         else if peerHash = myHash then (Inr (), (k', n))
         else if peerHeight < knownHighestCheckpointHeight k' then (Inr (), (k', n))
         else if peerWins myTimestamp myHash peerTimestamp peerHash
           then (case ForceResyncFromPeer N peerHeight n of (r, n') \<Rightarrow> (r, (k', n')))
         else (Inr (), (k', n))))"

definition DetectAndResolveFork ::
    "'d node_env \<Rightarrow> u64 \<Rightarrow> string \<Rightarrow> u64 \<Rightarrow> string \<Rightarrow> i64 \<Rightarrow> (known_highest \<times> 'd node, unit) step" where
  "DetectAndResolveFork N peerHeight peerBlockHash peerCheckpointHeight peerCheckpointHash peerCheckpointTimestamp = (\<lambda>(k, n).
     let k1 = (if 0 < peerCheckpointHeight then noteHighest peerCheckpointHeight peerCheckpointHash k else k) in
     case latestBlock (n_chain n) of
       None \<Rightarrow> (Inr (), (k1, n))
     | Some myBlock \<Rightarrow>
         (let myHeight = latestHeight (n_chain n); myBlockHash = Hash_String (Block_Hash (nd_cl N) myBlock) in
          if peerBlockHash = '''' \<or> peerCheckpointHeight = 0 then (Inr (), (k1, n))
          else case latestCheckpoint N n of
            (Inr (Some cp), n1) \<Rightarrow>
              (let myCheckpointHeight = CPHeight cp; myCheckpointHash = Hash_String (CPBlockHash cp);
                   k2 = noteHighest myCheckpointHeight myCheckpointHash k1 in
               if peerHeight = myHeight \<and> peerBlockHash \<noteq> myBlockHash then
                 (if length myBlockHash < 16 \<or> length peerBlockHash < 16 then (Inl Panic, (k2, n1))
                  else ResolveForkUsingCheckpoint N myCheckpointHeight myCheckpointHash (CPTimestamp cp)
                    peerCheckpointHeight peerCheckpointHash peerCheckpointTimestamp (k2, n1))
               else if myHeight < peerHeight \<and> 0 < myCheckpointHeight then
                 (case on_files (LoadCheckpoint (nd_cp N) (nd_fails N) (min myCheckpointHeight peerCheckpointHeight)) n1 of
                    (Inl e, n2) \<Rightarrow> (Inr (), (k2, n2))
                  | (Inr None, n2) \<Rightarrow> (Inl Panic, (k2, n2))
                  | (Inr (Some atHeight), n2) \<Rightarrow>
                      (let myHashAtCommon = Hash_String (CPBlockHash atHeight) in
                       if peerCheckpointHeight = myCheckpointHeight \<and> peerCheckpointHash \<noteq> myHashAtCommon then
                         (if length myHashAtCommon < 16 \<or> length peerCheckpointHash < 16 then (Inl Panic, (k2, n2))
                          else ResolveForkUsingCheckpoint N myCheckpointHeight myHashAtCommon (CPTimestamp atHeight)
                            peerCheckpointHeight peerCheckpointHash peerCheckpointTimestamp (k2, n2))
                       else (Inr (), (k2, n2))))
               else (Inr (), (k2, n1)))
          | (_, n1) \<Rightarrow> (Inr (), (k1, n1))))"

section \<open>Validator activation\<close>

text \<open>\<open>netHash h\<close> is the hash the first seed node that answers reports for height \<open>h\<close> (\<open>None\<close> when none
  answers, the empty string when the answer carries no hash). The heights compared are the ten below
  the tip; below ten the subtraction wraps and none is compared.\<close>

definition scanHeights :: "u64 \<Rightarrow> u64 list" where
  "scanHeights myHeight = (if myHeight < 10 then [] else map (\<lambda>i. myHeight - of_nat i) [0..<10])"

fun scanForks :: "'d node_env \<Rightarrow> (u64 \<Rightarrow> string option) \<Rightarrow> u64 list \<Rightarrow> u64 option \<Rightarrow> ('d node, u64 option) step" where
  "scanForks N netHash [] fork n = (Inr fork, n)"
| "scanForks N netHash (checkHeight # hs) fork n =
     (case on_db (GetBlockByHeight (nd_db N) (nd_cfg N) (nd_cl N) checkHeight) n of
        (Inl e, n1) \<Rightarrow> if fatal e then (Inl e, n1) else scanForks N netHash hs fork n1
      | (Inr localBlock, n1) \<Rightarrow>
          (let localHash = take 16 (Hash_String (Block_Hash (nd_cl N) localBlock));
               fork' = (case netHash checkHeight of
                 None \<Rightarrow> fork
               | Some hash \<Rightarrow> if hash \<noteq> '''' \<and> localHash \<noteq> take 16 hash then Some checkHeight else fork)
           in if fork' = None then (Inr None, n1) else scanForks N netHash hs fork' n1))"

definition rollbackToHeight :: "'d node_env \<Rightarrow> u64 \<Rightarrow> ('d node, unit) step" where
  "rollbackToHeight N targetHeight n =
     (if latestHeight (n_chain n) \<le> targetHeight then (Inr (), n)
      else case on_db (GetBlockByHeight (nd_db N) (nd_cfg N) (nd_cl N) targetHeight) n of
        (Inl e, n1) \<Rightarrow> (Inl (if fatal e then e else TargetBlockMissing), n1)
      | (Inr targetBlock, n1) \<Rightarrow> send N OutCheckpointRequest (n1\<lparr>n_chain := SetLatestBlock targetBlock (n_chain n1)\<rparr>))"

text \<open>What the function waits for: \<open>pause\<close> is what the other goroutines do to the node during the sleep, and
  \<open>best2\<close> the best peer's height when it is asked for again.\<close>

definition catchUp :: "'d node_env \<Rightarrow> ('d node \<Rightarrow> 'd node) \<Rightarrow> u64 \<Rightarrow> ('d node, u64) step" where
  "catchUp N pause bestPeerHeight n =
     (let myHeight = latestHeight (n_chain n) in
      if myHeight + 2 < bestPeerHeight then
        bindS (send N OutCheckpointRequest) (\<lambda>_ n1.
          let n2 = pause n1; newHeight = latestHeight (n_chain n2) in
          if newHeight < bestPeerHeight - 2 then (Inl (Syncing newHeight bestPeerHeight), n2) else (Inr newHeight, n2)) n
      else (Inr myHeight, n))"

definition leaveFork :: "'d node_env \<Rightarrow> ('d node \<Rightarrow> 'd node) \<Rightarrow> (u64 \<Rightarrow> string option) \<Rightarrow> u64 \<Rightarrow> ('d node, unit) step" where
  "leaveFork N pause netHash myHeight =
     (if myHeight = 0 then Pair (Inr ())
      else bindS (scanForks N netHash (scanHeights myHeight) None) (\<lambda>fork.
        case fork of
          None \<Rightarrow> Pair (Inr ())
        | Some forkHeight \<Rightarrow>
            if forkHeight = 0 then Pair (Inr ())
            else (let rollbackTo = (if forkHeight - 1 < 1 then 1 else forkHeight - 1) in
              bindS (warn (rollbackToHeight N rollbackTo)) (\<lambda>_.
              bindS (send N OutCheckpointRequest) (\<lambda>_ n. (Inl (ForkRolledBack rollbackTo), pause n))))))"

definition activateBehind :: "'d node_env \<Rightarrow> u64 \<Rightarrow> ('d node, unit) step" where
  "activateBehind N best2 n =
     (let myHeight = latestHeight (n_chain n) in
      if best2 \<le> myHeight then (Inl WaitingForLeader, n)
      else if myHeight + 1 < best2 then
        bindS (send N (OutSyncRequest (myHeight + 1) best2)) (\<lambda>_. Pair (Inl (StillBehind (best2 - myHeight)))) n
      else if list_ex (\<lambda>v. length (VAddress v) < 10) (activeValidators (n_vals n)) then (Inl Panic, n)
      else (Inr (), n\<lparr>n_validatorActivated := True, n_syncedHeight := myHeight\<rparr>))"

definition RequestValidatorActivation ::
    "'d node_env \<Rightarrow> nat \<Rightarrow> ('d node \<Rightarrow> 'd node) \<Rightarrow> (u64 \<Rightarrow> string option) \<Rightarrow> u64 \<Rightarrow> ('d node, unit) step" where
  "RequestValidatorActivation N peerCount pause netHash best2 n =
     (if \<not> isActiveValidator (n_address n) n then (Inl NotAValidatorNode, n)
      else if nd_seedPeers N = 0
        then (Inr (), n\<lparr>n_validatorActivated := True, n_syncedHeight := latestHeight (n_chain n)\<rparr>)
      else case nd_bestPeer N of
        None \<Rightarrow> (Inl WaitingForPeers, n)
      | Some bestPeerHeight \<Rightarrow>
          if peerCount = 0 then (Inl WaitingForPeers, n)
          else bindS (catchUp N pause bestPeerHeight) (\<lambda>myHeight.
            bindS (leaveFork N pause netHash myHeight) (\<lambda>_. activateBehind N best2)) n)"

text \<open>\<open>apiUp\<close>: some seed node answers a status request.\<close>

definition checkIsolatedMode :: "'d node_env \<Rightarrow> nat \<Rightarrow> bool \<Rightarrow> 'd node \<Rightarrow> bool" where
  "checkIsolatedMode N peerCount apiUp n \<longleftrightarrow> nd_bestPeer N \<noteq> None \<and> peerCount = 0 \<and> \<not> apiUp
     \<and> list_ex (\<lambda>v. VAddress v = n_address n \<and> 0 < StakedAmount v) (activeValidators (n_vals n))"

section \<open>Giving way\<close>

lemma resync_hangs:
  assumes "ForceResyncFromPeer N h n = (r, n')"
  shows "r = Inl Deadlock \<and> n_chain n' = n_chain n \<and> n_vals n' = n_vals n \<and> stateStore (n_db n') = stateStore (n_db n)
    \<and> accountCache (n_state n') = accountCache (n_state n)
    \<and> (nd_fails N = (\<lambda>_. None) \<longrightarrow> n_checkpoints n' = (n_checkpoints n)(latestFile := None, stateLatestFile := None))"
proof -
  let ?h = "resyncRollbackHeight (CheckpointInterval (Blocks (nd_cfg N))) (latestHeight (n_chain n)) h"
  let ?n1 = "removeCheckpointFiles N n"
  obtain bs where "DeleteBlocksAboveHeight ?h (blockStore (n_db ?n1)) = (Inl Deadlock, bs)"
    using delete_hangs[of ?h "blockStore (n_db ?n1)"] by (metis prod.collapse)
  then have "on_db (db_DeleteBlocksAboveHeight (nd_db N) ?h) ?n1
      = (Inl Deadlock, ?n1\<lparr>n_state := (n_state ?n1)\<lparr>sm_db := (n_db ?n1)\<lparr>blockStore := bs\<rparr>\<rparr>\<rparr>)"
    by (simp add: on_db_eq db_DeleteBlocksAboveHeight_def on_blocks_def)
  with assms have "r = Inl Deadlock \<and> n' = ?n1\<lparr>n_state := (n_state ?n1)\<lparr>sm_db := (n_db ?n1)\<lparr>blockStore := bs\<rparr>\<rparr>\<rparr>"
    by (simp add: ForceResyncFromPeer_def Let_def bindS_def warn_def fatal_def)
  then show ?thesis by (auto simp: removeCheckpointFiles_def perform_def fun_upd_twist)
qed

lemma noteHighest_mono:
  "knownHighestCheckpointHeight k \<le> knownHighestCheckpointHeight (noteHighest h hash k)"
  "h \<le> knownHighestCheckpointHeight (noteHighest h hash k)"
  "knownHighestCheckpointHeight (noteHighest h hash k) \<in> {h, knownHighestCheckpointHeight k}"
  by (auto simp: noteHighest_def)

lemma peerWins_antisym:
  assumes "myHash \<noteq> peerHash"
  shows "peerWins myTimestamp myHash peerTimestamp peerHash \<longleftrightarrow> \<not> peerWins peerTimestamp peerHash myTimestamp myHash"
proof -
  have "sint peerTimestamp = sint myTimestamp \<longleftrightarrow> peerTimestamp = myTimestamp" by (auto intro: signed_word_eqI)
  then show ?thesis using assms unfolding peerWins_def by (metis linorder_less_linear less_asym)
qed

lemma resolve_known:
  assumes "ResolveForkUsingCheckpoint N mh mhash mt ph phash pt (k, n) = (r, (k', n'))"
  shows "knownHighestCheckpointHeight k \<le> knownHighestCheckpointHeight k'"
proof -
  have "k' = k \<or> k' = noteHighest mh mhash (noteHighest ph phash k)"
    using assms by (auto simp: ResolveForkUsingCheckpoint_def Let_def split: if_splits prod.splits)
  then show ?thesis using noteHighest_mono(1) order_trans by blast
qed

section \<open>Claims\<close>


text \<open>The side that gives way never recovers. A forced resynchronization removes the checkpoint and the state
  file, then hangs while deleting blocks; the tip and the accounts stay as they were, and nothing is
  ever requested from the peer.\<close>

theorem forced_resync_hangs:
  assumes "ForceResyncFromPeer N peerCheckpointHeight n = (r, n')" and "nd_fails N = (\<lambda>_. None)"
  shows "r = Inl Deadlock \<and> n_checkpoints n' latestFile = None \<and> n_checkpoints n' stateLatestFile = None
    \<and> n_chain n' = n_chain n \<and> stateStore (n_db n') = stateStore (n_db n) \<and> accountCache (n_state n') = accountCache (n_state n)"
  using resync_hangs[OF assms(1)] assms(2) by simp

text \<open>The rollback height of a resynchronization. When the peer's checkpoint is at least one interval old, or
  this node is not above it, the height is at least one and at most the greater of the tip and the
  checkpoint; otherwise the subtraction wraps around and the height lies above the tip, so that the
  rollback cannot happen.\<close>

theorem resync_rollback_bounds:
  "(interval \<le> peer \<or> my \<le> peer \<longrightarrow>
      1 \<le> resyncRollbackHeight interval my peer \<and> resyncRollbackHeight interval my peer \<le> max 1 (max my peer))
   \<and> (peer < my \<and> peer < interval \<and> unat interval + unat my < 2 ^ 63 \<longrightarrow> my < resyncRollbackHeight interval my peer)"
proof -
  have wrap: "my < peer - interval" if "peer < my" "peer < interval" "unat interval + unat my < 2 ^ 63"
  proof -
    have "unat (peer - interval) = 2 ^ 64 + unat peer - unat interval"
      using that(2) unsigned_less[of interval, where 'a = nat] by (simp add: unat_sub_if_size word_size not_le word_less_nat_alt)
    then show ?thesis using that(3) by (simp add: word_less_nat_alt)
  qed
  have sub: "1 \<le> x - y \<and> x - y \<le> x" if "y < x" for x y :: u64
    using that by (simp add: word_le_nat_alt word_less_nat_alt unat_sub)
  have "1 \<le> resyncRollbackHeight interval my peer \<and> resyncRollbackHeight interval my peer \<le> max 1 (max my peer)"
    if "interval \<le> peer \<or> my \<le> peer"
  proof (cases "peer < my")
    case True
    then have "interval \<le> peer" using that by auto
    then consider "interval = peer" | "interval < peer" by fastforce
    then show ?thesis
      using True sub[of interval peer] by cases (auto simp: resyncRollbackHeight_def Let_def le_max_iff_disj)
  next
    case False
    then show ?thesis
      using sub[of interval my] sub[of interval peer]
      by (auto simp: resyncRollbackHeight_def Let_def le_max_iff_disj)
  qed
  moreover have "my < resyncRollbackHeight interval my peer" if "peer < my" "peer < interval" "unat interval + unat my < 2 ^ 63"
    using wrap[OF that] that(1) by (auto simp: resyncRollbackHeight_def Let_def not_less intro: order.strict_trans2)
  ultimately show ?thesis by blast
qed

text \<open>The highest known checkpoint never decreases, whatever a peer reports, and is at least what it reported.\<close>

theorem known_highest_grows:
  assumes "DetectAndResolveFork N ph pbh pch pchash pct (k, n) = (r, (k', n'))"
  shows "knownHighestCheckpointHeight k \<le> knownHighestCheckpointHeight k' \<and> pch \<le> knownHighestCheckpointHeight k'"
proof -
  define k1 where "k1 = (if 0 < pch then noteHighest pch pchash k else k)"
  have 1: "knownHighestCheckpointHeight k \<le> knownHighestCheckpointHeight k1" "pch \<le> knownHighestCheckpointHeight k1"
    using noteHighest_mono[where k = k and h = pch and hash = pchash]
    by (cases "pch = 0"; simp add: k1_def word_gt_0)+
  have "knownHighestCheckpointHeight k1 \<le> knownHighestCheckpointHeight k'"
  proof (cases "latestBlock (n_chain n) = None \<or> pbh = [] \<or> pch = 0")
    case True
    then show ?thesis using assms by (auto simp: DetectAndResolveFork_def Let_def k1_def[symmetric] split: option.splits)
  next
    case False
    then obtain mine where mine: "latestBlock (n_chain n) = Some mine" "pbh \<noteq> []" "pch \<noteq> 0" by auto
    obtain q n1 where l: "latestCheckpoint N n = (q, n1)" by (cases "latestCheckpoint N n")
    note D = assms[unfolded DetectAndResolveFork_def Let_def split k1_def[symmetric] mine(1) option.case l]
    show ?thesis
    proof (cases "\<exists>cp. q = Inr (Some cp)")
      case True
      then obtain cp where q: "q = Inr (Some cp)" by blast
      define k2 where "k2 = noteHighest (CPHeight cp) (Hash_String (CPBlockHash cp)) k1"
      obtain x n2 where x: "on_files (LoadCheckpoint (nd_cp N) (nd_fails N) (min (CPHeight cp) pch)) n1 = (x, n2)"
        by (cases "on_files (LoadCheckpoint (nd_cp N) (nd_fails N) (min (CPHeight cp) pch)) n1")
      have "knownHighestCheckpointHeight k2 \<le> knownHighestCheckpointHeight k'"
        using D mine(2,3) q x by (auto simp: k2_def[symmetric] split: if_splits sum.splits option.splits dest: resolve_known)
      then show ?thesis using noteHighest_mono(1)[of k1] unfolding k2_def by (meson order_trans)
    next
      case False
      then show ?thesis using D mine(2,3) by (auto split: sum.splits option.splits)
    qed
  qed
  then show ?thesis using 1 by (meson order_trans)
qed

text \<open>A validator with seed nodes activates itself only one block behind its best peer. When the request
  succeeds, the node was an active validator, some peer was connected, and its tip is exactly one
  below the best peer's height; that height is recorded.\<close>

theorem activates_one_behind:
  assumes "RequestValidatorActivation N peerCount pause netHash best2 n = (Inr (), n')" and "nd_seedPeers N \<noteq> 0"
  shows "isActiveValidator (n_address n) n \<and> 0 < peerCount \<and> best2 = latestHeight (n_chain n') + 1
    \<and> n_validatorActivated n' \<and> n_syncedHeight n' = latestHeight (n_chain n')"
proof -
  obtain b h n1 n2 where v: "isActiveValidator (n_address n) n" "0 < peerCount" and a: "activateBehind N best2 n2 = (Inr (), n')"
    using assms by (auto simp: RequestValidatorActivation_def bindS_Inr_iff split: if_splits option.splits)
  let ?h = "latestHeight (n_chain n2)"
  have lt: "?h < best2" "best2 \<le> ?h + 1" and n': "n' = n2\<lparr>n_validatorActivated := True, n_syncedHeight := ?h\<rparr>"
    using a by (auto simp: activateBehind_def Let_def bindS_Inr_iff not_less not_le split: if_splits)
  have "best2 = ?h + 1" using lt by (meson inc_le order_antisym)
  then show ?thesis using v n' by simp
qed

section \<open>Witnesses\<close>


theorem forced_resync_hangs_witness:
  "fst (ForceResyncFromPeer demo_prod_env 24 (demo_node [])) = Inl Deadlock
    \<and> n_checkpoints (snd (ForceResyncFromPeer demo_prod_env 24 (demo_node []))) latestFile = None"
  using forced_resync_hangs[of demo_prod_env 24 "demo_node []" "fst (ForceResyncFromPeer demo_prod_env 24 (demo_node []))"
      "snd (ForceResyncFromPeer demo_prod_env 24 (demo_node []))"] by simp

theorem resync_rollback_bounds_witness:
  "1 \<le> resyncRollbackHeight 12 30 24 \<and> resyncRollbackHeight 12 30 24 \<le> 30 \<and> 30 < resyncRollbackHeight 12 30 5"
  using resync_rollback_bounds[of 12 24 30] resync_rollback_bounds[of 12 5 30] by simp

theorem known_highest_grows_witness:
  "let x = DetectAndResolveFork demo_prod_env 5 ''00'' 5 ''00'' 1
      (\<lparr>knownHighestCheckpointHeight = 3, knownHighestCheckpointHash = []\<rparr>, demo_node [])
    in 3 \<le> knownHighestCheckpointHeight (fst (snd x)) \<and> 5 \<le> knownHighestCheckpointHeight (fst (snd x))"
  using known_highest_grows[of demo_prod_env 5 "''00''" 5 "''00''" 1 "\<lparr>knownHighestCheckpointHeight = 3, knownHighestCheckpointHash = []\<rparr>"
      "demo_node []"] by (metis known_highest.select_convs(1) prod.collapse)

lemma demo_activates:
  "\<exists>n'. RequestValidatorActivation (demo_prod_env\<lparr>nd_seedPeers := 1\<rparr>) 1 id (\<lambda>_. None) 1 demo_loop_node = (Inr (), n')"
  by (simp add: RequestValidatorActivation_def demo_loop_facts catchUp_def leaveFork_def activateBehind_def bindS_def)
    (simp add: demo_loop_node_def LoadFromCheckpoint_def loadedValidator_def Let_def demo_validator_def demo_user_eq)

theorem activates_one_behind_witness:
  "\<exists>n'. RequestValidatorActivation (demo_prod_env\<lparr>nd_seedPeers := 1\<rparr>) 1 id (\<lambda>_. None) 1 demo_loop_node = (Inr (), n')
    \<and> (1 :: u64) = latestHeight (n_chain n') + 1 \<and> n_validatorActivated n'"
proof -
  obtain n' where r: "RequestValidatorActivation (demo_prod_env\<lparr>nd_seedPeers := 1\<rparr>) 1 id (\<lambda>_. None) 1 demo_loop_node = (Inr (), n')"
    using demo_activates by blast
  then show ?thesis using activates_one_behind[OF r] by simp
qed

end
