(* ===== verification/Network_Peer.thy ===== *)
theory Network_Peer
  imports Node_Forks
begin

text \<open>
  Messages and connections between nodes: \<^verbatim>\<open>network/message.go\<close> and \<^verbatim>\<open>network/peer.go\<close>. A message is a
  JSON object preceded by its length in four bytes. The JSON codec is a parameter.

  A pointer that a peer can leave out (\<^verbatim>\<open>null\<close>) is an option; a block without a header counts as left
  out, since the first thing every handler does with a block is to read its header. A payload that
  does not decode is \<open>MsgMalformed\<close> with the message type.

  Lemmas: what one side writes the other side receives, in order; a message above ten megabytes
  closes the connection and hides everything behind it.
\<close>

section \<open>Messages\<close>

record PingMessage =
  PAddress :: string
  PHeight :: u64
  LatestBlockHash :: string
  PCheckpointHeight :: u64
  PCheckpointHash :: string
  PCheckpointTimestamp :: i64
  PConsensusVersion :: string
  PConsensusHash :: string

text \<open>\<^verbatim>\<open>PongMessage\<close> has the same fields.\<close>

type_synonym PongMessage = PingMessage

datatype message =
    MsgPing PingMessage
  | MsgPong PongMessage
  | MsgGetBlocks u64 u64
  | MsgBlocks "block option list"
  | MsgGetLatest
  | MsgLatestHeight u64
  | MsgNewBlock "block option"
  | MsgTransaction "transaction option"
  | MsgGetCheckpoint u64
  | MsgCheckpoint "CheckpointInfo list"
  | MsgGetState u64
  | MsgStateData u64 bytes
  | MsgGetEarliestHeight
  | MsgEarliestHeight u64
  | MsgMalformed u8
  | MsgUnknown u8

text \<open>\<^verbatim>\<open>json.Marshal\<close> and \<^verbatim>\<open>json.Unmarshal\<close> of a whole message.\<close>

record message_codec =
  msg_Marshal :: "message \<Rightarrow> bytes"
  UnmarshalMessage :: "bytes \<Rightarrow> message option"

section \<open>A peer\<close>

text \<open>Times are milliseconds; \<^verbatim>\<open>zeroTime\<close> is \<^verbatim>\<open>time.Time{}\<close>, the first day of year 1. \<open>sendChan\<close> and
  \<open>recvChan\<close> are the buffered channels of 500 and 1000 messages. \<open>wire\<close> is what was written to the
  connection so far.\<close>

definition zeroTime :: int where
  "zeroTime = -62135596800000"

record Peer =
  p_address :: string
  p_host :: string
  outbound :: bool
  connected :: bool
  sendChan :: "message list"
  recvChan :: "message list"
  lastHeartbeat :: int
  p_height :: u64
  wire :: bytes

definition NewPeer :: "int \<Rightarrow> string \<Rightarrow> bool \<Rightarrow> Peer" where
  "NewPeer now remoteAddr out = \<lparr>p_address = '''', p_host = remoteAddr, outbound = out, connected = True, sendChan = [],
     recvChan = [], lastHeartbeat = now, p_height = 0, wire = []\<rparr>"

definition peer_Close :: "Peer \<Rightarrow> Peer" where
  "peer_Close p = p\<lparr>connected := False\<rparr>"

definition IsAlive :: "int \<Rightarrow> Peer \<Rightarrow> bool" where
  "IsAlive now p \<longleftrightarrow> now - lastHeartbeat p < 90 * 1000"

section \<open>The wire\<close>

definition writeMessage :: "message_codec \<Rightarrow> message \<Rightarrow> bytes" where
  "writeMessage mc msg = (let data = msg_Marshal mc msg in be_put32 (of_nat (length data)) @ data)"

text \<open>One round of the writer: the oldest message goes to the wire.\<close>

definition writeLoop :: "message_codec \<Rightarrow> Peer \<Rightarrow> Peer" where
  "writeLoop mc p = (case sendChan p of
     [] \<Rightarrow> p
   | msg # rest \<Rightarrow> if connected p then p\<lparr>sendChan := rest, wire := wire p @ writeMessage mc msg\<rparr> else p)"

text \<open>A full channel makes the sender wait up to five seconds; \<open>drains\<close> says whether the writer takes a
  message within that time.\<close>

definition SendMessage :: "message_codec \<Rightarrow> bool \<Rightarrow> message \<Rightarrow> (Peer, unit) step" where
  "SendMessage mc drains msg p =
     (if \<not> connected p then (Inl NotConnected, p)
      else if length (sendChan p) < 500 then (Inr (), p\<lparr>sendChan := sendChan p @ [msg]\<rparr>)
      else if drains then (let p' = writeLoop mc p in (Inr (), p'\<lparr>sendChan := sendChan p' @ [msg]\<rparr>))
      else (Inl Other, p))"

text \<open>What the reader finds at the start of the bytes that have arrived: too few for a message, a length
  above the limit, a message that does not decode, or a message.\<close>

datatype frame = NeedMore | TooLarge | Undecodable bytes | Received message bytes

definition maxMessage :: nat where
  "maxMessage = 10 * 1024 * 1024"

definition readFrame :: "message_codec \<Rightarrow> bytes \<Rightarrow> frame" where
  "readFrame mc input = (case be_get32 input of
     Inl _ \<Rightarrow> NeedMore
   | Inr n \<Rightarrow>
       (let rest = drop 4 input in
        if maxMessage < unat n then TooLarge
        else if length rest < unat n then NeedMore
        else case UnmarshalMessage mc (take (unat n) rest) of
          None \<Rightarrow> Undecodable (drop (unat n) rest)
        | Some msg \<Rightarrow> Received msg (drop (unat n) rest)))"

lemma readFrame_shrinks:
  "readFrame mc input = Undecodable rest \<Longrightarrow> length rest < length input"
  "readFrame mc input = Received msg rest \<Longrightarrow> length rest < length input"
  by (auto simp: readFrame_def be_get32_def Let_def split: if_splits option.splits)

text \<open>A message that finds the receive channel full is dropped.\<close>

definition receive :: "message \<Rightarrow> Peer \<Rightarrow> Peer" where
  "receive msg p = (if length (recvChan p) < 1000 then p\<lparr>recvChan := recvChan p @ [msg]\<rparr> else p)"

text \<open>The reader on the bytes that have arrived: the peer and the bytes left for later.\<close>

function readLoop :: "message_codec \<Rightarrow> bytes \<Rightarrow> Peer \<Rightarrow> Peer \<times> bytes" where
  "readLoop mc input p = (case readFrame mc input of
     NeedMore \<Rightarrow> (p, input)
   | TooLarge \<Rightarrow> (peer_Close p, input)
   | Undecodable rest \<Rightarrow> readLoop mc rest p
   | Received msg rest \<Rightarrow> readLoop mc rest (receive msg p))"
  by pat_completeness auto
termination by (relation "measure (\<lambda>(mc, input, p). length input)") (auto dest: readFrame_shrinks)

declare readLoop.simps [simp del]

section \<open>Messages arrive\<close>

definition travels :: "message_codec \<Rightarrow> message \<Rightarrow> bool" where
  "travels mc msg \<longleftrightarrow> UnmarshalMessage mc (msg_Marshal mc msg) = Some msg \<and> length (msg_Marshal mc msg) \<le> maxMessage"

lemma read_written: "travels mc msg \<Longrightarrow> readFrame mc (writeMessage mc msg @ rest) = Received msg rest"
  by (simp add: readFrame_def writeMessage_def Let_def travels_def maxMessage_def unsigned_of_nat take_bit_nat_eq_self)

lemma read_too_large:
  assumes "maxMessage < length (msg_Marshal mc msg)" and "length (msg_Marshal mc msg) < 2 ^ 32"
  shows "readFrame mc (writeMessage mc msg @ rest) = TooLarge"
  using assms by (simp add: readFrame_def writeMessage_def Let_def unsigned_of_nat take_bit_nat_eq_self)

lemma readLoop_written:
  assumes "\<forall>m\<in>set msgs. travels mc m" and "length (recvChan p) + length msgs \<le> 1000"
  shows "readLoop mc (concat (map (writeMessage mc) msgs) @ rest) p = readLoop mc rest (p\<lparr>recvChan := recvChan p @ msgs\<rparr>)"
  using assms
proof (induction msgs arbitrary: p)
  case (Cons m msgs)
  have "readLoop mc (concat (map (writeMessage mc) (m # msgs)) @ rest) p
      = readLoop mc (concat (map (writeMessage mc) msgs) @ rest) (receive m p)"
    using Cons.prems by (subst readLoop.simps) (simp add: read_written)
  also have "receive m p = p\<lparr>recvChan := recvChan p @ [m]\<rparr>" using Cons.prems(2) by (simp add: receive_def)
  finally show ?case using Cons.IH[of "p\<lparr>recvChan := recvChan p @ [m]\<rparr>"] Cons.prems by simp
qed simp

lemma write_all:
  assumes "connected p"
  shows "(writeLoop mc ^^ length (sendChan p)) p = p\<lparr>sendChan := [], wire := wire p @ concat (map (writeMessage mc) (sendChan p))\<rparr>"
  using assms
proof (induction "sendChan p" arbitrary: p)
  case (Cons m ms)
  have "writeLoop mc p = p\<lparr>sendChan := ms, wire := wire p @ writeMessage mc m\<rparr>" (is "_ = ?p")
    using Cons.hyps(2)[symmetric] Cons.prems by (simp add: writeLoop_def)
  then show ?case
    using Cons.hyps(1)[of ?p] Cons.hyps(2)[symmetric] Cons.prems by (simp add: funpow_swap1 funpow_Suc_right del: funpow.simps)
qed simp


text \<open>A message above ten megabytes ends the conversation. The writer sends it like any other message, and
  the reader closes the connection when it sees the length: the messages before it were received,
  the message itself and everything after it never is.\<close>

theorem large_message_disconnects:
  assumes "\<forall>m\<in>set msgs. travels mc m" and "length (recvChan b) + length msgs \<le> 1000"
    and "maxMessage < length (msg_Marshal mc big)" and "length (msg_Marshal mc big) < 2 ^ 32"
  shows "\<not> connected (fst (readLoop mc (concat (map (writeMessage mc) (msgs @ big # later))) b))
    \<and> recvChan (fst (readLoop mc (concat (map (writeMessage mc) (msgs @ big # later))) b)) = recvChan b @ msgs"
  using readLoop_written[OF assms(1,2), of "writeMessage mc big @ concat (map (writeMessage mc) later)"]
    read_too_large[OF assms(3,4), of "concat (map (writeMessage mc) later)"]
  by (simp add: readLoop.simps[of mc "writeMessage mc big @ _"] peer_Close_def)

section \<open>Witnesses\<close>

text \<open>A codec that can write requests for the latest height, and states of the given size.\<close>

definition demo_msg_codec :: message_codec where
  "demo_msg_codec = \<lparr>msg_Marshal = (\<lambda>m. case m of MsgStateData _ data \<Rightarrow> 1 # data | _ \<Rightarrow> [0]),
     UnmarshalMessage = (\<lambda>b. if b = [0] then Some MsgGetLatest else None)\<rparr>"

lemma demo_travels: "travels demo_msg_codec MsgGetLatest"
  by (simp add: travels_def demo_msg_codec_def maxMessage_def)


theorem large_message_disconnects_witness:
  "\<not> connected (fst (readLoop demo_msg_codec
      (concat (map (writeMessage demo_msg_codec) ([MsgGetLatest] @ MsgStateData 12 (replicate maxMessage 0) # []))) (NewPeer 0 ''b'' False)))"
  using large_message_disconnects[of "[MsgGetLatest]" demo_msg_codec "NewPeer 0 ''b'' False" "MsgStateData 12 (replicate maxMessage 0)" "[]"]
    demo_travels
  by (simp add: NewPeer_def demo_msg_codec_def maxMessage_def)

end
