(* ===== verification/Network_Server.thy ===== *)
theory Network_Server
  imports Network_Peer
begin

text \<open>
  The peer-to-peer server: its state (\<^verbatim>\<open>network/server.go\<close>), the list of peers
  (\<^verbatim>\<open>network/connection.go\<close>), the download of blocks (\<^verbatim>\<open>network/sync.go\<close>), announcements
  (\<^verbatim>\<open>network/broadcast.go\<close>) and the handlers of all messages (\<^verbatim>\<open>network/message_handler.go\<close>,
  \<^verbatim>\<open>network/handler_checkpoint.go\<close>).

  The server works on the node through callbacks. They are fields of \<open>server_env\<close>, over any type of
  node; \<open>node_server\<close> fills them with the functions of the node, as \<^verbatim>\<open>InitializeP2P\<close> does before the
  server starts, so that none is missing. A handler returns an error only when the process panics
  or the goroutine hangs; every other error is logged.

  A peer is a number, standing for the pointer; \<open>peerAt\<close> is the memory behind it. The order of the
  peers is the order in which Go happens to run through the map.
\<close>

section \<open>State\<close>

record Server =
  s_address :: string
  publicIP :: string
  peers :: "(string, nat) gomap"
  peerAt :: "nat \<Rightarrow> Peer"
  nextPeer :: nat
  syncing :: bool
  syncTargetHeight :: u64
  syncPeer :: "nat option"
  syncStartTime :: int
  lastSyncHeight :: u64
  progressiveSkip :: u64
  checkpointSyncFrom :: u64
  checkpointHeight :: u64
  backfillInProgress :: bool
  backfillTargetHeight :: u64
  backfillCurrentFrom :: u64
  lastBroadcastHeight :: u64
  lastBroadcastTime :: int
  rejectedProposers :: "(u64, (string, nat) gomap) gomap"

definition NewServer :: "string \<Rightarrow> string \<Rightarrow> Server" where
  "NewServer address ip = \<lparr>s_address = address, publicIP = ip, peers = [], peerAt = (\<lambda>_. NewPeer zeroTime '''' False), nextPeer = 0,
     syncing = False, syncTargetHeight = 0, syncPeer = None, syncStartTime = zeroTime, lastSyncHeight = 0, progressiveSkip = 0,
     checkpointSyncFrom = 0, checkpointHeight = 0, backfillInProgress = False, backfillTargetHeight = 0,
     backfillCurrentFrom = 0, lastBroadcastHeight = 0, lastBroadcastTime = zeroTime, rejectedProposers = []\<rparr>"

text \<open>The parameters of a run: configuration, libraries, the clock, whether the writer of a peer makes
  room in a full channel, the addresses of the network interfaces, and the callbacks.
  \<open>cb_outbox\<close> takes what the node itself wants to have sent.\<close>

record 'n server_env =
  se_cfg :: ConsensusConfig
  se_cl :: crypto_lib
  se_codec :: message_codec
  se_now :: int
  se_drains :: "nat \<Rightarrow> bool"
  se_interfaces :: "string list option"
  cb_getLatestBlock :: "'n \<Rightarrow> block option"
  cb_addBlock :: "block \<Rightarrow> ('n, unit) step"
  cb_addBlockSkipTimestamp :: "block \<Rightarrow> ('n, unit) step"
  cb_getBlockRange :: "u64 \<Rightarrow> u64 \<Rightarrow> ('n, block list) step"
  cb_verifyProposer :: "u64 \<Rightarrow> block \<Rightarrow> ('n, string) step"
  cb_performReorg :: "u64 \<Rightarrow> block \<Rightarrow> ('n, unit) step"
  cb_getProposerStake :: "string \<Rightarrow> ('n, u64) step"
  cb_getLatestCheckpoints :: "int \<Rightarrow> ('n, CheckpointInfo list) step"
  cb_getLatestCheckpoint :: "('n, Checkpoint option) step"
  cb_applyCheckpoint :: "nat \<Rightarrow> Checkpoint \<Rightarrow> ('n, unit) step"
  cb_getStateSnapshot :: "u64 \<Rightarrow> ('n, bytes) step"
  cb_applyStateSnapshot :: "u64 \<Rightarrow> bytes \<Rightarrow> ('n, unit) step"
  cb_handleReceivedTransaction :: "transaction \<Rightarrow> ('n, unit) step"
  cb_detectAndResolveFork :: "u64 \<Rightarrow> string \<Rightarrow> u64 \<Rightarrow> string \<Rightarrow> i64 \<Rightarrow> ('n, unit) step"
  cb_saveBlockOnly :: "block \<Rightarrow> ('n, unit) step"
  cb_replaceForkedBlock :: "block \<Rightarrow> ('n, unit) step"
  cb_getEarliestHeight :: "('n, u64) step"
  cb_isValidator :: "string \<Rightarrow> 'n \<Rightarrow> bool"
  cb_outbox :: "'n \<Rightarrow> outgoing list \<times> 'n"

type_synonym 'n world = "Server \<times> 'n"

definition on_node :: "('n, 'a) step \<Rightarrow> ('n world, 'a) step" where
  "on_node m = (\<lambda>(s, n). case m n of (r, n') \<Rightarrow> (r, (s, n')))"

definition on_server :: "(Server \<Rightarrow> Server) \<Rightarrow> ('n world, unit) step" where
  "on_server f = (\<lambda>(s, n). (Inr (), (f s, n)))"

definition slices :: "string list \<Rightarrow> nat \<Rightarrow> ('s, unit) step" where
  "slices xs k = Pair (if list_ex (\<lambda>x. length x < k) xs then Inl Panic else Inr ())"

text \<open>\<^verbatim>\<open>if a, err := m(); err != nil { f(err) } else { g(a) }\<close>, with the node's panics and hangs passed on. The
  second form returns when there is an error.\<close>

definition attempt :: "('s, 'a) step \<Rightarrow> (error \<Rightarrow> ('s, 'b) step) \<Rightarrow> ('a \<Rightarrow> ('s, 'b) step) \<Rightarrow> ('s, 'b) step" where
  "attempt m f g s = (case m s of (Inl e, s') \<Rightarrow> if fatal e then (Inl e, s') else f e s' | (Inr a, s') \<Rightarrow> g a s')"

abbreviation or_return :: "('s, 'a) step \<Rightarrow> ('a \<Rightarrow> ('s, unit) step) \<Rightarrow> ('s, unit) step" where
  "or_return m \<equiv> attempt m (\<lambda>_. Pair (Inr ()))"

definition tipHeight :: "'n server_env \<Rightarrow> 'n \<Rightarrow> u64" where
  "tipHeight E n = (case cb_getLatestBlock E n of None \<Rightarrow> 0 | Some b \<Rightarrow> Height (Header b))"

section \<open>Peers\<close>

definition addPeer :: "Peer \<Rightarrow> Server \<Rightarrow> Server" where
  "addPeer peer s = s\<lparr>peers := AList.update (p_host peer) (nextPeer s) (peers s),
     peerAt := (peerAt s)(nextPeer s := peer), nextPeer := Suc (nextPeer s)\<rparr>"

definition removePeer :: "string \<Rightarrow> Server \<Rightarrow> Server" where
  "removePeer host s = (case map_of (peers s) host of
     None \<Rightarrow> s
   | Some p \<Rightarrow> s\<lparr>peers := AList.delete host (peers s), peerAt := (peerAt s)(p := peer_Close (peerAt s p))\<rparr>)"

definition updatePeer :: "nat \<Rightarrow> (Peer \<Rightarrow> Peer) \<Rightarrow> Server \<Rightarrow> Server" where
  "updatePeer p f s = s\<lparr>peerAt := (peerAt s)(p := f (peerAt s p))\<rparr>"

abbreviation PeerCount :: "Server \<Rightarrow> nat" where
  "PeerCount s \<equiv> length (peers s)"

definition connectedPeers :: "Server \<Rightarrow> nat list" where
  "connectedPeers s = filter (\<lambda>p. connected (peerAt s p)) (map snd (peers s))"

definition sendTo :: "'n server_env \<Rightarrow> nat \<Rightarrow> message \<Rightarrow> ('n world, unit) step" where
  "sendTo E p msg = (\<lambda>(s, n). case SendMessage (se_codec E) (se_drains E p) msg (peerAt s p) of
     (r, peer) \<Rightarrow> (r, (s\<lparr>peerAt := (peerAt s)(p := peer)\<rparr>, n)))"

fun sendAll :: "'n server_env \<Rightarrow> message list \<Rightarrow> nat list \<Rightarrow> ('n world, unit) step" where
  "sendAll E msgs [] = Pair (Inr ())"
| "sendAll E msgs (p # ps) = bindS (foldr (\<lambda>m rest. bindS (warn (sendTo E p m)) (\<lambda>_. rest)) msgs (Pair (Inr ()))) (\<lambda>_. sendAll E msgs ps)"

text \<open>Address, tip, checkpoint and consensus identification of this node, the content of both ping and pong.\<close>

definition statusOf :: "'n server_env \<Rightarrow> string \<Rightarrow> block option \<Rightarrow> Checkpoint option \<Rightarrow> PingMessage" where
  "statusOf E address latest checkpoint = \<lparr>PAddress = address,
     PHeight = (case latest of None \<Rightarrow> 0 | Some b \<Rightarrow> Height (Header b)),
     LatestBlockHash = (case latest of None \<Rightarrow> '''' | Some b \<Rightarrow> Hash_String (Block_Hash (se_cl E) b)),
     PCheckpointHeight = (case checkpoint of None \<Rightarrow> 0 | Some c \<Rightarrow> CPHeight c),
     PCheckpointHash = (case checkpoint of None \<Rightarrow> '''' | Some c \<Rightarrow> Hash_String (CPBlockHash c)),
     PCheckpointTimestamp = (case checkpoint of None \<Rightarrow> 0 | Some c \<Rightarrow> CPTimestamp c),
     PConsensusVersion = ConsensusVersion (se_cfg E), PConsensusHash = ConsensusHash (se_cfg E)\<rparr>"

definition statusMessage :: "'n server_env \<Rightarrow> ('n world, PingMessage) step" where
  "statusMessage E = (\<lambda>(s, n). case cb_getLatestCheckpoint E n of
     (Inl e, n') \<Rightarrow> (if fatal e then Inl e else Inr (statusOf E (s_address s) (cb_getLatestBlock E n) None), (s, n'))
   | (Inr checkpoint, n') \<Rightarrow> (Inr (statusOf E (s_address s) (cb_getLatestBlock E n) checkpoint), (s, n')))"

definition sendPing :: "'n server_env \<Rightarrow> nat \<Rightarrow> ('n world, unit) step" where
  "sendPing E p = bindS (statusMessage E) (\<lambda>status. warn (sendTo E p (MsgPing status)))"

fun pingAll :: "'n server_env \<Rightarrow> nat list \<Rightarrow> ('n world, unit) step" where
  "pingAll E [] = Pair (Inr ())"
| "pingAll E (p # ps) = bindS (sendPing E p) (\<lambda>_. pingAll E ps)"

definition sendHeartbeatToAll :: "'n server_env \<Rightarrow> ('n world, unit) step" where
  "sendHeartbeatToAll E = (\<lambda>(s, n). pingAll E (connectedPeers s) (s, n))"

text \<open>An accepted or dialled connection; \<open>dialled\<close> is the remote address when the connection was made.\<close>

definition acceptPeer :: "'n server_env \<Rightarrow> string \<Rightarrow> ('n world, unit) step" where
  "acceptPeer E remoteAddr = (\<lambda>(s, n). sendPing E (nextPeer s) (addPeer (NewPeer (se_now E) remoteAddr False) s, n))"

definition ConnectToPeer :: "'n server_env \<Rightarrow> string option \<Rightarrow> string \<Rightarrow> ('n world, unit) step" where
  "ConnectToPeer E dialled host = (\<lambda>(s, n).
     if map_of (peers s) host \<noteq> None then (Inl Other, (s, n))
     else case dialled of
       None \<Rightarrow> (Inl ErrIO, (s, n))
     | Some remoteAddr \<Rightarrow> sendPing E (nextPeer s) (addPeer (NewPeer (se_now E) remoteAddr True) s, n))"

definition isSelfAddress :: "'n server_env \<Rightarrow> string \<Rightarrow> Server \<Rightarrow> bool" where
  "isSelfAddress E ip s \<longleftrightarrow> ip = ''127.0.0.1'' \<or> ip = ''localhost'' \<or> ip = ''::1'' \<or> (publicIP s \<noteq> '''' \<and> ip = publicIP s)
     \<or> (case se_interfaces E of None \<Rightarrow> False | Some ips \<Rightarrow> ip \<in> set ips)"

definition GetOnlinePeers :: "int \<Rightarrow> Server \<Rightarrow> nat list" where
  "GetOnlinePeers now s = filter (\<lambda>p. IsAlive now (peerAt s p)) (connectedPeers s)"

definition GetOnlinePeerAddresses :: "int \<Rightarrow> Server \<Rightarrow> string list" where
  "GetOnlinePeerAddresses now s = filter (\<lambda>a. a \<noteq> '''') (map (\<lambda>p. p_address (peerAt s p)) (GetOnlinePeers now s))"

definition GetBestPeerHeight :: "'n server_env \<Rightarrow> 'n world \<Rightarrow> u64" where
  "GetBestPeerHeight E = (\<lambda>(s, n). foldl (\<lambda>best p.
     if p_address (peerAt s p) \<noteq> '''' \<and> \<not> cb_isValidator E (p_address (peerAt s p)) n then best
     else if best < p_height (peerAt s p) then p_height (peerAt s p) else best) 0 (connectedPeers s))"

definition server_Stop :: "Server \<Rightarrow> Server" where
  "server_Stop s = s\<lparr>peerAt := (\<lambda>p. if p \<in> snd ` set (peers s) then peer_Close (peerAt s p) else peerAt s p), peers := []\<rparr>"

section \<open>Downloading blocks\<close>

definition finishSync :: "Server \<Rightarrow> Server" where
  "finishSync s = s\<lparr>syncing := False, syncTargetHeight := 0, syncPeer := None, syncStartTime := zeroTime,
     lastSyncHeight := 0, progressiveSkip := 0\<rparr>"

text \<open>The range of one batch. Everything is modulo \<open>2 ^ 64\<close>.\<close>

definition batchEnd :: "ConsensusConfig \<Rightarrow> u64 \<Rightarrow> u64 \<Rightarrow> u64" where
  "batchEnd cfg fromHeight target =
     (let e = fromHeight + SyncBatchSize (Network cfg) - 1 in if target < e then target else e)"

text \<open>A missing peer is a nil pointer.\<close>

definition requestNextBatch :: "'n server_env \<Rightarrow> nat option \<Rightarrow> u64 \<Rightarrow> ('n world, unit) step" where
  "requestNextBatch E peer fromHeight = (\<lambda>(s, n). case peer of
     None \<Rightarrow> (Inl Panic, (s, n))
   | Some p \<Rightarrow> attempt (sendTo E p (MsgGetBlocks fromHeight (batchEnd (se_cfg E) fromHeight (syncTargetHeight s))))
       (\<lambda>_. on_server finishSync) (\<lambda>_. Pair (Inr ())) (s, n))"

definition requestSync :: "'n server_env \<Rightarrow> nat \<Rightarrow> u64 \<Rightarrow> u64 \<Rightarrow> ('n world, unit) step" where
  "requestSync E p fromHeight toHeight = (\<lambda>(s, n).
     if syncing s then (Inr (), (s, n))
     else requestNextBatch E (Some p) fromHeight (s\<lparr>syncing := True, syncTargetHeight := toHeight, syncPeer := Some p\<rparr>, n))"

definition RequestSyncFromBestPeer :: "'n server_env \<Rightarrow> u64 \<Rightarrow> u64 \<Rightarrow> ('n world, unit) step" where
  "RequestSyncFromBestPeer E fromHeight toHeight = (\<lambda>(s, n). case connectedPeers s of
     [] \<Rightarrow> (Inr (), (s, n))
   | p # _ \<Rightarrow> requestSync E p fromHeight toHeight (s, n))"

definition RequestBlocksDirect :: "'n server_env \<Rightarrow> u64 \<Rightarrow> u64 \<Rightarrow> ('n world, unit) step" where
  "RequestBlocksDirect E fromHeight toHeight = (\<lambda>(s, n). case connectedPeers s of
     [] \<Rightarrow> (Inl NoPeers, (s, n))
   | p # _ \<Rightarrow> sendTo E p (MsgGetBlocks fromHeight toHeight) (s, n))"

definition truncateAddr :: "string \<Rightarrow> string" where
  "truncateAddr addr = (if addr = '''' then ''(empty)'' else take 10 addr)"

definition nextSkip :: "u64 \<Rightarrow> u64 option" where
  "nextSkip skip = (if skip = 0 then Some 1000 else if skip = 1000 then Some 10000 else if skip = 10000 then Some 100000 else None)"

definition skipTarget :: "u64 \<Rightarrow> u64 \<Rightarrow> u64 \<Rightarrow> u64" where
  "skipTarget currentHeight skip target =
     (let newSyncFrom = currentHeight + skip in
      if target \<le> newSyncFrom then (if target - 10 \<le> currentHeight then currentHeight + 1 else target - 10) else newSyncFrom)"

definition checkSyncTimeout :: "'n server_env \<Rightarrow> ('n world, unit) step" where
  "checkSyncTimeout E = (\<lambda>(s, n).
     if \<not> syncing s \<or> se_now E - syncStartTime s < 10 * 1000 then (Inr (), (s, n))
     else
       (let currentHeight = tipHeight E n in
        if lastSyncHeight s < currentHeight
        then (Inr (), (s\<lparr>syncStartTime := se_now E, lastSyncHeight := currentHeight, progressiveSkip := 0\<rparr>, n))
        else case nextSkip (progressiveSkip s) of
          None \<Rightarrow> (Inr (), (s\<lparr>syncing := False\<rparr>, n))
        | Some skip \<Rightarrow> requestNextBatch E (syncPeer s) (skipTarget currentHeight skip (syncTargetHeight s))
            (s\<lparr>progressiveSkip := skip, syncStartTime := se_now E, lastSyncHeight := currentHeight\<rparr>, n)))"

definition RequestCheckpointFromPeers :: "'n server_env \<Rightarrow> u64 \<Rightarrow> ('n world, unit) step" where
  "RequestCheckpointFromPeers E cnt = (\<lambda>(s, n). case connectedPeers s of
     [] \<Rightarrow> (Inr (), (s, n))
   | p # _ \<Rightarrow> warn (sendTo E p (MsgGetCheckpoint cnt)) (s, n))"

definition bestPeer :: "Server \<Rightarrow> nat option" where
  "bestPeer s = fst (foldl (\<lambda>(best, h) p. if h < p_height (peerAt s p) then (Some p, p_height (peerAt s p)) else (best, h))
     (None, 0) (connectedPeers s))"

definition RequestCheckpointFromBestPeer :: "'n server_env \<Rightarrow> ('n world, unit) step" where
  "RequestCheckpointFromBestPeer E = (\<lambda>(s, n). case bestPeer s of
     None \<Rightarrow> (Inr (), (s, n))
   | Some p \<Rightarrow> warn (sendTo E p (MsgGetCheckpoint 1)) (s, n))"

section \<open>Announcements\<close>

definition BroadcastBlock :: "'n server_env \<Rightarrow> block \<Rightarrow> ('n world, unit) step" where
  "BroadcastBlock E b = (\<lambda>(s, n). bindS (sendAll E [MsgNewBlock (Some b)] (connectedPeers s)) (\<lambda>_.
     on_server (\<lambda>s. s\<lparr>lastBroadcastHeight := Height (Header b), lastBroadcastTime := se_now E\<rparr>)) (s, n))"

definition checkAndRetryBroadcast :: "'n server_env \<Rightarrow> ('n world, unit) step" where
  "checkAndRetryBroadcast E = (\<lambda>(s, n). case cb_getLatestBlock E n of
     None \<Rightarrow> (Inr (), (s, n))
   | Some latest \<Rightarrow>
       (let currentHeight = Height (Header latest) in
        if currentHeight = 0 \<or> lastBroadcastHeight s < currentHeight \<or> lastBroadcastHeight s = 0 \<or> lastBroadcastTime s = zeroTime
          \<or> se_now E - lastBroadcastTime s < sint (BroadcastRetryInterval (Network (se_cfg E))) * 1000
        then (Inr (), (s, n))
        else bindS (sendAll E [MsgNewBlock (Some latest)] (connectedPeers s)) (\<lambda>_.
          on_server (\<lambda>s. s\<lparr>lastBroadcastTime := se_now E\<rparr>)) (s, n)))"

definition BroadcastCheckpoint :: "'n server_env \<Rightarrow> Checkpoint \<Rightarrow> bytes \<Rightarrow> ('n world, unit) step" where
  "BroadcastCheckpoint E checkpoint compressedSnapshot = (\<lambda>(s, n). sendAll E
     (MsgCheckpoint [\<lparr>CICheckpoint = Some checkpoint, HasStateData = (compressedSnapshot \<noteq> []),
        CompressedSize = of_nat (length compressedSnapshot)\<rparr>]
      # (if compressedSnapshot = [] then [] else [MsgStateData (CPHeight checkpoint) compressedSnapshot])) (connectedPeers s) (s, n))"

definition BroadcastTransaction :: "'n server_env \<Rightarrow> transaction \<Rightarrow> ('n world, unit) step" where
  "BroadcastTransaction E tx = (\<lambda>(s, n). sendAll E [MsgTransaction (Some tx)] (connectedPeers s) (s, n))"

text \<open>What the node asked its server to do.\<close>

fun forwardOut :: "'n server_env \<Rightarrow> outgoing \<Rightarrow> ('n world, unit) step" where
  "forwardOut E (OutBlock b) = BroadcastBlock E b"
| "forwardOut E (OutCheckpoint checkpoint snapshot) = BroadcastCheckpoint E checkpoint snapshot"
| "forwardOut E (OutSyncRequest fromHeight toHeight) = RequestSyncFromBestPeer E fromHeight toHeight"
| "forwardOut E OutCheckpointRequest = RequestCheckpointFromBestPeer E"

fun forwardAll :: "'n server_env \<Rightarrow> outgoing list \<Rightarrow> ('n world, unit) step" where
  "forwardAll E [] = Pair (Inr ())"
| "forwardAll E (m # ms) = bindS (forwardOut E m) (\<lambda>_. forwardAll E ms)"

definition flushOutbox :: "'n server_env \<Rightarrow> ('n world, unit) step" where
  "flushOutbox E = (\<lambda>(s, n). case cb_outbox E n of (msgs, n') \<Rightarrow> forwardAll E msgs (s, n'))"

section \<open>Greetings\<close>

definition sameConsensus :: "'n server_env \<Rightarrow> PingMessage \<Rightarrow> bool" where
  "sameConsensus E m \<longleftrightarrow> PConsensusVersion m = ConsensusVersion (se_cfg E) \<and> PConsensusHash m = ConsensusHash (se_cfg E)"

text \<open>The log lines show the first sixteen characters of both hashes.\<close>

definition dropIncompatible :: "'n server_env \<Rightarrow> nat \<Rightarrow> PingMessage \<Rightarrow> ('n world, unit) step" where
  "dropIncompatible E p m = bindS (slices [ConsensusHash (se_cfg E), PConsensusHash m] 16) (\<lambda>_.
     on_server (\<lambda>s. removePeer (p_host (peerAt s p)) s))"

definition handlePing :: "'n server_env \<Rightarrow> nat \<Rightarrow> PingMessage \<Rightarrow> ('n world, unit) step" where
  "handlePing E p ping =
     (if \<not> sameConsensus E ping then dropIncompatible E p ping
      else bindS (on_server (updatePeer p (\<lambda>peer. peer\<lparr>p_address := PAddress ping\<rparr>))) (\<lambda>_.
        bindS (statusMessage E) (\<lambda>status. warn (sendTo E p (MsgPong status)))))"

definition handlePong :: "'n server_env \<Rightarrow> nat \<Rightarrow> PongMessage \<Rightarrow> ('n world, unit) step" where
  "handlePong E p pong =
     (if \<not> sameConsensus E pong then dropIncompatible E p pong
      else bindS (on_server (updatePeer p (\<lambda>peer. peer\<lparr>p_address := PAddress pong, lastHeartbeat := se_now E, p_height := PHeight pong\<rparr>))) (\<lambda>_.
        warn (on_node (cb_detectAndResolveFork E (PHeight pong) (LatestBlockHash pong) (PCheckpointHeight pong)
          (PCheckpointHash pong) (PCheckpointTimestamp pong)))))"

definition handleGetLatest :: "'n server_env \<Rightarrow> nat \<Rightarrow> ('n world, unit) step" where
  "handleGetLatest E p = (\<lambda>(s, n). warn (sendTo E p (MsgLatestHeight (tipHeight E n))) (s, n))"

section \<open>Blocks\<close>

definition handleGetBlocks :: "'n server_env \<Rightarrow> nat \<Rightarrow> u64 \<Rightarrow> u64 \<Rightarrow> ('n world, unit) step" where
  "handleGetBlocks E p fromHeight toHeight = or_return (on_node (cb_getBlockRange E fromHeight toHeight)) (\<lambda>bs.
     if bs = [] then Pair (Inr ()) else warn (sendTo E p (MsgBlocks (map Some bs))))"

definition backfillBatchSize :: u64 where
  "backfillBatchSize = 100"

definition backfillStart :: "u64 \<Rightarrow> u64 \<Rightarrow> u64" where
  "backfillStart fromHeight target =
     (let batchStart = (if backfillBatchSize < fromHeight then fromHeight - backfillBatchSize + 1 else 1)
      in if batchStart < target then target else batchStart)"

definition requestBackfillBatch :: "'n server_env \<Rightarrow> nat \<Rightarrow> u64 \<Rightarrow> u64 \<Rightarrow> ('n world, unit) step" where
  "requestBackfillBatch E p fromHeight target =
     or_return (sendTo E p (MsgGetBlocks (backfillStart fromHeight target) fromHeight)) (\<lambda>_.
       on_server (\<lambda>s. s\<lparr>backfillCurrentFrom := backfillStart fromHeight target - 1\<rparr>))"

text \<open>Saving the blocks below the checkpoint; the result is the lowest height that was saved, at first the
  greatest number.\<close>

fun backfillSave :: "'n server_env \<Rightarrow> u64 \<Rightarrow> block list \<Rightarrow> u64 \<Rightarrow> ('n, u64) step" where
  "backfillSave E cpHeight [] lowestSaved n = (Inr lowestSaved, n)"
| "backfillSave E cpHeight (b # bs) lowestSaved n =
     (if Height (Header b) < cpHeight then
        (case cb_saveBlockOnly E b n of
           (Inl e, n') \<Rightarrow> if fatal e then (Inl e, n') else backfillSave E cpHeight bs lowestSaved n'
         | (Inr _, n') \<Rightarrow> backfillSave E cpHeight bs (if Height (Header b) < lowestSaved then Height (Header b) else lowestSaved) n')
      else backfillSave E cpHeight bs lowestSaved n)"

definition handleBackfill :: "'n server_env \<Rightarrow> nat \<Rightarrow> block list \<Rightarrow> ('n world, unit) step" where
  "handleBackfill E p bs = (\<lambda>(s, n).
     bindS (on_node (backfillSave E (checkpointHeight s) bs (- 1))) (\<lambda>lowestSaved.
       if backfillTargetHeight s < lowestSaved then requestBackfillBatch E p (lowestSaved - 1) (backfillTargetHeight s)
       else on_server (\<lambda>s. s\<lparr>backfillInProgress := False\<rparr>)) (s, n))"

definition forwardDone :: "u64 \<Rightarrow> Server \<Rightarrow> Server" where
  "forwardDone currentHeight s =
     (if 0 < checkpointSyncFrom s \<and> checkpointHeight s \<le> currentHeight then s\<lparr>checkpointSyncFrom := 0\<rparr> else s)"

definition acceptFrom :: "u64 \<Rightarrow> Server \<Rightarrow> u64" where
  "acceptFrom currentHeight s =
     (if 0 < checkpointSyncFrom s \<and> checkpointSyncFrom s < currentHeight + 1 then checkpointSyncFrom s else currentHeight + 1)"

text \<open>The blocks to add and the blocks at heights the chain already has; a block above the next expected
  height is saved for later.\<close>

fun classifyBlocks :: "'n server_env \<Rightarrow> u64 \<Rightarrow> u64 \<Rightarrow> u64 \<Rightarrow> block list \<Rightarrow> ('n, block list \<times> block list) step" where
  "classifyBlocks E cur start expected [] n = (Inr ([], []), n)"
| "classifyBlocks E cur start expected (b # bs) n =
     (let h = Height (Header b) in
      if h \<le> cur \<and> 0 < h then
        bindS (classifyBlocks E cur start expected bs) (\<lambda>(filtered, forked). Pair (Inr (filtered, b # forked))) n
      else if h < start then classifyBlocks E cur start expected bs n
      else if h = expected then
        bindS (classifyBlocks E cur start (expected + 1) bs) (\<lambda>(filtered, forked). Pair (Inr (b # filtered, forked))) n
      else if expected < h then
        bindS (warn (cb_saveBlockOnly E b)) (\<lambda>_. classifyBlocks E cur start expected bs) n
      else classifyBlocks E cur start expected bs n)"

text \<open>Consecutive blocks already in the database. The loop has no bound; \<open>fuel\<close> counts its rounds, and
  running out of it stands for not returning. The handler gives it \<open>2 ^ 64\<close> rounds, one per height.\<close>

fun applyFromDatabase :: "'n server_env \<Rightarrow> nat \<Rightarrow> u64 \<Rightarrow> ('n, block list) step" where
  "applyFromDatabase E 0 h n = (Inl Deadlock, n)"
| "applyFromDatabase E (Suc fuel) h n = (case cb_getBlockRange E h h n of
     (Inl e, n1) \<Rightarrow> (if fatal e then Inl e else Inr [], n1)
   | (Inr [], n1) \<Rightarrow> (Inr [], n1)
   | (Inr (b # _), n1) \<Rightarrow> (case cb_addBlockSkipTimestamp E b n1 of
       (Inl e, n2) \<Rightarrow> (if fatal e then Inl e else Inr [], n2)
     | (Inr _, n2) \<Rightarrow> bindS (applyFromDatabase E fuel (h + 1)) (\<lambda>rest. Pair (Inr (b # rest))) n2))"

fun replaceForked :: "'n server_env \<Rightarrow> block list \<Rightarrow> ('n, unit) step" where
  "replaceForked E [] = Pair (Inr ())"
| "replaceForked E (b # bs) = bindS (warn (cb_replaceForkedBlock E b)) (\<lambda>_. replaceForked E bs)"

text \<open>The three reactions to a block that cannot be added; each returns the height counted as added last.
  The error \<^verbatim>\<open>proposer verification failed\<close> that is also tested for is produced nowhere.\<close>

fun isDeepFork :: "error \<Rightarrow> bool" where
  "isDeepFork (DeepFork h) \<longleftrightarrow> True"
| "isDeepFork _ \<longleftrightarrow> False"

definition reorgOnto :: "'n server_env \<Rightarrow> block \<Rightarrow> u64 \<Rightarrow> ('n world, u64) step" where
  "reorgOnto E b lastAdded =
     (let rollbackHeight = Height (Header b) - 1 in
      attempt (on_node (cb_performReorg E rollbackHeight b))
        (\<lambda>e. if isDeepFork e
             then bindS (warn (RequestBlocksDirect E (if 100 < rollbackHeight then rollbackHeight - 100 else 1) rollbackHeight))
                    (\<lambda>_. Pair (Inr lastAdded))
             else Pair (Inr lastAdded))
        (\<lambda>_. Pair (Inr (Height (Header b)))))"

definition requestMissing :: "'n server_env \<Rightarrow> block \<Rightarrow> u64 \<Rightarrow> ('n world, u64) step" where
  "requestMissing E b lastAdded = (\<lambda>(s, n).
     (let expectedHeight = (case cb_getLatestBlock E n of None \<Rightarrow> 0 | Some latest \<Rightarrow> Height (Header latest) + 1) in
      if expectedHeight < Height (Header b) \<and> 0 < expectedHeight
      then bindS (warn (RequestBlocksDirect E expectedHeight (Height (Header b) - 1))) (\<lambda>_. Pair (Inr lastAdded)) (s, n)
      else (Inr lastAdded, (s, n))))"

definition keepFailed :: "'n server_env \<Rightarrow> u64 \<Rightarrow> block \<Rightarrow> u64 \<Rightarrow> ('n world, u64) step" where
  "keepFailed E cpHeight b lastAdded =
     (if 0 < cpHeight
      then attempt (on_node (cb_saveBlockOnly E b)) (\<lambda>_. Pair (Inr lastAdded)) (\<lambda>_. Pair (Inr (Height (Header b))))
      else Pair (Inr lastAdded))"

definition backfillOne :: "'n server_env \<Rightarrow> block \<Rightarrow> u64 \<Rightarrow> ('n world, u64) step" where
  "backfillOne E b lastAdded = attempt (on_node (cb_saveBlockOnly E b)) (\<lambda>_. Pair (Inr lastAdded)) (\<lambda>_.
     bindS (on_server (\<lambda>s. if checkpointSyncFrom s \<le> Height (Header b)
       then s\<lparr>checkpointSyncFrom := Height (Header b) + 1\<rparr> else s)) (\<lambda>_. Pair (Inr (Height (Header b)))))"

definition addOne :: "'n server_env \<Rightarrow> bool \<Rightarrow> u64 \<Rightarrow> bool \<Rightarrow> block \<Rightarrow> u64 \<Rightarrow> ('n world, u64) step" where
  "addOne E isHistoricalSync cpHeight isFirst b lastAdded =
     (if 0 < cpHeight \<and> Height (Header b) < cpHeight then backfillOne E b lastAdded
      else attempt (on_node (if isHistoricalSync then cb_addBlockSkipTimestamp E b else cb_addBlock E b))
        (\<lambda>e. if isFirst \<and> mentionsPrevHash e then reorgOnto E b lastAdded
             else if isFirst \<and> mentionsHeight e then requestMissing E b lastAdded
             else keepFailed E cpHeight b lastAdded)
        (\<lambda>_. Pair (Inr (Height (Header b)))))"

fun addBlocks :: "'n server_env \<Rightarrow> bool \<Rightarrow> u64 \<Rightarrow> bool \<Rightarrow> block list \<Rightarrow> u64 \<Rightarrow> ('n world, u64) step" where
  "addBlocks E hist cpHeight isFirst [] lastAdded = Pair (Inr lastAdded)"
| "addBlocks E hist cpHeight isFirst (b # bs) lastAdded =
     bindS (addOne E hist cpHeight isFirst b lastAdded) (addBlocks E hist cpHeight False bs)"

definition continueSync :: "'n server_env \<Rightarrow> u64 \<Rightarrow> ('n world, unit) step" where
  "continueSync E lastAdded = (\<lambda>(s, n).
     if \<not> syncing s then (Inr (), (s, n))
     else if 0 < lastAdded \<and> lastAdded < syncTargetHeight s then requestNextBatch E (syncPeer s) (lastAdded + 1) (s, n)
     else if lastAdded = 0 then
       (let currentHeight = tipHeight E n in
        if syncTargetHeight s \<le> currentHeight \<or> syncTargetHeight s \<le> currentHeight + 5 then on_server finishSync (s, n)
        else requestNextBatch E (syncPeer s) (currentHeight + 1) (s, n))
     else on_server finishSync (s, n))"

definition useBlocks :: "'n server_env \<Rightarrow> u64 \<Rightarrow> u64 \<Rightarrow> block list \<Rightarrow> ('n world, unit) step" where
  "useBlocks E cur start kept = (\<lambda>(s, n).
     if kept = [] then
       (if 0 < syncTargetHeight s then requestNextBatch E (syncPeer s) start (s, n) else (Inr (), (s, n)))
     else bindS (addBlocks E (Height (Header (hd kept)) \<le> cur + 100) (checkpointHeight s) True kept 0) (continueSync E) (s, n))"

definition sortBlocks :: "block list \<Rightarrow> block list" where
  "sortBlocks = sort_key (\<lambda>b. Height (Header b))"

definition syncBlocks :: "'n server_env \<Rightarrow> block list \<Rightarrow> ('n world, unit) step" where
  "syncBlocks E bs = (\<lambda>(s, n).
     let cur = tipHeight E n; s1 = forwardDone cur s; start = acceptFrom cur s1 in
     bindS (on_node (classifyBlocks E cur start start bs)) (\<lambda>(filtered, forked).
     bindS (if filtered = [] then on_node (applyFromDatabase E (2 ^ 64) (cur + 1)) else Pair (Inr filtered)) (\<lambda>kept.
     bindS (on_node (replaceForked E forked)) (\<lambda>_. useBlocks E cur start kept))) (s1, n))"

definition handleBlocks :: "'n server_env \<Rightarrow> nat \<Rightarrow> block option list \<Rightarrow> ('n world, unit) step" where
  "handleBlocks E p received = (\<lambda>(s, n).
     if received = [] then on_server finishSync (s, n)
     else if None \<in> set received then (Inl Panic, (s, n))
     else
       (let bs = sortBlocks (map the received) in
        if backfillInProgress s \<and> Height (Header (last bs)) < checkpointHeight s then handleBackfill E p bs (s, n)
        else syncBlocks E bs (s, n)))"

section \<open>Rejected proposers\<close>

definition votes :: "u64 \<Rightarrow> string \<Rightarrow> Server \<Rightarrow> nat" where
  "votes height proposer s = (case map_of (rejectedProposers s) height of
     None \<Rightarrow> 0 | Some m \<Rightarrow> (case map_of m proposer of None \<Rightarrow> 0 | Some k \<Rightarrow> k))"

definition countVote :: "u64 \<Rightarrow> string \<Rightarrow> Server \<Rightarrow> Server" where
  "countVote height proposer s = s\<lparr>rejectedProposers := AList.update height
     (AList.update proposer (Suc (votes height proposer s)) (case map_of (rejectedProposers s) height of None \<Rightarrow> [] | Some m \<Rightarrow> m))
     (rejectedProposers s)\<rparr>"

definition majority :: "Server \<Rightarrow> nat" where
  "majority s = max 2 (PeerCount s div 2 + 1)"

text \<open>Whether to give in. The log line shows the first ten characters of the proposer.\<close>

definition RecordRejectedProposer :: "u64 \<Rightarrow> string \<Rightarrow> ('n world, bool) step" where
  "RecordRejectedProposer height proposer =
     bindS (on_server (countVote height proposer)) (\<lambda>_.
     bindS (slices [proposer] 10) (\<lambda>_ (s, n). (Inr (majority s \<le> votes height proposer s), (s, n))))"

definition CleanupRejectedProposers :: "u64 \<Rightarrow> Server \<Rightarrow> Server" where
  "CleanupRejectedProposers currentHeight s =
     s\<lparr>rejectedProposers := filter (\<lambda>(h, _). \<not> h + 100 < currentHeight) (rejectedProposers s)\<rparr>"

section \<open>A new block\<close>

definition addOrKeep :: "'n server_env \<Rightarrow> block \<Rightarrow> ('n world, unit) step" where
  "addOrKeep E b = (\<lambda>(s, n). attempt (on_node (cb_addBlock E b))
     (\<lambda>_. if 0 < checkpointHeight s then warn (on_node (cb_saveBlockOnly E b)) else Pair (Inr ()))
     (\<lambda>_. Pair (Inr ())) (s, n))"

text \<open>Rejecting the block of a proposer who was not selected, until enough of them have come.\<close>

definition rejectOrSurrender :: "'n server_env \<Rightarrow> u64 \<Rightarrow> string \<Rightarrow> ('n, unit) step \<Rightarrow> ('n world, unit) step" where
  "rejectOrSurrender E height proposer accept =
     bindS (RecordRejectedProposer height proposer) (\<lambda>shouldSurrender.
       if shouldSurrender
       then or_return (on_node accept) (\<lambda>_. on_server (CleanupRejectedProposers height))
       else Pair (Inr ()))"

definition nextBlock :: "'n server_env \<Rightarrow> block \<Rightarrow> ('n world, unit) step" where
  "nextBlock E b = (\<lambda>(s, n). case cb_getLatestBlock E n of
     None \<Rightarrow> addOrKeep E b (s, n)
   | Some latest \<Rightarrow> or_return (on_node (cb_verifyProposer E (Height (Header b)) latest)) (\<lambda>expected.
       if Proposer (Header b) \<noteq> expected
       then rejectOrSurrender E (Height (Header b)) (Proposer (Header b)) (cb_addBlock E b)
       else addOrKeep E b) (s, n))"

text \<open>Two blocks of proposers that were both not selected: the greater stake, then the greater address.\<close>

definition stakeDecides :: "'n server_env \<Rightarrow> u64 \<Rightarrow> block \<Rightarrow> string \<Rightarrow> ('n world, unit) step" where
  "stakeDecides E cur b localProposer =
     bindS (on_node (cb_getProposerStake E localProposer)) (\<lambda>localStake.
     bindS (on_node (cb_getProposerStake E (Proposer (Header b)))) (\<lambda>incomingStake.
       if localStake < incomingStake \<or> (localStake = incomingStake \<and> localProposer < Proposer (Header b))
       then warn (on_node (cb_performReorg E (cur - 1) b)) else Pair (Inr ())))"

definition sameHeight :: "'n server_env \<Rightarrow> u64 \<Rightarrow> block \<Rightarrow> ('n world, unit) step" where
  "sameHeight E cur b =
     or_return (on_node (cb_getBlockRange E (cur - 1) (cur - 1))) (\<lambda>prevBlocks. if prevBlocks = [] then Pair (Inr ()) else
     or_return (on_node (cb_verifyProposer E cur (hd prevBlocks))) (\<lambda>expected.
     or_return (on_node (cb_getBlockRange E cur cur)) (\<lambda>localBlocks. if localBlocks = [] then Pair (Inr ()) else
       (let incoming = Proposer (Header b); localProposer = Proposer (Header (hd localBlocks)) in
        if incoming = expected \<and> localProposer \<noteq> expected then
          bindS (slices [localProposer, expected] 10) (\<lambda>_. warn (on_node (cb_performReorg E (cur - 1) b)))
        else if incoming \<noteq> expected \<and> localProposer = expected then
          bindS (slices [expected, incoming] 10) (\<lambda>_. rejectOrSurrender E cur incoming (cb_performReorg E (cur - 1) b))
        else if incoming \<noteq> expected then
          bindS (slices [localProposer, incoming, expected] 10) (\<lambda>_. stakeDecides E cur b localProposer)
        else Pair (Inr ())))))"

definition gapBlock :: "'n server_env \<Rightarrow> nat \<Rightarrow> u64 \<Rightarrow> block \<Rightarrow> ('n world, unit) step" where
  "gapBlock E p cur b = (\<lambda>(s, n).
     if syncing s then (Inr (), (s, n))
     else bindS (if cur \<le> 1 then RequestCheckpointFromPeers E 3 else Pair (Inr ())) (\<lambda>_.
       bindS (on_server (forwardDone cur)) (\<lambda>_ (s, n).
         requestSync E p (acceptFrom cur s) (Height (Header b) - 1) (s, n))) (s, n))"

definition handleNewBlock :: "'n server_env \<Rightarrow> nat \<Rightarrow> block option \<Rightarrow> ('n world, unit) step" where
  "handleNewBlock E p newBlock = (\<lambda>(s, n). case newBlock of
     None \<Rightarrow> (Inl Panic, (s, n))
   | Some b \<Rightarrow>
       (let tip = tipHeight E n; cur = (if tip = 0 \<and> 0 < checkpointHeight s then checkpointHeight s else tip);
            incoming = Height (Header b) in
        if incoming = cur + 1 then nextBlock E b (s, n)
        else if incoming = cur \<and> 0 < cur then (if 1 < cur then sameHeight E cur b (s, n) else (Inr (), (s, n)))
        else if incoming \<le> cur then (Inr (), (s, n))
        else if cur + 1 < incoming then gapBlock E p cur b (s, n)
        else (Inr (), (s, n))))"

section \<open>Transactions, old blocks, checkpoints and states\<close>

definition handleTransaction :: "'n server_env \<Rightarrow> transaction option \<Rightarrow> ('n world, unit) step" where
  "handleTransaction E t = (case t of None \<Rightarrow> Pair (Inl Panic) | Some tx \<Rightarrow> warn (on_node (cb_handleReceivedTransaction E tx)))"

definition handleGetEarliestHeight :: "'n server_env \<Rightarrow> nat \<Rightarrow> ('n world, unit) step" where
  "handleGetEarliestHeight E p = bindS (on_node (cb_getEarliestHeight E)) (\<lambda>h. warn (sendTo E p (MsgEarliestHeight h)))"

definition handleEarliestHeight :: "'n server_env \<Rightarrow> nat \<Rightarrow> u64 \<Rightarrow> ('n world, unit) step" where
  "handleEarliestHeight E p earliest = (\<lambda>(s, n).
     let cpHeight = checkpointHeight s; startFrom = cpHeight - 1 in
     if cpHeight = 0 then (Inr (), (s, n))
     else if startFrom < earliest then (Inr (), (s\<lparr>backfillTargetHeight := earliest, backfillInProgress := False\<rparr>, n))
     else requestBackfillBatch E p startFrom earliest
       (s\<lparr>backfillTargetHeight := earliest, backfillInProgress := True, backfillCurrentFrom := startFrom\<rparr>, n))"

text \<open>\<^verbatim>\<open>int(req.Count)\<close> is a signed number.\<close>

definition handleGetCheckpoint :: "'n server_env \<Rightarrow> nat \<Rightarrow> u64 \<Rightarrow> ('n world, unit) step" where
  "handleGetCheckpoint E p requested =
     bindS (on_node (cb_getLatestCheckpoints E (if requested = 0 then 3 else sint requested))) (\<lambda>checkpoints.
       if checkpoints = [] then Pair (Inr ())
       else bindS (warn (sendTo E p (MsgCheckpoint checkpoints))) (\<lambda>_.
         Pair (if list_ex (\<lambda>c. CICheckpoint c = None) checkpoints then Inl Panic else Inr ())))"

definition handleCheckpoint :: "'n server_env \<Rightarrow> nat \<Rightarrow> CheckpointInfo list \<Rightarrow> ('n world, unit) step" where
  "handleCheckpoint E p checkpoints = (\<lambda>(s, n). case checkpoints of
     [] \<Rightarrow> (Inr (), (s, n))
   | info # _ \<Rightarrow> (case CICheckpoint info of
       None \<Rightarrow> (Inl Panic, (s, n))
     | Some checkpoint \<Rightarrow> or_return (on_node (cb_applyCheckpoint E (PeerCount s) checkpoint)) (\<lambda>_.
         if HasStateData info then warn (sendTo E p (MsgGetState (CPHeight checkpoint))) else Pair (Inr ())) (s, n)))"

definition handleGetState :: "'n server_env \<Rightarrow> nat \<Rightarrow> u64 \<Rightarrow> ('n world, unit) step" where
  "handleGetState E p height = or_return (on_node (cb_getStateSnapshot E height)) (\<lambda>data. warn (sendTo E p (MsgStateData height data)))"

definition startAfterState :: "u64 \<Rightarrow> Server \<Rightarrow> Server" where
  "startAfterState height s =
     s\<lparr>checkpointSyncFrom := (if checkpointSyncFrom s = 0 then (if 12 < height then height - 12 else height) else checkpointSyncFrom s),
       checkpointHeight := height\<rparr>"

definition handleStateData :: "'n server_env \<Rightarrow> nat \<Rightarrow> u64 \<Rightarrow> bytes \<Rightarrow> ('n world, unit) step" where
  "handleStateData E p height data =
     or_return (on_node (cb_applyStateSnapshot E height data)) (\<lambda>_.
     bindS (on_server (startAfterState height)) (\<lambda>_.
     bindS (warn (sendTo E p MsgGetLatest)) (\<lambda>_ (s, n).
       if backfillInProgress s then (Inr (), (s, n)) else warn (sendTo E p MsgGetEarliestHeight) (s, n))))"

section \<open>The message loop\<close>

text \<open>A payload that does not decode is only logged, except for blocks, where it ends the download.\<close>

fun handleMessage :: "'n server_env \<Rightarrow> nat \<Rightarrow> message \<Rightarrow> ('n world, unit) step" where
  "handleMessage E p (MsgPing m) = handlePing E p m"
| "handleMessage E p (MsgPong m) = handlePong E p m"
| "handleMessage E p MsgGetLatest = handleGetLatest E p"
| "handleMessage E p (MsgLatestHeight h) = Pair (Inr ())"
| "handleMessage E p (MsgGetBlocks a b) = handleGetBlocks E p a b"
| "handleMessage E p (MsgBlocks bs) = handleBlocks E p bs"
| "handleMessage E p (MsgNewBlock b) = handleNewBlock E p b"
| "handleMessage E p (MsgTransaction tx) = handleTransaction E tx"
| "handleMessage E p (MsgGetCheckpoint k) = handleGetCheckpoint E p k"
| "handleMessage E p (MsgCheckpoint cs) = handleCheckpoint E p cs"
| "handleMessage E p (MsgGetState h) = handleGetState E p h"
| "handleMessage E p (MsgStateData h d) = handleStateData E p h d"
| "handleMessage E p MsgGetEarliestHeight = handleGetEarliestHeight E p"
| "handleMessage E p (MsgEarliestHeight h) = handleEarliestHeight E p h"
| "handleMessage E p (MsgMalformed t) = (if t = 3 then on_server finishSync else Pair (Inr ()))"
| "handleMessage E p (MsgUnknown t) = Pair (Inr ())"

definition processPeer :: "'n server_env \<Rightarrow> nat \<Rightarrow> ('n world, unit) step" where
  "processPeer E p = (\<lambda>(s, n).
     if \<not> connected (peerAt s p) then (Inr (), (removePeer (p_host (peerAt s p)) s, n))
     else case recvChan (peerAt s p) of
       [] \<Rightarrow> (Inr (), (s, n))
     | m # rest \<Rightarrow> handleMessage E p m (updatePeer p (\<lambda>peer. peer\<lparr>recvChan := rest\<rparr>) s, n))"

fun processPeers :: "'n server_env \<Rightarrow> nat list \<Rightarrow> ('n world, unit) step" where
  "processPeers E [] = Pair (Inr ())"
| "processPeers E (p # ps) = bindS (processPeer E p) (\<lambda>_. processPeers E ps)"

definition processMessages :: "'n server_env \<Rightarrow> ('n world, unit) step" where
  "processMessages E = (\<lambda>(s, n). processPeers E (map snd (peers s)) (s, n))"

section \<open>The server of a node\<close>

text \<open>The package variables of the fork resolver belong to the state the callbacks work on.\<close>

definition on_snd :: "('n, 'a) step \<Rightarrow> ('k \<times> 'n, 'a) step" where
  "on_snd m = (\<lambda>(k, n). case m n of (r, n') \<Rightarrow> (r, (k, n')))"

definition node_server :: "'d node_env \<Rightarrow> message_codec \<Rightarrow> int \<Rightarrow> (nat \<Rightarrow> bool) \<Rightarrow> string list option \<Rightarrow> (known_highest \<times> 'd node) server_env" where
  "node_server N codec now drains interfaces = \<lparr>
     se_cfg = nd_cfg N, se_cl = nd_cl N, se_codec = codec, se_now = now, se_drains = drains, se_interfaces = interfaces,
     cb_getLatestBlock = (\<lambda>(k, n). latestBlock (n_chain n)),
     cb_addBlock = (\<lambda>b. on_snd (addBlock N b)),
     cb_addBlockSkipTimestamp = (\<lambda>b. on_snd (addBlockSkipTimestamp N b)),
     cb_getBlockRange = (\<lambda>a b. on_snd (on_db (GetBlockRange (nd_db N) (nd_cfg N) (nd_cl N) a b))),
     cb_verifyProposer = (\<lambda>h b. on_snd (verifyProposer N h b)),
     cb_performReorg = (\<lambda>h b. on_snd (PerformChainReorganization N h b)),
     cb_getProposerStake = (\<lambda>a. on_snd (getProposerStake N a)),
     cb_getLatestCheckpoints = (\<lambda>k. on_snd (getLatestCheckpoints N k)),
     cb_getLatestCheckpoint = on_snd (latestCheckpoint N),
     cb_applyCheckpoint = (\<lambda>k cp. on_snd (applyCheckpoint N k cp)),
     cb_getStateSnapshot = (\<lambda>h. on_snd (\<lambda>n. (getStateSnapshot N h n, n))),
     cb_applyStateSnapshot = (\<lambda>h d. on_snd (applyStateSnapshot N h d)),
     cb_handleReceivedTransaction = (\<lambda>tx. on_snd (HandleReceivedTransaction tx)),
     cb_detectAndResolveFork = DetectAndResolveFork N,
     cb_saveBlockOnly = (\<lambda>b. on_snd (saveBlockOnly N b)),
     cb_replaceForkedBlock = (\<lambda>b. on_snd (replaceForkedBlock N b)),
     cb_getEarliestHeight = on_snd (on_db GetEarliestHeight),
     cb_isValidator = (\<lambda>a (k, n). IsActiveValidator a (n_vals n)),
     cb_outbox = (\<lambda>(k, n). (n_outbox n, (k, n\<lparr>n_outbox := []\<rparr>)))\<rparr>"

lemma node_server_simps [simp]:
  "se_cfg (node_server N codec now drains ifs) = nd_cfg N" "se_cl (node_server N codec now drains ifs) = nd_cl N"
  "se_codec (node_server N codec now drains ifs) = codec" "se_now (node_server N codec now drains ifs) = now"
  "se_drains (node_server N codec now drains ifs) = drains"
  "cb_getLatestBlock (node_server N codec now drains ifs) (k, n) = latestBlock (n_chain n)"
  "cb_addBlock (node_server N codec now drains ifs) b = on_snd (addBlock N b)"
  "cb_addBlockSkipTimestamp (node_server N codec now drains ifs) b = on_snd (addBlockSkipTimestamp N b)"
  "cb_getBlockRange (node_server N codec now drains ifs) x y = on_snd (on_db (GetBlockRange (nd_db N) (nd_cfg N) (nd_cl N) x y))"
  "cb_verifyProposer (node_server N codec now drains ifs) h b = on_snd (verifyProposer N h b)"
  "cb_performReorg (node_server N codec now drains ifs) h b = on_snd (PerformChainReorganization N h b)"
  "cb_getLatestCheckpoints (node_server N codec now drains ifs) i = on_snd (getLatestCheckpoints N i)"
  "cb_saveBlockOnly (node_server N codec now drains ifs) b = on_snd (saveBlockOnly N b)"
  "cb_replaceForkedBlock (node_server N codec now drains ifs) b = on_snd (replaceForkedBlock N b)"
  "cb_isValidator (node_server N codec now drains ifs) a (k, n) = IsActiveValidator a (n_vals n)"
  "cb_detectAndResolveFork (node_server N codec now drains ifs) = DetectAndResolveFork N"
  by (simp_all add: node_server_def)

end
