(* ===== verification/Network_Invariant.thy ===== *)
theory Network_Invariant
  imports Network_Server
begin

text \<open>
  The peer-to-peer server as a state machine: messages from peers, timers, connections and the other
  goroutines of the node.

  Lemmas: the invariant of the download state; a message with blocks is handled to the end as long as
  the node's functions return. At the end a small node, on which the theorems about downloads are tried.
\<close>

section \<open>What handlers keep\<close>

text \<open>\<open>preserves P m\<close>: whatever \<open>m\<close> returns, \<open>P\<close> of the server survives it.\<close>

definition preserves :: "(Server \<Rightarrow> bool) \<Rightarrow> ('n world, 'a) step \<Rightarrow> bool" where
  "preserves P m \<longleftrightarrow> (\<forall>w. P (fst w) \<longrightarrow> P (fst (snd (m w))))"

named_theorems preserving

lemma preservesD: "preserves P m \<Longrightarrow> m w = (r, w') \<Longrightarrow> P (fst w) \<Longrightarrow> P (fst w')"
  by (metis preserves_def snd_conv)

lemma preservesI: "(\<And>w r w'. m w = (r, w') \<Longrightarrow> P (fst w) \<Longrightarrow> P (fst w')) \<Longrightarrow> preserves P m"
  by (metis preserves_def prod.collapse)

lemma preserves_pairD: "preserves P m \<Longrightarrow> m (s, n) = (r, (s', n')) \<Longrightarrow> P s \<Longrightarrow> P s'"
  by (metis preservesD fst_conv)

lemma preserves_at: "preserves P m \<Longrightarrow> P s \<Longrightarrow> P (fst (snd (m (s, n))))"
  by (simp add: preserves_def)

lemma preserves_bind [preserving]:
  assumes "preserves P m" and "\<And>a. preserves P (f a)"
  shows "preserves P (bindS m f)"
proof (rule preservesI)
  fix w r w' assume b: "bindS m f w = (r, w')" and P: "P (fst w)"
  obtain q t where m: "m w = (q, t)" by (cases "m w")
  have "P (fst t)" by (rule preservesD[OF assms(1) m P])
  then show "P (fst w')" using b m by (cases q) (auto simp: bindS_def dest: preservesD[OF assms(2)])
qed

lemma preserves_warn [preserving]:
  assumes "preserves P m"
  shows "preserves P (warn m)"
proof (rule preservesI)
  fix w r w' assume b: "warn m w = (r, w')" and P: "P (fst w)"
  obtain q t where m: "m w = (q, t)" by (cases "m w")
  have "P (fst t)" by (rule preservesD[OF assms(1) m P])
  then show "P (fst w')" using b m by (cases q) (auto simp: warn_def)
qed

lemma preserves_attempt [preserving]:
  assumes "preserves P m" and "\<And>e. preserves P (f e)" and "\<And>a. preserves P (g a)"
  shows "preserves P (attempt m f g)"
proof (rule preservesI)
  fix w r w' assume b: "attempt m f g w = (r, w')" and P: "P (fst w)"
  obtain q t where m: "m w = (q, t)" by (cases "m w")
  have "P (fst t)" by (rule preservesD[OF assms(1) m P])
  then show "P (fst w')"
    using b m by (cases q) (auto simp: attempt_def dest: preservesD[OF assms(2)] preservesD[OF assms(3)] split: if_splits)
qed

lemma preserves_result [preserving]: "preserves P (Pair r)" "preserves P (\<lambda>w. (r, w))"
  by (simp_all add: preserves_def)

lemma preserves_node [preserving]: "preserves P (on_node m)"
  by (auto simp: preserves_def on_node_def split: prod.split)

lemma preserves_server [preserving]: "(\<And>s. P s \<Longrightarrow> P (f s)) \<Longrightarrow> preserves P (on_server f)"
  by (auto simp: preserves_def on_server_def split: prod.split)

lemma preserves_slices [preserving]: "preserves P (slices xs k)"
  by (simp add: slices_def preserving)

lemma preserves_if [preserving]: "preserves P a \<Longrightarrow> preserves P b \<Longrightarrow> preserves P (if c then a else b)"
  by simp

lemma preserves_split: "(\<And>s n. preserves P (m s n)) \<Longrightarrow> preserves P (\<lambda>(s, n). m s n (s, n))"
  by (auto simp: preserves_def)

section \<open>The state of a download\<close>

definition sync_ok :: "Server \<Rightarrow> bool" where
  "sync_ok s \<longleftrightarrow> (syncing s \<or> 0 < syncTargetHeight s \<longrightarrow> syncPeer s \<noteq> None) \<and> progressiveSkip s \<in> {0, 1000, 10000, 100000}"

lemma sync_ok_cong:
  "syncing s' = syncing s \<Longrightarrow> syncTargetHeight s' = syncTargetHeight s \<Longrightarrow> syncPeer s' = syncPeer s
    \<Longrightarrow> progressiveSkip s' = progressiveSkip s \<Longrightarrow> sync_ok s' = sync_ok s"
  by (simp add: sync_ok_def)

lemma sync_ok_updates [simp]:
  "sync_ok (s\<lparr>peerAt := x1\<rparr>) = sync_ok s" "sync_ok (s\<lparr>peers := x2\<rparr>) = sync_ok s" "sync_ok (s\<lparr>nextPeer := x3\<rparr>) = sync_ok s"
  "sync_ok (s\<lparr>syncStartTime := x4\<rparr>) = sync_ok s" "sync_ok (s\<lparr>lastSyncHeight := x5\<rparr>) = sync_ok s"
  "sync_ok (s\<lparr>checkpointSyncFrom := x6\<rparr>) = sync_ok s" "sync_ok (s\<lparr>checkpointHeight := x7\<rparr>) = sync_ok s"
  "sync_ok (s\<lparr>backfillInProgress := x8\<rparr>) = sync_ok s" "sync_ok (s\<lparr>backfillTargetHeight := x9\<rparr>) = sync_ok s"
  "sync_ok (s\<lparr>backfillCurrentFrom := x10\<rparr>) = sync_ok s" "sync_ok (s\<lparr>lastBroadcastHeight := x11\<rparr>) = sync_ok s"
  "sync_ok (s\<lparr>lastBroadcastTime := x12\<rparr>) = sync_ok s" "sync_ok (s\<lparr>rejectedProposers := x13\<rparr>) = sync_ok s"
  by (simp_all add: sync_ok_def)

lemma sync_ok_steps [simp]:
  "sync_ok (finishSync s)" "sync_ok (removePeer h s) = sync_ok s" "sync_ok (addPeer q s) = sync_ok s" "sync_ok (updatePeer p f s) = sync_ok s"
  "sync_ok (countVote a b s) = sync_ok s" "sync_ok (CleanupRejectedProposers a s) = sync_ok s" "sync_ok (forwardDone a s) = sync_ok s"
  "sync_ok (startAfterState a s) = sync_ok s" "sync_ok (server_Stop s) = sync_ok s" "sync_ok (NewServer addr ip)"
  by (auto simp: sync_ok_def finishSync_def removePeer_def addPeer_def updatePeer_def countVote_def CleanupRejectedProposers_def
      forwardDone_def startAfterState_def server_Stop_def NewServer_def split: option.split)

lemma send_keeps [preserving]: "preserves sync_ok (sendTo E p m)"
  by (auto simp: preserves_def sendTo_def split: prod.split)

lemma next_batch_keeps [preserving]: "preserves sync_ok (requestNextBatch E peer h)"
proof -
  have "preserves sync_ok (attempt (sendTo E p m) (\<lambda>_. on_server finishSync) (\<lambda>_. Pair (Inr ())))" for p m
    by (intro preserving) simp
  then show ?thesis by (auto simp: preserves_def requestNextBatch_def split: option.split)
qed

lemma request_sync_keeps [preserving]: "preserves sync_ok (requestSync E p a b)"
proof -
  have "sync_ok (s\<lparr>syncing := True, syncTargetHeight := b, syncPeer := Some p\<rparr>)" if "sync_ok s" for s
    using that by (simp add: sync_ok_def)
  then show ?thesis using next_batch_keeps[of E "Some p" a] by (auto simp: preserves_def requestSync_def)
qed

lemma next_skip: "nextSkip k = Some k' \<Longrightarrow> k' \<in> {1000, 10000, 100000}"
  by (auto simp: nextSkip_def split: if_splits)

lemma timeout_keeps [preserving]: "preserves sync_ok (checkSyncTimeout E)"
proof -
  have 1: "sync_ok (s\<lparr>syncing := False\<rparr>)" "sync_ok (s\<lparr>syncStartTime := a, lastSyncHeight := b, progressiveSkip := 0\<rparr>)" if "sync_ok s" for s a b
    using that by (auto simp: sync_ok_def)
  have 2: "sync_ok (s\<lparr>progressiveSkip := k, syncStartTime := a, lastSyncHeight := b\<rparr>)" if "sync_ok s" "nextSkip j = Some k" for s a b j k
    using that next_skip[OF that(2)] by (auto simp: sync_ok_def)
  show ?thesis
    using 1 2 by (auto simp: preserves_def checkSyncTimeout_def Let_def split: option.split intro!: preserves_at[OF next_batch_keeps])
qed

lemma status_keeps [preserving]: "preserves sync_ok (statusMessage E)"
  by (auto simp: preserves_def statusMessage_def split: prod.split sum.split)

lemma direct_keeps [preserving]: "preserves sync_ok (RequestBlocksDirect E a b)"
  by (auto simp: preserves_def RequestBlocksDirect_def split: list.split intro!: preserves_at[OF send_keeps])

lemma best_sync_keeps [preserving]: "preserves sync_ok (RequestSyncFromBestPeer E a b)"
  by (auto simp: preserves_def RequestSyncFromBestPeer_def split: list.split intro!: preserves_at[OF request_sync_keeps])

lemma ask_checkpoint_keeps [preserving]:
  "preserves sync_ok (RequestCheckpointFromPeers E k)" "preserves sync_ok (RequestCheckpointFromBestPeer E)"
  by (auto simp: preserves_def RequestCheckpointFromPeers_def RequestCheckpointFromBestPeer_def split: list.split option.split
      intro!: preserves_at[OF preserves_warn[OF send_keeps]])

lemma send_all_keeps [preserving]: "preserves sync_ok (sendAll E ms ps)"
proof -
  have "preserves sync_ok (foldr (\<lambda>m rest. bindS (warn (sendTo E p m)) (\<lambda>_. rest)) ms (Pair (Inr ())))" for p
    by (induction ms) (auto intro!: preserving)
  then show ?thesis by (induction ps) (auto intro!: preserving)
qed

lemma ping_keeps [preserving]: "preserves sync_ok (sendPing E p)" "preserves sync_ok (pingAll E ps)"
proof -
  show 1: "preserves sync_ok (sendPing E p)" for p by (auto simp: sendPing_def intro!: preserving)
  show "preserves sync_ok (pingAll E ps)" by (induction ps) (auto intro!: preserving 1)
qed

lemma heartbeat_keeps [preserving]: "preserves sync_ok (sendHeartbeatToAll E)" "preserves sync_ok (acceptPeer E a)" "preserves sync_ok (ConnectToPeer E d h)"
  by (auto simp: preserves_def sendHeartbeatToAll_def acceptPeer_def ConnectToPeer_def split: option.split
      intro!: preserves_at[OF ping_keeps(1)] preserves_at[OF ping_keeps(2)])

lemma broadcast_keeps [preserving]:
  "preserves sync_ok (BroadcastBlock E b)" "preserves sync_ok (checkAndRetryBroadcast E)" "preserves sync_ok (BroadcastCheckpoint E cp d)"
  "preserves sync_ok (BroadcastTransaction E tx)"
proof -
  have 1: "preserves sync_ok (bindS (sendAll E ms ps) (\<lambda>_. on_server (\<lambda>s. s\<lparr>lastBroadcastHeight := h, lastBroadcastTime := t\<rparr>)))"
    "preserves sync_ok (bindS (sendAll E ms ps) (\<lambda>_. on_server (\<lambda>s. s\<lparr>lastBroadcastTime := t\<rparr>)))" for ms ps h t
    by (auto intro!: preserving)
  show "preserves sync_ok (BroadcastBlock E b)" "preserves sync_ok (checkAndRetryBroadcast E)" "preserves sync_ok (BroadcastCheckpoint E cp d)"
    "preserves sync_ok (BroadcastTransaction E tx)"
    by (auto simp: preserves_def BroadcastBlock_def checkAndRetryBroadcast_def BroadcastCheckpoint_def BroadcastTransaction_def Let_def
        split: option.split intro!: preserves_at[OF 1(1)] preserves_at[OF 1(2)] preserves_at[OF send_all_keeps])
qed

lemma forward_keeps [preserving]: "preserves sync_ok (forwardAll E ms)" "preserves sync_ok (flushOutbox E)"
proof -
  have "preserves sync_ok (forwardOut E m)" for m by (cases m) (auto intro: preserving)
  then show 1: "preserves sync_ok (forwardAll E ms)" for ms by (induction ms) (auto intro!: preserving)
  show "preserves sync_ok (flushOutbox E)"
    by (auto simp: preserves_def flushOutbox_def split: prod.split intro!: preserves_at[OF 1])
qed

lemma greeting_keeps [preserving]:
  "preserves sync_ok (handlePing E p m)" "preserves sync_ok (handlePong E p m)" "preserves sync_ok (handleGetLatest E p)"
proof -
  have "preserves sync_ok (dropIncompatible E p m)"
    unfolding dropIncompatible_def by (rule preserving)+ simp
  then show "preserves sync_ok (handlePing E p m)" "preserves sync_ok (handlePong E p m)"
    by (auto simp: handlePing_def handlePong_def intro!: preserving)
  show "preserves sync_ok (handleGetLatest E p)"
    by (auto simp: preserves_def handleGetLatest_def intro!: preserves_at[OF preserves_warn[OF send_keeps]])
qed

lemma get_blocks_keeps [preserving]: "preserves sync_ok (handleGetBlocks E p a b)"
  unfolding handleGetBlocks_def by (intro preserving)

lemma backfill_keeps [preserving]: "preserves sync_ok (requestBackfillBatch E p a b)" "preserves sync_ok (handleBackfill E p bs)"
proof -
  show 1: "preserves sync_ok (requestBackfillBatch E p a b)" for a b
    unfolding requestBackfillBatch_def by (intro preserving) simp
  have "preserves sync_ok (bindS (on_node (backfillSave E c bs l)) (\<lambda>lowest. if t < lowest then requestBackfillBatch E p (lowest - 1) t
      else on_server (\<lambda>s. s\<lparr>backfillInProgress := False\<rparr>)))" for c l t
    by (intro preserving 1) simp
  then show "preserves sync_ok (handleBackfill E p bs)" by (simp add: preserves_def handleBackfill_def)
qed

lemma add_block_keeps [preserving]: "preserves sync_ok (addOne E hist cp isFirst b k)" "preserves sync_ok (addBlocks E hist cp isFirst bs k)"
proof -
  have reorg: "preserves sync_ok (reorgOnto E b k)" for b k
    unfolding reorgOnto_def Let_def by (intro preserving)
  have missing: "preserves sync_ok (requestMissing E b k)" for b k
    by (auto simp: preserves_def requestMissing_def Let_def split: option.split
      intro!: preserves_at[OF preserves_bind[OF preserves_warn[OF direct_keeps] preserves_result(1)]])
  have keep: "preserves sync_ok (keepFailed E cp b k)" for b k
    unfolding keepFailed_def by (intro preserving)
  have one: "preserves sync_ok (backfillOne E b k)" for b k
    unfolding backfillOne_def by (intro preserving) simp
  show 1: "preserves sync_ok (addOne E hist cp isFirst b k)" for isFirst b k
    unfolding addOne_def by (intro preserving reorg missing keep one)
  show "preserves sync_ok (addBlocks E hist cp isFirst bs k)"
    by (induction bs arbitrary: isFirst k) (auto intro!: preserving 1)
qed

lemma sync_blocks_keep [preserving]: "preserves sync_ok (continueSync E k)" "preserves sync_ok (useBlocks E cur start bs)"
  "preserves sync_ok (syncBlocks E bs)" "preserves sync_ok (handleBlocks E p received)"
proof -
  have finish: "preserves sync_ok (on_server finishSync)" by (intro preserving) simp
  show 1: "preserves sync_ok (continueSync E k)" for k
    by (auto simp: preserves_def continueSync_def Let_def intro!: preserves_at[OF next_batch_keeps] preserves_at[OF finish])
  have "preserves sync_ok (bindS (addBlocks E h c True bs 0) (continueSync E))" for h c bs by (intro preserving 1)
  then show 2: "preserves sync_ok (useBlocks E cur start bs)" for cur start bs
    by (auto simp: preserves_def useBlocks_def intro!: preserves_at[OF next_batch_keeps])
  have "preserves sync_ok (bindS (on_node (classifyBlocks E cur start start bs)) (\<lambda>(filtered, forked).
     bindS (if filtered = [] then on_node (applyFromDatabase E (2 ^ 64) (cur + 1)) else Pair (Inr filtered)) (\<lambda>kept.
     bindS (on_node (replaceForked E forked)) (\<lambda>_. useBlocks E cur start kept))))" for cur start bs
    by (intro preserving) (simp only: split_paired_all split, intro preserving 2)
  then show 3: "preserves sync_ok (syncBlocks E bs)" for bs
    unfolding syncBlocks_def Let_def by (auto simp: preserves_def)
  show "preserves sync_ok (handleBlocks E p received)"
    by (auto simp: preserves_def handleBlocks_def Let_def
        intro!: preserves_at[OF finish] preserves_at[OF 3] preserves_at[OF backfill_keeps(2)])
qed

lemma new_block_keeps [preserving]: "preserves sync_ok (handleNewBlock E p nb)"
proof -
  have recorded: "preserves sync_ok (RecordRejectedProposer h q)" for h q
    unfolding RecordRejectedProposer_def by (intro preserving; auto simp: preserves_def)
  have reject: "preserves sync_ok (rejectOrSurrender E h q m)" for h q m
    unfolding rejectOrSurrender_def by (intro preserving recorded) simp
  have keep: "preserves sync_ok (addOrKeep E b)" for b
  proof -
    have "preserves sync_ok (attempt (on_node (cb_addBlock E b)) (\<lambda>_. if c then warn (on_node (cb_saveBlockOnly E b)) else Pair (Inr ()))
        (\<lambda>_. Pair (Inr ())))" for c by (intro preserving)
    then show ?thesis by (auto simp: preserves_def addOrKeep_def)
  qed
  have nxt: "preserves sync_ok (nextBlock E b)" for b
  proof -
    have "preserves sync_ok (or_return (on_node (cb_verifyProposer E h latest)) (\<lambda>expected.
       if q \<noteq> expected then rejectOrSurrender E h q m else addOrKeep E b))" for h latest q m
      by (intro preserving reject keep)
    then show ?thesis by (auto simp: preserves_def nextBlock_def split: option.split intro!: preserves_at[OF keep])
  qed
  have stake: "preserves sync_ok (stakeDecides E cur b q)" for cur b q
    unfolding stakeDecides_def by (intro preserving)
  have same: "preserves sync_ok (sameHeight E cur b)" for cur b
    unfolding sameHeight_def Let_def by (intro preserving reject stake)
  have gap: "preserves sync_ok (gapBlock E p cur b)" for cur b
  proof -
    have g: "preserves sync_ok (bindS m (\<lambda>_. bindS (on_server (forwardDone cur)) (\<lambda>_ (s, n). requestSync E p (acceptFrom cur s) h (s, n))))"
      if "preserves sync_ok m" for m :: "('a world, unit) step" and h
      by (intro preserving that) (simp, auto simp: preserves_def intro!: preserves_at[OF request_sync_keeps])
    show ?thesis
      by (auto simp: gapBlock_def intro!: preservesI dest: preserves_pairD[OF g[OF ask_checkpoint_keeps(1)]] preserves_pairD[OF g[OF preserves_result(1)]] split: if_splits)
  qed
  show ?thesis
    by (auto simp: preserves_def handleNewBlock_def Let_def split: option.split
      intro!: preserves_at[OF nxt] preserves_at[OF same] preserves_at[OF gap])
qed

lemma message_keeps [preserving]: "preserves sync_ok (handleMessage E p m)"
proof -
  have earliest: "preserves sync_ok (handleEarliestHeight E p h)" for h
    by (auto simp: preserves_def handleEarliestHeight_def Let_def intro!: preserves_at[OF backfill_keeps(1)])
  have checkpoint: "preserves sync_ok (handleCheckpoint E p cs)" for cs
  proof -
    have "preserves sync_ok (or_return (on_node (cb_applyCheckpoint E c cp)) (\<lambda>_.
         if d then warn (sendTo E p m) else Pair (Inr ())))" for c cp d m by (intro preserving)
    then show ?thesis by (auto simp: preserves_def handleCheckpoint_def split: list.split option.split)
  qed
  have state: "preserves sync_ok (handleStateData E p h d)" for h d
    unfolding handleStateData_def
    by (intro preserving) (simp, auto simp: preserves_def intro!: preserves_at[OF preserves_warn[OF send_keeps]])
  have "preserves sync_ok (handleTransaction E t)" "preserves sync_ok (handleGetEarliestHeight E p)" "preserves sync_ok (handleGetCheckpoint E p k)"
    "preserves sync_ok (handleGetState E p h)" "preserves sync_ok (on_server finishSync)" for t k h
    unfolding handleTransaction_def handleGetEarliestHeight_def handleGetCheckpoint_def handleGetState_def
    by (auto split: option.split intro!: preserving)
  then show ?thesis using earliest checkpoint state by (cases m) (auto intro: preserving)
qed

lemma process_keeps [preserving]: "preserves sync_ok (processMessages E)"
proof -
  have "preserves sync_ok (processPeer E p)" for p
    by (auto simp: preserves_def processPeer_def split: list.split intro!: preserves_at[OF message_keeps])
  then have "preserves sync_ok (processPeers E ps)" for ps by (induction ps) (auto intro!: preserving)
  then show ?thesis by (auto simp: preserves_def processMessages_def)
qed

section \<open>The state machine\<close>

text \<open>What happens to a server, with the parameters \<open>Es\<close> may take over time: a round of the message loop or a
  single message, the timers, connections coming and going, the readers and writers of the peers,
  and everything the rest of the node does to the node, broadcasts and requests included.\<close>

inductive server_step :: "'n server_env set \<Rightarrow> 'n world \<Rightarrow> 'n world \<Rightarrow> bool" for Es where
  message: "E \<in> Es \<Longrightarrow> handleMessage E p m w = (Inr (), w') \<Longrightarrow> server_step Es w w'"
| round: "E \<in> Es \<Longrightarrow> processMessages E w = (Inr (), w') \<Longrightarrow> server_step Es w w'"
| sync_timer: "E \<in> Es \<Longrightarrow> checkSyncTimeout E w = (Inr (), w') \<Longrightarrow> server_step Es w w'"
| retry_timer: "E \<in> Es \<Longrightarrow> checkAndRetryBroadcast E w = (Inr (), w') \<Longrightarrow> server_step Es w w'"
| heartbeat_timer: "E \<in> Es \<Longrightarrow> sendHeartbeatToAll E w = (Inr (), w') \<Longrightarrow> server_step Es w w'"
| accepted: "E \<in> Es \<Longrightarrow> acceptPeer E addr w = (Inr (), w') \<Longrightarrow> server_step Es w w'"
| dialled: "E \<in> Es \<Longrightarrow> ConnectToPeer E d host w = (r, w') \<Longrightarrow> server_step Es w w'"
| requests: "E \<in> Es \<Longrightarrow> flushOutbox E w = (Inr (), w') \<Longrightarrow> server_step Es w w'"
| startup: "E \<in> Es \<Longrightarrow> RequestSyncFromBestPeer E a b w = (Inr (), w') \<Longrightarrow> server_step Es w w'"
| reads: "server_step Es (s, n) (updatePeer p (\<lambda>peer. fst (readLoop mc input peer)) s, n)"
| writes: "server_step Es (s, n) (updatePeer p (writeLoop mc) s, n)"
| closes: "server_step Es (s, n) (updatePeer p peer_Close s, n)"
| node: "server_step Es (s, n) (s, n')"

inductive server_reachable :: "'n server_env set \<Rightarrow> 'n world \<Rightarrow> bool" for Es where
  init: "server_reachable Es (NewServer address ip, n)"
| step: "server_reachable Es w \<Longrightarrow> server_step Es w w' \<Longrightarrow> server_reachable Es w'"

lemma step_keeps: "server_step Es w w' \<Longrightarrow> sync_ok (fst w) \<Longrightarrow> sync_ok (fst w')"
  by (induction rule: server_step.induct) (auto dest: preservesD[OF message_keeps] preservesD[OF process_keeps]
      preservesD[OF timeout_keeps] preservesD[OF broadcast_keeps(2)] preservesD[OF heartbeat_keeps(1)]
      preservesD[OF heartbeat_keeps(2)] preservesD[OF heartbeat_keeps(3)] preservesD[OF forward_keeps(2)] preservesD[OF best_sync_keeps])

lemma reachable_sync_ok: "server_reachable Es w \<Longrightarrow> sync_ok (fst w)"
  by (induction rule: server_reachable.induct) (auto dest: step_keeps)

section \<open>Blocks do not crash the server\<close>

text \<open>Callbacks that neither panic nor hang, and a database that does not hold a block for every height.\<close>

definition calm :: "('n, 'a) step \<Rightarrow> bool" where
  "calm m \<longleftrightarrow> (\<forall>n e. fst (m n) = Inl e \<longrightarrow> \<not> fatal e)"

definition calm_callbacks :: "'n server_env \<Rightarrow> bool" where
  "calm_callbacks E \<longleftrightarrow> (\<forall>b. calm (cb_addBlock E b) \<and> calm (cb_addBlockSkipTimestamp E b) \<and> calm (cb_saveBlockOnly E b)
     \<and> calm (cb_replaceForkedBlock E b) \<and> (\<forall>h. calm (cb_performReorg E h b))) \<and> (\<forall>h k. calm (cb_getBlockRange E h k))
     \<and> (\<exists>H. \<forall>n. \<nexists>b bs. fst (cb_getBlockRange E H H n) = Inr (b # bs))"

named_theorems calming

lemma calmI: "(\<And>n e n'. m n = (Inl e, n') \<Longrightarrow> \<not> fatal e) \<Longrightarrow> calm m"
  by (metis calm_def prod.collapse)

lemma calmD: "calm m \<Longrightarrow> m n = (Inl e, n') \<Longrightarrow> \<not> fatal e"
  by (metis calm_def fst_conv)

lemma calm_on_node: "calm m \<Longrightarrow> calm (on_node m)"
  by (rule calmI) (auto simp: on_node_def split: prod.splits dest: calmD)

lemma calm_send: "calm (sendTo E p m)"
  by (rule calmI) (auto simp: sendTo_def SendMessage_def Let_def fatal_def split: prod.splits if_splits)

lemma calm_direct: "calm (RequestBlocksDirect E a b)"
proof (rule calmI)
  fix w e w' assume r: "RequestBlocksDirect E a b w = (Inl e, w')"
  obtain s n where w: "w = (s, n)" by (cases w)
  show "\<not> fatal e"
    using r calmD[OF calm_send, of E _ _ "(s, n)" e w'] unfolding w
    by (cases "connectedPeers s") (auto simp: RequestBlocksDirect_def fatal_def)
qed

text \<open>Steps of the node, and of the server in a state with \<open>P\<close>, that come back with a result.\<close>

definition always :: "('s, 'a) step \<Rightarrow> bool" where
  "always m \<longleftrightarrow> (\<forall>s. \<exists>a s'. m s = (Inr a, s'))"

definition returns :: "(Server \<Rightarrow> bool) \<Rightarrow> ('n world, 'a) step \<Rightarrow> bool" where
  "returns P m \<longleftrightarrow> (\<forall>w. P (fst w) \<longrightarrow> (\<exists>a w'. m w = (Inr a, w') \<and> P (fst w')))"

lemma always_bind: "always m \<Longrightarrow> (\<And>a. always (f a)) \<Longrightarrow> always (bindS m f)"
  unfolding always_def bindS_def by (metis (mono_tags, lifting) old.prod.case old.sum.simps(6))

lemma always_warn: "calm m \<Longrightarrow> always (warn m)"
  unfolding always_def
proof
  fix s assume "calm m"
  then show "\<exists>a s'. warn m s = (Inr a, s')" by (cases "m s"; cases "fst (m s)") (auto simp: warn_def dest: calmD)
qed

lemma returns_bind [calming]:
  fixes m :: "('n world, 'a) step"
  assumes "returns P m" and "\<And>a. returns P (f a)"
  shows "returns P (bindS m f)"
  unfolding returns_def
proof (intro allI impI)
  fix w :: "'n world" assume "P (fst w)"
  then obtain a t where "m w = (Inr a, t)" "P (fst t)" using assms(1) unfolding returns_def by blast
  then show "\<exists>a w'. bindS m f w = (Inr a, w') \<and> P (fst w')" using assms(2)[of a] unfolding returns_def bindS_def by (cases t) auto
qed

lemma returns_attempt [calming]:
  fixes m :: "('n world, 'a) step"
  assumes "calm m" and "preserves P m" and "\<And>e. returns P (f e)" and "\<And>a. returns P (g a)"
  shows "returns P (attempt m f g)"
  unfolding returns_def
proof (intro allI impI)
  fix w :: "'n world" assume P: "P (fst w)"
  obtain q t where m: "m w = (q, t)" by (cases "m w")
  then have "P (fst t)" using preservesD[OF assms(2) m P] by simp
  then show "\<exists>a w'. attempt m f g w = (Inr a, w') \<and> P (fst w')"
    using assms(3,4) m calmD[OF assms(1), of w _ t] unfolding returns_def attempt_def by (cases t; cases q) auto
qed

lemma returns_warn [calming]:
  fixes m :: "('n world, 'a) step"
  assumes "calm m" and "preserves P m"
  shows "returns P (warn m)"
  unfolding returns_def
proof (intro allI impI)
  fix w :: "'n world" assume P: "P (fst w)"
  obtain q t where m: "m w = (q, t)" by (cases "m w")
  then have "P (fst t)" using preservesD[OF assms(2) m P] by simp
  then show "\<exists>a w'. warn m w = (Inr a, w') \<and> P (fst w')"
    using m calmD[OF assms(1), of w _ t] by (cases q) (auto simp: warn_def)
qed

lemma returns_if [calming]: "returns P m \<Longrightarrow> returns P m' \<Longrightarrow> returns P (if c then m else m')"
  by simp

lemma returns_pair [calming]: "returns P (Pair (Inr a))"
  by (simp add: returns_def)

lemma returns_server [calming]: "(\<And>s. P s \<Longrightarrow> P (f s)) \<Longrightarrow> returns P (on_server f)"
  by (auto simp: returns_def on_server_def)

lemma returns_on_node [calming]: "always m \<Longrightarrow> returns P (on_node m)"
  unfolding returns_def always_def on_node_def by (auto split: prod.split) (metis prod.inject)

lemma returnsD: "returns P m \<Longrightarrow> P s \<Longrightarrow> \<exists>a w'. m (s, n) = (Inr a, w') \<and> P (fst w')"
  by (simp add: returns_def)

lemma returnsI: "(\<And>s n. P s \<Longrightarrow> \<exists>a w'. m (s, n) = (Inr a, w') \<and> P (fst w')) \<Longrightarrow> returns P m"
  by (auto simp: returns_def)

lemma next_batch_returns:
  assumes "syncPeer s \<noteq> None"
  shows "\<exists>w'. requestNextBatch E (syncPeer s) h (s, n) = (Inr (), w') \<and> (sync_ok s \<longrightarrow> sync_ok (fst w'))"
proof -
  obtain p where p: "syncPeer s = Some p" using assms by blast
  have "returns (\<lambda>_. True) (attempt (sendTo E p m) (\<lambda>_. on_server finishSync) (\<lambda>_. Pair (Inr ())))" for m
    by (intro calming calm_send) (auto simp: preserves_def)
  then obtain w' where "requestNextBatch E (syncPeer s) h (s, n) = (Inr (), w')"
    using returnsD[of "\<lambda>_. True"] p by (fastforce simp: requestNextBatch_def)
  then show ?thesis using preserves_pairD[OF next_batch_keeps] by (metis prod.collapse)
qed

lemma classify_always:
  assumes E: "calm_callbacks E"
  shows "always (classifyBlocks E cur start k bs)"
proof (induction bs arbitrary: k)
  case (Cons b bs)
  have s: "calm (cb_saveBlockOnly E b)" using E by (simp add: calm_callbacks_def)
  have 1: "always (bindS (classifyBlocks E cur start k bs) (\<lambda>(f, g). Pair (Inr (F f g))))" for k and F :: "block list \<Rightarrow> block list \<Rightarrow> block list \<times> block list"
    by (rule always_bind[OF Cons.IH]) (auto simp: always_def)
  have 2: "always (bindS (warn (cb_saveBlockOnly E b)) (\<lambda>_. classifyBlocks E cur start k bs))"
    by (rule always_bind[OF always_warn[OF s] Cons.IH])
  show ?case
    using 1[of _ "\<lambda>f g. (f, b # g)"] 1[of _ "\<lambda>f g. (b # f, g)"] 2 Cons.IH
    unfolding always_def classifyBlocks.simps Let_def by simp
qed (simp add: always_def)

lemma replace_always:
  assumes E: "calm_callbacks E"
  shows "always (replaceForked E bs)"
proof (induction bs)
  case (Cons b bs)
  have "calm (cb_replaceForkedBlock E b)" using E by (simp add: calm_callbacks_def)
  then show ?case by (simp add: always_bind[OF always_warn Cons.IH])
qed (simp add: always_def)

lemma backfill_always:
  assumes E: "calm_callbacks E"
  shows "always (backfillSave E cp bs k)"
proof (induction bs arbitrary: k)
  case (Cons b bs)
  have c: "calm (cb_saveBlockOnly E b)" using E by (simp add: calm_callbacks_def)
  show ?case unfolding always_def
  proof
    fix n
    obtain q t where m: "cb_saveBlockOnly E b n = (q, t)" by (cases "cb_saveBlockOnly E b n")
    show "\<exists>a s'. backfillSave E cp (b # bs) k n = (Inr a, s')"
      using m calmD[OF c, of n _ t] Cons.IH unfolding always_def by (cases q) auto
  qed
qed (simp add: always_def)

lemma database_always:
  assumes E: "calm_callbacks E"
  shows "always (applyFromDatabase E (2 ^ 64) h)"
proof -
  obtain H where H: "\<And>n b bs. fst (cb_getBlockRange E H H n) \<noteq> Inr (b # bs)"
    using E unfolding calm_callbacks_def by blast
  have c: "calm (cb_getBlockRange E h h)" "calm (cb_addBlockSkipTimestamp E b)" for h b
    using E by (auto simp: calm_callbacks_def)
  have stop: "\<exists>a s'. applyFromDatabase E (Suc fuel) H n = (Inr a, s')" for fuel n
  proof -
    obtain q t where m: "cb_getBlockRange E H H n = (q, t)" by (cases "cb_getBlockRange E H H n")
    show ?thesis
    proof (cases q)
      case (Inl e)
      then show ?thesis using m calmD[OF c(1)] by simp
    next
      case (Inr bs)
      then have "bs = []" using H m by (metis fst_conv list.exhaust)
      then show ?thesis using m Inr by simp
    qed
  qed
  have on: "\<exists>a s'. applyFromDatabase E (Suc fuel) h n = (Inr a, s')"
    if IH: "\<And>n. \<exists>a s'. applyFromDatabase E fuel (h + 1) n = (Inr a, s')" for fuel h n
  proof -
    obtain q t where m: "cb_getBlockRange E h h n = (q, t)" by (cases "cb_getBlockRange E h h n")
    show ?thesis
    proof (cases "\<exists>b bs. q = Inr (b # bs)")
      case True
      then obtain b bs where q: "q = Inr (b # bs)" by blast
      obtain r u where a: "cb_addBlockSkipTimestamp E b t = (r, u)" by (cases "cb_addBlockSkipTimestamp E b t")
      obtain x v where "applyFromDatabase E fuel (h + 1) u = (Inr x, v)" using IH[of u] by blast
      then show ?thesis using m q a calmD[OF c(2)] by (cases r) (auto simp: bindS_def)
    next
      case False
      then show ?thesis using m calmD[OF c(1)] by (cases q) (auto split: list.split)
    qed
  qed
  have "\<exists>a s'. applyFromDatabase E (Suc fuel) h n = (Inr a, s')" if "unat (H - h) \<le> fuel" for fuel h n
    using that
  proof (induction fuel arbitrary: h n)
    case 0
    then have "H = h" by (simp add: unat_eq_zero)
    then show ?case using stop by blast
  next
    case (Suc fuel)
    show ?case
    proof (cases "H = h")
      case False
      then have "unat (H - (h + 1)) \<le> fuel" using Suc.prems unat_minus_one[of "H - h"] by (simp add: diff_diff_eq)
      then show ?thesis by (intro on Suc.IH)
    qed (use stop in blast)
  qed
  moreover have "unat (H - h) \<le> 2 ^ 64 - 1" using unsigned_less[of "H - h", where 'a = nat] by simp
  moreover have "Suc (2 ^ 64 - 1) = (2 ^ 64 :: nat)" by simp
  ultimately show ?thesis unfolding always_def by metis
qed

lemma add_blocks_return:
  assumes "calm_callbacks E"
  shows "returns sync_ok (addBlocks E hist cp isFirst bs k)"
proof -
  have c: "calm (cb_addBlock E b)" "calm (cb_addBlockSkipTimestamp E b)" "calm (cb_saveBlockOnly E b)" "calm (cb_performReorg E h b)" for b h
    using assms by (simp_all add: calm_callbacks_def)
  note calm = calm_on_node[OF c(1)] calm_on_node[OF c(2)] calm_on_node[OF c(3)] calm_on_node[OF c(4)]
  have reorg: "returns sync_ok (reorgOnto E b k)" for b k
    unfolding reorgOnto_def Let_def by (intro calming calm calm_direct preserving)
  have missing: "returns sync_ok (requestMissing E b k)" for b k
  proof -
    have "returns sync_ok (bindS (warn (RequestBlocksDirect E x y)) (\<lambda>_. Pair (Inr k)))" for x y
      by (intro calming calm_direct preserving)
    then show ?thesis by (simp add: returns_def requestMissing_def Let_def)
  qed
  have keep: "returns sync_ok (keepFailed E cp b k)" for b k
    unfolding keepFailed_def by (intro calming calm preserving)
  have one: "returns sync_ok (backfillOne E b k)" for b k
    unfolding backfillOne_def by (intro calming calm preserving) simp
  have add: "calm (on_node (if hist then cb_addBlockSkipTimestamp E b else cb_addBlock E b))" for b
    using calm(1,2) by simp
  have "returns sync_ok (addOne E hist cp isFirst b k)" for isFirst b k
    unfolding addOne_def by (intro calming add preserving reorg missing keep one)
  then show ?thesis by (induction bs arbitrary: isFirst k) (auto intro!: calming)
qed

lemma use_blocks_return:
  assumes "calm_callbacks E"
  shows "returns sync_ok (useBlocks E cur start bs)"
proof -
  have finish: "returns sync_ok (on_server finishSync)" by (intro calming) simp
  have nxt: "\<exists>a w'. requestNextBatch E (syncPeer s) h (s, n) = (Inr a, w') \<and> sync_ok (fst w')"
    if "sync_ok s" "syncing s \<or> 0 < syncTargetHeight s" for s n h
    using next_batch_returns[of s E h n] that by (fastforce simp: sync_ok_def)
  have cont: "returns sync_ok (continueSync E k)" for k
    using nxt returnsD[OF finish] by (auto simp: returns_def continueSync_def Let_def)
  have "returns sync_ok (bindS (addBlocks E h c True bs 0) (continueSync E))" for h c
    by (intro calming add_blocks_return[OF assms] cont)
  then show ?thesis using nxt by (auto simp: returns_def useBlocks_def)
qed

lemma handle_blocks_return:
  assumes E: "calm_callbacks E" and "None \<notin> set received"
  shows "returns sync_ok (handleBlocks E p received)"
proof -
  have finish: "returns sync_ok (on_server finishSync)" by (intro calming) simp
  have "returns sync_ok (bindS (on_node (classifyBlocks E cur start start bs)) (\<lambda>(filtered, forked).
     bindS (if filtered = [] then on_node (applyFromDatabase E (2 ^ 64) (cur + 1)) else Pair (Inr filtered)) (\<lambda>kept.
     bindS (on_node (replaceForked E forked)) (\<lambda>_. useBlocks E cur start kept))))" for cur start bs
    by (intro calming classify_always[OF E])
      (simp only: split_paired_all split, intro calming database_always[OF E] replace_always[OF E] use_blocks_return[OF E])
  then have sync: "returns sync_ok (syncBlocks E bs)" for bs
    by (simp add: returns_def syncBlocks_def Let_def)
  have "returns sync_ok (requestBackfillBatch E p a b)" for a b
    unfolding requestBackfillBatch_def by (intro calming calm_send preserving) simp
  then have "returns sync_ok (bindS (on_node (backfillSave E c bs l)) (\<lambda>lowest. if t < lowest then requestBackfillBatch E p (lowest - 1) t
      else on_server (\<lambda>s. s\<lparr>backfillInProgress := False\<rparr>)))" for c bs l t
    by (intro calming backfill_always[OF E]) simp_all
  then have "returns sync_ok (handleBackfill E p bs)" for bs by (simp add: returns_def handleBackfill_def)
  then have fill: "\<exists>a w'. handleBackfill E p bs (s, n) = (Inr a, w') \<and> sync_ok (fst w')" if "sync_ok s" for bs s n
    using that by (simp add: returns_def)
  show ?thesis
  proof (rule returnsI)
    fix s n assume "sync_ok s"
    then show "\<exists>a w'. handleBlocks E p received (s, n) = (Inr a, w') \<and> sync_ok (fst w')"
      using fill[of s _ n] returnsD[OF sync, of s _ n] returnsD[OF finish, of s n] assms(2)
      by (cases "received = []") (simp_all add: handleBlocks_def Let_def)
  qed
qed

section \<open>Claims\<close>


section \<open>A small server\<close>

text \<open>A node for the witnesses: a chain of blocks, newest first, that takes a block of the next height, and the
  heights of the blocks saved apart from it. Block ranges are never served.\<close>

type_synonym small_node = "block list \<times> u64 list"

definition small_add :: "block \<Rightarrow> (small_node, unit) step" where
  "small_add b = (\<lambda>(bs, saved). case bs of
     [] \<Rightarrow> (Inl Other, (bs, saved))
   | tip # _ \<Rightarrow> if Height (Header b) = Height (Header tip) + 1 then (Inr (), (b # bs, saved)) else (Inl Other, (bs, saved)))"

definition small_server :: "int \<Rightarrow> small_node server_env" where
  "small_server now = \<lparr>
     se_cfg = shipped_config, se_cl = demo_crypto, se_codec = demo_msg_codec, se_now = now, se_drains = (\<lambda>_. True), se_interfaces = None,
     cb_getLatestBlock = (\<lambda>(bs, _). case bs of [] \<Rightarrow> None | b # _ \<Rightarrow> Some b),
     cb_addBlock = small_add, cb_addBlockSkipTimestamp = small_add,
     cb_getBlockRange = (\<lambda>_ _. Pair (Inr [])),
     cb_verifyProposer = (\<lambda>_ _. Pair (Inr demo_user)),
     cb_performReorg = (\<lambda>_ _. Pair (Inl Other)),
     cb_getProposerStake = (\<lambda>_. Pair (Inr 0)),
     cb_getLatestCheckpoints = (\<lambda>_. Pair (Inr [])),
     cb_getLatestCheckpoint = Pair (Inr None),
     cb_applyCheckpoint = (\<lambda>_ _. Pair (Inr ())),
     cb_getStateSnapshot = (\<lambda>_. Pair (Inl Other)),
     cb_applyStateSnapshot = (\<lambda>_ _. Pair (Inr ())),
     cb_handleReceivedTransaction = (\<lambda>_. Pair (Inl Other)),
     cb_detectAndResolveFork = (\<lambda>_ _ _ _ _. Pair (Inr ())),
     cb_saveBlockOnly = (\<lambda>b (bs, saved). (Inr (), (bs, Height (Header b) # saved))),
     cb_replaceForkedBlock = (\<lambda>_. Pair (Inr ())),
     cb_getEarliestHeight = Pair (Inr 1),
     cb_isValidator = (\<lambda>_ _. True),
     cb_outbox = Pair []\<rparr>"

lemma small_server_simps [simp]:
  "se_cfg (small_server now) = shipped_config" "se_now (small_server now) = now" "se_codec (small_server now) = demo_msg_codec"
  "se_drains (small_server now) p"
  "cb_getLatestBlock (small_server now) (b # bs, saved) = Some b"
  "cb_addBlock (small_server now) = small_add" "cb_addBlockSkipTimestamp (small_server now) = small_add"
  "cb_getBlockRange (small_server now) x y n = (Inr [], n)"
  "cb_verifyProposer (small_server now) h c n = (Inr demo_user, n)"
  "cb_saveBlockOnly (small_server now) c (bs, saved) = (Inr (), (bs, Height (Header c) # saved))"
  by (simp_all add: small_server_def)

lemma small_calm: "calm_callbacks (small_server now)"
  by (auto simp: calm_callbacks_def calm_def small_server_def small_add_def fatal_def split: list.splits)

text \<open>A server with one connected peer of height \<open>h\<close>.\<close>

definition small_world :: "u64 \<Rightarrow> Server" where
  "small_world h = addPeer ((NewPeer 0 ''10.0.0.2:9001'' True)\<lparr>p_height := h\<rparr>) (NewServer demo_user '''')"

lemma small_world_facts [simp]:
  "peers (small_world h) = [(''10.0.0.2:9001'', 0)]" "connected (peerAt (small_world h) 0)" "sendChan (peerAt (small_world h) 0) = []"
  "connectedPeers (small_world h) = [0]" "syncing (small_world h) = False" "syncTargetHeight (small_world h) = 0"
  "checkpointHeight (small_world h) = 0" "checkpointSyncFrom (small_world h) = 0" "backfillInProgress (small_world h) = False"
  "lastSyncHeight (small_world h) = 0" "progressiveSkip (small_world h) = 0" "rejectedProposers (small_world h) = []"
  "syncStartTime (small_world h) = zeroTime"
  by (simp_all add: small_world_def addPeer_def NewServer_def NewPeer_def connectedPeers_def)


end
