(* ===== verification/Network_Downloads.thy ===== *)
theory Network_Downloads
  imports Network_Invariant
begin

text \<open>
  Downloads as conversations with a peer: the blocks after the tip (\<^verbatim>\<open>requestSync\<close>, \<^verbatim>\<open>handleBlocks\<close>,
  \<^verbatim>\<open>checkSyncTimeout\<close>) and the blocks before a checkpoint (\<^verbatim>\<open>requestBackfillBatch\<close>).

  Lemmas: with an honest peer a download adds every block up to its target and ends, and a backfill
  saves every missing block exactly once and ends; a stalled download ends by itself; a fresh one
  skips ahead at the first look at the clock; downloaded blocks are never checked against the clock.
\<close>

section \<open>An honest peer\<close>

text \<open>The answer to a request for blocks, and one exchange: the peer takes the oldest request this node has
  sent, and this node handles the answer.\<close>

definition serve :: "(u64 \<Rightarrow> block) \<Rightarrow> u64 \<Rightarrow> u64 \<Rightarrow> message" where
  "serve chain a b = MsgBlocks (map (\<lambda>h. Some (chain h)) (heightsFromTo a b))"

definition exchange :: "'n server_env \<Rightarrow> (u64 \<Rightarrow> block) \<Rightarrow> nat \<Rightarrow> 'n world \<Rightarrow> 'n world" where
  "exchange E chain p = (\<lambda>(s, n). case sendChan (peerAt s p) of
     MsgGetBlocks a b # rest \<Rightarrow> snd (handleMessage E p (serve chain a b) (updatePeer p (\<lambda>peer. peer\<lparr>sendChan := rest\<rparr>) s, n))
   | _ \<Rightarrow> (s, n))"

text \<open>A node that has the blocks answers like this.\<close>

lemma serves_its_blocks:
  assumes "cb_getBlockRange E a b n = (Inr (map chain (heightsFromTo a b)), n')" and "a \<le> b"
    and "connected (peerAt s p)" and "length (sendChan (peerAt s p)) < 500"
  shows "handleMessage E p (MsgGetBlocks a b) (s, n)
    = (Inr (), (updatePeer p (\<lambda>peer. peer\<lparr>sendChan := sendChan peer @ [serve chain a b]\<rparr>) s, n'))"
proof -
  have "heightsFromTo a b \<noteq> []" using assms(2) by (simp add: heightsFromTo_def word_le_nat_alt)
  then show ?thesis
    using assms by (simp add: handleGetBlocks_def attempt_def on_node_def warn_def sendTo_def SendMessage_def updatePeer_def serve_def comp_def)
qed

lemma of_nat_word_le [simp]: "i < 2 ^ 64 \<Longrightarrow> j < 2 ^ 64 \<Longrightarrow> (of_nat i :: u64) \<le> of_nat j \<longleftrightarrow> i \<le> j"
  by (simp add: word_le_nat_alt unsigned_of_nat take_bit_nat_eq_self)

lemma of_nat_word_less [simp]: "i < 2 ^ 64 \<Longrightarrow> j < 2 ^ 64 \<Longrightarrow> (of_nat i :: u64) < of_nat j \<longleftrightarrow> i < j"
  by (simp add: word_less_nat_alt unsigned_of_nat take_bit_nat_eq_self)

lemma unat_u64_less: "unat (h :: u64) < 2 ^ 64"
  using unsigned_less[of h, where 'a = nat] by simp

lemma sorted_heights:
  assumes "\<And>h. Height (Header (chain h)) = h"
  shows "sortBlocks (map chain (heightsFromTo a b)) = map chain (heightsFromTo a b)"
proof -
  have "sorted (map (\<lambda>i. of_nat i :: u64) [unat a..<Suc (unat b)])"
    using unat_u64_less[of b] by (auto simp: sorted_iff_nth_mono simp del: upt_Suc of_nat_add)
  then show ?thesis
    unfolding sortBlocks_def heightsFromTo_def by (intro sort_key_id_if_sorted) (simp add: assms comp_def)
qed

section \<open>Blocks after the tip\<close>

text \<open>\<open>serves E chain at start target\<close>: from the node \<open>at start\<close> on, adding the next block of the chain leads to the
  next node, up to the target.\<close>

definition serves :: "'n server_env \<Rightarrow> (u64 \<Rightarrow> block) \<Rightarrow> (u64 \<Rightarrow> 'n) \<Rightarrow> u64 \<Rightarrow> u64 \<Rightarrow> bool" where
  "serves E chain at start target \<longleftrightarrow> (\<forall>h. Height (Header (chain h)) = h)
     \<and> (\<forall>h. start \<le> h \<and> h \<le> target \<longrightarrow> cb_getLatestBlock E (at h) = Some (chain h))
     \<and> (\<forall>h. start \<le> h \<and> h < target \<longrightarrow> cb_addBlockSkipTimestamp E (chain (h + 1)) (at h) = (Inr (), at (h + 1)))"

lemma classify_served:
  assumes "\<And>h. Height (Header (chain h)) = h" and "unat cur < i" and "i \<le> j" and "j \<le> 2 ^ 64" and "unat start \<le> i"
  shows "classifyBlocks E cur start (of_nat i) (map (\<lambda>k. chain (of_nat k)) [i..<j]) n = (Inr (map (\<lambda>k. chain (of_nat k)) [i..<j], []), n)"
  using assms(3,2,5)
proof (induction i rule: inc_induct)
  case (step i)
  have i: "i < 2 ^ 64" using step.hyps(2) assms(4) by simp
  have "\<not> (of_nat i :: u64) \<le> cur" "\<not> (of_nat i :: u64) < start"
    using i step.prems by (simp_all add: word_le_nat_alt word_less_nat_alt unsigned_of_nat take_bit_nat_eq_self)
  moreover have "classifyBlocks E cur start (of_nat i + 1) (map (\<lambda>k. chain (of_nat k)) [Suc i..<j]) n
      = (Inr (map (\<lambda>k. chain (of_nat k)) [Suc i..<j], []), n)"
    using step.IH step.prems by (simp add: add.commute)
  ultimately show ?case
    using step.hyps(2) assms(1) by (simp add: upt_conv_Cons Let_def bindS_def)
qed simp

lemma add_served:
  assumes "serves E chain at start target" and "unat start < i" and "i \<le> j" and "j \<le> Suc (unat target)"
  shows "addBlocks E True 0 isFirst (map (\<lambda>k. chain (of_nat k)) [i..<j]) lastAdded (s, at (of_nat (i - 1)))
    = (Inr (if i < j then of_nat (j - 1) else lastAdded), (s, at (of_nat (j - 1))))"
  using assms(3,2)
proof (induction i arbitrary: isFirst lastAdded rule: inc_induct)
  case (step i)
  obtain m where m: "i = Suc m" using step.prems by (cases i) auto
  have i: "m < 2 ^ 64" using step.hyps(2) m assms(4) unat_u64_less[of target] by simp
  have "start \<le> of_nat (i - 1)" "of_nat (i - 1) < target"
    using i m step.prems step.hyps(2) assms(4) by (simp_all add: word_le_nat_alt word_less_nat_alt unsigned_of_nat take_bit_nat_eq_self)
  moreover have "of_nat (i - 1) + 1 = (of_nat i :: u64)" using m by (simp add: add.commute)
  ultimately have add: "cb_addBlockSkipTimestamp E (chain (of_nat i)) (at (of_nat (i - 1))) = (Inr (), at (of_nat i))"
    and h: "Height (Header (chain (of_nat i))) = of_nat i"
    using assms(1) unfolding serves_def by metis+
  have "addOne E True 0 isFirst (chain (of_nat i)) lastAdded (s, at (of_nat (i - 1))) = (Inr (of_nat i), (s, at (of_nat i)))"
    using add h by (simp add: addOne_def attempt_def on_node_def)
  then show ?case
    using step.IH[of False "of_nat i"] step.prems step.hyps(2) by (cases "j = Suc i") (auto simp: upt_conv_Cons bindS_def)
qed simp

definition waiting :: "'n server_env \<Rightarrow> nat \<Rightarrow> u64 \<Rightarrow> u64 \<Rightarrow> Server \<Rightarrow> bool" where
  "waiting E p target h s \<longleftrightarrow> syncing s \<and> syncTargetHeight s = target \<and> syncPeer s = Some p \<and> connected (peerAt s p)
     \<and> sendChan (peerAt s p) = [MsgGetBlocks (h + 1) (batchEnd (se_cfg E) (h + 1) target)]
     \<and> checkpointHeight s = 0 \<and> checkpointSyncFrom s = 0 \<and> \<not> backfillInProgress s"

lemma request_waiting:
  assumes "connected (peerAt s p)" and "sendChan (peerAt s p) = []" and "syncing s" and "syncTargetHeight s = target"
    and "syncPeer s = Some p" and "checkpointHeight s = 0" and "checkpointSyncFrom s = 0" and "\<not> backfillInProgress s"
  shows "\<exists>s'. requestNextBatch E (Some p) (h + 1) (s, n) = (Inr (), (s', n)) \<and> waiting E p target h s'"
  using assms by (simp add: requestNextBatch_def attempt_def sendTo_def SendMessage_def waiting_def)

lemma batch_end_bounds:
  assumes "h < target" and "1 \<le> SyncBatchSize (Network cfg)" and "unat target + unat (SyncBatchSize (Network cfg)) < 2 ^ 64"
  shows "h < batchEnd cfg (h + 1) target \<and> batchEnd cfg (h + 1) target \<le> target"
proof -
  have "unat (h + SyncBatchSize (Network cfg)) = unat h + unat (SyncBatchSize (Network cfg))"
  proof -
    have "unat h + unat (SyncBatchSize (Network cfg)) < 2 ^ 64" using assms(1,3) unfolding word_less_nat_alt by linarith
    then show ?thesis using unat_add_lem[of h "SyncBatchSize (Network cfg)"] by simp
  qed
  then have "h < h + SyncBatchSize (Network cfg)" using assms(2) by (simp add: word_less_nat_alt word_le_nat_alt)
  then show ?thesis using assms(1) by (auto simp: batchEnd_def Let_def)
qed

lemma heights_chain: "map (\<lambda>h. Some (chain h)) (heightsFromTo a b) = map Some (map (\<lambda>k. chain (of_nat k)) [unat a..<Suc (unat b)])"
  by (simp add: heightsFromTo_def comp_def del: upt_Suc)

lemma exchange_served:
  assumes "serves E chain at start target" and "waiting E p target h s" and "start \<le> h" and "h < target"
    and "1 \<le> SyncBatchSize (Network (se_cfg E))" and "unat target + unat (SyncBatchSize (Network (se_cfg E))) < 2 ^ 64"
    and "unat target + 100 < 2 ^ 64"
  shows "\<exists>e s'. h < e \<and> e \<le> target \<and> exchange E chain p (s, at h) = (s', at e)
    \<and> (e < target \<longrightarrow> waiting E p target e s') \<and> (e = target \<longrightarrow> \<not> syncing s' \<and> sendChan (peerAt s' p) = [])"
proof -
  define e where "e = batchEnd (se_cfg E) (h + 1) target"
  have e: "h < e" "e \<le> target" using batch_end_bounds[OF assms(4-6)] by (simp_all add: e_def)
  define s1 where "s1 = updatePeer p (\<lambda>peer. peer\<lparr>sendChan := []\<rparr>) s"
  have w: "sendChan (peerAt s p) = [MsgGetBlocks (h + 1) e]" using assms(2) by (simp add: waiting_def e_def)
  have s1: "syncing s1" "syncTargetHeight s1 = target" "syncPeer s1 = Some p" "connected (peerAt s1 p)" "sendChan (peerAt s1 p) = []"
    "checkpointHeight s1 = 0" "checkpointSyncFrom s1 = 0" "\<not> backfillInProgress s1"
    using assms(2) by (simp_all add: waiting_def s1_def updatePeer_def)
  have H: "\<And>h. Height (Header (chain h)) = h" and tip: "cb_getLatestBlock E (at h) = Some (chain h)"
    using assms(1,3,4) by (auto simp: serves_def)
  have "unat h + 1 < 2 ^ 64" using assms(4) unat_u64_less[of target] unfolding word_less_nat_alt by linarith
  then have h1: "unat (h + 1) = Suc (unat h)" using unat_add_lem[of h 1] by simp
  define bs where "bs = map (\<lambda>k. chain (of_nat k)) [Suc (unat h)..<Suc (unat e)]"
  have bs: "map chain (heightsFromTo (h + 1) e) = bs" by (simp add: heightsFromTo_def bs_def h1 comp_def del: upt_Suc)
  have lt: "unat h < unat e" using e(1) by (simp add: word_less_nat_alt)
  have ne: "bs \<noteq> []" using lt by (simp add: bs_def)
  have hd: "Height (Header (hd bs)) = h + 1"
    using lt by (simp add: bs_def upt_conv_Cons H add.commute del: upt_Suc)
  have near: "h + 1 \<le> h + 100"
  proof -
    have "unat h + 100 < 2 ^ 64" using assms(4,7) unfolding word_less_nat_alt by linarith
    then have "unat (h + 100) = unat h + 100" using unat_add_lem[of h 100] by simp
    then show ?thesis using h1 by (simp add: word_le_nat_alt)
  qed
  have msg: "MsgBlocks (map Some bs) = serve chain (h + 1) e"
    by (simp add: serve_def heights_chain bs_def h1 del: upt_Suc)
  have sorted: "sortBlocks bs = bs" using sorted_heights[OF H, of "h + 1" e] by (simp add: bs)
  have classify: "classifyBlocks E h (h + 1) (h + 1) bs (at h) = (Inr (bs, []), at h)"
    using classify_served[OF H, of h "Suc (unat h)" "Suc (unat e)" "h + 1" E "at h"] lt unat_u64_less[of e] h1
    unfolding bs_def by (simp add: add.commute del: upt_Suc)
  have add: "addBlocks E True 0 True bs 0 (s1, at h) = (Inr e, (s1, at e))"
    using add_served[OF assms(1), of "Suc (unat h)" "Suc (unat e)" True 0 s1] lt assms(3) e(2)
    unfolding bs_def by (simp add: word_le_nat_alt del: upt_Suc)
  have "e \<noteq> 0" using e(1) by auto
  have sync: "handleBlocks E p (map Some bs) (s1, at h) = continueSync E e (s1, at e)"
    using s1 ne hd near sorted classify add tip H
    by (simp add: handleBlocks_def syncBlocks_def Let_def tipHeight_def forwardDone_def acceptFrom_def bindS_def on_node_def
        useBlocks_def comp_def)
  have "exchange E chain p (s, at h) = snd (continueSync E e (s1, at e))"
    using w by (simp add: exchange_def msg[symmetric] s1_def[symmetric] sync)
  moreover have "\<exists>s'. continueSync E e (s1, at e) = (Inr (), (s', at e)) \<and> (e < target \<longrightarrow> waiting E p target e s')
      \<and> (e = target \<longrightarrow> \<not> syncing s' \<and> sendChan (peerAt s' p) = [])"
  proof (cases "e < target")
    case True
    then show ?thesis
      using request_waiting[OF s1(4,5,1-3,6-8), of E e "at e"] s1 \<open>e \<noteq> 0\<close> by (auto simp: continueSync_def word_gt_0)
  next
    case False
    then have "e = target" using e(2) by simp
    then show ?thesis using s1 \<open>e \<noteq> 0\<close> by (simp add: continueSync_def on_server_def finishSync_def)
  qed
  ultimately show ?thesis using e by (metis snd_conv)
qed

text \<open>C8: a download with an honest peer adds everything up to its target and ends. When the peer answers every
  request with the blocks of a chain that this node can add one by one, then after at most one
  exchange per block the node has exactly the blocks up to the target and is no longer downloading.
  The batch size is at least one, and no height comes near \<open>2 ^ 64\<close>.\<close>

theorem download_completes:
  assumes "serves E chain at start target" and "start < target"
    and "connected (peerAt s p)" and "sendChan (peerAt s p) = []" and "\<not> syncing s" and "checkpointHeight s = 0"
    and "checkpointSyncFrom s = 0" and "\<not> backfillInProgress s"
    and "1 \<le> SyncBatchSize (Network (se_cfg E))" and "unat target + unat (SyncBatchSize (Network (se_cfg E))) < 2 ^ 64"
    and "unat target + 100 < 2 ^ 64"
  shows "\<exists>k s'. k \<le> unat (target - start)
    \<and> (exchange E chain p ^^ k) (snd (requestSync E p (start + 1) target (s, at start))) = (s', at target)
    \<and> \<not> syncing s' \<and> sendChan (peerAt s' p) = []"
proof -
  have loop: "\<exists>k s'. k \<le> unat (target - h) \<and> (exchange E chain p ^^ k) (s, at h) = (s', at target)
      \<and> \<not> syncing s' \<and> sendChan (peerAt s' p) = []"
    if "waiting E p target h s" "start \<le> h" "h < target" for h s
    using that
  proof (induction "unat (target - h)" arbitrary: h s rule: less_induct)
    case less
    obtain e s1 where e: "h < e" "e \<le> target" "exchange E chain p (s, at h) = (s1, at e)" "e < target \<longrightarrow> waiting E p target e s1"
      "e = target \<longrightarrow> \<not> syncing s1 \<and> sendChan (peerAt s1 p) = []"
      using exchange_served[OF assms(1) less.prems assms(9-11)] by blast
    have d: "unat (target - e) < unat (target - h)"
      using e(1,2) by (simp add: unat_sub word_less_nat_alt word_le_nat_alt)
    show ?case
    proof (cases "e = target")
      case True
      have "0 < unat (target - h)" using d by simp
      then show ?thesis using e True by (intro exI[of _ 1] exI[of _ s1]) (simp add: Suc_le_eq)
    next
      case False
      then have lt: "e < target" using e(2) by simp
      then obtain k s2 where k: "k \<le> unat (target - e)" "(exchange E chain p ^^ k) (s1, at e) = (s2, at target)" "\<not> syncing s2"
        "sendChan (peerAt s2 p) = []"
        using less.hyps[OF d, of s1] e(1,4) less.prems(2) by (metis less_imp_le order_trans)
      then show ?thesis
        using e(3) d by (intro exI[of _ "Suc k"] exI[of _ s2]) (simp add: funpow_swap1 funpow_Suc_right del: funpow.simps)
    qed
  qed
  obtain s1 where "requestSync E p (start + 1) target (s, at start) = (Inr (), (s1, at start))" "waiting E p target start s1"
    using request_waiting[of "s\<lparr>syncing := True, syncTargetHeight := target, syncPeer := Some p\<rparr>" p target E start "at start"] assms(3-8)
    by (auto simp: requestSync_def)
  then show ?thesis using loop[of start s1] assms(2) by simp
qed

section \<open>The clock\<close>

text \<open>Checks of the clock one after another, each with its own time, without messages in between.\<close>

fun clockChecks :: "'n server_env list \<Rightarrow> 'n world \<Rightarrow> 'n world" where
  "clockChecks [] w = w"
| "clockChecks (E # Es) w = clockChecks Es (snd (checkSyncTimeout E w))"

lemma idle_check: "\<not> syncing s \<Longrightarrow> checkSyncTimeout E (s, n) = (Inr (), (s, n))"
  by (simp add: checkSyncTimeout_def)

lemma idle_checks: "\<not> syncing s \<Longrightarrow> \<not> syncing (fst (clockChecks Es (s, n)))"
  by (induction Es) (simp_all add: idle_check)

text \<open>How many expired checks a download survives without a new block.\<close>

definition patience :: "u64 \<Rightarrow> Server \<Rightarrow> nat" where
  "patience tip s = (if \<not> syncing s then 0 else if lastSyncHeight s < tip then 5
     else if progressiveSkip s = 0 then 4 else if progressiveSkip s = 1000 then 3 else if progressiveSkip s = 10000 then 2 else 1)"

lemma patience_peers [simp]: "patience tip (s\<lparr>peerAt := f\<rparr>) = patience tip s"
  by (simp add: patience_def)

lemma next_batch_cases:
  "\<exists>f. requestNextBatch E (Some p) h (s, n) = (Inr (), (finishSync (s\<lparr>peerAt := f\<rparr>), n))
    \<or> requestNextBatch E (Some p) h (s, n) = (Inr (), (s\<lparr>peerAt := f\<rparr>, n))"
proof -
  let ?m = "MsgGetBlocks h (batchEnd (se_cfg E) h (syncTargetHeight s))"
  obtain q f where t: "sendTo E p ?m (s, n) = (q, (s\<lparr>peerAt := f\<rparr>, n))"
    by (cases "SendMessage (se_codec E) (se_drains E p) ?m (peerAt s p)") (simp add: sendTo_def)
  show ?thesis
  proof (cases q)
    case (Inl e)
    then have "\<not> fatal e" using calmD[OF calm_send, of E p ?m "(s, n)"] t by blast
    then show ?thesis using t Inl by (auto simp: requestNextBatch_def attempt_def on_server_def)
  qed (use t in \<open>auto simp: requestNextBatch_def attempt_def\<close>)
qed

lemma expired_check:
  assumes "syncing s" and "sync_ok s" and "10 * 1000 \<le> se_now E - syncStartTime s"
  shows "\<exists>s'. checkSyncTimeout E (s, n) = (Inr (), (s', n)) \<and> patience (tipHeight E n) s' < patience (tipHeight E n) s \<and> sync_ok s'
    \<and> (syncing s' \<longrightarrow> syncStartTime s' = se_now E)"
proof (cases "lastSyncHeight s < tipHeight E n")
  case True
  then show ?thesis using assms by (auto simp: checkSyncTimeout_def Let_def patience_def sync_ok_def)
next
  case False
  show ?thesis
  proof (cases "nextSkip (progressiveSkip s)")
    case None
    then show ?thesis
      using assms False by (auto simp: checkSyncTimeout_def Let_def patience_def sync_ok_def nextSkip_def split: if_splits)
  next
    case (Some skip)
    define s1 where "s1 = s\<lparr>progressiveSkip := skip, syncStartTime := se_now E, lastSyncHeight := tipHeight E n\<rparr>"
    have s1: "sync_ok s1" "syncPeer s1 = syncPeer s" "patience (tipHeight E n) s1 < patience (tipHeight E n) s" "syncStartTime s1 = se_now E"
      "syncing s1"
      using assms Some False by (auto simp: s1_def sync_ok_def patience_def nextSkip_def split: if_splits)
    obtain p where p: "syncPeer s = Some p" using assms(1,2) by (auto simp: sync_ok_def)
    have pos: "0 < patience (tipHeight E n) s" using s1(3) by simp
    have "checkSyncTimeout E (s, n) = requestNextBatch E (Some p) (skipTarget (tipHeight E n) skip (syncTargetHeight s)) (s1, n)"
      using assms False Some p by (simp add: checkSyncTimeout_def Let_def s1_def)
    then obtain f where "checkSyncTimeout E (s, n) = (Inr (), (finishSync (s1\<lparr>peerAt := f\<rparr>), n))
        \<or> checkSyncTimeout E (s, n) = (Inr (), (s1\<lparr>peerAt := f\<rparr>, n))"
      using next_batch_cases[of E p "skipTarget (tipHeight E n) skip (syncTargetHeight s)" s1 n] by auto
    then show ?thesis
    proof
      assume "checkSyncTimeout E (s, n) = (Inr (), (finishSync (s1\<lparr>peerAt := f\<rparr>), n))"
      then show ?thesis using pos by (simp add: finishSync_def[of "s1\<lparr>peerAt := f\<rparr>"]) (simp add: patience_def sync_ok_def)
    next
      assume "checkSyncTimeout E (s, n) = (Inr (), (s1\<lparr>peerAt := f\<rparr>, n))"
      then show ?thesis using s1 by simp
    qed
  qed
qed

lemma patience_runs_out:
  assumes "sync_ok s" and "\<forall>E\<in>set Es. tipHeight E n = tip" and "syncing s \<Longrightarrow> Es \<noteq> [] \<Longrightarrow> 10 * 1000 \<le> se_now (hd Es) - syncStartTime s"
    and "\<forall>i. Suc i < length Es \<longrightarrow> 10 * 1000 \<le> se_now (Es ! Suc i) - se_now (Es ! i)" and "patience tip s \<le> length Es"
  shows "\<not> syncing (fst (clockChecks Es (s, n)))"
  using assms
proof (induction Es arbitrary: s)
  case Nil
  then show ?case by (auto simp: patience_def split: if_splits)
next
  case (Cons E Es)
  show ?case
  proof (cases "syncing s")
    case True
    then obtain s1 where s1: "checkSyncTimeout E (s, n) = (Inr (), (s1, n))" "patience tip s1 < patience tip s" "sync_ok s1"
      "syncing s1 \<longrightarrow> syncStartTime s1 = se_now E"
      using expired_check[of s E n] Cons.prems by auto
    have "10 * 1000 \<le> se_now (hd Es) - syncStartTime s1" if "syncing s1" "Es \<noteq> []"
      using that s1(4) Cons.prems(4)[rule_format, of 0] by (cases Es) auto
    moreover have "10 * 1000 \<le> se_now (Es ! Suc i) - se_now (Es ! i)" if "Suc i < length Es" for i
      using that Cons.prems(4)[rule_format, of "Suc i"] by simp
    ultimately show ?thesis using Cons.IH[of s1] s1 Cons.prems(2,5) by auto
  next
    case False
    then show ?thesis by (simp add: idle_check idle_checks)
  qed
qed

text \<open>A stalled download ends by itself. When no block arrives and the tip does not move, five checks of the
  clock, ten seconds apart, end the download, whatever it skipped and whoever the peer was.\<close>

theorem stalled_download_ends:
  assumes "server_reachable Es0 (s, n)" and "\<forall>E\<in>set Es. tipHeight E n = tip" and "length Es = 5"
    and "10 * 1000 \<le> se_now (hd Es) - syncStartTime s"
    and "\<forall>i. Suc i < length Es \<longrightarrow> 10 * 1000 \<le> se_now (Es ! Suc i) - se_now (Es ! i)"
  shows "\<not> syncing (fst (clockChecks Es (s, n)))"
proof (rule patience_runs_out[OF _ assms(2)])
  show "sync_ok s" using reachable_sync_ok[OF assms(1)] by simp
  show "patience tip s \<le> length Es" using assms(3) by (simp add: patience_def)
qed (use assms in auto)

text \<open>A fresh download skips ahead at the first look at the clock. \<^verbatim>\<open>requestSync\<close> never sets the start time, so
  on a node without blocks the first check finds the download stalled since the year 1: it asks for
  block 1000 and following right behind the request for block 1, although the peer had no time to
  answer.\<close>

theorem fresh_download_skips_at_once:
  assumes "cb_getLatestBlock E n = Some g" and "Height (Header g) = 0" and "1000 < target" and "0 \<le> se_now E"
    and "\<not> syncing s" and "syncStartTime s = zeroTime" and "lastSyncHeight s = 0" and "progressiveSkip s = 0"
    and "connected (peerAt s p)" and "sendChan (peerAt s p) = []"
  shows "\<exists>w s'. requestSync E p 1 target (s, n) = (Inr (), w) \<and> checkSyncTimeout E w = (Inr (), (s', n))
    \<and> sendChan (peerAt s' p) = [MsgGetBlocks 1 (batchEnd (se_cfg E) 1 target), MsgGetBlocks 1000 (batchEnd (se_cfg E) 1000 target)]"
proof -
  have "\<not> target \<le> 1000" "target \<noteq> 10" using assms(3) by auto
  then show ?thesis
    using assms by (simp add: requestSync_def requestNextBatch_def attempt_def sendTo_def SendMessage_def checkSyncTimeout_def tipHeight_def
      zeroTime_def nextSkip_def skipTarget_def Let_def)
qed

section \<open>Blocks before a checkpoint\<close>

text \<open>Saving a block of the chain leads from \<open>n\<close> to \<open>store h n\<close>.\<close>

definition saves :: "'n server_env \<Rightarrow> (u64 \<Rightarrow> block) \<Rightarrow> (u64 \<Rightarrow> 'n \<Rightarrow> 'n) \<Rightarrow> bool" where
  "saves E chain store \<longleftrightarrow> (\<forall>h. Height (Header (chain h)) = h) \<and> (\<forall>h n. cb_saveBlockOnly E (chain h) n = (Inr (), store h n))"

lemma backfill_saved:
  assumes "saves E chain store" and "i < j" and "j \<le> 2 ^ 64" and "j \<le> unat cp"
  shows "backfillSave E cp (map (\<lambda>k. chain (of_nat k)) [i..<j]) low n
    = (Inr (min (of_nat i) low), fold (\<lambda>k. store (of_nat k)) [i..<j] n)"
proof -
  have lt: "(of_nat k :: u64) < cp" if "k < j" for k
    using that assms(4) unat_u64_less[of cp] by (simp add: word_less_nat_alt unsigned_of_nat take_bit_nat_eq_self)
  have rest: "backfillSave E cp (map (\<lambda>k. chain (of_nat k)) [k..<j]) low n = (Inr low, fold (\<lambda>k. store (of_nat k)) [k..<j] n)"
    if "k \<le> j" "low \<le> of_nat k" for k low n
    using that
  proof (induction k arbitrary: n rule: inc_induct)
    case (step k)
    have "(of_nat k :: u64) \<le> of_nat (Suc k) \<or> Suc k = j"
    proof (cases "Suc k = j")
      case False
      then have "Suc k < 2 ^ 64" using step.hyps(2) assms(3) by simp
      then show ?thesis using of_nat_word_le[of k "Suc k"] by simp
    qed simp
    then have "low \<le> of_nat (Suc k) \<or> Suc k = j" using step.prems order_trans by blast
    moreover have "\<not> (of_nat k :: u64) < low" using step.prems by (simp add: not_less)
    ultimately show ?case
      using step.IH step.hyps(2) assms(1) lt[of k] by (auto simp: upt_conv_Cons saves_def)
  qed simp
  have m: "(if (of_nat i :: u64) < low then of_nat i else low) = min (of_nat i) low" by (auto simp: min_def)
  have "min (of_nat i) low \<le> (of_nat (Suc i) :: u64) \<or> Suc i = j"
  proof (cases "Suc i = j")
    case False
    then have "Suc i < 2 ^ 64" using assms(2,3) by simp
    then have "(of_nat i :: u64) \<le> of_nat (Suc i)" using of_nat_word_le[of i "Suc i"] by simp
    then show ?thesis by (meson min.coboundedI1)
  qed simp
  then show ?thesis
    using rest[of "Suc i" "min (of_nat i) low"] assms(1,2) lt[of i] m by (auto simp: upt_conv_Cons saves_def Suc_le_eq)
qed

definition backfilling :: "'n server_env \<Rightarrow> nat \<Rightarrow> u64 \<Rightarrow> u64 \<Rightarrow> u64 \<Rightarrow> Server \<Rightarrow> bool" where
  "backfilling E p cp e h s \<longleftrightarrow> backfillInProgress s \<and> backfillTargetHeight s = e \<and> checkpointHeight s = cp
     \<and> connected (peerAt s p) \<and> sendChan (peerAt s p) = [MsgGetBlocks (backfillStart h e) h]"

lemma backfill_start_bounds:
  assumes "1 \<le> e" and "e \<le> h"
  shows "e \<le> backfillStart h e \<and> backfillStart h e \<le> h \<and> unat h - unat (backfillStart h e) < 100"
proof -
  have "unat (h - 100 + 1) = unat h - 99" if "100 < h"
  proof -
    have "unat (h - 100) = unat h - 100" using that by (simp add: unat_sub word_less_nat_alt word_le_nat_alt)
    moreover have "100 < unat h" using that by (simp add: word_less_nat_alt)
    ultimately have "unat (h - 100) + unat (1 :: u64) < 2 ^ 64" "unat (h - 100) + 1 = unat h - 99" using unat_u64_less[of h] by simp_all
    then show ?thesis using unat_add_lem[of "h - 100" 1] by simp
  qed
  moreover have "unat h \<le> 100" if "\<not> 100 < h" using that by (simp add: word_less_nat_alt)
  ultimately show ?thesis
    using assms by (auto simp: backfillStart_def backfillBatchSize_def Let_def word_le_nat_alt word_less_nat_alt)
qed

lemma request_backfilling:
  assumes "backfillInProgress s" and "backfillTargetHeight s = e" and "checkpointHeight s = cp" and "connected (peerAt s p)"
    and "sendChan (peerAt s p) = []"
  shows "\<exists>s'. requestBackfillBatch E p h e (s, n) = (Inr (), (s', n)) \<and> backfilling E p cp e h s'"
  using assms by (simp add: requestBackfillBatch_def attempt_def sendTo_def SendMessage_def backfilling_def on_server_def)

lemma exchange_backfill:
  assumes "saves E chain store" and "backfilling E p cp e h s" and "1 \<le> e" and "e \<le> h" and "h < cp"
  shows "\<exists>b s'. e \<le> b \<and> b \<le> h
    \<and> exchange E chain p (s, n) = (s', fold (\<lambda>k. store (of_nat k)) [unat b..<Suc (unat h)] n)
    \<and> (e < b \<longrightarrow> backfilling E p cp e (b - 1) s') \<and> (b = e \<longrightarrow> \<not> backfillInProgress s')"
proof -
  define b where "b = backfillStart h e"
  have b: "e \<le> b" "b \<le> h" using backfill_start_bounds[OF assms(3,4)] by (simp_all add: b_def)
  define s1 where "s1 = updatePeer p (\<lambda>peer. peer\<lparr>sendChan := []\<rparr>) s"
  have w: "sendChan (peerAt s p) = [MsgGetBlocks b h]" using assms(2) by (simp add: backfilling_def b_def)
  have s1: "backfillInProgress s1" "backfillTargetHeight s1 = e" "checkpointHeight s1 = cp" "connected (peerAt s1 p)" "sendChan (peerAt s1 p) = []"
    using assms(2) by (simp_all add: backfilling_def s1_def updatePeer_def)
  have H: "\<And>h. Height (Header (chain h)) = h" using assms(1) by (simp add: saves_def)
  define bs where "bs = map (\<lambda>k. chain (of_nat k)) [unat b..<Suc (unat h)]"
  have bs: "map chain (heightsFromTo b h) = bs" by (simp add: heightsFromTo_def bs_def comp_def del: upt_Suc)
  have le: "unat b \<le> unat h" "unat h < unat cp" using b(2) assms(5) by (simp_all add: word_le_nat_alt word_less_nat_alt)
  have ne: "bs \<noteq> []" using le by (simp add: bs_def)
  have last: "Height (Header (last bs)) = h" using le by (simp add: bs_def H)
  have msg: "MsgBlocks (map Some bs) = serve chain b h" by (simp add: serve_def heights_chain bs_def del: upt_Suc)
  have sorted: "sortBlocks bs = bs" using sorted_heights[OF H, of b h] by (simp add: bs)
  have save: "backfillSave E cp bs (- 1) n = (Inr b, fold (\<lambda>k. store (of_nat k)) [unat b..<Suc (unat h)] n)"
    using backfill_saved[OF assms(1), of "unat b" "Suc (unat h)" cp "- 1" n] le unat_u64_less[of h]
    unfolding bs_def by (simp add: min_def del: upt_Suc)
  have "handleBlocks E p (map Some bs) (s1, n) = (if e < b then requestBackfillBatch E p (b - 1) e else on_server (\<lambda>s. s\<lparr>backfillInProgress := False\<rparr>))
      (s1, fold (\<lambda>k. store (of_nat k)) [unat b..<Suc (unat h)] n)"
    using s1 ne last sorted save assms(5)
    by (simp add: handleBlocks_def Let_def handleBackfill_def bindS_def on_node_def comp_def image_iff del: upt_Suc)
  then have x: "exchange E chain p (s, n) = snd ((if e < b then requestBackfillBatch E p (b - 1) e else on_server (\<lambda>s. s\<lparr>backfillInProgress := False\<rparr>))
      (s1, fold (\<lambda>k. store (of_nat k)) [unat b..<Suc (unat h)] n))"
    using w by (simp add: exchange_def msg[symmetric] s1_def[symmetric] del: upt_Suc)
  show ?thesis
  proof (cases "e < b")
    case True
    then show ?thesis
      using x b request_backfilling[OF s1, of E "b - 1" "fold (\<lambda>k. store (of_nat k)) [unat b..<Suc (unat h)] n"] by fastforce
  next
    case False
    then have "b = e" using b(1) by simp
    then show ?thesis using x b by (intro exI[of _ b]) (simp add: on_server_def)
  qed
qed

lemma heights_split:
  assumes "e \<le> b" and "e < b \<Longrightarrow> set hs = {h. e \<le> h \<and> h \<le> b - 1} \<and> distinct hs" and "b = e \<Longrightarrow> hs = []" and "b \<le> h"
  shows "distinct (map of_nat [unat b..<Suc (unat h)] @ hs)
    \<and> set (map of_nat [unat b..<Suc (unat h)] @ hs) = {k :: u64. e \<le> k \<and> k \<le> h}"
proof -
  have A: "set (map of_nat [unat b..<Suc (unat h)]) = {k :: u64. b \<le> k \<and> k \<le> h}"
  proof -
    have "k \<in> of_nat ` {unat b..unat h}" if "b \<le> k" "k \<le> h" for k :: u64
      using that by (intro image_eqI[of _ _ "unat k"]) (simp_all add: word_le_nat_alt)
    moreover have "b \<le> of_nat i \<and> of_nat i \<le> h" if "unat b \<le> i" "i \<le> unat h" for i
      using that unat_u64_less[of h] by (simp add: word_le_nat_alt unsigned_of_nat take_bit_nat_eq_self)
    ultimately show ?thesis by (auto simp: atLeastLessThanSuc_atLeastAtMost simp del: upt_Suc)
  qed
  have D: "distinct (map of_nat [unat b..<Suc (unat h)] :: u64 list)"
  proof -
    have "inj_on (of_nat :: nat \<Rightarrow> u64) {unat b..<Suc (unat h)}"
      using unat_u64_less[of h] by (intro inj_on_inverseI[of _ unat]) (simp add: unsigned_of_nat take_bit_nat_eq_self)
    then show ?thesis by (simp add: distinct_map del: upt_Suc)
  qed
  show ?thesis
  proof (cases "e < b")
    case True
    have "unat (b - 1) = unat b - 1" "0 < unat b" using True by (simp_all add: word_less_nat_alt unat_sub word_le_nat_alt)
    then have "k \<le> b - 1 \<longleftrightarrow> k < b" for k by (auto simp: word_le_nat_alt word_less_nat_alt)
    then show ?thesis using A D assms True by auto
  next
    case False
    then show ?thesis using A D assms by auto
  qed
qed


text \<open>A backfill whose blocks cannot be saved asks for blocks that do not exist. When every block of an answer fails
  to be saved, the lowest saved height keeps its start value, and the next request is for the hundred
  heights below \<open>2 ^ 64 - 1\<close>.\<close>

theorem failed_backfill_asks_nonsense:
  assumes "received \<noteq> []" and "\<forall>b n. \<exists>e n'. cb_saveBlockOnly E b n = (Inl e, n') \<and> \<not> fatal e"
    and "backfillInProgress s" and "\<forall>b\<in>set received. Height (Header b) < checkpointHeight s"
    and "backfillTargetHeight s \<le> 18446744073709551515" and "connected (peerAt s p)" and "length (sendChan (peerAt s p)) < 500"
  shows "\<exists>s' n'. handleMessage E p (MsgBlocks (map Some received)) (s, n) = (Inr (), (s', n'))
    \<and> sendChan (peerAt s' p) = sendChan (peerAt s p) @ [MsgGetBlocks 18446744073709551515 18446744073709551614]"
proof -
  have fails: "\<exists>n'. backfillSave E cp bs low n = (Inr low, n')" for cp bs low n
  proof (induction bs arbitrary: n)
    case (Cons b bs)
    obtain e n1 where "cb_saveBlockOnly E b n = (Inl e, n1)" "\<not> fatal e" using assms(2) by blast
    then show ?case using Cons.IH by simp
  qed simp
  define bs where "bs = sortBlocks received"
  have "set bs = set received" by (simp add: bs_def sortBlocks_def)
  then have "bs \<noteq> []" using assms(1) by auto
  with \<open>set bs = set received\<close> have bs: "bs \<noteq> []" "last bs \<in> set received" using last_in_set[of bs] by simp_all
  obtain n' where "backfillSave E (checkpointHeight s) bs (- 1) n = (Inr (- 1), n')" using fails by blast
  moreover have "backfillTargetHeight s < - 1" using assms(5) by (auto intro: order.strict_trans1)
  moreover have "backfillStart (- 2) (backfillTargetHeight s) = 18446744073709551515"
  proof -
    have eq: "(18446744073709551515 :: u64) = - 101" by simp
    show ?thesis using leD[OF assms(5)[unfolded eq]] by (simp add: backfillStart_def backfillBatchSize_def)
  qed
  ultimately show ?thesis
    using assms(1,3,6,7) bs assms(4) by (simp add: handleBlocks_def Let_def bs_def[symmetric] comp_def image_iff handleBackfill_def bindS_def
        on_node_def requestBackfillBatch_def attempt_def sendTo_def SendMessage_def on_server_def)
qed

section \<open>Which check a downloaded block gets\<close>

lemma classify_head:
  "classifyBlocks E cur start k bs n = (Inr (filtered, forked), n') \<Longrightarrow> filtered \<noteq> [] \<Longrightarrow> Height (Header (hd filtered)) = k"
proof (induction bs arbitrary: n filtered forked)
  case (Cons b bs)
  have skip: "filtered \<noteq> [] \<Longrightarrow> Height (Header (hd filtered)) = k"
    if "bindS (warn m) (\<lambda>_. classifyBlocks E cur start k bs) n = (Inr (filtered, forked), n')" for m
    using that Cons.IH by (auto simp: bindS_Inr_iff)
  show ?case
    using Cons.prems Cons.IH skip
    by (auto simp: Let_def bindS_Inr_iff split: if_splits)
qed simp

lemma classify_ignores: "classifyBlocks (E\<lparr>cb_addBlock := f\<rparr>) cur start k bs n = classifyBlocks E cur start k bs n"
proof (induction bs arbitrary: k n)
  case (Cons b bs)
  have IH: "classifyBlocks (E\<lparr>cb_addBlock := f\<rparr>) cur start k bs = classifyBlocks E cur start k bs" for k using Cons by (simp add: fun_eq_iff)
  have "cb_saveBlockOnly (E\<lparr>cb_addBlock := f\<rparr>) = cb_saveBlockOnly E" by simp
  then show ?case by (simp only: classifyBlocks.simps IH)
qed simp

lemma database_ignores: "applyFromDatabase (E\<lparr>cb_addBlock := f\<rparr>) fuel h n = applyFromDatabase E fuel h n"
proof (induction fuel arbitrary: h n)
  case (Suc fuel)
  then have "applyFromDatabase (E\<lparr>cb_addBlock := f\<rparr>) fuel h = applyFromDatabase E fuel h" for h by (simp add: fun_eq_iff)
  then show ?case by (simp split: prod.split sum.split list.split)
qed simp

lemma replace_ignores: "replaceForked (E\<lparr>cb_addBlock := f\<rparr>) bs = replaceForked E bs"
  by (induction bs) simp_all

lemma save_ignores: "backfillSave (E\<lparr>cb_addBlock := f\<rparr>) cp bs k n = backfillSave E cp bs k n"
  by (induction bs arbitrary: k n) (auto split: prod.split sum.split)

lemma send_ignores: "sendTo (E\<lparr>cb_addBlock := f\<rparr>) p m = sendTo E p m"
  by (simp add: sendTo_def)

lemma small_ignores:
  "sendTo (E\<lparr>cb_addBlock := f\<rparr>) p m = sendTo E p m" "tipHeight (E\<lparr>cb_addBlock := f\<rparr>) n = tipHeight E n"
  "requestNextBatch (E\<lparr>cb_addBlock := f\<rparr>) peer h = requestNextBatch E peer h"
  "RequestBlocksDirect (E\<lparr>cb_addBlock := f\<rparr>) x y = RequestBlocksDirect E x y"
  "requestBackfillBatch (E\<lparr>cb_addBlock := f\<rparr>) p x y = requestBackfillBatch E p x y"
  by (simp_all add: send_ignores tipHeight_def requestNextBatch_def RequestBlocksDirect_def requestBackfillBatch_def
      cong: option.case_cong list.case_cong prod.case_cong)

lemma parts_ignore:
  "backfillOne (E\<lparr>cb_addBlock := f\<rparr>) b k = backfillOne E b k" "reorgOnto (E\<lparr>cb_addBlock := f\<rparr>) b k = reorgOnto E b k"
  "requestMissing (E\<lparr>cb_addBlock := f\<rparr>) b k = requestMissing E b k" "keepFailed (E\<lparr>cb_addBlock := f\<rparr>) cp b k = keepFailed E cp b k"
  by (simp_all add: backfillOne_def reorgOnto_def requestMissing_def keepFailed_def small_ignores Let_def cong: if_cong prod.case_cong)

lemma add_ignores: "addBlocks (E\<lparr>cb_addBlock := f\<rparr>) True cp isFirst bs k = addBlocks E True cp isFirst bs k"
proof (induction bs arbitrary: isFirst k)
  case (Cons b bs)
  have "addOne (E\<lparr>cb_addBlock := f\<rparr>) True cp isFirst b k = addOne E True cp isFirst b k"
    by (simp add: addOne_def parts_ignore cong: if_cong)
  moreover have "addBlocks (E\<lparr>cb_addBlock := f\<rparr>) True cp False bs = addBlocks E True cp False bs" by (rule ext) (rule Cons.IH)
  ultimately show ?case by simp
qed simp

lemma database_head:
  assumes "\<And>h n b bs n'. cb_getBlockRange E h h n = (Inr (b # bs), n') \<Longrightarrow> Height (Header b) = h"
    and "applyFromDatabase E fuel h n = (Inr kept, n')" and "kept \<noteq> []"
  shows "Height (Header (hd kept)) = h"
  using assms by (cases fuel) (auto simp: bindS_Inr_iff split: prod.splits sum.splits list.splits if_splits)

lemma bindS_cong:
  "m w = m' w \<Longrightarrow> (\<And>a w'. m' w = (Inr a, w') \<Longrightarrow> f a w' = f' a w') \<Longrightarrow> bindS m f w = bindS m' f' w"
  by (auto simp: bindS_def split: prod.split sum.split)


section \<open>Witnesses\<close>

definition small_chain :: "u64 \<Rightarrow> small_node" where
  "small_chain h = (map (\<lambda>k. demo_empty_block (of_nat k)) (rev [0..<Suc (unat h)]), [])"

lemma small_chain_facts:
  "cb_getLatestBlock (small_server now) (small_chain h) = Some (demo_empty_block h)"
  "h < 1000 \<Longrightarrow> small_add (demo_empty_block (h + 1)) (small_chain h) = (Inr (), small_chain (h + 1))"
proof -
  show "cb_getLatestBlock (small_server now) (small_chain h) = Some (demo_empty_block h)" by (simp add: small_chain_def)
  show "small_add (demo_empty_block (h + 1)) (small_chain h) = (Inr (), small_chain (h + 1))" if "h < 1000"
  proof -
    have "unat h < 1000" using that by (simp add: word_less_nat_alt)
    then have "unat (h + 1) = Suc (unat h)" using unat_add_lem[of h 1] by simp
    then show ?thesis by (simp add: small_chain_def small_add_def add.commute)
  qed
qed

lemma small_serves: "serves (small_server now) demo_empty_block small_chain 0 250"
proof -
  have "h < 1000" if "h < 250" for h :: u64 using that by (simp add: word_less_nat_alt)
  then show ?thesis using small_chain_facts by (auto simp: serves_def)
qed

theorem download_completes_witness:
  "\<exists>k s'. k \<le> 250 \<and> (exchange (small_server 0) demo_empty_block 0 ^^ k) (snd (requestSync (small_server 0) 0 1 250 (small_world 250, small_chain 0)))
      = (s', small_chain 250) \<and> \<not> syncing s'"
  using download_completes[OF small_serves, of "small_world 250" 0 0] by (simp add: shipped_config_def setDefault_def) blast

definition stalled :: "small_node world" where
  "stalled = snd (RequestSyncFromBestPeer (small_server 0) 1 250
     (snd (acceptPeer (small_server 0) ''10.0.0.2:9001'' (NewServer demo_user [], small_chain 0))))"

lemma stalled_facts:
  "acceptPeer (small_server 0) ''10.0.0.2:9001'' (NewServer demo_user [], small_chain 0)
    = (Inr (), snd (acceptPeer (small_server 0) ''10.0.0.2:9001'' (NewServer demo_user [], small_chain 0)))"
  "RequestSyncFromBestPeer (small_server 0) 1 250
    (snd (acceptPeer (small_server 0) ''10.0.0.2:9001'' (NewServer demo_user [], small_chain 0))) = (Inr (), stalled)"
  "snd stalled = small_chain 0" "syncing (fst stalled)" "syncStartTime (fst stalled) = zeroTime"
    by (simp_all add: stalled_def acceptPeer_def sendPing_def statusMessage_def small_server_def bindS_def warn_def sendTo_def SendMessage_def
        addPeer_def NewServer_def NewPeer_def RequestSyncFromBestPeer_def connectedPeers_def requestSync_def requestNextBatch_def attempt_def)

lemma stalled_reachable: "server_reachable {small_server 0} stalled"
  by (rule server_reachable.step[OF server_reachable.step[OF server_reachable.init
    server_step.accepted[OF singletonI stalled_facts(1)]] server_step.startup[OF singletonI stalled_facts(2)]])

theorem stalled_download_ends_witness:
  "syncing (fst stalled) \<and> \<not> syncing (fst (clockChecks [small_server 0, small_server 10000, small_server 20000, small_server 30000, small_server 40000] stalled))"
proof -
  define Es where "Es = [small_server 0, small_server 10000, small_server 20000, small_server 30000, small_server 40000]"
  have tip: "\<forall>E\<in>set Es. tipHeight E (small_chain 0) = 0"
    using small_chain_facts(1) by (simp add: tipHeight_def Es_def)
  have gaps: "10 * 1000 \<le> se_now (Es ! Suc i) - se_now (Es ! i)" if "Suc i < length Es" for i
  proof -
    from that consider "i = 0" | "i = 1" | "i = 2" | "i = 3" unfolding Es_def by fastforce
    then show ?thesis by cases (simp_all add: Es_def)
  qed
  have "(fst stalled, small_chain 0) = stalled" using stalled_facts(3) by (metis prod.collapse)
  then show ?thesis
    using stalled_download_ends[of "{small_server 0}" "fst stalled" "small_chain 0" Es 0] tip gaps stalled_facts(3-5) stalled_reachable
    by (simp add: Es_def zeroTime_def)
qed

theorem fresh_download_skips_at_once_witness:
  "\<exists>w s'. requestSync (small_server 0) 0 1 5000 (small_world 5000, small_chain 0) = (Inr (), w)
    \<and> checkSyncTimeout (small_server 0) w = (Inr (), (s', small_chain 0))
    \<and> sendChan (peerAt s' 0) = [MsgGetBlocks 1 (batchEnd shipped_config 1 5000), MsgGetBlocks 1000 (batchEnd shipped_config 1000 5000)]"
  using fresh_download_skips_at_once[OF small_chain_facts(1)[of 0 0], of 5000 "small_world 5000" 0] by simp

lemma small_saves: "saves (small_server now) demo_empty_block (\<lambda>h (bs, saved). (bs, h # saved))"
  by (simp add: saves_def split: prod.split)


theorem failed_backfill_asks_nonsense_witness:
  "\<exists>s' n'. handleMessage ((small_server 0)\<lparr>cb_saveBlockOnly := (\<lambda>_. Pair (Inl ErrIO))\<rparr>) 0 (MsgBlocks (map Some [demo_empty_block 4]))
      ((small_world 0)\<lparr>checkpointHeight := 5, backfillInProgress := True, backfillTargetHeight := 1\<rparr>, small_chain 0) = (Inr (), (s', n'))
    \<and> sendChan (peerAt s' 0) = [MsgGetBlocks 18446744073709551515 18446744073709551614]"
  using failed_backfill_asks_nonsense[of "[demo_empty_block 4]" "(small_server 0)\<lparr>cb_saveBlockOnly := (\<lambda>_. Pair (Inl ErrIO))\<rparr>"
      "(small_world 0)\<lparr>checkpointHeight := 5, backfillInProgress := True, backfillTargetHeight := 1\<rparr>" 0 "small_chain 0"]
  by (simp add: fatal_def)


end
