(* ===== verification/Network_Trust.thy ===== *)
theory Network_Trust
  imports Network_Downloads
begin

text \<open>
  What a single peer can do to a node: the composition of the peer-to-peer server with the node
  behind it.

  Lemmas: the messages that end the process; a height in a greeting that stops the production of
  blocks; the proposer check that gives way to repetitions of one block; blocks nobody asked for,
  whose transactions reach the account store.
\<close>

section \<open>Messages that end the process\<close>


section \<open>A height that stops production\<close>

lemma best_fold_ge:
  fixes h0 :: u64
  shows "h0 \<le> foldl (\<lambda>best p. if bad p then best else if best < h p then h p else best) h0 ps"
proof (induction ps arbitrary: h0)
  case (Cons p ps)
  let ?h1 = "if bad p then h0 else if h0 < h p then h p else h0"
  have "h0 \<le> ?h1" by auto
  also have "?h1 \<le> foldl (\<lambda>best p. if bad p then best else if best < h p then h p else best) ?h1 ps" by (rule Cons)
  finally show ?case by simp
qed simp

lemma best_fold_member:
  fixes h0 :: u64
  shows "p \<in> set ps \<Longrightarrow> \<not> bad p \<Longrightarrow> h p \<le> foldl (\<lambda>best p. if bad p then best else if best < h p then h p else best) h0 ps"
proof (induction ps arbitrary: h0)
  case (Cons q ps)
  show ?case
  proof (cases "p = q")
    case True
    let ?h1 = "if bad q then h0 else if h0 < h q then h q else h0"
    have "h p \<le> ?h1" using True Cons.prems(2) by auto
    also have "?h1 \<le> foldl (\<lambda>best p. if bad p then best else if best < h p then h p else best) ?h1 ps" by (rule best_fold_ge)
    finally show ?thesis by simp
  next
    case False
    then show ?thesis using Cons by simp
  qed
qed simp

lemma best_height_ge:
  "p \<in> set (connectedPeers s) \<Longrightarrow> p_address (peerAt s p) = '''' \<or> cb_isValidator E (p_address (peerAt s p)) n
    \<Longrightarrow> p_height (peerAt s p) \<le> GetBestPeerHeight E (s, n)"
  unfolding GetBestPeerHeight_def split by (rule best_fold_member) auto

lemma behind_never_produces: "nd_bestPeer N = Some best \<Longrightarrow> latestHeight (n_chain n) + 1 < best \<Longrightarrow> fst (decide N n st) \<noteq> Produce h b"
  by (auto simp: decide_def beforeProducing_def Let_def split: option.splits sum.splits if_splits)

text \<open>A number in a greeting stops the production of blocks. After a pong of a connected peer that shares
  the consensus parameters, names no address and claims a height beyond the next one, the node's best
  peer height is at least the claimed one, and whatever its round of production is, the node does not
  decide to produce: the claim is checked against nothing.\<close>

theorem claimed_height_stops_production:
  assumes "p \<in> set (connectedPeers s)" and "sameConsensus (node_server N codec now drains ifs) pong"
    and "PAddress pong = ''''" and "LatestBlockHash pong = ''''" and "latestHeight (n_chain n) + 1 < PHeight pong"
  shows "\<exists>s' k'. handlePong (node_server N codec now drains ifs) p pong (s, (k, n)) = (Inr (), (s', (k', n)))
    \<and> PHeight pong \<le> GetBestPeerHeight (node_server N codec now drains ifs) (s', (k', n))
    \<and> (\<forall>N' st h b. nd_bestPeer N' = Some (GetBestPeerHeight (node_server N codec now drains ifs) (s', (k', n)))
        \<longrightarrow> fst (decide N' n st) \<noteq> Produce h b)"
proof -
  let ?E = "node_server N codec now drains ifs"
  let ?s = "updatePeer p (\<lambda>peer. peer\<lparr>p_address := PAddress pong, lastHeartbeat := now, p_height := PHeight pong\<rparr>) s"
  define k' where "k' = (\<lambda>c1 c2. if 0 < c1 then noteHighest c1 c2 k else k)"
  have d: "DetectAndResolveFork N (PHeight pong) '''' c1 c2 c3 (k, n) = (Inr (), (k' c1 c2, n))" for c1 c2 c3
    unfolding DetectAndResolveFork_def Let_def k'_def by (cases "latestBlock (n_chain n)") (simp_all only: split option.case simp_thms if_True)
  define k2 where "k2 = k' (PCheckpointHeight pong) (PCheckpointHash pong)"
  have h: "handlePong ?E p pong (s, (k, n)) = (Inr (), (?s, (k2, n)))"
    using assms(2,4) by (simp add: handlePong_def bindS_def on_server_def warn_def on_node_def d k2_def)
  have "p \<in> set (connectedPeers ?s)" using assms(1) by (auto simp: connectedPeers_def updatePeer_def)
  from best_height_ge[OF this, of ?E "(k2, n)"] have g: "PHeight pong \<le> GetBestPeerHeight ?E (?s, (k2, n))"
    using assms(3) by (simp add: updatePeer_def)
  show ?thesis
    using h g less_le_trans[OF assms(5) g] by (intro exI[of _ ?s] exI[of _ k2]) (auto intro: behind_never_produces[THEN notE])
qed

section \<open>Blocks nobody asked for\<close>

text \<open>A block for the next height in a \<^verbatim>\<open>Blocks\<close> message, at a server without a checkpoint.\<close>

lemma lone_block:
  assumes "checkpointHeight s = 0" and "checkpointSyncFrom s = 0" and "\<not> syncing s" and "tipHeight E n = cur"
    and "Height (Header b) = cur + 1" and "unat cur + 100 < 2 ^ 64"
    and "cb_addBlockSkipTimestamp E b n = (r, n')" and "r = Inr () \<or> (\<exists>e. r = Inl e \<and> \<not> fatal e \<and> \<not> mentionsPrevHash e \<and> \<not> mentionsHeight e)"
  shows "handleMessage E p (MsgBlocks [Some b]) (s, n) = (Inr (), (s, n'))"
proof -
  have u: "unat (cur + 1) = unat cur + 1" "unat (cur + 100) = unat cur + 100"
    using assms(6) unat_add_lem[of cur 1] unat_add_lem[of cur 100] by simp_all
  then have near: "\<not> cur + 1 \<le> cur" "cur + 1 \<le> cur + 100" by (simp_all add: word_le_nat_alt)
  have fd: "forwardDone cur s = s" "acceptFrom cur s = cur + 1" using assms(2) by (simp_all add: forwardDone_def acceptFrom_def)
  have c: "classifyBlocks E cur (cur + 1) (cur + 1) [b] m = (Inr ([b], []), m)" for m
    using near assms(5) by (simp add: Let_def bindS_def)
  have a: "addBlocks E True 0 True [b] 0 (s, n) = (Inr (case r of Inr _ \<Rightarrow> cur + 1 | Inl _ \<Rightarrow> 0), (s, n'))"
    using assms(5,7,8) by (auto simp: bindS_def addOne_def attempt_def on_node_def keepFailed_def)
  have "handleMessage E p (MsgBlocks [Some b]) (s, n) = syncBlocks E [b] (s, n)"
    using assms(1) by (simp add: handleBlocks_def sortBlocks_def Let_def)
  also have "\<dots> = (Inr (), (s, n'))"
    using near assms(1,3,5) by (simp add: syncBlocks_def Let_def assms(4) fd on_node_def c bindS_def useBlocks_def a continueSync_def del: addBlocks.simps classifyBlocks.simps)
  finally show ?thesis by simp
qed

text \<open>C36: one message rewrites the ledger of a node. Any peer can send, unasked, a block for the next height
  that the node then refuses as invalid: the handler reports nothing, the chain stays as it was, and
  the transactions of the block, whoever signed them, are in the account store under the block's
  height. Neither its proposer nor its transaction root is looked at before that.\<close>

theorem invalid_block_rewrites_ledger:
  assumes "node_ctx N kv" and "node_ctx.ready N kv n" and "stores_work N kv"
    and "0 \<le> sint (ActiveValidatorSet (Validators (nd_cfg N)))"
    and "checkpointHeight s = 0" and "checkpointSyncFrom s = 0" and "\<not> syncing s"
    and "latestBlock (n_chain n) = Some tip" and "Height (Header b) = Height (Header tip) + 1" and "unat (Height (Header tip)) + 100 < 2 ^ 64"
    and "exec_all (nd_cfg N) (nd_cl N) (nd_now N) True (BTransactions b) (node_ctx.node_ledger N kv n) = Inr L"
    and "ledger_supply L = TOTAL_SUPPLY"
    and "ValidateWithOptions (nd_cfg N) (nd_cl N) (nd_now2 N) (Some tip) True b = Inl e" and "\<not> mentionsPrevHash e" and "\<not> mentionsHeight e"
  shows "\<exists>n'. handleMessage (node_server N codec now drains ifs) p (MsgBlocks [Some b]) (s, (k, n)) = (Inr (), (s, (k, n')))
    \<and> n_chain n' = n_chain n \<and> node_ctx.node_ledger N kv n' = L
    \<and> durable (\<lambda>D. shard_acct (accEnv (nd_db N)) kv (stateStore D)) (n_db n') = L
    \<and> GetStateHeight (stateStore (n_db n')) = Inr (Height (Header b))"
proof -
  let ?E = "node_server N codec now drains ifs"
  have h: "Height (Header b) \<noteq> 0"
  proof -
    have "unat (Height (Header tip) + 1) = unat (Height (Header tip)) + 1"
      using assms(10) unat_add_lem[of "Height (Header tip)" 1] by simp
    then show ?thesis using assms(9) by (metis add_eq_0_iff_both_eq_0 unat_0 zero_neq_one)
  qed
  obtain n' where n': "addBlockSkipTimestamp N b n = (Inl (InvalidBlock e), n')" "n_chain n' = n_chain n" "node_ctx.node_ledger N kv n' = L"
    "durable (\<lambda>D. shard_acct (accEnv (nd_db N)) kv (stateStore D)) (n_db n') = L"
    "GetStateHeight (stateStore (n_db n')) = Inr (Height (Header b))"
    using unlinked_block_committed[OF assms(1-4) h assms(11,12)] assms(8,13) by metis
  have "cb_addBlockSkipTimestamp ?E b (k, n) = (Inl (InvalidBlock e), (k, n'))" using n'(1) by (simp add: on_snd_def)
  from lone_block[OF assms(5-7) _ assms(9,10) this, of p] assms(8,14,15)
  have "handleMessage ?E p (MsgBlocks [Some b]) (s, (k, n)) = (Inr (), (s, (k, n')))"
    by (simp add: tipHeight_def fatal_def)
  then show ?thesis using n'(2-5) by blast
qed

section \<open>The proposer check gives way\<close>

text \<open>The same message \<open>k\<close> times from the same peer.\<close>

primrec again :: "'n server_env \<Rightarrow> nat \<Rightarrow> message \<Rightarrow> nat \<Rightarrow> ('n world, unit) step" where
  "again E p m 0 = Pair (Inr ())"
| "again E p m (Suc k) = bindS (handleMessage E p m) (\<lambda>_. again E p m k)"

lemma votes_counted [simp]:
  "votes h a (countVote h a s) = Suc (votes h a s)" "majority (countVote h a s) = majority s"
  "checkpointHeight (countVote h a s) = checkpointHeight s"
  by (simp_all add: countVote_def votes_def majority_def update_conv)

lemma rejected_block:
  assumes "checkpointHeight s = 0" and "cb_getLatestBlock E n = Some latest" and "Height (Header b) = Height (Header latest) + 1"
    and "cb_verifyProposer E (Height (Header b)) latest n = (Inr expected, n)" and "Proposer (Header b) \<noteq> expected"
    and "10 \<le> length (Proposer (Header b))"
  defines "s1 \<equiv> countVote (Height (Header b)) (Proposer (Header b)) s"
  shows "Suc (votes (Height (Header b)) (Proposer (Header b)) s) < majority s
      \<Longrightarrow> handleMessage E p (MsgNewBlock (Some b)) (s, n) = (Inr (), (s1, n))"
    and "majority s \<le> Suc (votes (Height (Header b)) (Proposer (Header b)) s) \<Longrightarrow> cb_addBlock E b n = (Inr (), n')
      \<Longrightarrow> handleMessage E p (MsgNewBlock (Some b)) (s, n) = (Inr (), (CleanupRejectedProposers (Height (Header b)) s1, n'))"
  using assms(1-6) unfolding s1_def
  by (simp_all add: handleNewBlock_def tipHeight_def Let_def nextBlock_def attempt_def on_node_def rejectOrSurrender_def
      RecordRejectedProposer_def bindS_def on_server_def slices_def)

text \<open>One peer can overrule the selection of the proposer. A block at the next height whose proposer was not
  selected is refused and leaves the node as it is; but every delivery counts as a vote for its
  proposer, also from the same peer, and when a majority of the number of peers has been reached
  (two, with up to three peers) the block is added although its proposer is still the wrong one.\<close>

theorem repetition_overrules_selection:
  assumes "checkpointHeight s = 0" and "cb_getLatestBlock E n = Some latest" and "Height (Header b) = Height (Header latest) + 1"
    and "cb_verifyProposer E (Height (Header b)) latest n = (Inr expected, n)" and "Proposer (Header b) \<noteq> expected"
    and "10 \<le> length (Proposer (Header b))" and "votes (Height (Header b)) (Proposer (Header b)) s = 0"
    and "cb_addBlock E b n = (Inr (), n')"
  shows "(\<forall>k < majority s. \<exists>s'. again E p (MsgNewBlock (Some b)) k (s, n) = (Inr (), (s', n)))
    \<and> (\<exists>s'. again E p (MsgNewBlock (Some b)) (majority s) (s, n) = (Inr (), (s', n')))"
proof -
  let ?h = "Height (Header b)" and ?a = "Proposer (Header b)" and ?m = "MsgNewBlock (Some b)"
  note step = rejected_block[OF _ assms(2-6)]
  have below: "\<exists>s'. again E p ?m k (s, n) = (Inr (), (s', n))"
    if "votes ?h ?a s + k < majority s" "checkpointHeight s = 0" for k s
    using that
  proof (induction k arbitrary: s)
    case (Suc k)
    have "\<exists>s'. again E p ?m k (countVote ?h ?a s, n) = (Inr (), (s', n))" using Suc.prems by (intro Suc.IH) simp_all
    then show ?case using step(1)[of s p] Suc.prems by (simp add: bindS_def del: handleMessage.simps)
  qed simp
  have reached: "\<exists>s'. again E p ?m (Suc k) (s, n) = (Inr (), (s', n'))"
    if "votes ?h ?a s + Suc k = majority s" "checkpointHeight s = 0" for k s
    using that
  proof (induction k arbitrary: s)
    case 0
    then show ?case using step(2)[of s n' p] assms(8) by (simp add: bindS_def del: handleMessage.simps)
  next
    case (Suc k)
    have "\<exists>s'. again E p ?m (Suc k) (countVote ?h ?a s, n) = (Inr (), (s', n'))" using Suc.prems by (intro Suc.IH) simp_all
    then show ?case using step(1)[of s p] Suc.prems by (simp add: bindS_def del: handleMessage.simps)
  qed
  have "majority s = Suc (majority s - 1)" by (simp add: majority_def)
  then have "\<exists>s'. again E p ?m (majority s) (s, n) = (Inr (), (s', n'))"
    using reached[of s "majority s - 1"] assms(1,7) by simp
  then show ?thesis using below assms(1,7) by simp
qed

section \<open>Witnesses\<close>

text \<open>A peer with other consensus parameters and a short hash.\<close>

definition demo_greeting :: PingMessage where
  "demo_greeting = \<lparr>PAddress = '''', PHeight = 1000, LatestBlockHash = '''', PCheckpointHeight = 0, PCheckpointHash = '''',
     PCheckpointTimestamp = 0, PConsensusVersion = ''x'', PConsensusHash = ''y''\<rparr>"

definition demo_pong :: PingMessage where
  "demo_pong = demo_greeting\<lparr>PConsensusVersion := ConsensusVersion shipped_config, PConsensusHash := ConsensusHash shipped_config\<rparr>"

definition demo_unselected :: "string \<Rightarrow> block" where
  "demo_unselected proposer = NewBlock demo_crypto 1700000010000 1 zero_hash proposer []"

lemma demo_unselected_header [simp]: "Height (Header (demo_unselected a)) = 1" "Proposer (Header (demo_unselected a)) = a"
  by (simp_all add: demo_unselected_def NewBlock_def)

lemma demo_genesis_height [simp]: "Height (Header demo_genesis) = 0"
  by (simp add: demo_genesis_def CreateGenesisBlock_def Let_def)

lemma demo_other_version: "ConsensusVersion shipped_config \<noteq> ''x''"
  by (simp add: shipped_config_def setDefault_def)


definition demo_known :: known_highest where
  "demo_known = \<lparr>knownHighestCheckpointHeight = 0, knownHighestCheckpointHash = ''''\<rparr>"

theorem claimed_height_stops_production_witness:
  "\<exists>s' k'. handlePong (node_server demo_prod_env demo_msg_codec 0 (\<lambda>_. True) None) 0 demo_pong (small_world 0, (demo_known, demo_node []))
      = (Inr (), (s', (k', demo_node [])))
    \<and> 1000 \<le> GetBestPeerHeight (node_server demo_prod_env demo_msg_codec 0 (\<lambda>_. True) None) (s', (k', demo_node []))"
proof -
  have h: "latestHeight (n_chain (demo_node [])) = 0" by (simp add: demo_node_def bc_Initialize_def)
  have c: "sameConsensus (node_server demo_prod_env demo_msg_codec 0 (\<lambda>_. True) None) demo_pong"
    by (simp add: sameConsensus_def demo_pong_def)
  show ?thesis
    using claimed_height_stops_production[OF _ c, of 0 "small_world 0" "demo_node []" demo_known] h by (auto simp: demo_pong_def demo_greeting_def)
qed

text \<open>A block with a time before the genesis block, whose only transaction slashes somebody.\<close>

definition demo_forged_block :: block where
  "demo_forged_block = NewBlock demo_crypto 0 1 (Block_Hash demo_crypto demo_genesis) ''nobody'' [demo_slash]"

theorem invalid_block_rewrites_ledger_witness:
  "\<exists>n'. handleMessage (node_server demo_prod_env demo_msg_codec 0 (\<lambda>_. True) None) 0 (MsgBlocks [Some demo_forged_block]) (small_world 0, (demo_known, demo_node []))
      = (Inr (), (small_world 0, (demo_known, n'))) \<and> latestBlock (n_chain n') = Some demo_genesis \<and> demo_prod.node_ledger n' = demo_slashed
     \<and> demo_slashed demo_user \<noteq> demo_prod.node_ledger (demo_node []) demo_user"
proof -
  have a: "0 \<le> sint (ActiveValidatorSet (Validators (nd_cfg demo_prod_env)))" using demo_active_size by simp
  have h: "Height (Header demo_forged_block) = Height (Header demo_genesis) + 1" "unat (Height (Header demo_genesis)) + 100 < 2 ^ 64"
    by (simp_all add: demo_forged_block_def NewBlock_def)
  have x: "exec_all (nd_cfg demo_prod_env) (nd_cl demo_prod_env) (nd_now demo_prod_env) True (BTransactions demo_forged_block)
      (demo_prod.node_ledger (demo_node [])) = Inr demo_slashed"
    using demo_slash_exec by (simp add: demo_forged_block_def NewBlock_def)
  have v: "ValidateWithOptions (nd_cfg demo_prod_env) (nd_cl demo_prod_env) (nd_now2 demo_prod_env) (Some demo_genesis) True demo_forged_block
      = Inl InvalidBlockTimestamp"
    by (simp add: ValidateWithOptions_def demo_forged_block_def NewBlock_def demo_genesis_def CreateGenesisBlock_def Let_def
        shipped_config_def setDefault_def)
  have "demo_slashed demo_user \<noteq> demo_prod.node_ledger (demo_node []) demo_user"
    by (auto simp: demo_slashed_def credit_def debit_def SubBalance_def demo_node_ledger TOTAL_SUPPLY_def dest: arg_cong[where f = AvailableBalance])
  with invalid_block_rewrites_ledger[OF demo_prod.node_ctx_axioms demo_ready demo_stores_work a _ _ _ demo_chain h x demo_slashed_supply v,
      where s = "small_world 0" and codec = demo_msg_codec and now = 0 and drains = "\<lambda>_. True" and ifs = None and p = 0 and k = demo_known]
  show ?thesis using demo_chain by auto
qed

theorem repetition_overrules_selection_witness:
  "let b = demo_unselected GenesisAddress; w = (small_world 0, ([demo_genesis], [])) in
    \<exists>s'. again (small_server 0) 0 (MsgNewBlock (Some b)) 2 w = (Inr (), (s', ([b, demo_genesis], [])))"
proof -
  have "majority (small_world 0) = 2" by (simp add: majority_def)
  moreover have "votes 1 GenesisAddress (small_world 0) = 0" by (simp add: votes_def)
  moreover have "10 \<le> length GenesisAddress" by (simp add: GenesisAddress_def)
  ultimately show ?thesis
    using repetition_overrules_selection[of "small_world 0" "small_server 0" "([demo_genesis], [])" demo_genesis
        "demo_unselected GenesisAddress" demo_user "([demo_unselected GenesisAddress, demo_genesis], [])" 0]
    by (simp add: small_add_def del: again.simps)
qed

end
