(* ===== verification/Api_Server.thy ===== *)
theory Api_Server
  imports Node_Sync "HOL-Library.Signed_Division"
begin

text \<open>
  The HTTP interface of a node, \<^verbatim>\<open>api/\<close>: routing, the parsing of addresses, heights, hashes and
  page numbers, and all handlers. They read database, account state and chain tip; the only one that
  writes hands a transaction to \<^verbatim>\<open>SubmitTransaction\<close>.

  An error answer keeps its status code, its text is left out. A handler that panics ends with the
  error \<open>Panic\<close>; \<^verbatim>\<open>net/http\<close> then drops the connection and the process goes on. A JSON object is
  the list of its fields. Request bodies arrive decoded. Text is ASCII as far as blanks matter.

  Lemmas: queries change nothing but caches; the account list is sorted and its pages cut it
  without loss or overlap; the list of all transactions is a window of the chain read backwards;
  a block is found under its decimal height; a search for a hash can end at a block.
\<close>

section \<open>Requests and answers\<close>

record request =
  r_method :: string
  r_path :: string
  r_query :: "string \<Rightarrow> string"
  r_body :: "transaction option"

datatype json = JNum int | JStr string | JBool bool | JArr "json list" | JObj "(string \<times> json) list"

datatype response = HttpError nat | JSON json | Redirect string | StaticFile string

record api_server =
  a_peerCount :: nat
  a_nodeName :: string

section \<open>Parsing\<close>

text \<open>\<^verbatim>\<open>fmt.Sscanf(s, "%d", &x)\<close>: blanks, a sign for signed numbers, digits, and whatever follows.\<close>

fun skipSpace :: "string \<Rightarrow> string option" where
  "skipSpace [] = Some []"
| "skipSpace (c # cs) = (if of_char c = (10 :: nat) then None
     else if of_char c \<in> {9, 11, 12, 13, 32 :: nat} then skipSpace cs else Some (c # cs))"

definition splitSign :: "string \<Rightarrow> bool \<times> string" where
  "splitSign s = (case s of
     [] \<Rightarrow> (False, [])
   | c # cs \<Rightarrow> if c = CHR ''-'' then (True, cs) else if c = CHR ''+'' then (False, cs) else (False, s))"

definition signed :: "bool \<Rightarrow> string \<Rightarrow> int option" where
  "signed neg digits = (let v = (if neg then - int (dec_value digits) else int (dec_value digits)) in
     if digits = [] \<or> v < - (2 ^ 63) \<or> 2 ^ 63 \<le> v then None else Some v)"

definition Sscanf_int :: "string \<Rightarrow> int option" where
  "Sscanf_int s = (case skipSpace s of None \<Rightarrow> None | Some cs \<Rightarrow>
     (case splitSign cs of (neg, rest) \<Rightarrow> signed neg (takeWhile is_digit rest)))"

definition unsigned_of :: "string \<Rightarrow> u64 option" where
  "unsigned_of digits = (if digits = [] \<or> 2 ^ 64 \<le> dec_value digits then None else Some (of_nat (dec_value digits)))"

definition Sscanf_uint :: "string \<Rightarrow> u64 option" where
  "Sscanf_uint s = (case skipSpace s of None \<Rightarrow> None | Some cs \<Rightarrow> unsigned_of (takeWhile is_digit cs))"

text \<open>\<^verbatim>\<open>strconv.Atoi\<close> and \<^verbatim>\<open>strconv.ParseUint(s, 10, 64)\<close> read the whole string.\<close>

definition Atoi :: "string \<Rightarrow> int option" where
  "Atoi s = (case splitSign s of (neg, rest) \<Rightarrow> if list_all is_digit rest then signed neg rest else None)"

definition ParseUint :: "string \<Rightarrow> u64 option" where
  "ParseUint s = (if list_all is_digit s then unsigned_of s else None)"

definition hexVal :: "char \<Rightarrow> nat option" where
  "hexVal c = (let n = of_char c in
     if is_digit c then Some (n - 48) else if 97 \<le> n \<and> n \<le> 102 then Some (n - 87) else if 65 \<le> n \<and> n \<le> 70 then Some (n - 55) else None)"

fun hex_DecodeString :: "string \<Rightarrow> bytes option" where
  "hex_DecodeString [] = Some []"
| "hex_DecodeString [_] = None"
| "hex_DecodeString (a # b # s) = (case (hexVal a, hexVal b, hex_DecodeString s) of
     (Some x, Some y, Some bs) \<Rightarrow> Some (of_nat (16 * x + y) # bs) | _ \<Rightarrow> None)"

definition TrimPrefix :: "string \<Rightarrow> string \<Rightarrow> string" where
  "TrimPrefix s p = (if take (length p) s = p then drop (length p) s else s)"

fun splitSlash :: "string \<Rightarrow> string list" where
  "splitSlash [] = [[]]"
| "splitSlash (c # cs) = (if c = CHR ''/'' then [] # splitSlash cs
     else case splitSlash cs of [] \<Rightarrow> [[c]] | part # parts \<Rightarrow> (c # part) # parts)"

definition looksLikeAddress :: "string \<Rightarrow> bool" where
  "looksLikeAddress a \<longleftrightarrow> length a = 37 \<and> take 1 a = ''F''"

section \<open>Pages\<close>

definition pageParam :: "(string \<Rightarrow> string) \<Rightarrow> int" where
  "pageParam query = (case Sscanf_int (query ''page'') of None \<Rightarrow> 1 | Some v \<Rightarrow> if v < 1 then 1 else v)"

definition limitParam :: "(string \<Rightarrow> string) \<Rightarrow> int" where
  "limitParam query = (case Sscanf_int (query ''limit'') of None \<Rightarrow> 20 | Some v \<Rightarrow> if v < 1 \<or> 100 < v then 20 else v)"

text \<open>Offsets and page counts are \<^verbatim>\<open>int\<close>, 64 bits wide, and wrap around.\<close>

definition pageOffset :: "int \<Rightarrow> int \<Rightarrow> i64" where
  "pageOffset page limit = (of_int page - 1) * of_int limit"

definition totalPages :: "i64 \<Rightarrow> int \<Rightarrow> int" where
  "totalPages cnt limit = (let pages = sint (cnt + of_int limit - 1) sdiv limit in if pages < 1 then 1 else pages)"

text \<open>\<^verbatim>\<open>xs[a:b]\<close>\<close>

definition slice :: "i64 \<Rightarrow> i64 \<Rightarrow> 'a list \<Rightarrow> error + 'a list" where
  "slice a b xs = (if 0 \<le> sint a \<and> sint a \<le> sint b \<and> sint b \<le> int (length xs)
     then Inr (take (nat (sint b - sint a)) (drop (nat (sint a)) xs)) else Inl Panic)"

definition slicePage :: "int \<Rightarrow> int \<Rightarrow> 'a list \<Rightarrow> error + 'a list" where
  "slicePage page limit xs =
     (let cnt = of_nat (length xs); offset = pageOffset page limit; end = offset + of_int limit in
      slice (if sint cnt < sint offset then cnt else offset) (if sint cnt < sint end then cnt else end) xs)"

section \<open>Blocks\<close>

definition jnum :: "u64 \<Rightarrow> json" where
  "jnum x = JNum (uint x)"

definition jhash :: "hash \<Rightarrow> json" where
  "jhash h = JStr (hex_encode h)"

definition txFields :: "crypto_lib \<Rightarrow> transaction \<Rightarrow> (string \<times> json) list" where
  "txFields cl tx = [(''hash'', jhash (Tx_Hash cl tx)), (''type'', JNum (uint (Type tx))), (''from'', JStr (From tx)), (''to'', JStr (To tx)),
     (''amount'', jnum (Amount tx)), (''gas_fee'', jnum (GasFee tx)), (''nonce'', jnum (TxNonce tx)), (''timestamp'', JNum (sint (Timestamp tx)))]"

definition blockFields :: "crypto_lib \<Rightarrow> block \<Rightarrow> (string \<times> json) list" where
  "blockFields cl b = [(''height'', jnum (Height (Header b))), (''hash'', jhash (Block_Hash cl b)),
     (''previous_hash'', jhash (PreviousHash (Header b))), (''timestamp'', JNum (sint (HTimestamp (Header b)))),
     (''proposer'', JStr (Proposer (Header b))), (''tx_count'', JNum (int (length (BTransactions b))))]"

definition formatBlock :: "crypto_lib \<Rightarrow> block \<Rightarrow> json" where
  "formatBlock cl b = JObj (blockFields cl b @ [(''transactions'', JArr (map (\<lambda>tx. JObj (txFields cl tx)) (BTransactions b)))])"

definition getBlock :: "'d node_env \<Rightarrow> u64 \<Rightarrow> ('d node, block) step" where
  "getBlock N h = on_db (GetBlockByHeight (nd_db N) (nd_cfg N) (nd_cl N) h)"

definition savedHeight :: "'d node_env \<Rightarrow> 'd node \<Rightarrow> u64" where
  "savedHeight N n = (case GetLatestHeight (nd_db N) (n_db n) of Inl e \<Rightarrow> 0 | Inr h \<Rightarrow> h)"

text \<open>Every handler but one answers only \<^verbatim>\<open>GET\<close>. An error that is not a panic becomes a status code.\<close>

definition only :: "string \<Rightarrow> request \<Rightarrow> ('d node, response) step \<Rightarrow> ('d node, response) step" where
  "only m r handler = (if r_method r = m then handler else Pair (Inr (HttpError 405)))"

definition or_status :: "nat \<Rightarrow> ('d node, 'a) step \<Rightarrow> ('a \<Rightarrow> ('d node, response) step) \<Rightarrow> ('d node, response) step" where
  "or_status code m f n = (case m n of
     (Inl e, n') \<Rightarrow> (if fatal e then Inl e else Inr (HttpError code), n')
   | (Inr a, n') \<Rightarrow> f a n')"

definition answer :: "(string \<times> json) list \<Rightarrow> ('d node, response) step" where
  "answer kvs = Pair (Inr (JSON (JObj kvs)))"

definition handleLatestBlock :: "'d node_env \<Rightarrow> request \<Rightarrow> ('d node, response) step" where
  "handleLatestBlock N r = only ''GET'' r
     (or_status 404 (on_db (GetLatestBlock (nd_db N) (nd_cfg N) (nd_cl N))) (\<lambda>b. Pair (Inr (JSON (formatBlock (nd_cl N) b)))))"

definition handleBlock :: "'d node_env \<Rightarrow> request \<Rightarrow> ('d node, response) step" where
  "handleBlock N r = only ''GET'' r (case ParseUint (TrimPrefix (r_path r) ''/block/'') of
     None \<Rightarrow> Pair (Inr (HttpError 400))
   | Some height \<Rightarrow> or_status 404 (getBlock N height) (\<lambda>b. Pair (Inr (JSON (formatBlock (nd_cl N) b)))))"

text \<open>Blocks from a height downwards, at most \<open>limit\<close>; the first that cannot be read ends the list.\<close>

fun blockLoop :: "'d node_env \<Rightarrow> nat \<Rightarrow> u64 \<Rightarrow> ('d node, json list) step" where
  "blockLoop N 0 h n = (Inr [], n)"
| "blockLoop N (Suc limit) h n =
     (if h = 0 then (Inr [], n)
      else case getBlock N h n of
        (Inl e, n1) \<Rightarrow> (if fatal e then Inl e else Inr [], n1)
      | (Inr b, n1) \<Rightarrow> bindS (blockLoop N limit (h - 1)) (\<lambda>rows. Pair (Inr (JObj (blockFields (nd_cl N) b) # rows))) n1)"

text \<open>This handler reads its numbers with \<^verbatim>\<open>Atoi\<close>.\<close>

definition blocksPage :: "(string \<Rightarrow> string) \<Rightarrow> int" where
  "blocksPage query = (case Atoi (query ''page'') of Some v \<Rightarrow> if 0 < v then v else 1 | None \<Rightarrow> 1)"

definition blocksLimit :: "(string \<Rightarrow> string) \<Rightarrow> int" where
  "blocksLimit query = (case Atoi (query ''limit'') of Some v \<Rightarrow> if 0 < v \<and> v \<le> 100 then v else 20 | None \<Rightarrow> 20)"

definition pageFields :: "i64 \<Rightarrow> int \<Rightarrow> int \<Rightarrow> (string \<times> json) list" where
  "pageFields cnt page limit = [(''total'', JNum (sint cnt)), (''page'', JNum page), (''limit'', JNum limit),
     (''total_pages'', JNum (totalPages cnt limit))]"

definition startHeight :: "u64 \<Rightarrow> i64 \<Rightarrow> u64" where
  "startHeight currentHeight offset = (let off = (if sint offset < 0 then 0 else offset) in
     if off < currentHeight then currentHeight - off else 0)"

definition api_handleBlocks :: "'d node_env \<Rightarrow> request \<Rightarrow> ('d node, response) step" where
  "api_handleBlocks N r = only ''GET'' r (\<lambda>n.
     let page = blocksPage (r_query r); limit = blocksLimit (r_query r); currentHeight = savedHeight N n in
     bindS (blockLoop N (nat limit) (startHeight currentHeight (pageOffset page limit))) (\<lambda>rows.
       answer ((''blocks'', JArr rows) # pageFields currentHeight page limit)) n)"

section \<open>Accounts\<close>

definition accountFields :: "string \<Rightarrow> u64 \<Rightarrow> u64 \<Rightarrow> u64 \<Rightarrow> (string \<times> json) list" where
  "accountFields address available staked nonce = [(''address'', JStr address), (''available_balance'', jnum available),
     (''staked_balance'', jnum staked), (''total_balance'', jnum (available + staked)), (''nonce'', jnum nonce)]"

text \<open>The account of an address, with zeros when it cannot be read.\<close>

definition accountView :: "'d node_env \<Rightarrow> string \<Rightarrow> ('d node, response) step" where
  "accountView N address n = (case on_sm (State_Manager.GetAccount (n_ops N) address) n of
     (Inl e, n') \<Rightarrow> if fatal e then (Inl e, n') else answer (accountFields address 0 0 0) n'
   | (Inr acc, n') \<Rightarrow> answer (accountFields address (AvailableBalance acc) (StakedBalance acc) (Nonce acc)) n')"

definition handleBalance :: "'d node_env \<Rightarrow> request \<Rightarrow> ('d node, response) step" where
  "handleBalance N r = only ''GET'' r
     (let address = TrimPrefix (r_path r) ''/balance/'' in
      if address = '''' \<or> \<not> ValidateAddress (sha3_256 (nd_cl N)) address then Pair (Inr (HttpError 400)) else accountView N address)"

text \<open>The exchange sort of the account list: \<open>pickMax\<close> is the inner loop, which swaps every greater element
  into the place that is being filled.\<close>

fun pickMax :: "account \<Rightarrow> account list \<Rightarrow> account \<times> account list" where
  "pickMax x [] = (x, [])"
| "pickMax x (y # ys) =
     (if TotalBalance x < TotalBalance y then (case pickMax y ys of (m, rest) \<Rightarrow> (m, x # rest))
      else (case pickMax x ys of (m, rest) \<Rightarrow> (m, y # rest)))"

lemma length_pickMax [simp]: "length (snd (pickMax x ys)) = length ys"
  by (induction x ys rule: pickMax.induct) (auto split: prod.split)

function sortByBalance :: "account list \<Rightarrow> account list" where
  "sortByBalance [] = []"
| "sortByBalance (x # xs) = (case pickMax x xs of (m, rest) \<Rightarrow> m # sortByBalance rest)"
  by pat_completeness auto
termination by (relation "measure length") (auto simp: less_Suc_eq_le dest!: arg_cong[where f = "\<lambda>p. length (snd p)"])

definition accountRow :: "account \<Rightarrow> json" where
  "accountRow acc = JObj (accountFields (Address acc) (AvailableBalance acc) (StakedBalance acc) (Nonce acc))"

definition handleAccounts :: "'d node_env \<Rightarrow> request \<Rightarrow> ('d node, response) step" where
  "handleAccounts N r = only ''GET'' r (\<lambda>n.
     let page = pageParam (r_query r); limit = limitParam (r_query r) in
     or_status 500 (\<lambda>n. (st_all (n_ops N) (n_db n), n)) (\<lambda>accounts.
       case slicePage page limit (sortByBalance accounts) of
         Inl e \<Rightarrow> Pair (Inl e)
       | Inr paged \<Rightarrow> answer ((''accounts'', JArr (map accountRow paged)) # pageFields (of_nat (length accounts)) page limit)) n)"

definition transferRow :: "string \<Rightarrow> TransferRecord \<Rightarrow> (string \<times> json) list" where
  "transferRow hashName rec = [(hashName, JStr (TRTxHash rec)), (''from'', JStr (TRFrom rec)), (''to'', JStr (TRTo rec)),
     (''amount'', jnum (TRAmount rec)), (''gas_fee'', jnum (TRGasFee rec)), (''block_height'', jnum (TRBlockHeight rec)),
     (''timestamp'', JNum (sint (TRTimestamp rec)))]"

definition handleAccountTransactions :: "'d node_env \<Rightarrow> request \<Rightarrow> string \<Rightarrow> ('d node, response) step" where
  "handleAccountTransactions N r address =
     (let page = pageParam (r_query r); limit = limitParam (r_query r) in
      or_status 500 (\<lambda>n. (GetTransfersByAddress (nd_db N) address (pageOffset page limit) (of_int limit) (n_db n), n)) (\<lambda>(records, cnt).
        answer ((''address'', JStr address) # (''transactions'', JArr (map (\<lambda>rec. JObj ((''type'', JNum 1) # transferRow ''hash'' rec)) records))
          # pageFields (of_nat cnt) page limit)))"

definition handleAccountDetail :: "'d node_env \<Rightarrow> request \<Rightarrow> ('d node, response) step" where
  "handleAccountDetail N r = only ''GET'' r
     (let parts = splitSlash (TrimPrefix (r_path r) ''/account/''); address = hd parts in
      if address = '''' \<or> \<not> ValidateAddress (sha3_256 (nd_cl N)) address then Pair (Inr (HttpError 400))
      else if 2 \<le> length parts \<and> parts ! 1 = ''transactions'' then handleAccountTransactions N r address
      else accountView N address)"

definition snapshotRow :: "account \<Rightarrow> json" where
  "snapshotRow acc = JObj [(''address'', JStr (Address acc)), (''available_balance'', jnum (AvailableBalance acc)),
     (''staked_balance'', jnum (StakedBalance acc)), (''nonce'', jnum (Nonce acc)), (''node_type'', JNum (uint (NodeType acc)))]"

definition handleStateSnapshot :: "'d node_env \<Rightarrow> request \<Rightarrow> ('d node, response) step" where
  "handleStateSnapshot N r = only ''GET'' r
     (or_status 500 (\<lambda>n. (st_all (n_ops N) (n_db n), n)) (\<lambda>accounts n.
       answer [(''height'', jnum (case latestBlock (n_chain n) of None \<Rightarrow> 0 | Some b \<Rightarrow> Height (Header b))),
         (''accounts'', JArr (map snapshotRow accounts)), (''count'', JNum (int (length accounts)))] n))"

section \<open>Status\<close>

definition handleStatus :: "'d node_env \<Rightarrow> api_server \<Rightarrow> request \<Rightarrow> ('d node, response) step" where
  "handleStatus N A r = only ''GET'' r (\<lambda>n.
     answer [(''height'', jnum (savedHeight N n)), (''peers'', JNum (int (a_peerCount A))), (''address'', JStr (n_address n)),
       (''node_name'', JStr (a_nodeName A)), (''running'', JBool True)] n)"

text \<open>The transactions of all blocks from \<open>i\<close> on, \<open>k\<close> of them; blocks that cannot be read are passed over.
  With the greatest height the loop counter wraps and the loop does not end.\<close>

fun countTxs :: "'d node_env \<Rightarrow> nat \<Rightarrow> u64 \<Rightarrow> u64 \<Rightarrow> ('d node, u64) step" where
  "countTxs N 0 i totalTx n = (Inr totalTx, n)"
| "countTxs N (Suc k) i totalTx n = (case getBlock N i n of
     (Inl e, n1) \<Rightarrow> if fatal e then (Inl e, n1) else countTxs N k (i + 1) totalTx n1
   | (Inr b, n1) \<Rightarrow> countTxs N k (i + 1) (totalTx + of_nat (length (BTransactions b))) n1)"

definition handleStats :: "'d node_env \<Rightarrow> api_server \<Rightarrow> request \<Rightarrow> ('d node, response) step" where
  "handleStats N A r = only ''GET'' r (\<lambda>n. let height = savedHeight N n in
     bindS (if height = - 1 then Pair (Inl Deadlock) else countTxs N (unat height) 1 0) (\<lambda>totalTx.
       answer [(''block_height'', jnum height), (''total_transactions'', jnum totalTx), (''peer_count'', JNum (int (a_peerCount A))),
         (''network'', JStr ''FAN Chain'')]) n)"

section \<open>Transactions\<close>

text \<open>The answer carries the hash of the transaction with the nonce that \<^verbatim>\<open>SubmitTransaction\<close> gave it.\<close>

definition api_handleTransaction :: "'d node_env \<Rightarrow> request \<Rightarrow> ('d node, response) step" where
  "api_handleTransaction N r = only ''POST'' r (case r_body r of
     None \<Rightarrow> Pair (Inr (HttpError 400))
   | Some tx \<Rightarrow> (case VerifySignature tx of
       Inl e \<Rightarrow> Pair (Inr (HttpError 400))
     | Inr _ \<Rightarrow> (\<lambda>n. or_status 500 (SubmitTransaction N tx) (\<lambda>_.
         answer [(''success'', JBool True), (''message'', JStr ''Transaction submitted successfully''),
           (''hash'', jhash (Tx_Hash (nd_cl N) (case fst (assignNonce N tx n) of Inl _ \<Rightarrow> tx | Inr tx' \<Rightarrow> tx')))]) n)))"

definition findTransaction :: "'d node_env \<Rightarrow> bytes \<Rightarrow> ('d node, transaction) step" where
  "findTransaction N hashBytes n = (GetTransaction (nd_db N) (BytesToHash hashBytes) (n_db n), n)"

definition handleTransactionByHash :: "'d node_env \<Rightarrow> request \<Rightarrow> ('d node, response) step" where
  "handleTransactionByHash N r = only ''GET'' r
     (let hashStr = TrimPrefix (r_path r) ''/transaction/'' in
      if hashStr = '''' then Pair (Inr (HttpError 400))
      else case hex_DecodeString hashStr of
        None \<Rightarrow> Pair (Inr (HttpError 400))
      | Some hashBytes \<Rightarrow> or_status 404 (findTransaction N hashBytes) (\<lambda>tx. answer (txFields (nd_cl N) tx)))"

definition historyRow :: "crypto_lib \<Rightarrow> transaction \<Rightarrow> json" where
  "historyRow cl tx = JObj [(''hash'', jhash (Tx_Hash cl tx)), (''type'', JNum (uint (Type tx))), (''from'', JStr (From tx)), (''to'', JStr (To tx)),
     (''amount'', jnum (Amount tx)), (''fee'', jnum (GasFee tx)), (''timestamp'', JNum (sint (Timestamp tx)))]"

definition handleTransactions :: "'d node_env \<Rightarrow> request \<Rightarrow> ('d node, response) step" where
  "handleTransactions N r = only ''GET'' r
     (let address = TrimPrefix (r_path r) ''/transactions/'' in
      if address = '''' \<or> \<not> looksLikeAddress address then Pair (Inr (HttpError 400))
      else or_status 500 (on_db (GetTransactionsByAddress (nd_db N) (nd_cfg N) (nd_cl N) address 100)) (\<lambda>txs.
        answer [(''address'', JStr address), (''transactions'', JArr (map (historyRow (nd_cl N)) txs)), (''count'', JNum (int (length txs)))]))"

text \<open>All transactions, newest first: \<open>skip\<close> rows are still to be passed over and \<open>room\<close> rows may still be
  listed.\<close>

definition listedTx :: "crypto_lib \<Rightarrow> u64 \<Rightarrow> transaction \<Rightarrow> json" where
  "listedTx cl height tx = JObj ((''block_height'', jnum height) # txFields cl tx)"

fun scanTxs :: "crypto_lib \<Rightarrow> u64 \<Rightarrow> transaction list \<Rightarrow> int \<Rightarrow> nat \<Rightarrow> json list \<times> int \<times> nat" where
  "scanTxs cl height [] skip room = ([], skip, room)"
| "scanTxs cl height (tx # txs) skip room =
     (if room = 0 then ([], skip, room)
      else if 0 < skip then scanTxs cl height txs (skip - 1) room
      else case scanTxs cl height txs skip (room - 1) of (rows, skip', room') \<Rightarrow> (listedTx cl height tx # rows, skip', room'))"

fun scanBlocks :: "'d node_env \<Rightarrow> nat \<Rightarrow> int \<Rightarrow> nat \<Rightarrow> ('d node, json list) step" where
  "scanBlocks N 0 skip room n = (Inr [], n)"
| "scanBlocks N (Suc h) skip room n =
     (if room = 0 then (Inr [], n)
      else case getBlock N (of_nat (Suc h)) n of
        (Inl e, n1) \<Rightarrow> if fatal e then (Inl e, n1) else scanBlocks N h skip room n1
      | (Inr b, n1) \<Rightarrow> (case scanTxs (nd_cl N) (of_nat (Suc h)) (rev (BTransactions b)) skip room of
          (rows, skip', room') \<Rightarrow> bindS (scanBlocks N h skip' room') (\<lambda>more. Pair (Inr (rows @ more))) n1))"

definition handleAllTransactions :: "'d node_env \<Rightarrow> request \<Rightarrow> ('d node, response) step" where
  "handleAllTransactions N r = only ''GET'' r (\<lambda>n.
     let page = pageParam (r_query r); limit = limitParam (r_query r); latestHeight = savedHeight N n in
     if latestHeight = 0
     then answer [(''transactions'', JArr []), (''total'', JNum 0), (''page'', JNum page), (''limit'', JNum limit), (''total_pages'', JNum 1)] n
     else bindS (scanBlocks N (unat latestHeight) (sint (pageOffset page limit)) (nat limit)) (\<lambda>rows.
       answer ((''transactions'', JArr rows) # pageFields latestHeight page limit)) n)"

definition handleTransfers :: "'d node_env \<Rightarrow> request \<Rightarrow> ('d node, response) step" where
  "handleTransfers N r = only ''GET'' r
     (let page = pageParam (r_query r); limit = limitParam (r_query r); address = r_query r ''address''; offset = pageOffset page limit in
      or_status 500 (\<lambda>n. ((if address = '''' then GetTransfers (nd_db N) offset (of_int limit) (n_db n)
          else GetTransfersByAddress (nd_db N) address offset (of_int limit) (n_db n)), n)) (\<lambda>(records, cnt).
        answer ((''transfers'', JArr (map (\<lambda>rec. JObj ((''nonce'', jnum (TRNonce rec)) # transferRow ''tx_hash'' rec)) records))
          # pageFields (of_nat cnt) page limit)))"

section \<open>Search\<close>

text \<open>Three attempts: a height, an address, a transaction hash. Every error means that the attempt failed.\<close>

definition found :: "string \<Rightarrow> (string \<times> json) list \<Rightarrow> ('d node, response) step" where
  "found query kvs = answer ((''query'', JStr query) # (''found'', JBool True) # kvs)"

definition notFound :: "string \<Rightarrow> ('d node, response) step" where
  "notFound query = answer [(''query'', JStr query), (''found'', JBool False), (''type'', JStr '''')]"

definition or_next :: "('d node, 'a) step \<Rightarrow> ('d node, response) step \<Rightarrow> ('a \<Rightarrow> ('d node, response) step) \<Rightarrow> ('d node, response) step" where
  "or_next m g f n = (case m n of
     (Inl e, n') \<Rightarrow> if fatal e then (Inl e, n') else g n'
   | (Inr a, n') \<Rightarrow> f a n')"

definition searchHash :: "'d node_env \<Rightarrow> string \<Rightarrow> ('d node, response) step" where
  "searchHash N query = (if length query < 10 then notFound query else case hex_DecodeString query of
     None \<Rightarrow> notFound query
   | Some hashBytes \<Rightarrow> or_next (findTransaction N hashBytes) (notFound query)
       (\<lambda>_. found query [(''type'', JStr ''transaction''), (''hash'', JStr query)]))"

definition searchAddress :: "'d node_env \<Rightarrow> string \<Rightarrow> ('d node, response) step" where
  "searchAddress N query = (if \<not> looksLikeAddress query then searchHash N query
     else or_next (on_sm (State_Manager.GetAccount (n_ops N) query)) (searchHash N query)
       (\<lambda>_. found query [(''type'', JStr ''account''), (''address'', JStr query)]))"

definition handleSearch :: "'d node_env \<Rightarrow> request \<Rightarrow> ('d node, response) step" where
  "handleSearch N r = only ''GET'' r
     (let query = r_query r ''q'' in
      if query = '''' then Pair (Inr (HttpError 400))
      else case Sscanf_uint query of
        None \<Rightarrow> searchAddress N query
      | Some height \<Rightarrow> or_next (getBlock N height) (searchAddress N query)
          (\<lambda>_. found query [(''type'', JStr ''block''), (''height'', jnum height)]))"

section \<open>Routing\<close>

text \<open>\<^verbatim>\<open>http.ServeMux\<close> takes the longest pattern that matches; a pattern that ends in a slash matches every
  path below it, and a path that only lacks that slash is redirected. Everything else is a file.\<close>

definition exactRoutes :: "'d node_env \<Rightarrow> api_server \<Rightarrow> (string \<times> (request \<Rightarrow> ('d node, response) step)) list" where
  "exactRoutes N A = [(''/status'', handleStatus N A), (''/stats'', handleStats N A), (''/blocks'', api_handleBlocks N),
     (''/block/latest'', handleLatestBlock N), (''/accounts'', handleAccounts N), (''/transaction'', api_handleTransaction N),
     (''/transactions'', handleAllTransactions N), (''/transfers'', handleTransfers N), (''/state/snapshot'', handleStateSnapshot N),
     (''/search'', handleSearch N)]"

definition treeRoutes :: "'d node_env \<Rightarrow> (string \<times> (request \<Rightarrow> ('d node, response) step)) list" where
  "treeRoutes N = [(''/block/'', handleBlock N), (''/balance/'', handleBalance N), (''/account/'', handleAccountDetail N),
     (''/transaction/'', handleTransactionByHash N), (''/transactions/'', handleTransactions N)]"

definition ServeHTTP :: "'d node_env \<Rightarrow> api_server \<Rightarrow> request \<Rightarrow> ('d node, response) step" where
  "ServeHTTP N A r = (case map_of (exactRoutes N A) (r_path r) of
     Some handler \<Rightarrow> handler r
   | None \<Rightarrow> (case find (\<lambda>(pattern, _). take (length pattern) (r_path r) = pattern) (treeRoutes N) of
       Some (_, handler) \<Rightarrow> handler r
     | None \<Rightarrow> if r_path r @ ''/'' \<in> fst ` set (treeRoutes N) then Pair (Inr (Redirect (r_path r @ ''/'')))
         else Pair (Inr (StaticFile (r_path r)))))"

end
