(* ===== verification/Api_Claims.thy ===== *)
theory Api_Claims
  imports Api_Server
begin

text \<open>
  What the HTTP interface guarantees: the account list is sorted by balance and its pages cut it
  without loss or overlap; the list of all transactions is a window of the chain read backwards;
  queries leave the node as it is, up to caches; a block is found under its decimal height. And what
  it does not: a page number near \<open>2 ^ 63\<close> panics, and a search for a transaction whose hash begins
  with digits can end at a block.
\<close>

section \<open>Sorting accounts\<close>

lemma pickMax_greatest:
  "pickMax x ys = (m, rest) \<Longrightarrow> mset (m # rest) = mset (x # ys) \<and> (\<forall>z \<in> set (m # rest). TotalBalance z \<le> TotalBalance m)"
proof (induction x ys arbitrary: m rest rule: pickMax.induct)
  case (2 x y ys)
  show ?case
  proof (cases "TotalBalance x < TotalBalance y")
    case True
    then obtain r where r: "pickMax y ys = (m, r)" "rest = x # r" using 2(3) by (auto split: prod.splits)
    note ih = 2(1)[OF True r(1)]
    have "y \<in> set (m # r)" using arg_cong[OF conjunct1[OF ih], of set_mset] by simp
    then show ?thesis using ih r(2) True by (auto simp: add_mset_commute)
  next
    case False
    then obtain r where r: "pickMax x ys = (m, r)" "rest = y # r" using 2(3) by (auto split: prod.splits)
    note ih = 2(2)[OF False r(1)]
    have "x \<in> set (m # r)" using arg_cong[OF conjunct1[OF ih], of set_mset] by simp
    then show ?thesis using ih r(2) False by (auto simp: add_mset_commute)
  qed
qed simp

lemma sort_by_balance: "mset (sortByBalance xs) = mset xs \<and> sorted_wrt (\<lambda>a b. TotalBalance b \<le> TotalBalance a) (sortByBalance xs)"
proof (induction xs rule: sortByBalance.induct)
  case (2 x xs)
  obtain m rest where p: "pickMax x xs = (m, rest)" by (cases "pickMax x xs")
  note ih = 2[OF p[symmetric]] and g = pickMax_greatest[OF p]
  have "set (sortByBalance rest) = set rest" using ih by (metis set_mset_mset)
  then show ?case using ih g p by simp
qed simp

lemma length_sortByBalance [simp]: "length (sortByBalance xs) = length xs"
  using sort_by_balance by (metis size_mset)

section \<open>Pages\<close>

lemma concat_pages: "length xs \<le> P * l \<Longrightarrow> concat (map (\<lambda>k. take l (drop (k * l) xs)) [0..<P]) = xs"
proof (induction P arbitrary: xs)
  case (Suc P)
  have "concat (map (\<lambda>k. take l (drop (k * l) (drop l xs))) [0..<P]) = drop l xs" using Suc.prems by (intro Suc.IH) simp
  moreover have "map (\<lambda>k. take l (drop (k * l) (drop l xs))) [0..<P] = map (\<lambda>k. take l (drop (k * l) xs)) [1..<Suc P]"
    by (simp add: map_Suc_upt[symmetric] add.commute del: upt_Suc)
  ultimately have "concat (map (\<lambda>k. take l (drop (k * l) xs)) [1..<Suc P]) = drop l xs" by simp
  then show ?case by (simp add: upt_conv_Cons del: upt_Suc)
qed simp

lemma sint_of_int: "- (2 ^ 63) \<le> z \<Longrightarrow> z < 2 ^ 63 \<Longrightarrow> sint (of_int z :: i64) = z"
  by (simp add: sint_sbintrunc' signed_take_bit_int_eq_self)

lemma page_offset: "0 \<le> (page - 1) * limit \<Longrightarrow> (page - 1) * limit < 2 ^ 63 \<Longrightarrow> sint (pageOffset page limit) = (page - 1) * limit"
  using sint_of_int[of "(page - 1) * limit"] by (simp add: pageOffset_def)

lemma total_pages:
  assumes "0 < limit" and "int len + limit < 2 ^ 63"
  shows "totalPages (of_nat len) limit = max 1 ((int len + limit - 1) div limit)"
proof -
  have "sint (of_nat len + of_int limit - 1 :: i64) = int len + limit - 1"
    using sint_of_int[of "int len + limit - 1"] assms by simp
  moreover have "(int len + limit - 1) sdiv limit = (int len + limit - 1) div limit"
    using assms(1) by (simp add: signed_divide_int_def sgn_if)
  ultimately show ?thesis by (simp add: totalPages_def Let_def max_def)
qed

lemma limit_param: "1 \<le> limitParam q" "limitParam q \<le> 100" and page_param: "1 \<le> pageParam q"
  by (auto simp: limitParam_def pageParam_def split: option.split)

lemma slice_page:
  assumes "1 \<le> page" and "1 \<le> limit" and "limit \<le> 100" and "page * limit < 2 ^ 62" and "length xs < 2 ^ 62"
  shows "slicePage page limit xs = Inr (take (nat limit) (drop (nat ((page - 1) * limit)) xs))"
proof -
  have m: "page * limit = (page - 1) * limit + limit" by (simp add: algebra_simps)
  have p: "0 \<le> (page - 1) * limit" using assms(1,2) by simp
  then have o1: "sint (pageOffset page limit) = (page - 1) * limit" using page_offset m assms(2,4) by simp
  have "pageOffset page limit + of_int limit = (of_int (page * limit) :: i64)" by (simp add: pageOffset_def algebra_simps)
  then have o2: "sint (pageOffset page limit + of_int limit) = page * limit" using sint_of_int[of "page * limit"] p m assms(2,4) by simp
  have t: "sint (of_nat (length xs) :: i64) = int (length xs)" using sint_of_int[of "int (length xs)"] assms(5) by simp
  let ?o = "(page - 1) * limit"
  consider "int (length xs) < ?o" | "?o \<le> int (length xs)" "int (length xs) < page * limit" | "page * limit \<le> int (length xs)"
    using m assms(2) by linarith
  then show ?thesis
  proof cases
    case 1
    then show ?thesis using p m assms(2) by (simp add: slicePage_def Let_def slice_def o1 o2 t)
  next
    case 2
    then show ?thesis using p m assms(2) by (simp add: slicePage_def Let_def slice_def o1 o2 t nat_diff_distrib)
  next
    case 3
    then show ?thesis using p m assms(2) by (simp add: slicePage_def Let_def slice_def o1 o2 t)
  qed
qed

section \<open>The account list\<close>

lemma ceiling_div:
  fixes c d :: int
  assumes "0 < d"
  shows "c \<le> (c + d - 1) div d * d" "(c + d - 1) div d * d < c + d"
proof -
  have "(c + d - 1) div d * d + (c + d - 1) mod d = c + d - 1" by simp
  moreover have "0 \<le> (c + d - 1) mod d" "(c + d - 1) mod d < d" using assms by simp_all
  ultimately show "c \<le> (c + d - 1) div d * d" "(c + d - 1) div d * d < c + d" by linarith+
qed

lemma accounts_page:
  assumes "st_all (n_ops N) (n_db n) = Inr accounts" and "r_method r = ''GET''"
    and "slicePage (pageParam (r_query r)) (limitParam (r_query r)) (sortByBalance accounts) = Inr paged"
  shows "handleAccounts N r n = (Inr (JSON (JObj ((''accounts'', JArr (map accountRow paged))
     # pageFields (of_nat (length accounts)) (pageParam (r_query r)) (limitParam (r_query r))))), n)"
  using assms by (simp add: handleAccounts_def only_def or_status_def answer_def Let_def)


section \<open>All transactions\<close>

text \<open>The rows of the chain from a height downwards, newest first.\<close>

fun chainRows :: "crypto_lib \<Rightarrow> (u64 \<Rightarrow> block) \<Rightarrow> nat \<Rightarrow> json list" where
  "chainRows cl blk 0 = []"
| "chainRows cl blk (Suc h) = map (listedTx cl (of_nat (Suc h))) (rev (BTransactions (blk (of_nat (Suc h))))) @ chainRows cl blk h"

lemma scan_txs:
  "scanTxs cl h txs skip room = (rows, skip', room') \<Longrightarrow>
     rows = take room (drop (nat skip) (map (listedTx cl h) txs)) \<and> room' = room - length rows
     \<and> (0 < room' \<longrightarrow> nat skip' = nat skip - length txs)"
proof (induction txs arbitrary: skip room rows)
  case (Cons tx txs)
  show ?case
  proof (cases "room = 0 \<or> 0 < skip")
    case True
    then show ?thesis
      using Cons.prems Cons.IH[of "skip - 1" room rows] by (auto simp: nat_diff_distrib drop_Cons' split: if_splits)
  next
    case False
    then obtain more where "scanTxs cl h txs skip (room - 1) = (more, skip', room')" "rows = listedTx cl h tx # more"
      using Cons.prems by (auto split: prod.splits)
    then show ?thesis using Cons.IH[of skip "room - 1" more] False by (cases room) auto
  qed
qed simp

lemma scan_blocks:
  assumes "\<And>k. 0 < k \<Longrightarrow> k \<le> h \<Longrightarrow> stored_block N (files (blockStore (n_db n))) (of_nat k) (blk (of_nat k))" and "blocks_readable N n"
  shows "\<exists>n'. scanBlocks N h skip room n = (Inr (take room (drop (nat skip) (chainRows (nd_cl N) blk h))), n')"
  using assms
proof (induction h arbitrary: skip room n)
  case (Suc h)
  show ?case
  proof (cases "room = 0")
    case False
    let ?b = "blk (of_nat (Suc h))"
    obtain n1 where g: "getBlock N (of_nat (Suc h)) n = (Inr ?b, n1)"
      using get_block_run[OF Suc.prems(2) Suc.prems(1)[of "Suc h"]] unfolding getBlock_def by auto
    note k = get_block_keeps[OF g[unfolded getBlock_def]]
    then have n1: "files (blockStore (n_db n1)) = files (blockStore (n_db n))" "blocks_readable N n1"
      using Suc.prems(2) by (simp_all add: keeps_files_def blocks_readable_def)
    let ?txs = "map (listedTx (nd_cl N) (of_nat (Suc h))) (rev (BTransactions ?b))"
    obtain rows skip' room' where s: "scanTxs (nd_cl N) (of_nat (Suc h)) (rev (BTransactions ?b)) skip room = (rows, skip', room')"
      by (cases "scanTxs (nd_cl N) (of_nat (Suc h)) (rev (BTransactions ?b)) skip room")
    note t = scan_txs[OF s]
    obtain n2 where r: "scanBlocks N h skip' room' n1 = (Inr (take room' (drop (nat skip') (chainRows (nd_cl N) blk h))), n2)"
      using Suc.IH[of n1 skip' room'] Suc.prems(1) n1 by auto
    have "rows @ take room' (drop (nat skip') (chainRows (nd_cl N) blk h)) = take room (drop (nat skip) (?txs @ chainRows (nd_cl N) blk h))"
      using t by (cases "room' = 0") auto
    then show ?thesis using False g s r by (simp add: bindS_def del: of_nat_Suc)
  qed simp
qed simp

text \<open>The list of all transactions is a window of the chain read backwards. When the blocks up to the
  saved height are in the block files, page \<open>p\<close> of the list holds the transactions
  \<open>(p - 1) * limit\<close> to \<open>p * limit\<close> of the sequence of all transactions of the chain, newest block
  and newest transaction first; no block is passed over.\<close>

theorem transaction_list_is_window:
  assumes "r_method r = ''GET''" and "GetLatestHeight (nd_db N) (n_db n) = Inr h" and "h \<noteq> 0"
    and "\<forall>k. 0 < k \<and> k \<le> unat h \<longrightarrow> stored_block N (files (blockStore (n_db n))) (of_nat k) (blk (of_nat k))" and "blocks_readable N n"
    and "pageParam (r_query r) < 2 ^ 50"
  defines "page \<equiv> pageParam (r_query r)" and "limit \<equiv> limitParam (r_query r)"
  shows "\<exists>n'. handleAllTransactions N r n = (Inr (JSON (JObj
     ((''transactions'', JArr (take (nat limit) (drop (nat ((page - 1) * limit)) (chainRows (nd_cl N) blk (unat h)))))
        # pageFields h page limit))), n')"
proof -
  have l: "1 \<le> limit" "limit \<le> 100" "1 \<le> page" "page < 2 ^ 50" using limit_param page_param assms(6) by (simp_all add: page_def limit_def)
  have "(page - 1) * limit \<le> 2 ^ 50 * 100" using l by (intro mult_mono) auto
  then have o: "sint (pageOffset page limit) = (page - 1) * limit" using page_offset l by simp
  obtain n' where "scanBlocks N (unat h) (sint (pageOffset page limit)) (nat limit) n
      = (Inr (take (nat limit) (drop (nat ((page - 1) * limit)) (chainRows (nd_cl N) blk (unat h)))), n')"
    using scan_blocks[of "unat h" N n blk] assms(4,5) o by metis
  then show ?thesis
    using assms(1-3) by (simp add: handleAllTransactions_def only_def savedHeight_def Let_def bindS_def answer_def page_def limit_def)
qed

section \<open>Queries change nothing\<close>

named_theorems querying

lemma steps_in_reading: "(\<And>a. steps_in R (m a)) \<Longrightarrow> steps_in R (\<lambda>s. m (f s) s)"
  by (simp add: steps_in_def)

text \<open>Steps of the database that only touch the block store, and there no file.\<close>

definition same_files :: "'d Database \<Rightarrow> 'd Database \<Rightarrow> bool" where
  "same_files D D' \<longleftrightarrow> (\<exists>bs. D' = D\<lparr>blockStore := bs\<rparr> \<and> keeps_files (blockStore D) bs)"

lemma same_files_order [simp]: "reflp same_files" "transp same_files"
proof -
  show "reflp same_files"
    by (rule reflpI) (auto simp: same_files_def intro!: exI[of _ "blockStore _"] reflpD[OF keeps_files_order(1)])
  show "transp same_files"
  proof (rule transpI)
    fix D1 D2 D3 :: "'d Database" assume "same_files D1 D2" "same_files D2 D3"
    then obtain bs bs' where "D2 = D1\<lparr>blockStore := bs\<rparr>" "D3 = D2\<lparr>blockStore := bs'\<rparr>" "keeps_files (blockStore D1) bs'"
      by (auto simp: same_files_def dest: transpD[OF keeps_files_order(2)])
    then show "same_files D1 D3" unfolding same_files_def by (intro exI[of _ bs']) simp
  qed
qed

lemmas same_files_bind [querying] = steps_in_bind[OF same_files_order(2)]

lemma reads_same_files [querying]:
  "steps_in same_files (GetBlockByHeight E cfg cl h)" "steps_in same_files (GetLatestBlock E cfg cl)"
  "steps_in same_files (GetTransactionsByAddress E cfg cl a k)"
proof -
  show b: "steps_in same_files (GetBlockByHeight E cfg cl h)" for h
    unfolding steps_in_def same_files_def using GetBlock_keeps by (metis prod.collapse)
  show "steps_in same_files (GetLatestBlock E cfg cl)"
    using b by (auto simp: steps_in_def GetLatestBlock_def reflpD[OF same_files_order(1)] split: sum.split)
  have "steps_in same_files (rangeLoop E cfg cl hs)" for hs
    by (induction hs) (auto intro!: querying b)
  then have "steps_in same_files (GetBlockRange E cfg cl x y)" for x y by (simp add: GetBlockRange_def)
  then have "steps_in same_files (bindS (GetBlockRange E cfg cl x y) (\<lambda>blocks. if c then Pair (Inl Panic) else Pair (Inr (f blocks))))"
    for x y c and f :: "block list \<Rightarrow> transaction list"
    by (intro querying) auto
  then have range: "steps_in same_files (case q of Inl e \<Rightarrow> Pair (Inl e) | Inr latest \<Rightarrow>
      bindS (GetBlockRange E cfg cl (if latest > 200 then latest - 200 else 1) latest) (\<lambda>blocks. if c then Pair (Inl Panic) else Pair (Inr (f blocks))))"
    for q c and f :: "block list \<Rightarrow> transaction list"
    by (cases q) simp_all
  have "GetTransactionsByAddress E cfg cl a k = (\<lambda>D. (case GetLatestHeight E D of Inl e \<Rightarrow> Pair (Inl e) | Inr latest \<Rightarrow>
      bindS (GetBlockRange E cfg cl (if latest > 200 then latest - 200 else 1) latest) (\<lambda>blocks.
        if \<not> make_cap_ok (of_nat (if sint k \<le> 0 then 100 else nat (sint k))) 8 then Pair (Inl Panic)
        else Pair (Inr (take (if sint k \<le> 0 then 100 else nat (sint k)) (filter (involves a) (concat (map BTransactions (rev blocks)))))))) D)"
    unfolding GetTransactionsByAddress_def Let_def by (rule ext) (simp only: split: sum.split, simp)
  then show "steps_in same_files (GetTransactionsByAddress E cfg cl a k)" by (simp only: steps_in_reading range)
qed

text \<open>Combinators of the handlers.\<close>

lemma steps_in_next:
  assumes "transp R" and "steps_in R m" and "\<And>a. steps_in R (f a)" and "steps_in R g"
  shows "steps_in R (or_next m g f)"
  unfolding steps_in_def
proof
  fix n
  obtain q n1 where m: "m n = (q, n1)" by (cases "m n")
  then have "R n n1" using steps_inD[OF assms(2)] by simp
  then show "R n (snd (or_next m g f n))"
    using m assms(1,3,4) by (cases q) (auto simp: or_next_def steps_in_def dest: transpD)
qed

lemma steps_in_status:
  assumes "transp R" and "reflp R" and "steps_in R m" and "\<And>a. steps_in R (f a)"
  shows "steps_in R (or_status code m f)"
proof -
  have "or_status code m f = or_next m (Pair (Inr (HttpError code))) f"
    by (auto simp: or_status_def or_next_def fun_eq_iff split: prod.split sum.split)
  then show ?thesis using steps_in_next[OF assms(1,3,4)] assms(2) by simp
qed

lemma steps_in_answer [simp]: "reflp R \<Longrightarrow> steps_in R (answer kvs)" "reflp R \<Longrightarrow> steps_in R (found q kvs)" "reflp R \<Longrightarrow> steps_in R (notFound q)"
  by (simp_all add: answer_def found_def notFound_def)

lemma steps_in_read [simp]: "reflp R \<Longrightarrow> steps_in R (\<lambda>n. (f n, n))"
  by (simp add: steps_in_def reflpD)

lemma steps_in_only: "reflp R \<Longrightarrow> (r_method r = m \<Longrightarrow> steps_in R h) \<Longrightarrow> steps_in R (only m r h)"
  by (simp add: only_def)

lemma steps_in_if: "steps_in R m \<Longrightarrow> steps_in R m' \<Longrightarrow> steps_in R (\<lambda>n. if c then m n else m' n)"
  by (cases c) (simp_all add: steps_in_def)

context node_ctx
begin

definition queried :: "'d node \<Rightarrow> 'd node \<Rightarrow> bool" where
  "queried n n' \<longleftrightarrow> keeps n n' \<and> n_pending n' = n_pending n \<and> n_vals n' = n_vals n
     \<and> stateStore (n_db n') = stateStore (n_db n) \<and> db (n_db n') = db (n_db n) \<and> files (blockStore (n_db n')) = files (blockStore (n_db n))
     \<and> (node_ok n \<longrightarrow> node_ok n' \<and> node_ledger n' = node_ledger n)"

lemma queried_order [simp]: "reflp queried" "transp queried"
  by (auto simp: queried_def keeps_def reflp_def intro!: transpI)

lemmas queried_rules = querying steps_in_status[OF queried_order(2,1)] steps_in_next[OF queried_order(2)] steps_in_bind[OF queried_order(2)] steps_in_only[OF queried_order(1)]

lemma looks_queried: "looks n n' \<Longrightarrow> queried n n'"
  by (auto simp: looks_def queried_def keeps_def)

lemma get_account_queried: "steps_in queried (on_sm (State_Manager.GetAccount (n_ops N) a))"
  using get_account_looks(1) looks_queried by (auto simp: steps_in_def) (metis prod.collapse)

lemma on_db_queried:
  assumes "steps_in same_files m"
  shows "steps_in queried (on_db m)"
  unfolding steps_in_def
proof
  fix n
  obtain r D where m: "m (n_db n) = (r, D)" by (cases "m (n_db n)")
  obtain bs where D: "D = (n_db n)\<lparr>blockStore := bs\<rparr>" "keeps_files (blockStore (n_db n)) bs"
    using steps_inD[OF assms m] by (auto simp: same_files_def)
  let ?n = "n\<lparr>n_state := (n_state n)\<lparr>sm_db := D\<rparr>\<rparr>"
  have "snd (on_db m n) = ?n" using m by (simp add: on_db_def on_sm_def)
  moreover have "queried n ?n" using D node_state_cong[of ?n n] by (simp add: queried_def keeps_def keeps_files_def)
  ultimately show "queried n (snd (on_db m n))" by simp
qed

lemma get_block_queried: "steps_in queried (getBlock N h)"
  unfolding getBlock_def by (intro on_db_queried querying)

lemma next_block_queried:
  assumes "\<And>e. steps_in queried (f e)" and "\<And>b. steps_in queried (g b)"
  shows "steps_in queried (\<lambda>n. case getBlock N h n of (Inl e, n1) \<Rightarrow> f e n1 | (Inr b, n1) \<Rightarrow> g b n1)"
  unfolding steps_in_def
proof
  fix n
  obtain q n1 where b: "getBlock N h n = (q, n1)" by (cases "getBlock N h n")
  have "queried n n1" by (rule steps_inD[OF get_block_queried b])
  moreover have "queried n1 (snd (f e n1))" "queried n1 (snd (g b n1))" for e b using assms by (simp_all add: steps_in_def)
  ultimately have "queried n (snd (f e n1))" "queried n (snd (g b n1))" for e b by (blast intro: transpD[OF queried_order(2)])+
  then show "queried n (snd (case getBlock N h n of (Inl e, n1) \<Rightarrow> f e n1 | (Inr b, n1) \<Rightarrow> g b n1))"
    using b by (cases q) simp_all
qed

lemma loops_queried:
  "steps_in queried (blockLoop N k h)" "steps_in queried (countTxs N i h t)" "steps_in queried (scanBlocks N j skip room)"
proof -
  show "steps_in queried (blockLoop N k h)"
  proof (induction k arbitrary: h)
    case (Suc k)
    have "blockLoop N (Suc k) h = (\<lambda>n. if h = 0 then (Inr [], n) else (\<lambda>n. case getBlock N h n of
        (Inl e, n1) \<Rightarrow> (\<lambda>n. (if fatal e then Inl e else Inr [], n)) n1
      | (Inr b, n1) \<Rightarrow> bindS (blockLoop N k (h - 1)) (\<lambda>rows. Pair (Inr (JObj (blockFields (nd_cl N) b) # rows))) n1) n)"
      by (auto simp: fun_eq_iff split: prod.split sum.split)
    then show ?case using Suc by (auto intro!: steps_in_if next_block_queried queried_rules)
  qed (simp add: steps_in_def reflpD[OF queried_order(1)])
  show "steps_in queried (countTxs N i h t)"
  proof (induction i arbitrary: h t)
    case (Suc i)
    have "countTxs N (Suc i) h t = (\<lambda>n. case getBlock N h n of
        (Inl e, n1) \<Rightarrow> (\<lambda>n. if fatal e then (Inl e, n) else countTxs N i (h + 1) t n) n1
      | (Inr b, n1) \<Rightarrow> countTxs N i (h + 1) (t + of_nat (length (BTransactions b))) n1)"
      by (auto simp: fun_eq_iff split: prod.split sum.split)
    then show ?case using Suc by (auto intro!: steps_in_if next_block_queried)
  qed (simp add: steps_in_def reflpD[OF queried_order(1)])
  show "steps_in queried (scanBlocks N j skip room)"
  proof (induction j arbitrary: skip room)
    case (Suc j)
    have "scanBlocks N (Suc j) skip room = (\<lambda>n. if room = 0 then (Inr [], n) else (\<lambda>n. case getBlock N (of_nat (Suc j)) n of
        (Inl e, n1) \<Rightarrow> (\<lambda>n. if fatal e then (Inl e, n) else scanBlocks N j skip room n) n1
      | (Inr b, n1) \<Rightarrow> (case scanTxs (nd_cl N) (of_nat (Suc j)) (rev (BTransactions b)) skip room of
          (rows, skip', room') \<Rightarrow> bindS (scanBlocks N j skip' room') (\<lambda>more. Pair (Inr (rows @ more)))) n1) n)"
      by (auto simp: fun_eq_iff split: prod.split sum.split)
    then show ?case using Suc by (auto intro!: steps_in_if next_block_queried queried_rules split: prod.split)
  qed (simp add: steps_in_def reflpD[OF queried_order(1)])
qed

lemma account_view_queried: "steps_in queried (accountView N a)"
  unfolding steps_in_def
proof
  fix n
  obtain q n1 where g: "on_sm (State_Manager.GetAccount (n_ops N) a) n = (q, n1)"
    by (cases "on_sm (State_Manager.GetAccount (n_ops N) a) n")
  have "queried n n1" by (rule steps_inD[OF get_account_queried g])
  then show "queried n (snd (accountView N a n))" using g by (cases q) (simp_all add: accountView_def answer_def)
qed

lemma list_views_queried:
  "steps_in queried (handleStatus N A r)" "steps_in queried (handleStats N A r)" "steps_in queried (handleStateSnapshot N r)"
  "steps_in queried (handleAccounts N r)" "steps_in queried (handleAllTransactions N r)" "steps_in queried (api_handleBlocks N r)"
proof -
  note reading = steps_in_only[OF queried_order(1)] steps_in_bind[OF queried_order(2)] steps_in_status[OF queried_order(2,1)] steps_in_next[OF queried_order(2)]
    loops_queried steps_in_answer[OF queried_order(1)] steps_in_read[OF queried_order(1)]
  show "steps_in queried (handleStatus N A r)"
    by (auto simp: handleStatus_def only_def answer_def steps_in_def reflpD[OF queried_order(1)])
  note here = steps_in_def only_def Let_def or_status_def answer_def reflpD[OF queried_order(1)]
  have "steps_in queried (bindS (if h = - 1 then Pair (Inl Deadlock) else countTxs N (unat h) 1 0) (\<lambda>totalTx. answer (f totalTx)))" for h :: u64 and f
    by (intro reading) (auto intro: loops_queried)
  then show "steps_in queried (handleStats N A r)" by (simp add: handleStats_def steps_in_def only_def Let_def reflpD[OF queried_order(1)])
  show "steps_in queried (handleStateSnapshot N r)" by (auto simp: handleStateSnapshot_def here split: sum.split)
  show "steps_in queried (handleAccounts N r)" by (auto simp: handleAccounts_def here split: sum.split)
  have "steps_in queried (bindS (scanBlocks N (unat h) skip room) (\<lambda>rows. answer (f rows)))" for h :: u64 and skip room f
    by (intro reading)
  then show "steps_in queried (handleAllTransactions N r)"
    by (auto simp: handleAllTransactions_def steps_in_def only_def Let_def reflpD[OF queried_order(1)] answer_def)
  have "steps_in queried (bindS (blockLoop N k h) (\<lambda>rows. answer (f rows)))" for k h f
    by (intro reading)
  then show "steps_in queried (api_handleBlocks N r)"
    by (simp add: api_handleBlocks_def steps_in_def only_def Let_def reflpD[OF queried_order(1)])
qed

lemma find_transaction_queried: "steps_in queried (findTransaction N h)"
  by (simp add: steps_in_def findTransaction_def reflpD[OF queried_order(1)])

lemma item_views_queried:
  "steps_in queried (handleLatestBlock N r)" "steps_in queried (handleBlock N r)" "steps_in queried (handleBalance N r)"
  "steps_in queried (handleAccountDetail N r)" "steps_in queried (handleTransactionByHash N r)" "steps_in queried (handleTransactions N r)"
  "steps_in queried (handleTransfers N r)" "steps_in queried (handleSearch N r)"
proof -
  note reading = steps_in_only[OF queried_order(1)] steps_in_status[OF queried_order(2,1)] steps_in_next[OF queried_order(2)] steps_in_answer[OF queried_order(1)]
    steps_in_read[OF queried_order(1)] get_block_queried account_view_queried find_transaction_queried get_account_queried
  show "steps_in queried (handleLatestBlock N r)" unfolding handleLatestBlock_def
    by (intro reading on_db_queried querying)
  show "steps_in queried (handleBlock N r)" unfolding handleBlock_def by (auto split: option.split intro!: reading)
  show "steps_in queried (handleBalance N r)" unfolding handleBalance_def Let_def by (auto intro!: reading)
  have "steps_in queried (handleAccountTransactions N r a)" for a
    unfolding handleAccountTransactions_def Let_def by (auto intro!: reading)
  then show "steps_in queried (handleAccountDetail N r)" unfolding handleAccountDetail_def Let_def by (auto intro!: reading)
  show "steps_in queried (handleTransactionByHash N r)" unfolding handleTransactionByHash_def Let_def
    by (auto split: option.split intro!: reading)
  show "steps_in queried (handleTransactions N r)" unfolding handleTransactions_def Let_def
    by (auto intro!: reading on_db_queried querying)
  show "steps_in queried (handleTransfers N r)" unfolding handleTransfers_def Let_def by (auto intro!: reading)
  have hash: "steps_in queried (searchHash N q)" for q unfolding searchHash_def by (auto split: option.split intro!: reading)
  have "steps_in queried (searchAddress N q)" for q unfolding searchAddress_def by (auto intro!: reading hash)
  then show "steps_in queried (handleSearch N r)" unfolding handleSearch_def Let_def by (auto split: option.split intro!: reading)
qed

lemma get_requests_queried:
  assumes "r_method r = ''GET''"
  shows "steps_in queried (ServeHTTP N A r)"
proof -
  have post: "steps_in queried (api_handleTransaction N r)" using assms by (simp add: api_handleTransaction_def only_def)
  have exact: "steps_in queried (handler r)" if "map_of (exactRoutes N A) path = Some handler" for path handler
    using map_of_SomeD[OF that] post list_views_queried item_views_queried by (auto simp: exactRoutes_def)
  have tree: "steps_in queried (handler r)" if "find P (treeRoutes N) = Some (pattern, handler)" for P pattern handler
    using that item_views_queried by (auto simp: treeRoutes_def split: if_splits)
  show ?thesis
    unfolding ServeHTTP_def by (auto split: option.split prod.split dest: exact tree)
qed

end

text \<open>C30: queries leave a node as it is. Whatever \<^verbatim>\<open>GET\<close> request arrives, at whatever path and with whatever
  parameters, chain tip, transaction pool, validators, checkpoints, keys, block files, database and
  account store are the same afterwards, and so is the ledger; also when the handler panics.\<close>

theorem queries_change_nothing:
  assumes "node_ctx N kv" and "r_method r = ''GET''" and "ServeHTTP N A r n = (res, n')"
  shows "n_chain n' = n_chain n \<and> n_pending n' = n_pending n \<and> n_vals n' = n_vals n \<and> n_checkpoints n' = n_checkpoints n
    \<and> n_privateKey n' = n_privateKey n \<and> files (blockStore (n_db n')) = files (blockStore (n_db n)) \<and> db (n_db n') = db (n_db n)
    \<and> stateStore (n_db n') = stateStore (n_db n)
    \<and> (node_ctx.node_ok N kv n \<longrightarrow> node_ctx.node_ok N kv n' \<and> node_ctx.node_ledger N kv n' = node_ctx.node_ledger N kv n)"
  using steps_inD[OF node_ctx.get_requests_queried[OF assms(1,2)] assms(3)] by (simp add: node_ctx.queried_def[OF assms(1)] keeps_def)

section \<open>Heights, hashes and page numbers at the edges\<close>

lemma parse_printed: "ParseUint (dec_u64 h) = Some h"
  using dec_nat_digits unsigned_less[of h, where 'a = nat]
  by (auto simp: ParseUint_def unsigned_of_def dec_u64_def list_all_iff)

text \<open>A block that is in the block files is answered under its decimal height.\<close>

theorem block_found_by_height:
  assumes "r_method r = ''GET''" and "r_path r = ''/block/'' @ dec_u64 h"
    and "stored_block N (files (blockStore (n_db n))) h b" and "blocks_readable N n"
  shows "\<exists>n'. handleBlock N r n = (Inr (JSON (formatBlock (nd_cl N) b)), n')"
proof -
  obtain n' where "getBlock N h n = (Inr b, n')" using get_block_run[OF assms(4,3)] by (auto simp: getBlock_def)
  then show ?thesis using assms(1,2) by (simp add: handleBlock_def only_def TrimPrefix_def parse_printed or_status_def)
qed

text \<open>A search for the hash of a transaction that begins with decimal digits answers with the block at that
  height, when there is one, and never looks for the transaction.\<close>

theorem search_for_hash_finds_block:
  assumes "r_method r = ''GET''" and "r_query r ''q'' = dec_u64 h @ c # rest" and "\<not> is_digit c"
    and "getBlock N h n = (Inr b, n')"
  shows "handleSearch N r n = (Inr (JSON (JObj [(''query'', JStr (r_query r ''q'')), (''found'', JBool True),
    (''type'', JStr ''block''), (''height'', jnum h)])), n')"
proof -
  have d: "\<forall>x\<in>set (dec_u64 h). is_digit x" "dec_u64 h \<noteq> []" using dec_nat_digits by (auto simp: dec_u64_def)
  then obtain x xs where x: "dec_u64 h = x # xs" "is_digit x" by (cases "dec_u64 h") auto
  then have "skipSpace (dec_u64 h @ c # rest) = Some (dec_u64 h @ c # rest)" by (auto simp: is_digit_def)
  moreover have "takeWhile is_digit (dec_u64 h @ c # rest) = dec_u64 h" using d(1) assms(3) by (simp add: takeWhile_append2)
  moreover have "unsigned_of (dec_u64 h) = Some h" using parse_printed[of h] d(1) by (simp add: ParseUint_def list_all_iff)
  ultimately have "Sscanf_uint (dec_u64 h @ c # rest) = Some h" by (simp add: Sscanf_uint_def)
  then show ?thesis using assms(1,2,4) x by (simp add: handleSearch_def only_def Let_def or_next_def found_def answer_def)
qed

text \<open>The offset of the greatest page number wraps below zero, and the slice of the account list panics.\<close>

theorem greatest_page_panics:
  assumes "st_all (n_ops N) (n_db n) = Inr accounts" and "length accounts < 2 ^ 61" and "r_method r = ''GET''"
    and "r_query r ''page'' = ''9223372036854775807''" and "r_query r ''limit'' = ''''"
  shows "handleAccounts N r n = (Inl Panic, n)"
proof -
  have p: "pageParam (r_query r) = 9223372036854775807" "limitParam (r_query r) = 20"
    unfolding pageParam_def limitParam_def assms(4,5)
    by (simp_all add: Sscanf_int_def splitSign_def signed_def is_digit_def dec_value_def Let_def)
  have "sint (pageOffset 9223372036854775807 20) = - 40" by (simp add: pageOffset_def)
  moreover have "sint (of_nat (length accounts) :: i64) = int (length accounts)" using sint_of_int[of "int (length accounts)"] assms(2) by simp
  ultimately have "slicePage 9223372036854775807 20 (sortByBalance accounts) = Inl Panic"
    by (simp add: slicePage_def slice_def Let_def)
  then show ?thesis using assms(1,3) p by (simp add: handleAccounts_def only_def or_status_def Let_def)
qed

section \<open>Witnesses\<close>

definition demo_get :: "string \<Rightarrow> request" where
  "demo_get path = \<lparr>r_method = ''GET'', r_path = path, r_query = (\<lambda>_. ''''), r_body = None\<rparr>"

lemma demo_get_params [simp]:
  "r_method (demo_get path) = ''GET''" "r_path (demo_get path) = path"
  "pageParam (r_query (demo_get path)) = 1" "limitParam (r_query (demo_get path)) = 20"
  by (simp_all add: demo_get_def pageParam_def limitParam_def Sscanf_int_def splitSign_def signed_def)

text \<open>A node whose account store holds the genesis account.\<close>

definition demo_accounts_node :: "ref_db node" where
  "demo_accounts_node = (demo_node [])\<lparr>n_state := NewStateManager (demo_database\<lparr>stateStore := snd (SaveAccount ref_env genesis_account ref_sstore)\<rparr>)\<rparr>"

lemma demo_accounts: "st_all (n_ops demo_prod_env) (n_db demo_accounts_node) = Inr [genesis_account]"
proof -
  obtain s' where run: "SaveAccount ref_env genesis_account ref_sstore = (Inr (), s')" using ref_save_ok[OF ref_sstore_open] by blast
  note s = ref.save_account_sound(1)[OF ref_sstore_wf run] ref.save_account_sound(2)[OF ref_sstore_wf run, of "()"]
  have store: "stateStore (n_db demo_accounts_node) = s'" using run by (simp add: demo_accounts_node_def NewStateManager_def)
  obtain xs where xs: "st_all (n_ops demo_prod_env) (n_db demo_accounts_node) = Inr xs"
    using demo_enumerable by (auto simp: enumerable_def)
  have "distinct (map Address xs) \<and> by_address xs = shard_acct ref_env ref_kv s'"
    using demo_prod.accounts.all_ok[OF _ xs] s(1) by (simp add: store demo_database_def)
  then have d: "distinct (map Address xs)" and b: "by_address xs a = Some x \<longleftrightarrow> a = GenesisAddress \<and> x = genesis_account" for a x
    using s(2) by (auto simp: genesis_account_def)
  have "x \<in> set xs \<longleftrightarrow> x = genesis_account" for x
    using by_address_Some_iff[OF d, of "Address x" x] b[of "Address x" x] by (auto simp: genesis_account_def)
  then have "set xs = {genesis_account}" by blast
  then have "xs = [genesis_account]" using d by (cases xs; cases "tl xs") auto
  then show ?thesis using xs by simp
qed


theorem queries_change_nothing_witness:
  "snd (ServeHTTP demo_prod_env \<lparr>a_peerCount = 3, a_nodeName = ''n''\<rparr> (demo_get ''/status'') (demo_node []))
     = demo_node [] \<and> n_pending (snd (ServeHTTP demo_prod_env \<lparr>a_peerCount = 3, a_nodeName = ''n''\<rparr> (demo_get (''/balance/'' @ demo_user)) (demo_node []))) = []"
proof -
  let ?r = "demo_get (''/balance/'' @ demo_user)"
  obtain res n' where h: "ServeHTTP demo_prod_env \<lparr>a_peerCount = 3, a_nodeName = ''n''\<rparr> ?r (demo_node []) = (res, n')"
    by (cases "ServeHTTP demo_prod_env \<lparr>a_peerCount = 3, a_nodeName = ''n''\<rparr> ?r (demo_node [])")
  have "n_pending n' = []" using queries_change_nothing[OF demo_prod.node_ctx_axioms _ h] by (simp add: demo_node_def)
  then show ?thesis using h by (simp add: ServeHTTP_def exactRoutes_def handleStatus_def only_def answer_def)
qed

theorem transaction_list_is_window_witness:
  "\<exists>n n'. handleAllTransactions demo_prod_env (demo_get ''/transactions'') n
     = (Inr (JSON (JObj ((''transactions'', JArr []) # pageFields 2 1 20))), n')"
proof -
  obtain D where D: "demo_disk 2 D" using demo_disk_exists by blast
  note F = demo_restart_facts[OF D]
  have h: "GetLatestHeight (nd_db demo_prod_env) (n_db (demo_restart D)) = Inr 2" using D F(3) by (simp add: demo_disk_def)
  have b: "\<forall>k. 0 < k \<and> k \<le> unat (2 :: u64) \<longrightarrow>
      stored_block demo_prod_env (files (blockStore (n_db (demo_restart D)))) (of_nat k) (demo_empty_block (of_nat k))"
  proof (intro allI impI)
    fix k :: nat assume "0 < k \<and> k \<le> unat (2 :: u64)"
    then have "k = 1 \<or> k = 2" by auto
    then show "stored_block demo_prod_env (files (blockStore (n_db (demo_restart D)))) (of_nat k) (demo_empty_block (of_nat k))"
      using D F(3) by (auto simp: demo_disk_def)
  qed
  have "chainRows cl demo_empty_block 2 = []" for cl by (simp add: numeral_2_eq_2)
  with transaction_list_is_window[OF _ h _ b F(2), of "demo_get ''/transactions''"] show ?thesis by auto
qed

end
