(* ===== verification/Wallet_Tools.thy ===== *)
theory Wallet_Tools
  imports Api_Claims
begin

text \<open>
  The command-line wallets: \<^verbatim>\<open>tools/transfer.go\<close>, \<^verbatim>\<open>tools/stake.go\<close>, \<^verbatim>\<open>tools/unstake.go\<close> and
  \<^verbatim>\<open>tools/transfer_smart/\<close> with its nonce manager. Each builds a transaction, signs it and posts it to a
  node. The node is a parameter \<open>http\<close>, the request and what comes back; the theorems fill it with
  \<open>ServeHTTP\<close>, the model of the HTTP interface.

  The tools declare the transaction of \<^verbatim>\<open>core\<close> once more, so they share the record \<open>transaction\<close>; only the
  smart wallet declares its own, without gas limit and with an identifier that a node ignores. A key
  file is its content, \<open>None\<close> when it cannot be read. Addresses need no escaping in a URL. Text that is
  printed is left out.
\<close>

section \<open>Talking to a node\<close>

type_synonym 's http = "request \<Rightarrow> ('s, response) step"

definition balanceRequest :: "string \<Rightarrow> request" where
  "balanceRequest address = \<lparr>r_method = ''GET'', r_path = ''/balance/'' @ address, r_query = (\<lambda>_. ''''), r_body = None\<rparr>"

definition transactionRequest :: "transaction \<Rightarrow> request" where
  "transactionRequest tx = \<lparr>r_method = ''POST'', r_path = ''/transaction'', r_query = (\<lambda>_. ''''), r_body = Some tx\<rparr>"

text \<open>The client has no timeout, so it waits for ever with a node that does not return; a connection that
  breaks, as when the handler panics, is an error.\<close>

definition call :: "'s http \<Rightarrow> request \<Rightarrow> ('s, response) step" where
  "call http req s = (case http req s of
     (Inl e, s') \<Rightarrow> (Inl (if e = Deadlock then Deadlock else ErrIO), s')
   | (Inr (HttpError code), s') \<Rightarrow> (Inl Other, s')
   | (Inr resp, s') \<Rightarrow> (Inr resp, s'))"

text \<open>Decoding an answer into a struct with a field \<^verbatim>\<open>nonce\<close> of type \<^verbatim>\<open>uint64\<close>: a missing field is 0.\<close>

definition nonceField :: "response \<Rightarrow> error + u64" where
  "nonceField resp = (case resp of
     JSON (JObj kvs) \<Rightarrow> (case map_of kvs ''nonce'' of
         None \<Rightarrow> Inr 0
       | Some (JNum v) \<Rightarrow> if 0 \<le> v \<and> v < 2 ^ 64 then Inr (of_int v) else Inl ErrDecode
       | Some _ \<Rightarrow> Inl ErrDecode)
   | _ \<Rightarrow> Inl ErrDecode)"

definition unstake_queryAccountNonce :: "'s http \<Rightarrow> string \<Rightarrow> ('s, u64) step" where
  "unstake_queryAccountNonce http address = bindS (call http (balanceRequest address)) (\<lambda>resp. Pair (nonceField resp))"

definition sendTransaction :: "'s http \<Rightarrow> transaction \<Rightarrow> ('s, unit) step" where
  "sendTransaction http tx = bindS (call http (transactionRequest tx)) (\<lambda>_. Pair (Inr ()))"

section \<open>Transfer and stake\<close>

definition tool_uint64ToBytes :: "u64 \<Rightarrow> bytes" where
  "tool_uint64ToBytes n = be_put64 n"

definition getSignData :: "transaction \<Rightarrow> bytes" where
  "getSignData tx = [Type tx] @ string_bytes (From tx) @ string_bytes (To tx) @ tool_uint64ToBytes (Amount tx)
     @ tool_uint64ToBytes (GasFee tx) @ tool_uint64ToBytes (Timestamp tx) @ (if length (TxData tx) > 0 then TxData tx else [])"

definition signTransaction :: "crypto_lib \<Rightarrow> bytes \<Rightarrow> bytes \<Rightarrow> error + bytes" where
  "signTransaction cl privateKeyBytes message =
     (if length privateKeyBytes = 0 then Inl Other
      else if \<not> mldsa_priv_ok cl privateKeyBytes then Inl Other
      else mldsa_sign cl privateKeyBytes message)"

definition tool_calculateTxHash :: "crypto_lib \<Rightarrow> bytes \<Rightarrow> string" where
  "tool_calculateTxHash cl signData = hex_encode (sha3_256 cl signData)"

text \<open>The flags of the tools. With \<^verbatim>\<open>-out\<close> the transaction goes to a file instead of a node.\<close>

record tool_args =
  ta_from :: string
  ta_to :: string
  ta_amount :: u64
  ta_gas :: u64
  ta_key :: "bytes option"
  ta_pub :: "bytes option"
  ta_out :: bool

datatype tool_end = Usage | SavedFile transaction | Submitted transaction string

record tool_env =
  te_cl :: crypto_lib
  te_clock :: i64
  te_disk_ok :: bool

definition newToolTx :: "u8 \<Rightarrow> string \<Rightarrow> string \<Rightarrow> u64 \<Rightarrow> u64 \<Rightarrow> u64 \<Rightarrow> i64 \<Rightarrow> bytes \<Rightarrow> transaction" where
  "newToolTx type from to amount gasFee nonce now pub = \<lparr>Type = type, From = from, To = to, Amount = amount, GasFee = gasFee,
     TxNonce = nonce, Timestamp = now, TxData = [], GasLimit = 0, Signature = [], PublicKey = pub\<rparr>"

definition with_keys :: "tool_args \<Rightarrow> (bytes \<Rightarrow> bytes \<Rightarrow> ('s, 'a) step) \<Rightarrow> ('s, 'a) step" where
  "with_keys a f = (case (ta_key a, ta_pub a) of (Some priv, Some pub) \<Rightarrow> f priv pub | _ \<Rightarrow> Pair (Inl ErrIO))"

definition sign_and_send :: "tool_env \<Rightarrow> bool \<Rightarrow> 's http \<Rightarrow> transaction \<Rightarrow> bytes \<Rightarrow> bytes \<Rightarrow> ('s, tool_end) step" where
  "sign_and_send te toFile http tx0 priv signData = (case signTransaction (te_cl te) priv signData of
     Inl e \<Rightarrow> Pair (Inl e)
   | Inr sig \<Rightarrow> let tx = tx0\<lparr>Signature := sig\<rparr>; txHash = tool_calculateTxHash (te_cl te) signData in
       if toFile then (if te_disk_ok te then Pair (Inr (SavedFile tx)) else Pair (Inl ErrIO))
       else bindS (sendTransaction http tx) (\<lambda>_. Pair (Inr (Submitted tx txHash))))"

definition transfer_main :: "tool_env \<Rightarrow> tool_args \<Rightarrow> 's http \<Rightarrow> ('s, tool_end) step" where
  "transfer_main te a http =
     (if ta_from a = '''' \<or> ta_to a = '''' \<or> ta_amount a = 0 then Pair (Inr Usage)
      else with_keys a (\<lambda>priv pub.
        let tx = newToolTx TxTransfer (ta_from a) (ta_to a) (ta_amount a) (ta_gas a) 0 (te_clock te) pub in
        sign_and_send te (ta_out a) http tx priv (getSignData tx)))"

definition stake_main :: "tool_env \<Rightarrow> tool_args \<Rightarrow> 's http \<Rightarrow> ('s, tool_end) step" where
  "stake_main te a http =
     (if ta_from a = '''' \<or> ta_amount a = 0 then Pair (Inr Usage)
      else with_keys a (\<lambda>priv pub.
        let tx = newToolTx TxStake (ta_from a) (ta_from a) (ta_amount a) 0 0 (te_clock te) pub in
        sign_and_send te (ta_out a) http tx priv (getSignData tx)))"

section \<open>Unstake\<close>

text \<open>This tool asks for the nonce, signs it, and leaves the receiver empty.\<close>

definition unstake_getSignData :: "transaction \<Rightarrow> bytes" where
  "unstake_getSignData tx = [Type tx] @ string_bytes (From tx) @ string_bytes (To tx) @ tool_uint64ToBytes (Amount tx)
     @ tool_uint64ToBytes (GasFee tx) @ tool_uint64ToBytes (TxNonce tx) @ tool_uint64ToBytes (Timestamp tx)
     @ (if length (TxData tx) > 0 then TxData tx else [])"

definition unstake_main :: "tool_env \<Rightarrow> tool_args \<Rightarrow> 's http \<Rightarrow> ('s, tool_end) step" where
  "unstake_main te a http =
     (if ta_from a = '''' \<or> ta_amount a = 0 then Pair (Inr Usage)
      else with_keys a (\<lambda>priv pub. bindS (unstake_queryAccountNonce http (ta_from a)) (\<lambda>nonce.
        let tx = newToolTx TxUnstake (ta_from a) '''' (ta_amount a * 1000000) (ta_gas a) nonce (te_clock te) pub in
        sign_and_send te False http tx priv (unstake_getSignData tx))))"

section \<open>The nonce manager of the smart wallet\<close>

text \<open>The cache file holds one JSON object; the map in it may be null, and then it is a nil map in the
  program. \<open>we_written\<close> is what the file holds after an attempt to write it, whose error is ignored.\<close>

datatype cache_file = NoCache | Unreadable | Cached "(string, u64) gomap option"

record 's wallet =
  w_node :: 's
  w_pending :: "(string, u64) gomap option"
  w_cache :: cache_file

record wallet_env =
  we_cl :: crypto_lib
  we_clock :: "nat \<Rightarrow> i64"
  we_written :: "cache_file \<Rightarrow> cache_file"

definition on_node :: "('s, 'a) step \<Rightarrow> ('s wallet, 'a) step" where
  "on_node m w = (case m (w_node w) of (r, s) \<Rightarrow> (r, w\<lparr>w_node := s\<rparr>))"

definition loadCache :: "cache_file \<Rightarrow> (string, u64) gomap option" where
  "loadCache file = (case file of Cached m \<Rightarrow> m | _ \<Rightarrow> Some [])"

definition saveCache :: "wallet_env \<Rightarrow> 's wallet \<Rightarrow> 's wallet" where
  "saveCache we w = w\<lparr>w_cache := we_written we (Cached (w_pending w))\<rparr>"

definition NewNonceManager :: "'s \<Rightarrow> cache_file \<Rightarrow> 's wallet" where
  "NewNonceManager node file = \<lparr>w_node = node, w_pending = loadCache file, w_cache = file\<rparr>"

definition localPending :: "'s wallet \<Rightarrow> string \<Rightarrow> u64 option" where
  "localPending w address = (case w_pending w of None \<Rightarrow> None | Some m \<Rightarrow> map_of m address)"

definition queryChainNonce :: "'s http \<Rightarrow> string \<Rightarrow> ('s wallet, u64) step" where
  "queryChainNonce http address = on_node (bindS (call http (balanceRequest address)) (\<lambda>resp. Pair (nonceField resp)))"

text \<open>Writing to a nil map panics.\<close>

definition GetNextNonce :: "wallet_env \<Rightarrow> 's http \<Rightarrow> string \<Rightarrow> ('s wallet, u64) step" where
  "GetNextNonce we http address = bindS (queryChainNonce http address) (\<lambda>confirmedNonce w.
     let nextNonce = (case localPending w address of
           Some localPendingNonce \<Rightarrow> if confirmedNonce \<le> localPendingNonce then localPendingNonce + 1 else confirmedNonce
         | None \<Rightarrow> confirmedNonce) in
     case w_pending w of
       None \<Rightarrow> (Inl Panic, w)
     | Some m \<Rightarrow> (Inr nextNonce, saveCache we (w\<lparr>w_pending := Some (AList.update address nextNonce m)\<rparr>)))"

definition ResetNonce :: "wallet_env \<Rightarrow> string \<Rightarrow> 's wallet \<Rightarrow> 's wallet" where
  "ResetNonce we address w = saveCache we (w\<lparr>w_pending := map_option (AList.delete address) (w_pending w)\<rparr>)"

definition ClearAllCache :: "wallet_env \<Rightarrow> 's wallet \<Rightarrow> 's wallet" where
  "ClearAllCache we w = saveCache we (w\<lparr>w_pending := Some []\<rparr>)"

text \<open>An error of the query counts as 0; a node that does not answer blocks the tool.\<close>

definition GetPendingCount :: "'s http \<Rightarrow> string \<Rightarrow> ('s wallet, int) step" where
  "GetPendingCount http address w = (case queryChainNonce http address w of
     (Inl e, w') \<Rightarrow> (if fatal e then Inl e else Inr 0, w')
   | (Inr confirmedNonce, w') \<Rightarrow> (Inr (case localPending w' address of
       None \<Rightarrow> 0
     | Some localPendingNonce \<Rightarrow> if localPendingNonce < confirmedNonce then 0 else sint (localPendingNonce - confirmedNonce + 1)), w'))"

text \<open>What \<^verbatim>\<open>ShowStatus\<close> prints as the next free nonce. An entry that is missing counts as 0.\<close>

definition ShowStatus :: "'s http \<Rightarrow> string \<Rightarrow> ('s wallet, u64) step" where
  "ShowStatus http address = bindS (queryChainNonce http address) (\<lambda>confirmedNonce w.
     let localPendingNonce = (case localPending w address of None \<Rightarrow> 0 | Some v \<Rightarrow> v) in
     (Inr (max confirmedNonce (localPendingNonce + 1)), w))"

section \<open>The smart wallet\<close>

record smart_tx =
  st_Type :: u8
  st_From :: string
  st_To :: string
  st_Amount :: u64
  st_GasFee :: u64
  st_Nonce :: u64
  st_Timestamp :: i64
  st_Data :: bytes
  st_Signature :: bytes
  st_PublicKey :: bytes
  st_ID :: string

definition smart_uint64ToBytes :: "u64 \<Rightarrow> bytes" where
  "smart_uint64ToBytes n = map (\<lambda>k. ucast (drop_bit ((7 - k) * 8) n)) [0..<8]"

definition serializeForSigning :: "smart_tx \<Rightarrow> bytes" where
  "serializeForSigning tx = [st_Type tx] @ string_bytes (st_From tx) @ string_bytes (st_To tx) @ smart_uint64ToBytes (st_Amount tx)
     @ smart_uint64ToBytes (st_GasFee tx) @ smart_uint64ToBytes (st_Nonce tx) @ smart_uint64ToBytes (st_Timestamp tx)
     @ (if length (st_Data tx) > 0 then st_Data tx else [])"

definition smart_signTransaction :: "crypto_lib \<Rightarrow> smart_tx \<Rightarrow> bytes \<Rightarrow> error + bytes" where
  "smart_signTransaction cl tx privateKeyBytes =
     (if \<not> mldsa_priv_ok cl privateKeyBytes then Inl Other else mldsa_sign cl privateKeyBytes (serializeForSigning tx))"

definition calculateTxHash :: "crypto_lib \<Rightarrow> smart_tx \<Rightarrow> string" where
  "calculateTxHash cl tx = hex_encode (sha3_256 cl (serializeForSigning tx @ st_Signature tx @ st_PublicKey tx))"

text \<open>The transaction that a node decodes from the JSON of the wallet.\<close>

definition decoded :: "smart_tx \<Rightarrow> transaction" where
  "decoded tx = \<lparr>Type = st_Type tx, From = st_From tx, To = st_To tx, Amount = st_Amount tx, GasFee = st_GasFee tx, TxNonce = st_Nonce tx,
     Timestamp = st_Timestamp tx, TxData = st_Data tx, GasLimit = 0, Signature = st_Signature tx, PublicKey = st_PublicKey tx\<rparr>"

definition submitTransaction :: "'s http \<Rightarrow> smart_tx \<Rightarrow> ('s wallet, string) step" where
  "submitTransaction http tx = bindS (on_node (call http (transactionRequest (decoded tx)))) (\<lambda>resp. Pair (case resp of
     JSON (JObj kvs) \<Rightarrow> (case map_of kvs ''hash'' of Some (JStr h) \<Rightarrow> Inr h | _ \<Rightarrow> Inl Other)
   | _ \<Rightarrow> Inl ErrDecode))"

definition smart_queryAccountNonce :: "'s http \<Rightarrow> string \<Rightarrow> ('s wallet, u64) step" where
  "smart_queryAccountNonce http address = on_node (bindS (call http (balanceRequest address)) (\<lambda>resp. Pair (nonceField resp)))"

record smart_args = tool_args +
  sa_count :: int
  sa_autoNonce :: bool
  sa_resetCache :: bool
  sa_showStatus :: bool

definition newSmartTx :: "wallet_env \<Rightarrow> smart_args \<Rightarrow> nat \<Rightarrow> u64 \<Rightarrow> smart_tx" where
  "newSmartTx we a i nonce = \<lparr>st_Type = TxTransfer, st_From = ta_from a, st_To = ta_to a, st_Amount = ta_amount a * 1000000, st_GasFee = 1,
     st_Nonce = nonce, st_Timestamp = we_clock we i, st_Data = [], st_Signature = [], st_PublicKey = [], st_ID = ''''\<rparr>"

text \<open>One round of the loop. After a failed submission the cached nonce is dropped.\<close>

definition sendOne :: "wallet_env \<Rightarrow> smart_args \<Rightarrow> 's http \<Rightarrow> bytes \<Rightarrow> bytes \<Rightarrow> nat \<Rightarrow> ('s wallet, string) step" where
  "sendOne we a http priv pub i =
     bindS (if sa_autoNonce a then GetNextNonce we http (ta_from a) else smart_queryAccountNonce http (ta_from a)) (\<lambda>nonce.
       let tx = newSmartTx we a i nonce in
       case smart_signTransaction (we_cl we) tx priv of
         Inl e \<Rightarrow> Pair (Inl e)
       | Inr sig \<Rightarrow> let tx1 = tx\<lparr>st_Signature := sig, st_PublicKey := pub\<rparr>; tx2 = tx1\<lparr>st_ID := calculateTxHash (we_cl we) tx1\<rparr> in
           (\<lambda>w. case submitTransaction http tx2 w of
             (Inl e, w') \<Rightarrow> (Inl e, if sa_autoNonce a \<and> \<not> fatal e then ResetNonce we (ta_from a) w' else w')
           | (Inr txHash, w') \<Rightarrow> (Inr txHash, w')))"

fun sendLoop :: "wallet_env \<Rightarrow> smart_args \<Rightarrow> 's http \<Rightarrow> bytes \<Rightarrow> bytes \<Rightarrow> nat \<Rightarrow> nat \<Rightarrow> ('s wallet, (error + string) list) step" where
  "sendLoop we a http priv pub 0 i w = (Inr [], w)"
| "sendLoop we a http priv pub (Suc k) i w = (case sendOne we a http priv pub i w of (r, w1) \<Rightarrow>
     (case r of
        Inl e \<Rightarrow> if fatal e then (Inl e, w1) else bindS (sendLoop we a http priv pub k (i + 1)) (\<lambda>rs. Pair (Inr (Inl e # rs))) w1
      | Inr txHash \<Rightarrow> bindS (sendLoop we a http priv pub k (i + 1)) (\<lambda>rs. Pair (Inr (Inr txHash # rs))) w1))"

datatype smart_end = CacheCleared | StatusShown "u64 option" | SmartUsage | Sent "(error + string) list" int

text \<open>An error of \<^verbatim>\<open>ShowStatus\<close> is printed and nothing else.\<close>

definition shown :: "('s, u64) step \<Rightarrow> ('s, u64 option) step" where
  "shown m w = (case m w of
     (Inl e, w') \<Rightarrow> (if fatal e then Inl e else Inr None, w')
   | (Inr v, w') \<Rightarrow> (Inr (Some v), w'))"

definition smart_main :: "wallet_env \<Rightarrow> smart_args \<Rightarrow> 's http \<Rightarrow> ('s wallet, smart_end) step" where
  "smart_main we a http =
     (if sa_resetCache a then (\<lambda>w. (Inr CacheCleared, ClearAllCache we w))
      else if sa_showStatus a then (if ta_from a = '''' then Pair (Inl Other)
        else bindS (shown (ShowStatus http (ta_from a))) (\<lambda>v. Pair (Inr (StatusShown v))))
      else if ta_from a = '''' \<or> ta_to a = '''' \<or> ta_amount a = 0 then Pair (Inr SmartUsage)
      else case (ta_key a, ta_pub a) of
        (Some priv, Some pub) \<Rightarrow>
          bindS (if sa_autoNonce a then shown (ShowStatus http (ta_from a)) else Pair (Inr None)) (\<lambda>_.
          bindS (sendLoop we a http priv pub (nat (sa_count a)) 0) (\<lambda>rs.
            if sa_autoNonce a \<and> list_ex (\<lambda>r. \<not> isl r) rs
            then bindS (GetPendingCount http (ta_from a)) (\<lambda>c. Pair (Inr (Sent rs c)))
            else Pair (Inr (Sent rs 0))))
      | _ \<Rightarrow> Pair (Inl ErrIO))"

end
