(* ===== verification/Wallet_Claims.thy ===== *)
theory Wallet_Claims
  imports Wallet_Tools
begin

text \<open>
  What becomes of the transactions that the command-line wallets send. The signatures of the transfer
  and the stake tool are those a node verifies; the smart wallet and the unstake tool sign the nonce
  too, which a node leaves out. All four read their clock in seconds where a node counts in
  milliseconds, so that no node accepts what they send. The nonce manager hands out consecutive
  nonces.
\<close>

section \<open>Signed bytes\<close>

lemma tool_sign_data: "getSignData tx = SignData tx"
  by (simp add: getSignData_def SignData_def tool_uint64ToBytes_def Uint64ToBytes_def)

lemma unstake_sign_data: "length (unstake_getSignData tx) = length (SignData tx) + 8"
  by (simp add: unstake_getSignData_def SignData_def tool_uint64ToBytes_def Uint64ToBytes_def)

lemma smart_uint64: "smart_uint64ToBytes n = be_put64 n"
  by (simp add: smart_uint64ToBytes_def be_put64_def upt_rec)

lemma smart_sign_data: "length (serializeForSigning tx) = length (SignData (decoded tx)) + 8"
  by (simp add: serializeForSigning_def SignData_def smart_uint64 Uint64ToBytes_def decoded_def)

lemma tool_signs: "signTransaction cl priv m = Inr sig \<longleftrightarrow> Sign cl priv m = Inr sig"
  by (simp add: signTransaction_def Sign_def)

lemma newToolTx_simps [simp]:
  "Type (newToolTx ty f t am g k ts pub) = ty" "From (newToolTx ty f t am g k ts pub) = f" "To (newToolTx ty f t am g k ts pub) = t"
  "TxNonce (newToolTx ty f t am g k ts pub) = k" "Timestamp (newToolTx ty f t am g k ts pub) = ts"
  "PublicKey (newToolTx ty f t am g k ts pub) = pub" "GasFee (newToolTx ty f t am g k ts pub) = g" "Amount (newToolTx ty f t am g k ts pub) = am"
  by (simp_all add: newToolTx_def)

lemma signature_not_signed [simp]: "SignData (tx\<lparr>Signature := s\<rparr>) = SignData tx" "Tx_Hash cl (tx\<lparr>Signature := s\<rparr>) = Tx_Hash cl tx"
  by (simp_all add: SignData_def Tx_Hash_def)

lemma steps_in_call: "steps_in R (http req) \<Longrightarrow> steps_in R (call http req)"
proof -
  have "snd (call http req s) = snd (http req s)" for s
    by (cases "http req s"; cases "fst (http req s)"; cases "projr (fst (http req s))") (auto simp: call_def)
  then show "steps_in R (http req) \<Longrightarrow> ?thesis" by (simp add: steps_in_def)
qed

section \<open>Submissions with an old timestamp\<close>

text \<open>The clocks: the node has passed \<open>1000 * t\<close> milliseconds when a tool reads at most \<open>t\<close> seconds.\<close>

definition expired :: "'d node_env \<Rightarrow> i64 \<Rightarrow> bool" where
  "expired N ts \<longleftrightarrow> sint (MaxTimestampDrift (Blocks (nd_cfg N))) < sint (timestamp_drift (nd_now N) ts)"

lemma expired_seconds:
  assumes "MaxTimestampDrift (Blocks (nd_cfg N)) = 300000" and "nd_now N = of_int T"
    and "301 \<le> t" and "1000 * t \<le> T" and "T < 2 ^ 62" and "0 \<le> x" and "x \<le> t"
  shows "expired N (of_int x)"
proof -
  have d: "sint (of_int x - of_int T :: i64) = x - T" using sint_of_int[of "x - T"] assms(3-7) by simp
  have "sint (- (of_int x - of_int T) :: i64) = T - x" using sint_of_int[of "T - x"] assms(3-7) by simp
  then show ?thesis using d assms by (simp add: expired_def timestamp_drift_def Let_def)
qed

lemma expired_invalid: "expired N (Timestamp tx) \<Longrightarrow> \<exists>e. Tx_Validate (nd_cfg N) (nd_now N) False tx = Inl e"
  by (simp add: Tx_Validate_def expired_def)

context node_ctx
begin

lemma assign_nonce_queried:
  "steps_in queried (assignNonce N tx)" "assignNonce N tx n = (Inr tx', n') \<Longrightarrow> \<exists>k. tx' = tx\<lparr>TxNonce := k\<rparr>"
proof -
  have q: "queried n n'" if "on_sm (GetNonce (n_ops N) (From tx)) n = (r, n')" for r n n'
    using get_nonce_looks(1)[OF that] by (rule looks_queried)
  then have "steps_in queried (on_sm (GetNonce (n_ops N) (From tx)))"
    by (simp add: steps_in_def) (metis prod.collapse)
  moreover have "steps_in queried (\<lambda>n. let tx' = f n in case slice_to 10 (From tx) of Inl e \<Rightarrow> (Inl e, n) | Inr _ \<Rightarrow> (Inr tx', n))"
    for f :: "'d node \<Rightarrow> transaction"
    by (simp add: steps_in_def Let_def reflpD[OF queried_order(1)] split: sum.split)
  ultimately show "steps_in queried (assignNonce N tx)"
    unfolding assignNonce_def by (auto intro!: steps_in_bind[OF queried_order(2)])
  show "assignNonce N tx n = (Inr tx', n') \<Longrightarrow> \<exists>k. tx' = tx\<lparr>TxNonce := k\<rparr>"
    by (auto simp: assignNonce_def bindS_Inr_iff Let_def slice_to_def split: if_splits intro: exI[of _ "TxNonce tx"])
qed

lemma submit_expired:
  assumes "expired N (Timestamp tx)"
  shows "steps_in queried (SubmitTransaction N tx)" and "isl (fst (SubmitTransaction N tx n))"
proof -
  have "isl (fst (SubmitTransaction N tx n)) \<and> queried n (snd (SubmitTransaction N tx n))" for n
  proof -
    obtain r n1 where a: "assignNonce N tx n = (r, n1)" by (cases "assignNonce N tx n")
    note q = steps_inD[OF assign_nonce_queried(1) a]
    show ?thesis
    proof (cases r)
      case (Inr tx')
      with assign_nonce_queried(2) a obtain k where "tx' = tx\<lparr>TxNonce := k\<rparr>" by blast
      then obtain e where "Tx_Validate (nd_cfg N) (nd_now N) False tx' = Inl e" using expired_invalid[of N tx'] assms by auto
      then show ?thesis using a Inr q by (simp add: SubmitTransaction_def bindS_def reflpD[OF queried_order(1)])
    qed (use a q in \<open>simp add: SubmitTransaction_def bindS_def reflpD[OF queried_order(1)]\<close>)
  qed
  then show "steps_in queried (SubmitTransaction N tx)" "isl (fst (SubmitTransaction N tx n))"
    by (simp_all add: steps_in_def)
qed

lemma post_expired:
  assumes "expired N (Timestamp tx)"
  shows "steps_in queried (call (ServeHTTP N A) (transactionRequest tx))"
    and "isl (fst (call (ServeHTTP N A) (transactionRequest tx) n))"
proof -
  have "queried n (snd (call (ServeHTTP N A) (transactionRequest tx) n)) \<and> isl (fst (call (ServeHTTP N A) (transactionRequest tx) n))" for n
  proof -
    obtain r n1 where s: "SubmitTransaction N tx n = (r, n1)" by (cases "SubmitTransaction N tx n")
    then obtain e where "r = Inl e" "queried n n1"
      using submit_expired[OF assms] by (metis fst_conv isl_def steps_inD)
    then show ?thesis using s
      by (auto simp: call_def ServeHTTP_def transactionRequest_def exactRoutes_def api_handleTransaction_def only_def or_status_def
          reflpD[OF queried_order(1)] split: sum.split)
  qed
  then show "steps_in queried (call (ServeHTTP N A) (transactionRequest tx))" "isl (fst (call (ServeHTTP N A) (transactionRequest tx) n))"
    by (simp_all add: steps_in_def)
qed

lemma balance_query: "steps_in queried (call (ServeHTTP N A) (balanceRequest a))"
  by (intro steps_in_call get_requests_queried) (simp add: balanceRequest_def)


text \<open>Runs of a tool that change nothing in the node and end without a submitted transaction.\<close>

definition refused :: "('d node, tool_end) step \<Rightarrow> bool" where
  "refused m \<longleftrightarrow> steps_in queried m \<and> (\<forall>n tx h. fst (m n) \<noteq> Inr (Submitted tx h))"

lemma refused_result [simp]: "refused (Pair r) \<longleftrightarrow> (\<forall>tx h. r \<noteq> Inr (Submitted tx h))"
  by (auto simp: refused_def)

lemma refused_bind:
  assumes "steps_in queried m" and "\<And>a. refused (f a)"
  shows "refused (bindS m f)"
  using assms steps_in_bind[OF queried_order(2), of m f]
  by (auto simp: refused_def bindS_def split: prod.split sum.split)

lemma refused_fails:
  assumes "steps_in queried m" and "\<And>n. isl (fst (m n))"
  shows "refused (bindS m f)"
proof -
  have "bindS m f n = (Inl (projl (fst (m n))), snd (m n))" for n
    using assms(2)[of n] by (cases "m n") (auto simp: bindS_def isl_def)
  then show ?thesis using assms(1) by (simp add: refused_def steps_in_def)
qed

lemma refused_with_keys: "(\<And>priv pub. refused (f priv pub)) \<Longrightarrow> refused (with_keys a f)"
  by (simp add: with_keys_def split: option.split)

lemma refused_post:
  assumes "expired N (Timestamp tx)"
  shows "refused (sign_and_send te toFile (ServeHTTP N A) tx priv d)"
proof -
  have "refused (bindS (sendTransaction (ServeHTTP N A) (tx\<lparr>Signature := s\<rparr>)) f)" for s f
  proof (rule refused_fails)
    note p = post_expired[of "tx\<lparr>Signature := s\<rparr>" A]
    then show "steps_in queried (sendTransaction (ServeHTTP N A) (tx\<lparr>Signature := s\<rparr>))"
      using assms unfolding sendTransaction_def by (auto intro!: steps_in_bind[OF queried_order(2)])
    show "isl (fst (sendTransaction (ServeHTTP N A) (tx\<lparr>Signature := s\<rparr>) n))" for n
      using p(2)[of n] assms by (cases "call (ServeHTTP N A) (transactionRequest (tx\<lparr>Signature := s\<rparr>)) n")
        (auto simp: sendTransaction_def bindS_def isl_def)
  qed
  then show ?thesis by (simp add: sign_and_send_def Let_def split: sum.split)
qed

lemma tools_refused:
  assumes "expired N (te_clock te)" and "main \<in> {transfer_main, stake_main, unstake_main}"
  shows "refused (main te a (ServeHTTP N A))"
proof -
  have "steps_in queried (unstake_queryAccountNonce (ServeHTTP N A) x)" for x
    unfolding unstake_queryAccountNonce_def by (intro steps_in_bind[OF queried_order(2)] balance_query) simp
  then show ?thesis
    using assms by (auto simp: transfer_main_def stake_main_def unstake_main_def Let_def intro!: refused_with_keys refused_post refused_bind)
qed

text \<open>The smart wallet.\<close>

definition wallet_queried :: "'d node wallet \<Rightarrow> 'd node wallet \<Rightarrow> bool" where
  "wallet_queried w w' \<longleftrightarrow> queried (w_node w) (w_node w')"

lemma wallet_queried_order [simp]: "reflp wallet_queried" "transp wallet_queried"
  using queried_order by (auto simp: wallet_queried_def reflp_def transp_def)

lemma wallet_cache [simp]: "w_node (saveCache we w) = w_node w" "w_node (ResetNonce we a w) = w_node w" "w_node (ClearAllCache we w) = w_node w"
  by (simp_all add: saveCache_def ResetNonce_def ClearAllCache_def)

lemma on_node_queried: "steps_in queried m \<Longrightarrow> steps_in wallet_queried (on_node m)"
  by (auto simp: steps_in_def wallet_queried_def on_node_def split: prod.split) (metis snd_conv)

lemmas wallet_bind = steps_in_bind[OF wallet_queried_order(2)]

lemma wallet_asks:
  "steps_in wallet_queried (queryChainNonce (ServeHTTP N A) x)" "steps_in wallet_queried (smart_queryAccountNonce (ServeHTTP N A) x)"
  "steps_in wallet_queried (GetNextNonce we (ServeHTTP N A) x)" "steps_in wallet_queried (shown (ShowStatus (ServeHTTP N A) x))"
  "steps_in wallet_queried (GetPendingCount (ServeHTTP N A) x)"
proof -
  show q: "steps_in wallet_queried (queryChainNonce (ServeHTTP N A) x)" "steps_in wallet_queried (smart_queryAccountNonce (ServeHTTP N A) x)"
    unfolding queryChainNonce_def smart_queryAccountNonce_def
    by (auto intro!: on_node_queried steps_in_bind[OF queried_order(2)] balance_query)
  have here: "reflp wallet_queried" by simp
  show "steps_in wallet_queried (GetNextNonce we (ServeHTTP N A) x)"
    unfolding GetNextNonce_def
    by (intro wallet_bind q) (simp add: steps_in_def wallet_queried_def Let_def reflpD[OF queried_order(1)] split: option.split)
  have "steps_in wallet_queried (ShowStatus (ServeHTTP N A) x)"
    unfolding ShowStatus_def by (intro wallet_bind q) (simp add: steps_in_def Let_def reflpD[OF here])
  moreover have "snd (shown m w) = snd (m w)" for m :: "('d node wallet, u64) step" and w
    by (cases "m w") (simp add: shown_def split: sum.split)
  ultimately show "steps_in wallet_queried (shown (ShowStatus (ServeHTTP N A) x))" by (simp add: steps_in_def)
  have "snd (GetPendingCount http x w) = snd (queryChainNonce http x w)" for http :: "'d node http" and w
    by (cases "queryChainNonce http x w") (simp add: GetPendingCount_def split: sum.split)
  then show "steps_in wallet_queried (GetPendingCount (ServeHTTP N A) x)" using q(1) by (simp add: steps_in_def)
qed

lemma send_one_refused:
  assumes "\<And>i. expired N (we_clock we i)"
  shows "steps_in wallet_queried (sendOne we a (ServeHTTP N A) priv pub i)" and "isl (fst (sendOne we a (ServeHTTP N A) priv pub i w))"
proof -
  have submit: "\<exists>e w'. submitTransaction (ServeHTTP N A) (newSmartTx we a i k\<lparr>st_Signature := s, st_PublicKey := pub, st_ID := h\<rparr>) w = (Inl e, w')
      \<and> wallet_queried w w'" for k s h w
  proof -
    let ?tx = "decoded (newSmartTx we a i k\<lparr>st_Signature := s, st_PublicKey := pub, st_ID := h\<rparr>)"
    have "expired N (Timestamp ?tx)" using assms by (simp add: decoded_def newSmartTx_def)
    note p = post_expired[OF this, of A]
    obtain r n' where c: "call (ServeHTTP N A) (transactionRequest ?tx) (w_node w) = (r, n')" by (cases "call (ServeHTTP N A) (transactionRequest ?tx) (w_node w)")
    then obtain e where "r = Inl e" "queried (w_node w) n'" using p by (metis fst_conv isl_def steps_inD)
    then show ?thesis using c by (simp add: submitTransaction_def bindS_def on_node_def wallet_queried_def)
  qed
  have "isl (fst (sendOne we a (ServeHTTP N A) priv pub i w)) \<and> wallet_queried w (snd (sendOne we a (ServeHTTP N A) priv pub i w))" for w
  proof -
    let ?m = "if sa_autoNonce a then GetNextNonce we (ServeHTTP N A) (ta_from a) else smart_queryAccountNonce (ServeHTTP N A) (ta_from a)"
    obtain r w1 where m: "?m w = (r, w1)" by (cases "?m w")
    have "steps_in wallet_queried ?m" using wallet_asks(2,3) by simp
    note q = steps_inD[OF this m]
    show ?thesis
    proof (cases r)
      case (Inr k)
      let ?tx = "newSmartTx we a i k"
      show ?thesis
      proof (cases "smart_signTransaction (we_cl we) ?tx priv")
        case (Inr s)
        let ?h = "calculateTxHash (we_cl we) (?tx\<lparr>st_Signature := s, st_PublicKey := pub\<rparr>)"
        obtain e w2 where "submitTransaction (ServeHTTP N A) (?tx\<lparr>st_Signature := s, st_PublicKey := pub, st_ID := ?h\<rparr>) w1 = (Inl e, w2)" "wallet_queried w1 w2"
          using submit by blast
        then show ?thesis using m \<open>r = Inr k\<close> Inr q transpD[OF wallet_queried_order(2) q]
          by (simp add: sendOne_def bindS_def Let_def wallet_queried_def)
      qed (use m Inr q in \<open>simp add: sendOne_def bindS_def Let_def\<close>)
    qed (use m q in \<open>simp add: sendOne_def bindS_def\<close>)
  qed
  then show "steps_in wallet_queried (sendOne we a (ServeHTTP N A) priv pub i)" "isl (fst (sendOne we a (ServeHTTP N A) priv pub i w))"
    by (simp_all add: steps_in_def)
qed


lemma send_loop_refused:
  assumes "\<And>i. expired N (we_clock we i)"
  shows "steps_in wallet_queried (sendLoop we a (ServeHTTP N A) priv pub k i)"
    and "fst (sendLoop we a (ServeHTTP N A) priv pub k i w) = Inr rs \<Longrightarrow> list_all isl rs"
proof -
  have "wallet_queried w (snd (sendLoop we a (ServeHTTP N A) priv pub k i w))
      \<and> (\<forall>rs. fst (sendLoop we a (ServeHTTP N A) priv pub k i w) = Inr rs \<longrightarrow> list_all isl rs)" for w i
  proof (induction k arbitrary: i w)
    case 0
    show ?case by (simp add: reflpD[OF wallet_queried_order(1)])
  next
    case (Suc k)
    obtain r w1 where o: "sendOne we a (ServeHTTP N A) priv pub i w = (r, w1)" by (cases "sendOne we a (ServeHTTP N A) priv pub i w")
    then obtain e where r: "r = Inl e" using send_one_refused(2)[OF assms, of a A priv pub i w] by (auto simp: isl_def)
    have q: "wallet_queried w w1" by (rule steps_inD[OF send_one_refused(1)[OF assms] o])
    obtain rs w2 where l: "sendLoop we a (ServeHTTP N A) priv pub k (i + 1) w1 = (rs, w2)"
      by (cases "sendLoop we a (ServeHTTP N A) priv pub k (i + 1) w1")
    have "wallet_queried w w2" using Suc.IH[of w1 "i + 1"] l transpD[OF wallet_queried_order(2) q] by simp
    then show ?case using Suc.IH[of w1 "i + 1"] o r q l by (cases rs) (simp_all add: bindS_def)
  qed
  then show "steps_in wallet_queried (sendLoop we a (ServeHTTP N A) priv pub k i)"
    "fst (sendLoop we a (ServeHTTP N A) priv pub k i w) = Inr rs \<Longrightarrow> list_all isl rs" by (simp_all add: steps_in_def)
qed

lemma smart_refused:
  assumes "\<And>i. expired N (we_clock we i)"
  shows "steps_in wallet_queried (smart_main we a (ServeHTTP N A))"
    and "fst (smart_main we a (ServeHTTP N A) w) = Inr (Sent rs c) \<Longrightarrow> list_all isl rs"
proof -
  have clear: "steps_in wallet_queried (\<lambda>w. (Inr CacheCleared, ClearAllCache we w))"
    by (simp add: steps_in_def wallet_queried_def reflpD[OF queried_order(1)])
  show "steps_in wallet_queried (smart_main we a (ServeHTTP N A))"
    unfolding smart_main_def
    by (auto intro!: clear wallet_bind wallet_asks send_loop_refused(1)[OF assms] split: option.split)
  show "list_all isl rs" if s: "fst (smart_main we a (ServeHTTP N A) w) = Inr (Sent rs c)"
  proof -
    obtain w' where "smart_main we a (ServeHTTP N A) w = (Inr (Sent rs c), w')" using s by (metis prod.collapse)
    moreover have "list_all isl rs" if "sendLoop we a (ServeHTTP N A) priv pub k i w1 = (Inr rs, w2)" for priv pub k i w1 w2
      using send_loop_refused(2)[OF assms, of a A priv pub k i w1] that by simp
    ultimately show ?thesis
      by (simp add: smart_main_def bindS_Inr_iff split: if_splits option.splits) blast+
  qed
qed

end

section \<open>Claims\<close>

text \<open>Transfer and stake tool sign what a node verifies. Whatever pair of keys an owner has, the
  transaction that the tools save or submit names the owner's address and key, leaves the nonce to the
  node, and carries a signature that verifies over the bytes from which the node computes its hash; the hash
  that the tool prints is the one under which a node files the transaction.\<close>

theorem tool_signature_verifies:
  assumes "crypto_spec (te_cl te) key_pair" and "key_pair sk pk" and "ta_key a = Some sk" and "ta_pub a = Some pk"
    and "main \<in> {transfer_main, stake_main}" and "main te a http s = (Inr end, s')" and "end = SavedFile tx \<or> end = Submitted tx h"
  shows "Verify (te_cl te) (PublicKey tx) (SignData tx) (Signature tx) \<and> PublicKey tx = pk \<and> From tx = ta_from a \<and> TxNonce tx = 0
    \<and> (end = Submitted tx h \<longrightarrow> h = hex_encode (Tx_Hash (te_cl te) tx))"
proof -
  obtain tx0 where run: "sign_and_send te (ta_out a) http tx0 sk (getSignData tx0) s = (Inr end, s')"
    and tx0: "PublicKey tx0 = pk" "From tx0 = ta_from a" "TxNonce tx0 = 0"
    using assms(3-7) by (auto simp: transfer_main_def stake_main_def with_keys_def Let_def split: if_splits)
  then obtain sig where sig: "Sign (te_cl te) sk (SignData tx0) = Inr sig"
    by (auto simp: sign_and_send_def tool_sign_data tool_signs split: sum.splits)
  then have tx: "tx = tx0\<lparr>Signature := sig\<rparr>" and h: "end = Submitted tx h \<Longrightarrow> h = hex_encode (sha3_256 (te_cl te) (SignData tx0))"
    using run assms(7)
    by (auto simp: sign_and_send_def tool_sign_data tool_signs[symmetric] Let_def bindS_Inr_iff tool_calculateTxHash_def split: if_splits)
  have "Verify (te_cl te) pk (SignData tx0) sig" by (rule crypto_spec.Verify_Sign[OF assms(1,2) sig])
  then show ?thesis using tx tx0 h by (simp add: Tx_Hash_def CalculateHash_def)
qed

text \<open>C34: the smart wallet costs its user everything. It signs the nonce, which a node leaves out of the
  signed bytes, so a signature that fits only the message it was made for never verifies at a node.
  Executing such a well-formed transfer takes all funds, free and staked, from the owner who sent it.\<close>

theorem smart_wallet_costs_everything:
  assumes "sharded_env E kv" and "sharded_sm_ok E kv sm" and "store_readable E (sm_db sm)"
    and "smart_signTransaction cl stx sk = Inr sig" and "\<forall>m. mldsa_verify cl pk m sig \<longrightarrow> m = serializeForSigning stx"
    and "tx = decoded (stx\<lparr>st_Signature := sig, st_PublicKey := pk\<rparr>)" and "st_Type stx = TxTransfer"
    and "Tx_Validate cfg now skip tx = Inr ()" and "From tx \<noteq> GenesisAddress" and "TotalBalance (ledger_of E kv sm (From tx)) \<noteq> 0"
  shows "\<exists>sm'. ExecuteTransaction (sharded_ops E) cfg cl now skip tx sm = (Inr (), sm')
    \<and> AvailableBalance (ledger_of E kv sm' (From tx)) = 0 \<and> StakedBalance (ledger_of E kv sm' (From tx)) = 0"
proof -
  have "length (SignData tx) + 8 = length (serializeForSigning stx)"
    using smart_sign_data[of stx] assms(6) by (simp add: SignData_def decoded_def)
  then have "\<not> Verify cl (PublicKey tx) (SignData tx) (Signature tx)"
    using assms(5,6) by (auto simp: Verify_def decoded_def)
  moreover have "\<not> IsSystemTx (Type tx)" using assms(6,7) by (simp add: decoded_def IsSystemTx_def)
  ultimately show ?thesis using unverified_confiscates[OF assms(1-3) _ assms(8) _ assms(9,10)] by blast
qed

text \<open>C31: no node accepts what the command-line wallets send. They put seconds into the timestamp of a
  transaction, a node expects milliseconds. With the shipped limit of five minutes and clocks that
  agree, from five minutes after the start of 1970 on, every run of the transfer, stake, unstake and
  smart transfer tools, against any node in any state and with any flags, ends without a single
  submitted transaction and leaves pool, ledger and tip of the node as they were.\<close>

theorem shipped_tools_never_accepted:
  assumes "node_ctx N kv" and "MaxTimestampDrift (Blocks (nd_cfg N)) = 300000"
    and "nd_now N = of_int T" and "1000 * t \<le> T" and "T < 2 ^ 62" and "301 \<le> t"
    and "te_clock te = of_int t" and "\<forall>i. \<exists>x. 0 \<le> x \<and> x \<le> t \<and> we_clock we i = of_int x"
  shows "(\<forall>main \<in> {transfer_main, stake_main, unstake_main}. \<forall>a n r n'. main te a (ServeHTTP N A) n = (r, n') \<longrightarrow>
      (\<forall>tx h. r \<noteq> Inr (Submitted tx h)) \<and> n_pending n' = n_pending n \<and> n_chain n' = n_chain n \<and> stateStore (n_db n') = stateStore (n_db n)
      \<and> (node_ctx.node_ok N kv n \<longrightarrow> node_ctx.node_ledger N kv n' = node_ctx.node_ledger N kv n))
    \<and> (\<forall>a w r w'. smart_main we a (ServeHTTP N A) w = (r, w') \<longrightarrow> (\<forall>rs c. r = Inr (Sent rs c) \<longrightarrow> list_all isl rs)
      \<and> n_pending (w_node w') = n_pending (w_node w) \<and> n_chain (w_node w') = n_chain (w_node w) \<and> stateStore (n_db (w_node w')) = stateStore (n_db (w_node w))
      \<and> (node_ctx.node_ok N kv (w_node w) \<longrightarrow> node_ctx.node_ledger N kv (w_node w') = node_ctx.node_ledger N kv (w_node w)))"
proof (intro conjI ballI allI impI)
  note Q = node_ctx.queried_def[OF assms(1)] and K = keeps_def
  have late: "expired N (te_clock te)" using expired_seconds[OF assms(2,3,6,4,5), of t] assms(6,7) by simp
  have late': "expired N (we_clock we i)" for i
  proof -
    obtain x where "0 \<le> x" "x \<le> t" "we_clock we i = of_int x" using assms(8) by blast
    then show ?thesis using expired_seconds[OF assms(2,3,6,4,5)] by simp
  qed
  {
    fix main a n r n'
    assume m: "main \<in> {transfer_main, stake_main, unstake_main}" and run: "main te a (ServeHTTP N A) n = (r, n')"
    note R = node_ctx.tools_refused[OF assms(1) late m, of a A, unfolded node_ctx.refused_def[OF assms(1)]]
    show "r \<noteq> Inr (Submitted tx h)" for tx h using conjunct2[OF R] run by (metis fst_conv)
    note q = steps_inD[OF conjunct1[OF R] run, unfolded Q K]
    show "n_pending n' = n_pending n" "n_chain n' = n_chain n" "stateStore (n_db n') = stateStore (n_db n)" using q by blast+
    show "node_ctx.node_ledger N kv n' = node_ctx.node_ledger N kv n" if "node_ctx.node_ok N kv n" using q that by blast
  }
  fix a w r w'
  assume run: "smart_main we a (ServeHTTP N A) w = (r, w')"
  show "list_all isl rs" if "r = Inr (Sent rs c)" for rs c
    using node_ctx.smart_refused(2)[OF assms(1) late', of a A w rs c] run that by simp
  note q = steps_inD[OF node_ctx.smart_refused(1)[OF assms(1) late'] run, unfolded node_ctx.wallet_queried_def[OF assms(1)] Q K]
  show "n_pending (w_node w') = n_pending (w_node w)" "n_chain (w_node w') = n_chain (w_node w)"
    "stateStore (n_db (w_node w')) = stateStore (n_db (w_node w))" using q by blast+
  show "node_ctx.node_ledger N kv (w_node w') = node_ctx.node_ledger N kv (w_node w)" if "node_ctx.node_ok N kv (w_node w)" using q that by blast
qed

section \<open>The nonce manager\<close>

fun nextNonces :: "wallet_env \<Rightarrow> 's http \<Rightarrow> string \<Rightarrow> nat \<Rightarrow> ('s wallet, u64 list) step" where
  "nextNonces we http a 0 w = (Inr [], w)"
| "nextNonces we http a (Suc k) w = bindS (GetNextNonce we http a) (\<lambda>x. bindS (nextNonces we http a k) (\<lambda>xs. Pair (Inr (x # xs)))) w"

lemma next_nonce:
  assumes "\<forall>s. fst (bindS (call http (balanceRequest a)) (\<lambda>resp. Pair (nonceField resp)) s) = Inr c" and "w_pending w = Some m"
  defines "x \<equiv> case map_of m a of Some l \<Rightarrow> if c \<le> l then l + 1 else c | None \<Rightarrow> c"
  shows "\<exists>w'. GetNextNonce we http a w = (Inr x, w') \<and> w_pending w' = Some (AList.update a x m)"
proof -
  obtain s' where "bindS (call http (balanceRequest a)) (\<lambda>resp. Pair (nonceField resp)) (w_node w) = (Inr c, s')"
    using assms(1) by (metis prod.collapse)
  then have "queryChainNonce http a w = (Inr c, w\<lparr>w_node := s'\<rparr>)" by (simp add: queryChainNonce_def on_node_def)
  then show ?thesis
    by (simp add: GetNextNonce_def bindS_def localPending_def assms(2) x_def saveCache_def Let_def)
qed

lemma next_nonces:
  assumes "\<forall>s. fst (bindS (call http (balanceRequest a)) (\<lambda>resp. Pair (nonceField resp)) s) = Inr c"
    and "w_pending w = Some m" and "map_of m a = Some l" and "c \<le> l" and "unat l + k < 2 ^ 64"
  shows "\<exists>w'. nextNonces we http a k w = (Inr (map (\<lambda>i. l + 1 + of_nat i) [0..<k]), w')"
  using assms(2-5)
proof (induction k arbitrary: w m l)
  case (Suc k)
  obtain w1 where w1: "GetNextNonce we http a w = (Inr (l + 1), w1)" "w_pending w1 = Some (AList.update a (l + 1) m)"
    using next_nonce[OF assms(1) Suc.prems(1), of we] Suc.prems(2,3) by auto
  have u: "unat (l + 1) = unat l + 1" using Suc.prems(4) by (simp add: unat_word_ariths)
  then have "c \<le> l + 1" using Suc.prems(3) by (simp add: word_le_nat_alt)
  then obtain w2 where "nextNonces we http a k w1 = (Inr (map (\<lambda>i. l + 1 + 1 + of_nat i) [0..<k]), w2)"
    using Suc.IH[OF w1(2), of "l + 1"] Suc.prems(4) u by auto
  moreover have "map (\<lambda>i. l + 1 + of_nat i) [0..<Suc k] = (l + 1) # map (\<lambda>i. l + 1 + 1 + of_nat i) [0..<k]"
    by (simp add: upt_conv_Cons map_Suc_upt[symmetric] algebra_simps del: upt_Suc)
  ultimately show ?case using w1(1) by (simp add: bindS_def del: upt_Suc)
qed simp

text \<open>The nonce manager hands out consecutive nonces. As long as the confirmed nonce of an account stays \<open>c\<close>,
  a wallet without a cached entry gets \<open>c\<close>, \<open>c + 1\<close> and so on.\<close>

theorem nonces_in_order:
  assumes "\<forall>s. fst (bindS (call http (balanceRequest a)) (\<lambda>resp. Pair (nonceField resp)) s) = Inr c"
    and "w_pending w = Some m" and "map_of m a = None" and "unat c + k < 2 ^ 64"
  shows "\<exists>w'. nextNonces we http a k w = (Inr (map (\<lambda>i. c + of_nat i) [0..<k]), w')"
proof (cases k)
  case (Suc j)
  obtain w1 where w1: "GetNextNonce we http a w = (Inr c, w1)" "w_pending w1 = Some (AList.update a c m)"
    using next_nonce[OF assms(1,2), of we] assms(3) by auto
  obtain w2 where "nextNonces we http a j w1 = (Inr (map (\<lambda>i. c + 1 + of_nat i) [0..<j]), w2)"
    using next_nonces[OF assms(1) w1(2), of c j we] assms(4) Suc by auto
  moreover have "map (\<lambda>i. c + of_nat i) [0..<Suc j] = c # map (\<lambda>i. c + 1 + of_nat i) [0..<j]"
    by (simp add: upt_conv_Cons map_Suc_upt[symmetric] algebra_simps del: upt_Suc)
  ultimately show ?thesis using w1(1) Suc by (simp add: bindS_def del: upt_Suc)
qed simp

text \<open>The status that the wallet prints is off by one for a new account: it announces 1 where the next nonce
  is 0.\<close>

theorem status_announces_wrong_nonce:
  assumes "\<forall>s. fst (bindS (call http (balanceRequest a)) (\<lambda>resp. Pair (nonceField resp)) s) = Inr 0"
  shows "fst (ShowStatus http a (NewNonceManager s NoCache)) = Inr 1 \<and> fst (GetNextNonce we http a (NewNonceManager s NoCache)) = Inr 0"
proof -
  have w: "w_pending (NewNonceManager s NoCache) = Some []" "w_node (NewNonceManager s NoCache) = s" by (simp_all add: NewNonceManager_def loadCache_def)
  obtain s' where "bindS (call http (balanceRequest a)) (\<lambda>resp. Pair (nonceField resp)) s = (Inr 0, s')"
    using assms by (metis prod.collapse)
  then have "queryChainNonce http a (NewNonceManager s NoCache) = (Inr 0, (NewNonceManager s NoCache)\<lparr>w_node := s'\<rparr>)"
    by (simp add: queryChainNonce_def on_node_def w)
  then show ?thesis using next_nonce[OF assms w(1), of we] by (auto simp: ShowStatus_def bindS_def localPending_def w)
qed

text \<open>A cache file whose map is null makes the next transfer panic.\<close>

theorem null_cache_panics:
  assumes "\<forall>s. fst (bindS (call http (balanceRequest a)) (\<lambda>resp. Pair (nonceField resp)) s) = Inr c"
  shows "fst (GetNextNonce we http a (NewNonceManager s (Cached None))) = Inl Panic"
proof -
  obtain s' where "bindS (call http (balanceRequest a)) (\<lambda>resp. Pair (nonceField resp)) s = (Inr c, s')"
    using assms by (metis prod.collapse)
  then show ?thesis
    by (simp add: GetNextNonce_def bindS_def queryChainNonce_def on_node_def NewNonceManager_def loadCache_def Let_def)
qed

text \<open>The amount in FAN is multiplied without a check: 18446744073710 FAN become less than half of one.\<close>

theorem smart_amount_wraps: "ta_amount a = 18446744073710 \<Longrightarrow> st_Amount (newSmartTx we a i k) = 448384"
  by (simp add: newSmartTx_def)

text \<open>Unstaking with the tool is impossible for one more reason: it leaves the receiver empty, which no node
  takes as a transaction, whatever the clocks show.\<close>

theorem unstake_has_no_receiver:
  "ta_from a \<noteq> '''' \<Longrightarrow> Tx_Validate cfg now skip (newToolTx TxUnstake (ta_from a) '''' am g k ts pub\<lparr>Signature := s\<rparr>) = Inl InvalidTo"
  by (simp add: Tx_Validate_def newToolTx_def)

section \<open>Concrete runs\<close>

definition demo_tool_env :: tool_env where
  "demo_tool_env = \<lparr>te_cl = demo_crypto, te_clock = 1700000000, te_disk_ok = True\<rparr>"

definition demo_tool_args :: "bool \<Rightarrow> tool_args" where
  "demo_tool_args toFile = \<lparr>ta_from = demo_user, ta_to = ''F1'', ta_amount = 5, ta_gas = 1, ta_key = Some demo_pk, ta_pub = Some demo_pk, ta_out = toFile\<rparr>"

definition demo_today :: "ref_db node_env" where
  "demo_today = demo_node_env\<lparr>nd_now := 1700000000000\<rparr>"

theorem shipped_tools_never_accepted_witness:
  "n_pending (snd (transfer_main demo_tool_env (demo_tool_args False) (ServeHTTP demo_today \<lparr>a_peerCount = 0, a_nodeName = ''n''\<rparr>) (demo_node []))) = []
   \<and> (\<forall>tx h. fst (transfer_main demo_tool_env (demo_tool_args False) (ServeHTTP demo_today \<lparr>a_peerCount = 0, a_nodeName = ''n''\<rparr>) (demo_node []))
       \<noteq> Inr (Submitted tx h))"
proof -
  have c: "node_ctx demo_today ref_kv" by (rule node_ctx.intro) (simp add: demo_today_def ref.sharded_env_axioms)
  let ?we = "\<lparr>we_cl = demo_crypto, we_clock = (\<lambda>_. 0), we_written = id\<rparr>"
  have "\<forall>i. \<exists>x. 0 \<le> x \<and> x \<le> 1700000000 \<and> we_clock ?we i = of_int x" by (auto intro: exI[of _ 0])
  note T = shipped_tools_never_accepted[OF c _ _ _ _ _ _ this, of 1700000000000 demo_tool_env]
  obtain r n' where run: "transfer_main demo_tool_env (demo_tool_args False) (ServeHTTP demo_today \<lparr>a_peerCount = 0, a_nodeName = ''n''\<rparr>) (demo_node []) = (r, n')"
    by (cases "transfer_main demo_tool_env (demo_tool_args False) (ServeHTTP demo_today \<lparr>a_peerCount = 0, a_nodeName = ''n''\<rparr>) (demo_node [])")
  have "(\<forall>tx h. r \<noteq> Inr (Submitted tx h)) \<and> n_pending n' = n_pending (demo_node [])"
    using T run by (simp add: demo_today_def demo_tool_env_def shipped_config_def setDefault_def)
  then show ?thesis using run by simp
qed

theorem tool_signature_verifies_witness:
  "\<exists>tx. transfer_main demo_tool_env (demo_tool_args True) (ServeHTTP demo_today \<lparr>a_peerCount = 0, a_nodeName = ''n''\<rparr>) (demo_node [])
      = (Inr (SavedFile tx), demo_node []) \<and> Verify demo_crypto (PublicKey tx) (SignData tx) (Signature tx) \<and> From tx = demo_user"
proof -
  obtain tx where run: "transfer_main demo_tool_env (demo_tool_args True) (ServeHTTP demo_today \<lparr>a_peerCount = 0, a_nodeName = ''n''\<rparr>) (demo_node [])
      = (Inr (SavedFile tx), demo_node [])"
    by (simp add: transfer_main_def with_keys_def demo_tool_args_def demo_tool_env_def sign_and_send_def signTransaction_def Let_def
        demo_crypto_def demo_pk_def)
  from tool_signature_verifies[where main = transfer_main, OF _ _ _ _ _ run, of "\<lambda>sk pk. sk = pk \<and> sk \<noteq> []" demo_pk demo_pk tx] demo.crypto_spec_axioms
  have "Verify demo_crypto (PublicKey tx) (SignData tx) (Signature tx) \<and> From tx = demo_user"
    by (auto simp: demo_tool_env_def demo_tool_args_def demo_pk_def)
  with run show ?thesis by blast
qed

definition demo_smart_tx :: smart_tx where
  "demo_smart_tx = \<lparr>st_Type = TxTransfer, st_From = demo_user, st_To = ''F1'', st_Amount = 5000000, st_GasFee = 1, st_Nonce = 0, st_Timestamp = 0,
     st_Data = [], st_Signature = [], st_PublicKey = [], st_ID = ''''\<rparr>"

theorem smart_wallet_costs_everything_witness:
  "\<exists>sig sm'. smart_signTransaction demo_crypto demo_smart_tx demo_pk = Inr sig
     \<and> ExecuteTransaction (sharded_ops ref_env) shipped_config demo_crypto 0 True
         (decoded (demo_smart_tx\<lparr>st_Signature := sig, st_PublicKey := demo_pk\<rparr>)) demo_sm2 = (Inr (), sm')
     \<and> AvailableBalance (ledger_of ref_env ref_kv sm' demo_user) = 0"
proof -
  let ?sig = "demo_pk @ serializeForSigning demo_smart_tx"
  let ?tx = "decoded (demo_smart_tx\<lparr>st_Signature := ?sig, st_PublicKey := demo_pk\<rparr>)"
  have sig: "smart_signTransaction demo_crypto demo_smart_tx demo_pk = Inr ?sig"
    by (simp add: smart_signTransaction_def demo_crypto_def demo_pk_def)
  have only: "\<forall>m. mldsa_verify demo_crypto demo_pk m ?sig \<longrightarrow> m = serializeForSigning demo_smart_tx" by (simp add: demo_crypto_def)
  have v: "Tx_Validate shipped_config 0 True ?tx = Inr ()"
    using demo_user_F1(1)[symmetric]
    by (simp add: decoded_def demo_smart_tx_def Tx_Validate_def RequiresGasFee_def IsSystemTx_def demo_pk_def shipped_config_def setDefault_def)
  have f: "From ?tx = demo_user" by (simp add: decoded_def demo_smart_tx_def)
  have b: "TotalBalance (ledger_of ref_env ref_kv demo_sm2 demo_user) \<noteq> 0" by (simp add: demo_ledger2 TotalBalance_def TOTAL_SUPPLY_def)
  have r: "store_readable ref_env (sm_db demo_sm2)" using ref_readable by (simp add: demo_sm2_db)
  have t: "st_Type demo_smart_tx = TxTransfer" by (simp add: demo_smart_tx_def)
  from smart_wallet_costs_everything[OF ref.sharded_env_axioms demo_sm2_ok r sig only refl t v] f b demo_user_genesis sig
  show ?thesis by fastforce
qed

end
