(* ===== verification/Migration_Tools.thy ===== *)
theory Migration_Tools
  imports Chain_Database Validators
begin

text \<open>
  The migration programs that run on the directory of a stopped node.

  \<^verbatim>\<open>tools/migrate_to_flatfile.go\<close> copies the blocks of an old LevelDB, filed there under \<open>h\<close> and
  the height (the hash) and \<open>b\<close> and the hash (the block), into the chunk files of \<open>Flat_Files\<close>.
  \<^verbatim>\<open>tools/migrate_to_sharded.go\<close> copies its accounts into the 36 shards of \<open>Sharded_Store\<close>.
  \<^verbatim>\<open>tools/rebuild_tx_index.go\<close> writes the transaction index of \<open>Chain_Database\<close> again. LevelDB, the
  file system and the JSON codecs are the parameters these theories have already; what a program
  prints is its result, and \<^verbatim>\<open>os.Exit(1)\<close> is an error that keeps what was written.

  Lemmas: every migrated block reads back, but the tool writes no hash behind a block, so a node
  that verifies what it reads cannot load the last one; a migrated account keeps its balances and
  its nonce and loses its node type, so a migrated node has no validator; a rebuilt index finds the
  transactions of every block of its range.
\<close>

section \<open>Blocks into chunk files\<close>

text \<open>The program has file caches of its own, one per kind, which it looks up without the check of
  \<open>getFile\<close>; its state is that of a block store.\<close>

definition migrateFile :: "kind \<Rightarrow> u64 \<Rightarrow> (BlockStore, bool) step" where
  "migrateFile k chunkStart bs = (case map_of (handles k bs) chunkStart of
     Some f \<Rightarrow> (Inr f, bs) | None \<Rightarrow> openChunk k chunkStart True bs)"

definition migrateBlock :: "u64 \<Rightarrow> bytes \<Rightarrow> (BlockStore, unit) step" where
  "migrateBlock height blockData =
     (let chunkStart = getChunkStart height; datPath = getChunkFiles Dat chunkStart in
      bindS (migrateFile Dat chunkStart) (\<lambda>datFile.
      bindS (migrateFile Idx chunkStart) (\<lambda>idxFile.
      bindS (os_size datPath) (\<lambda>offset.
      bindS (os_append datPath datFile blockData) (\<lambda>_.
        os_write (getChunkFiles Idx chunkStart) idxFile (unat (idxOffset height))
          (entryBytes \<lparr>ie_Offset = of_nat offset, ie_Length = of_nat (length blockData), ie_Height = ucast height\<rparr>))))))"

record migration =
  migrated :: nat
  mig_errors :: nat
  mig_store :: BlockStore

definition migrateFailed :: "migration \<Rightarrow> migration" where
  "migrateFailed st = st\<lparr>mig_errors := Suc (mig_errors st)\<rparr>"

text \<open>One entry of the height index. \<open>blockHeight\<close> is \<^verbatim>\<open>json.Unmarshal\<close> into the height alone.\<close>

definition migrateEntry :: "'d leveldb \<Rightarrow> (bytes \<Rightarrow> u64 option) \<Rightarrow> 'd \<Rightarrow> bytes \<times> bytes \<Rightarrow> migration \<Rightarrow> migration" where
  "migrateEntry L blockHeight d e st = (case e of (key, hashBytes) \<Rightarrow>
     if length key \<noteq> 9 then st
     else let height = be_fold (drop 1 key) in
       (case ldb_get L d (string_bytes ''b'' @ hashBytes) of
         Inl _ \<Rightarrow> migrateFailed st
       | Inr blockData \<Rightarrow> (case blockHeight blockData of
           None \<Rightarrow> migrateFailed st
         | Some n \<Rightarrow> if n \<noteq> height then migrateFailed st
             else (case migrateBlock height blockData (mig_store st) of
               (Inl _, bs) \<Rightarrow> migrateFailed (st\<lparr>mig_store := bs\<rparr>)
             | (Inr _, bs) \<Rightarrow> st\<lparr>migrated := Suc (migrated st), mig_store := bs\<rparr>))))"

definition migrateAll :: "'d leveldb \<Rightarrow> (bytes \<Rightarrow> u64 option) \<Rightarrow> 'd \<Rightarrow> (bytes \<times> bytes) list \<Rightarrow> migration \<Rightarrow> migration" where
  "migrateAll L blockHeight d es st = foldl (\<lambda>st e. migrateEntry L blockHeight d e st) st es"

text \<open>\<open>dir\<close> is the \<^verbatim>\<open>blocks\<close> directory before the run and \<open>fs\<close> how its system calls go, the first of
  them \<^verbatim>\<open>os.MkdirAll\<close>. The result is the numbers the program reports and the directory.\<close>

definition migrate_flatfile ::
    "'d leveldb \<Rightarrow> (bytes \<Rightarrow> u64 option) \<Rightarrow> bool \<Rightarrow> (error + 'd) \<Rightarrow> (string, bytes) gomap \<Rightarrow> fault list
     \<Rightarrow> (error + nat \<times> nat) \<times> (string, bytes) gomap" where
  "migrate_flatfile L blockHeight dbExists opened dir fs =
     (if \<not> dbExists then (Inl ErrNotFound, dir)
      else case opened of
        Inl e \<Rightarrow> (Inl e, dir)
      | Inr d \<Rightarrow> (case NewBlockStore dir fs of
          Inl e \<Rightarrow> (Inl e, dir)
        | Inr bs \<Rightarrow>
            let latestHeight = (case ldb_get L d latestHeightKey of Inr data \<Rightarrow> be_get64 data | Inl _ \<Rightarrow> Inr 0) in
            (case latestHeight of
              Inl e \<Rightarrow> (Inl e, dir)
            | Inr _ \<Rightarrow>
                let es = fst (ldb_iter L d (string_bytes ''h'')) in
                if es = [] then (Inr (0, 0), dir)
                else let st = migrateAll L blockHeight d es \<lparr>migrated = 0, mig_errors = 0, mig_store = bs\<rparr> in
                  (Inr (migrated st, mig_errors st), disk (mig_store st)))))"

text \<open>When the system calls succeed, the look-up is that of the node, and a block that is migrated
  ends its data file.\<close>

lemma migrateFile_calm: "faults bs = [] \<Longrightarrow> migrateFile k c bs = getFile k c True bs"
  by (simp add: migrateFile_def getFile_def os_try_def os_call_def bindS_def split: option.split)

lemma migrateBlock_run:
  assumes "writable bs" and "faults bs = []"
  shows "\<exists>bs'. migrateBlock h d bs = (Inr (), bs') \<and> writable bs' \<and> faults bs' = [] \<and> grows h bs bs'
    \<and> files bs' (getChunkFiles Dat (getChunkStart h)) = Some (chunk_content bs Dat (getChunkStart h) @ d)
    \<and> files bs' (getChunkFiles Idx (getChunkStart h)) = Some (splice (unat (idxOffset h))
        (entryBytes \<lparr>ie_Offset = of_nat (length (chunk_content bs Dat (getChunkStart h))), ie_Length = of_nat (length d), ie_Height = ucast h\<rparr>)
        (chunk_content bs Idx (getChunkStart h)))"
proof -
  let ?c = "getChunkStart h" and ?D = "getChunkFiles Dat (getChunkStart h)" and ?I = "getChunkFiles Idx (getChunkStart h)"
  obtain b1 where 1: "getFile Dat ?c True bs = (Inr True, b1)" "writable b1" "faults b1 = []" "files b1 ?D \<noteq> None"
    using getFile_run_create[OF assms, of Dat ?c] by blast
  obtain b2 where 2: "getFile Idx ?c True b1 = (Inr True, b2)" "writable b2" "faults b2 = []"
    "files b2 ?I \<noteq> None" "files b2 ?D \<noteq> None"
    using getFile_run_create[OF 1(2,3), of Idx ?c] 1(4) by blast
  have c: "chunk_content b2 k c' = chunk_content bs k c'" for k c'
    using getFile_content(1)[OF 1(1)] getFile_content(1)[OF 2(1)] by simp
  have f: "files b2 ?D = Some (chunk_content bs Dat ?c)" "files b2 ?I = Some (chunk_content bs Idx ?c)"
    using c[of Dat ?c] c[of Idx ?c] 2(4,5) by (auto simp: chunk_content_def)
  then have 3: "os_size ?D b2 = (Inr (length (chunk_content bs Dat ?c)), b2)"
    using 2(3) by (simp add: os_size_def bindS_def os_try_def os_call_def flip: files_def)
  obtain b4 where 4: "os_append ?D True d b2 = (Inr (), b4)" "writable b4" "faults b4 = []" "files b4 ?I \<noteq> None"
    using os_write_run[of b2 ?D] 2 unfolding os_append_def by metis
  have f4: "files b4 = (files b2)(?D \<mapsto> chunk_content bs Dat ?c @ d)" using os_append_ok[OF 4(1)] f(1) by auto
  let ?e = "entryBytes \<lparr>ie_Offset = of_nat (length (chunk_content bs Dat ?c)), ie_Length = of_nat (length d), ie_Height = ucast h\<rparr>"
  obtain b5 where 5: "os_write ?I True (unat (idxOffset h)) ?e b4 = (Inr (), b5)" "writable b5" "faults b5 = []"
    using os_write_run[of b4 ?I] 4 by metis
  have f5: "files b5 = (files b4)(?I \<mapsto> splice (unat (idxOffset h)) ?e (chunk_content bs Idx ?c))"
    using os_write_ok[OF 5(1)] f(2) f4 by auto
  have "migrateBlock h d bs = (Inr (), b5)"
    unfolding migrateBlock_def Let_def bindS_def migrateFile_calm[OF assms(2)] 1(1)
    by (simp add: migrateFile_calm[OF 1(3)] 2(1) 3 4(1) 5(1))
  moreover have "grows h bs b5"
  proof -
    note g = steps_inD[OF grows_getFile 1(1)] steps_inD[OF grows_getFile 2(1)] steps_inD[OF grows_append 4(1)]
      steps_inD[OF grows_index_write 5(1)]
    note t = transpD[OF grows_order(2)[of h]]
    show ?thesis by (rule t[OF g(1) t[OF g(2) t[OF g(3) g(4)]]]) simp
  qed
  ultimately show ?thesis using 5(2,3) f4 f5 by auto
qed


text \<open>No hash follows the block of a height: the bytes a verified read wants are not there.\<close>

definition no_hash_at :: "(string \<rightharpoonup> bytes) \<Rightarrow> u64 \<Rightarrow> bool" where
  "no_hash_at m h \<longleftrightarrow> (\<forall>e. entry_at m h = Some e \<longrightarrow> bytes_at m h (ie_Offset e) (unat (ie_Length e + HashSize)) = None)"

lemma no_hash_unverified: "no_hash_at (files bs) h \<Longrightarrow> \<exists>e. fst (ReadBlockWithVerify cl h bs) = Inl e"
  using ReadBlockWithVerify_ok[of cl h bs]
  by (cases "ReadBlockWithVerify cl h bs"; cases "fst (ReadBlockWithVerify cl h bs)") (fastforce simp: no_hash_at_def)+

lemma migrateBlock_reads:
  assumes "writable bs" and "faults bs = []" and "d \<noteq> []" and "length d + 32 < 2 ^ 32"
    and "length (chunk_content bs Dat (getChunkStart h)) < 2 ^ 63"
  shows "\<exists>bs'. migrateBlock h d bs = (Inr (), bs') \<and> writable bs' \<and> faults bs' = [] \<and> grows h bs bs'
    \<and> block_at (files bs') h = Some d \<and> no_hash_at (files bs') h
    \<and> (\<forall>c. length (chunk_content bs' Dat c) \<le> length (chunk_content bs Dat c) + length d)"
proof -
  let ?x = "chunk_content bs Dat (getChunkStart h)"
  let ?e = "\<lparr>ie_Offset = of_nat (length ?x), ie_Length = of_nat (length d), ie_Height = ucast h\<rparr> :: IndexEntry"
  obtain bs' where r: "migrateBlock h d bs = (Inr (), bs')" "writable bs'" "faults bs' = []" "grows h bs bs'"
    and f: "files bs' (getChunkFiles Dat (getChunkStart h)) = Some (?x @ d)"
      "files bs' (getChunkFiles Idx (getChunkStart h)) = Some (splice (unat (idxOffset h)) (entryBytes ?e) (chunk_content bs Idx (getChunkStart h)))"
    using migrateBlock_run[OF assms(1,2), of h d] by blast
  have l: "unat (of_nat (length d) :: u32) = length d" "unat (of_nat (length d) + HashSize :: u32) = length d + 32"
    using assms(4) by (simp_all add: unat_of_nat HashSize_def unat_word_ariths)
  have u: "unat (of_nat (length ?x) :: u64) = length ?x" using assms(5) by (simp add: unat_of_nat)
  then have s: "0 \<le> sint (of_nat (length ?x) :: u64)" using assms(5) by (subst sint_small) simp_all
  have "of_nat (length d) \<noteq> (0 :: u32)" using assms(3) l(1) by (metis length_0_conv unat_0)
  moreover have "entryBytes ?e \<noteq> []" by (metis length_entryBytes list.size(3) zero_neq_numeral)
  ultimately have e: "entry_at (files bs') h = Some ?e"
    using f(2) splice_inside[of "entryBytes ?e" "unat (idxOffset h)" "chunk_content bs Idx (getChunkStart h)"]
    by (simp add: entry_at_def Let_def)
  have "block_at (files bs') h = Some d" using e f(1) s u l(1) by (simp add: block_at_def bytes_at_def)
  moreover have "no_hash_at (files bs') h" using e f(1) u l(2) by (simp add: no_hash_at_def bytes_at_def)
  moreover have "length (chunk_content bs' Dat c) \<le> length (chunk_content bs Dat c) + length d" for c
    using f(1) r(4) by (cases "c = getChunkStart h") (auto simp: chunk_content_def grows_def split: option.splits)
  ultimately show ?thesis using r by blast
qed

text \<open>An intact block of the old database: the height index leads to it, and it carries that height.\<close>

definition old_block :: "'d leveldb \<Rightarrow> (bytes \<Rightarrow> u64 option) \<Rightarrow> 'd \<Rightarrow> bytes \<times> bytes \<Rightarrow> u64 \<times> bytes \<Rightarrow> bool" where
  "old_block L blockHeight d e b \<longleftrightarrow> fst e = string_bytes ''h'' @ be_put64 (fst b)
     \<and> ldb_get L d (string_bytes ''b'' @ snd e) = Inr (snd b) \<and> blockHeight (snd b) = Some (fst b)
     \<and> snd b \<noteq> [] \<and> length (snd b) + 32 < 2 ^ 32"

lemma migrateEntry_run:
  assumes "old_block L blockHeight d e (h, data)" and "migrateBlock h data (mig_store st) = (Inr (), bs)"
  shows "migrateEntry L blockHeight d e st = st\<lparr>migrated := Suc (migrated st), mig_store := bs\<rparr>"
  using assms by (cases e) (simp add: old_block_def migrateEntry_def Let_def string_bytes_def)

lemma migrateAll_run:
  assumes "list_all2 (old_block L blockHeight d) es hds" and "distinct (map fst hds)"
    and "writable bs" and "faults bs = []" and "\<forall>c. length (chunk_content bs Dat c) \<le> n"
    and "n + sum_list (map (\<lambda>b. length (snd b)) hds) < 2 ^ 63"
  shows "\<exists>bs'. migrateAll L blockHeight d es \<lparr>migrated = i, mig_errors = j, mig_store = bs\<rparr>
      = \<lparr>migrated = i + length hds, mig_errors = j, mig_store = bs'\<rparr>
    \<and> writable bs' \<and> faults bs' = [] \<and> (\<forall>c. length (chunk_content bs' Dat c) \<le> n + sum_list (map (\<lambda>b. length (snd b)) hds))
    \<and> (\<forall>(h, data)\<in>set hds. block_at (files bs') h = Some data)
    \<and> (hds \<noteq> [] \<longrightarrow> no_hash_at (files bs') (fst (last hds)))"
  using assms(1,2,6)
proof (induction hds arbitrary: es rule: rev_induct)
  case Nil
  then show ?case using assms(3-5) by (simp add: migrateAll_def)
next
  case (snoc b hds)
  obtain h data where b: "b = (h, data)" by (cases b)
  from snoc.prems(1) b obtain es1 e where es: "es = es1 @ [e]" "list_all2 (old_block L blockHeight d) es1 hds"
    and e: "old_block L blockHeight d e (h, data)"
    by (auto simp: list_all2_append2 list_all2_Cons2)
  from snoc.IH[OF es(2)] snoc.prems(2,3) obtain bs1 where
    1: "migrateAll L blockHeight d es1 \<lparr>migrated = i, mig_errors = j, mig_store = bs\<rparr>
        = \<lparr>migrated = i + length hds, mig_errors = j, mig_store = bs1\<rparr>" "writable bs1" "faults bs1 = []"
      "\<forall>c. length (chunk_content bs1 Dat c) \<le> n + sum_list (map (\<lambda>b. length (snd b)) hds)"
    and blocks: "\<forall>(h, data)\<in>set hds. block_at (files bs1) h = Some data" by auto
  have "length (chunk_content bs1 Dat (getChunkStart h)) < 2 ^ 63"
    using 1(4)[rule_format, of "getChunkStart h"] snoc.prems(3) by simp
  moreover have "data \<noteq> []" "length data + 32 < 2 ^ 32" using e by (simp_all add: old_block_def)
  ultimately obtain bs2 where 2: "migrateBlock h data bs1 = (Inr (), bs2)" "writable bs2" "faults bs2 = []" "grows h bs1 bs2"
      "block_at (files bs2) h = Some data" "no_hash_at (files bs2) h"
    and len: "\<forall>c. length (chunk_content bs2 Dat c) \<le> length (chunk_content bs1 Dat c) + length data"
    using migrateBlock_reads[OF 1(2,3), of data h] by blast
  have run: "migrateAll L blockHeight d es \<lparr>migrated = i, mig_errors = j, mig_store = bs\<rparr>
      = \<lparr>migrated = i + length (hds @ [b]), mig_errors = j, mig_store = bs2\<rparr>"
    using 1(1) migrateEntry_run[OF e, of "\<lparr>migrated = i + length hds, mig_errors = j, mig_store = bs1\<rparr>" bs2] 2(1)
    by (simp add: migrateAll_def es(1))
  have other: "block_at (files bs2) h' = Some d'" if "(h', d') \<in> set hds" for h' d'
  proof -
    have "h' \<noteq> h" using that snoc.prems(2) b by force
    then show ?thesis using grows_block[OF 2(4)] blocks that by fastforce
  qed
  moreover have "length (chunk_content bs2 Dat c) \<le> n + sum_list (map (\<lambda>b. length (snd b)) (hds @ [b]))" for c
    using len[rule_format, of c] 1(4)[rule_format, of c] b by simp
  ultimately show ?case using run 2 b by (intro exI[of _ bs2]) auto
qed


lemma migrate_flatfile_run:
  assumes "ldb_get L d latestHeightKey = Inr (be_put64 n)"
    and "list_all2 (old_block L blockHeight d) (fst (ldb_iter L d (string_bytes ''h''))) hds"
    and "distinct (map fst hds)" and "hds \<noteq> []" and "sum_list (map (\<lambda>b. length (snd b)) hds) < 2 ^ 63"
  shows "\<exists>dir bs. migrate_flatfile L blockHeight True (Inr d) [] [] = (Inr (length hds, 0), dir)
    \<and> NewBlockStore dir [] = Inr bs \<and> faults bs = [] \<and> \<not> mu bs
    \<and> (\<forall>(h, data)\<in>set hds. block_at (files bs) h = Some data) \<and> no_hash_at (files bs) (fst (last hds))"
proof -
  let ?es = "fst (ldb_iter L d (string_bytes ''h''))"
  let ?bs = "\<lparr>disk = [], datFiles = [], idxFiles = [], mu = False, faults = []\<rparr> :: BlockStore"
  have b: "writable ?bs" "faults ?bs = []" "\<forall>c. length (chunk_content ?bs Dat c) \<le> 0"
    by (simp_all add: writable_def handles_def files_def chunk_content_def split: kind.split)
  from assms(5) have sum: "0 + sum_list (map (\<lambda>b. length (snd b)) hds) < 2 ^ 63" by simp
  have es: "?es \<noteq> []" using assms(2,4) by auto
  obtain bs' where run: "migrateAll L blockHeight d ?es \<lparr>migrated = 0, mig_errors = 0, mig_store = ?bs\<rparr>
        = \<lparr>migrated = length hds, mig_errors = 0, mig_store = bs'\<rparr>"
    and r: "\<forall>(h, data)\<in>set hds. block_at (files bs') h = Some data" "no_hash_at (files bs') (fst (last hds))"
    using migrateAll_run[OF assms(2,3) b sum, of 0 0] assms(4) by auto
  have "migrate_flatfile L blockHeight True (Inr d) [] [] = (Inr (length hds, 0), disk bs')"
    unfolding migrate_flatfile_def using es run assms(1) be_get64_put64[of n "[]"] by (simp add: NewBlockStore_def Let_def)
  moreover obtain bs where "NewBlockStore (disk bs') [] = Inr bs" "faults bs = []" "\<not> mu bs" "files bs = files bs'"
    by (simp add: NewBlockStore_def files_def)
  ultimately show ?thesis using r by auto
qed

text \<open>C32: the blocks an operator migrates are all there, and a node that verifies what it reads
  cannot start from them. From an intact old database, in which the latest height is that of the
  last entry, the program reports every block migrated and no error, and every block reads back
  plainly. But \<^verbatim>\<open>WriteBlock\<close> ends a block with its hash and this program does not: when
  \<^verbatim>\<open>VerifyBlockHash\<close> is 1, the default, loading the latest block is an error; otherwise it is the
  block.\<close>

theorem migrated_chain_unreadable:
  assumes "ldb_get (kv_engine E) d latestHeightKey = Inr (be_put64 n)" and "n \<noteq> 0"
    and "list_all2 (old_block (kv_engine E) blockHeight d) (fst (ldb_iter (kv_engine E) d (string_bytes ''h''))) hds"
    and "distinct (map fst hds)" and "hds \<noteq> []" and "last hds = (n, blk_ToJSON E b)"
    and "blk_FromJSON E (blk_ToJSON E b) = Some b"
    and "sum_list (map (\<lambda>b. length (snd b)) hds) < 2 ^ 63"
  shows "\<exists>dir bs. migrate_flatfile (kv_engine E) blockHeight True (Inr d) [] [] = (Inr (length hds, 0), dir)
    \<and> NewBlockStore dir [] = Inr bs
    \<and> (\<forall>(h, data)\<in>set hds. fst (ReadBlock h bs) = Inr data)
    \<and> (let latest = fst (GetLatestBlock E cfg cl \<lparr>db = d, stateStore = ss, blockStore = bs\<rparr>) in
       if sint (VerifyBlockHash (Storage cfg)) = 1 then \<exists>e. latest = Inl e else latest = Inr b)"
proof -
  obtain dir bs where m: "migrate_flatfile (kv_engine E) blockHeight True (Inr d) [] [] = (Inr (length hds, 0), dir)"
      "NewBlockStore dir [] = Inr bs" and bs: "faults bs = []" "\<not> mu bs"
    and r: "\<forall>(h, data)\<in>set hds. block_at (files bs) h = Some data" "no_hash_at (files bs) n"
    using migrate_flatfile_run[OF assms(1,3,4,5,8)] assms(6) by auto
  have read: "fst (ReadBlock h bs) = Inr data" if "(h, data) \<in> set hds" for h data
    using ReadBlock_run[of bs h data] bs r(1) that by force
  have last: "fst (ReadBlock n bs) = Inr (blk_ToJSON E b)" using read assms(5,6) by (metis last_in_set)
  obtain e where e: "fst (ReadBlockWithVerify cl n bs) = Inl e" using no_hash_unverified[OF r(2)] by blast
  let ?D = "\<lparr>db = d, stateStore = ss, blockStore = bs\<rparr>"
  have "GetLatestHeight E ?D = Inr n"
    using be_get64_put64[of n "[]"] by (simp add: GetLatestHeight_def assms(1))
  then have "GetLatestBlock E cfg cl ?D = GetBlockByHeight E cfg cl n ?D" using assms(2) by (simp add: GetLatestBlock_def)
  then have "let latest = fst (GetLatestBlock E cfg cl ?D) in
      if sint (VerifyBlockHash (Storage cfg)) = 1 then \<exists>e. latest = Inl e else latest = Inr b"
    using e last assms(7) by (cases "ReadBlockWithVerify cl n bs"; cases "ReadBlock n bs")
      (auto simp: GetBlockByHeight_def on_blocks_def bindS_def Let_def)
  with m read show ?thesis by (intro exI[of _ dir] exI[of _ bs]) auto
qed


text \<open>An old database that holds one block.\<close>

definition demo_hash_key :: bytes where
  "demo_hash_key = string_bytes ''h'' @ be_put64 7"

definition demo_old_db :: ref_db where
  "demo_old_db = ref_apply (LPut demo_hash_key [1]) (ref_apply (LPut (string_bytes ''b'' @ [1]) (ref_blk_ToJSON demo_tx_block))
     (ref_apply (LPut latestHeightKey (be_put64 7)) ref_empty))"

lemma demo_old_db_get:
  "ldb_get ref_leveldb demo_old_db latestHeightKey = Inr (be_put64 7)"
  "ldb_get ref_leveldb demo_old_db (string_bytes ''b'' @ [1]) = Inr (ref_blk_ToJSON demo_tx_block)"
  by (simp_all add: ref_get demo_old_db_def ref_kv_apply demo_hash_key_def latestHeightKey_def string_bytes_def)

lemma demo_old_db_iter: "fst (ldb_iter ref_leveldb demo_old_db (string_bytes ''h'')) = [(demo_hash_key, [1])]"
proof -
  let ?es = "fst (ldb_iter ref_leveldb demo_old_db (string_bytes ''h''))"
  have it: "ldb_iter ref_leveldb demo_old_db (string_bytes ''h'') = (?es, None)" by (simp add: ref_leveldb_def)
  have "set ?es = {(k, v). ref_kv demo_old_db k = Some v \<and> has_prefix (string_bytes ''h'') k}"
    by (rule Level_DB.ref.iter_entries[OF it])
  also have "\<dots> = {(demo_hash_key, [1])}"
    by (auto simp: demo_old_db_def ref_kv_apply demo_hash_key_def latestHeightKey_def string_bytes_def has_prefix_def split: if_splits)
  finally have "set ?es = {(demo_hash_key, [1])}" .
  moreover have "distinct ?es" using Level_DB.ref.iter_distinct[OF it] by (simp add: distinct_map)
  ultimately show ?thesis by (cases ?es rule: list.exhaust; cases "tl ?es") auto
qed


theorem migrated_chain_unreadable_witness:
  "\<exists>dir bs e. migrate_flatfile ref_leveldb (\<lambda>data. Some (be_fold (take 8 data))) True (Inr demo_old_db) [] [] = (Inr (1, 0), dir)
    \<and> NewBlockStore dir [] = Inr bs \<and> fst (ReadBlock 7 bs) = Inr (ref_blk_ToJSON demo_tx_block)
    \<and> fst (GetLatestBlock demo_db_env setDefault demo_crypto \<lparr>db = demo_old_db, stateStore = ref_sstore, blockStore = bs\<rparr>) = Inl e"
proof -
  let ?data = "ref_blk_ToJSON demo_tx_block" and ?bh = "\<lambda>data. Some (be_fold (take 8 data)) :: u64 option"
  have h: "?bh ?data = Some 7" by (simp add: ref_blk_ToJSON_def Let_def demo_tx_block_def NewBlock_def)
  have fits: "?data \<noteq> []" "length ?data + 32 < 2 ^ 32"
    by (simp_all add: ref_blk_ToJSON_def ref_tx_ToJSON_def demo_tx_block_def NewBlock_def CalculateTxRoot_def
      CalculateHash_def demo_reward_def NewRewardTx_def GenesisAddress_def Let_def demo_crypto_def demo_digest_def)
  have rt: "ref_blk_FromJSON ?data = Some demo_tx_block"
    by (simp add: ref_blk_roundtrip demo_tx_block_def NewBlock_def)
  have one: "list_all2 (old_block ref_leveldb ?bh demo_old_db) [(demo_hash_key, [1])] [(7, ?data)]"
    using h fits by (simp add: old_block_def demo_old_db_get demo_hash_key_def)
  have v: "sint (VerifyBlockHash (Storage setDefault)) = 1" by (simp add: setDefault_def)
  show ?thesis
    using migrated_chain_unreadable[of demo_db_env demo_old_db 7 ?bh "[(7, ?data)]" demo_tx_block setDefault demo_crypto ref_sstore]
      one fits(2) rt v by (auto simp: demo_old_db_get demo_old_db_iter)
qed


section \<open>Accounts into shards\<close>

text \<open>The program has an account type of its own, with four of the nine fields.\<close>

record tool_account =
  TAddress :: string
  TAvailable :: u64
  TStaked :: u64
  TNonce :: u64

record 'd shard_tool =
  tool_engine :: "'d leveldb"
  tool_Marshal :: "tool_account \<Rightarrow> bytes"
  tool_Unmarshal :: "bytes \<Rightarrow> tool_account option"

definition tool_TotalSupply :: u64 where "tool_TotalSupply = 1400000000000000"

definition tool_getShardKey :: "string \<Rightarrow> char" where
  "tool_getShardKey address =
     (if length address < 2 then CHR ''0''
      else let c = address ! 1 in
        if (CHR ''0'' \<le> c \<and> c \<le> CHR ''9'') \<or> (CHR ''a'' \<le> c \<and> c \<le> CHR ''z'') then c else CHR ''0'')"

definition tool_total :: "tool_account \<Rightarrow> u64" where
  "tool_total t = TAvailable t + TStaked t"

text \<open>Step 1: the accounts of the old database by the address in their key, and their sum. A value
  that does not parse is skipped.\<close>

fun readLegacy :: "'d shard_tool \<Rightarrow> (bytes \<times> bytes) list \<Rightarrow> (string, tool_account) gomap \<times> u64 \<Rightarrow> (string, tool_account) gomap \<times> u64" where
  "readLegacy T [] r = r"
| "readLegacy T ((key, data) # es) (accounts, summed) = (case tool_Unmarshal T data of
     None \<Rightarrow> readLegacy T es (accounts, summed)
   | Some t \<Rightarrow> readLegacy T es (AList.update (bytes_string (drop 1 key)) t accounts, summed + tool_total t))"

text \<open>Step 3: one \<^verbatim>\<open>Put\<close> for each account; a missing shard would be a nil database.\<close>

fun migrateAccounts :: "'d shard_tool \<Rightarrow> (string, tool_account) gomap \<Rightarrow> ('d sstore, unit) step" where
  "migrateAccounts T [] s = (Inr (), s)"
| "migrateAccounts T ((address, account) # ts) s = (case map_of (shards s) (tool_getShardKey address) of
     None \<Rightarrow> (Inl Panic, s)
   | Some d \<Rightarrow> (case ldb_put (tool_engine T) d (string_bytes address) (tool_Marshal T account) of
       Inl e \<Rightarrow> (Inl e, s)
     | Inr d' \<Rightarrow> migrateAccounts T ts (set_shard (tool_getShardKey address) d' s)))"

text \<open>Step 4: the sum and the number of the accounts in all shards.\<close>

definition shardAccounts :: "'d shard_tool \<Rightarrow> 'd sstore \<Rightarrow> char \<Rightarrow> tool_account list" where
  "shardAccounts T s c = (case map_of (shards s) c of None \<Rightarrow> []
     | Some d \<Rightarrow> List.map_filter (\<lambda>e. tool_Unmarshal T (snd e)) (fst (ldb_iter (tool_engine T) d [])))"

definition verifyShards :: "'d shard_tool \<Rightarrow> 'd sstore \<Rightarrow> u64 \<times> nat" where
  "verifyShards T s = (let ts = concat (map (shardAccounts T s) ShardCharset) in (sum_list (map tool_total ts), length ts))"

text \<open>The whole program. \<open>opened\<close> is \<^verbatim>\<open>leveldb.OpenFile\<close> on the old database, \<open>mkdir\<close> whether the
  state directory could be made, \<open>open_db\<close> the 36 new databases. The result is the number of
  accounts reported.\<close>

definition migrate_sharded ::
    "'d shard_tool \<Rightarrow> bool \<Rightarrow> bool \<Rightarrow> (error + 'd) \<Rightarrow> bool \<Rightarrow> (char \<Rightarrow> error + 'd) \<Rightarrow> (error + nat) \<times> 'd sstore" where
  "migrate_sharded T legacyExists stateExists opened mkdir open_db =
     (let none = \<lparr>shards = [], state_height = None\<rparr> in
      if \<not> legacyExists then (Inl ErrNotFound, none)
      else if stateExists then (Inl Other, none)
      else case opened of
        Inl e \<Rightarrow> (Inl e, none)
      | Inr d \<Rightarrow> (case ldb_iter (tool_engine T) d (string_bytes ''a'') of
          (es, err) \<Rightarrow> (case readLegacy T es ([], 0) of
            (accounts, totalBefore) \<Rightarrow> (case err of
              Some e \<Rightarrow> (Inl e, none)
            | None \<Rightarrow>
                if totalBefore \<noteq> tool_TotalSupply then (Inl (SupplyMismatch totalBefore), none)
                else if \<not> mkdir then (Inl ErrIO, none)
                else (case NewShardedStateStore open_db None of
                  Inl e \<Rightarrow> (Inl e, none)
                | Inr s0 \<Rightarrow> (case migrateAccounts T accounts s0 of
                    (Inl e, s) \<Rightarrow> (Inl e, s)
                  | (Inr _, s) \<Rightarrow> (case verifyShards T s of
                      (totalAfter, countAfter) \<Rightarrow>
                        if totalAfter \<noteq> tool_TotalSupply then (Inl (SupplyMismatch totalAfter), s)
                        else if countAfter \<noteq> length accounts then (Inl Other, s)
                        else (Inr countAfter, s))))))))"

lemma tool_getShardKey_eq: "tool_getShardKey = getShardKey"
  by (auto simp: fun_eq_iff tool_getShardKey_def getShardKey_def base36_char_ok_def Let_def)

text \<open>What the node reads back of an account the program wrote: \<^verbatim>\<open>json.Unmarshal\<close> leaves an absent
  field at its zero value.\<close>

definition as_account :: "tool_account \<Rightarrow> account" where
  "as_account t = (NewAccount (TAddress t))\<lparr>AvailableBalance := TAvailable t, StakedBalance := TStaked t, Nonce := TNonce t\<rparr>"

definition tool_view :: "account \<Rightarrow> tool_account" where
  "tool_view a = \<lparr>TAddress = Address a, TAvailable = AvailableBalance a, TStaked = StakedBalance a, TNonce = Nonce a\<rparr>"

lemma migrated_regular [simp]: "\<not> IsValidator cfg (as_account t)"
  by (simp add: IsValidator_def as_account_def NewAccount_def)

lemma as_account_fields [simp]:
  "Address (as_account t) = TAddress t" "AvailableBalance (as_account t) = TAvailable t"
  "StakedBalance (as_account t) = TStaked t" "Nonce (as_account t) = TNonce t"
  by (simp_all add: as_account_def NewAccount_def)


text \<open>The accounts the old database parses to, in key order.\<close>

definition parsed :: "'d shard_tool \<Rightarrow> (bytes \<times> bytes) list \<Rightarrow> (string \<times> tool_account) list" where
  "parsed T es = List.map_filter (\<lambda>(k, v). map_option (Pair (bytes_string (drop 1 k))) (tool_Unmarshal T v)) es"

lemma set_parsed:
  "(a, t) \<in> set (parsed T es) \<longleftrightarrow> (\<exists>k v. (k, v) \<in> set es \<and> a = bytes_string (drop 1 k) \<and> tool_Unmarshal T v = Some t)"
  by (induction es) (auto simp: parsed_def map_filter_simps split: option.splits)

lemma parsed_Cons: "parsed T ((k, v) # es)
    = (case tool_Unmarshal T v of None \<Rightarrow> [] | Some t \<Rightarrow> [(bytes_string (drop 1 k), t)]) @ parsed T es"
  by (simp add: parsed_def map_filter_simps split: option.split)

lemma string_bytes_string [simp]: "string_bytes (bytes_string b) = b"
proof -
  have "of_char (char_of (unat x) :: char) = x" for x :: u8
  proof -
    have "of_char (char_of (unat x) :: char) = unat x mod 256" by (rule of_char_of)
    then have "of_char (char_of (unat x) :: char) = unat x" using unsigned_less[of x, where 'a = nat] by simp
    then show ?thesis by (metis of_nat_of_char unat_of_char word_unat_eq_iff)
  qed
  then show ?thesis by (simp add: string_bytes_def bytes_string_def comp_def)
qed

lemma readLegacy_map: "map_of (fst (readLegacy T es (m, n))) = map_of m ++ map_of (rev (parsed T es))"
  by (induction es arbitrary: m n) (auto simp: parsed_def map_filter_simps map_add_def fun_eq_iff split: option.split)

lemma readLegacy_keys: "distinct (map fst m) \<Longrightarrow> distinct (map fst (fst (readLegacy T es (m, n))))"
  by (induction es arbitrary: m n) (auto simp: distinct_update split: option.split)

lemma migrateAccounts_wf: "migrateAccounts T ts s = (Inr u, s') \<Longrightarrow> gomap_wf (shards s) \<Longrightarrow> gomap_wf (shards s')"
  by (induction ts arbitrary: s) (auto split: option.splits sum.splits)

lemma open_shards_wf: "open_shards open_db cs m = Inr m' \<Longrightarrow> gomap_wf m \<Longrightarrow> gomap_wf m'"
  by (induction cs arbitrary: m) (auto split: sum.splits)

text \<open>What the program and the node agree on: one engine, and JSON texts in which each finds the
  fields it knows.\<close>

locale shard_migration = leveldb_spec "tool_engine T" kv
  for T :: "'d shard_tool" and kv :: "'d \<Rightarrow> bytes \<rightharpoonup> bytes" +
  fixes E :: "'d account_env"
  assumes same_engine: "engine E = tool_engine T"
    and node_reads: "acc_FromJSON E (tool_Marshal T t) = Some (as_account t)"
    and tool_reads: "tool_Unmarshal T (acc_ToJSON E a) = Some (tool_view a)"
begin

definition held :: "'d sstore \<Rightarrow> char \<Rightarrow> bytes \<rightharpoonup> bytes" where
  "held s c = (case map_of (shards s) c of None \<Rightarrow> Map.empty | Some d \<Rightarrow> kv d)"

lemma held_put:
  assumes "ldb_put (tool_engine T) d k v = Inr d'" and "map_of (shards s) c = Some d"
  shows "held (set_shard c d' s) = (held s)(c := (held s c)(k \<mapsto> v))"
  using put_ok[OF assms(1)] assms(2) by (auto simp: held_def fun_eq_iff)

lemma migrateAccounts_held:
  assumes "migrateAccounts T ts s = (Inr u, s')" and "distinct (map fst ts)"
  shows "held s' c (string_bytes a) = (case map_of ts a of
     Some t \<Rightarrow> if getShardKey a = c then Some (tool_Marshal T t) else held s c (string_bytes a)
   | None \<Rightarrow> held s c (string_bytes a))"
  using assms
proof (induction ts arbitrary: s)
  case (Cons b ts)
  obtain x t where b: "b = (x, t)" by (cases b)
  with Cons.prems(1) obtain d d' where d: "map_of (shards s) (getShardKey x) = Some d"
    "ldb_put (tool_engine T) d (string_bytes x) (tool_Marshal T t) = Inr d'"
    and r: "migrateAccounts T ts (set_shard (getShardKey x) d' s) = (Inr u, s')"
    by (auto simp: tool_getShardKey_eq split: option.splits sum.splits)
  have "x \<notin> fst ` set ts" using Cons.prems(2) b by simp
  then have "map_of ts x = None" by (simp add: map_of_eq_None_iff)
  then show ?case
    using Cons.IH[OF r] Cons.prems(2) b held_put[OF d(2,1)] by (auto split: option.split)
qed simp

lemma migrateAccounts_values:
  assumes "migrateAccounts T ts s = (Inr u, s')" and "held s' c k = Some v"
  shows "held s c k = Some v \<or> v \<in> tool_Marshal T ` snd ` set ts"
  using assms
proof (induction ts arbitrary: s)
  case (Cons b ts)
  obtain x t where b: "b = (x, t)" by (cases b)
  with Cons.prems(1) obtain d d' where d: "map_of (shards s) (getShardKey x) = Some d"
    "ldb_put (tool_engine T) d (string_bytes x) (tool_Marshal T t) = Inr d'"
    and r: "migrateAccounts T ts (set_shard (getShardKey x) d' s) = (Inr u, s')"
    by (auto simp: tool_getShardKey_eq split: option.splits sum.splits)
  show ?case
    using Cons.IH[OF r Cons.prems(2)] held_put[OF d(2,1)] b by (auto split: if_splits)
qed simp

lemma open_shards_held:
  assumes "open_shards open_db cs m = Inr m'" and "\<forall>c d. open_db c = Inr d \<longrightarrow> kv d = Map.empty"
    and "\<forall>c d. map_of m c = Some d \<longrightarrow> kv d = Map.empty" and "map_of m' c = Some d"
  shows "kv d = Map.empty"
  using assms by (induction cs arbitrary: m) (auto split: sum.splits if_splits)

text \<open>A run that ends with success: what the shards hold afterwards.\<close>

lemma migrate_sharded_ok:
  assumes "migrate_sharded T lx sx (Inr d) mk open_db = (Inr n, s)"
    and "\<forall>c d. open_db c = Inr d \<longrightarrow> kv d = Map.empty"
  obtains es ts where "ldb_iter (tool_engine T) d (string_bytes ''a'') = (es, None)"
    and "ts = fst (readLegacy T es ([], 0))"
    and "\<And>c a. held s c (string_bytes a) = (case map_of ts a of
           Some t \<Rightarrow> if getShardKey a = c then Some (tool_Marshal T t) else None | None \<Rightarrow> None)"
    and "\<And>c k v. held s c k = Some v \<Longrightarrow> \<exists>t. v = tool_Marshal T t" and "gomap_wf (shards s)"
proof -
  obtain es err where es: "ldb_iter (tool_engine T) d (string_bytes ''a'') = (es, err)" by fastforce
  obtain ts before where ts: "readLegacy T es ([], 0) = (ts, before)" by fastforce
  from assms(1) es ts obtain s0 u where err: "err = None" and s0: "NewShardedStateStore open_db None = Inr s0"
    and m: "migrateAccounts T ts s0 = (Inr u, s)"
    by (auto simp: migrate_sharded_def Let_def split: if_splits option.splits sum.splits prod.splits)
  have "held s0 c k = None" for c k
    using s0 open_shards_held[of open_db ShardCharset "[]" "shards s0" c] assms(2)
    by (auto simp: NewShardedStateStore_def held_def split: sum.splits option.split)
  moreover have "gomap_wf (shards s)"
    using migrateAccounts_wf[OF m] s0 open_shards_wf[of open_db ShardCharset "[]"]
    by (auto simp: NewShardedStateStore_def gomap_wf_def split: sum.splits)
  moreover have "distinct (map fst ts)" using readLegacy_keys[of "[]" T es 0] ts by simp
  ultimately show ?thesis
    using that[of es ts] es err ts migrateAccounts_held[OF m] migrateAccounts_values[OF m] by (fastforce split: option.split)
qed

lemma held_regular:
  assumes "\<And>c k v. held s c k = Some v \<Longrightarrow> \<exists>t. v = tool_Marshal T t" and "gomap_wf (shards s)"
    and "SS_GetAllAccounts E s = Inr accs"
  shows "\<exists>ts. accs = map as_account ts"
proof -
  have "\<exists>ts. accs = map as_account ts" if "collect_accounts E ds = Inr accs"
    "\<forall>c d. (c, d) \<in> set ds \<longrightarrow> (\<forall>k v. kv d k = Some v \<longrightarrow> (\<exists>t. v = tool_Marshal T t))" for ds
    using that
  proof (induction ds arbitrary: accs)
    case (Cons b ds)
    obtain c d where b: "b = (c, d)" by (cases b)
    with Cons.prems(1) obtain es ys where es: "ldb_iter (tool_engine T) d [] = (es, None)"
      and ys: "collect_accounts E ds = Inr ys" and accs: "accs = decode_all E es @ ys"
      by (auto simp: same_engine split: prod.splits option.splits sum.splits)
    have "\<forall>e\<in>set es. \<exists>t. snd e = tool_Marshal T t"
      using iter_entries[OF es] Cons.prems(2) b by auto
    then have "\<exists>ts. decode_all E es = map as_account ts"
    proof (induction es)
      case (Cons e es)
      then obtain t ts where "snd e = tool_Marshal T t" "decode_all E es = map as_account ts" by auto
      then have "decode_all E (e # es) = map as_account (t # ts)" by (simp add: decode_all_def map_filter_simps node_reads)
      then show ?case by blast
    qed (simp add: decode_all_def map_filter_simps)
    moreover obtain us where "ys = map as_account us" using Cons.IH[OF ys] Cons.prems(2) by auto
    ultimately show ?case using accs by (metis map_append)
  qed simp
  moreover have "\<forall>c d. (c, d) \<in> set (shards s) \<longrightarrow> (\<forall>k v. kv d k = Some v \<longrightarrow> (\<exists>t. v = tool_Marshal T t))"
  proof (intro allI impI)
    fix c d k v assume "(c, d) \<in> set (shards s)" and v: "kv d k = Some v"
    then have "map_of (shards s) c = Some d" using assms(2) by (simp add: gomap_wf_def)
    then show "\<exists>t. v = tool_Marshal T t" using assms(1)[of c k v] v by (simp add: held_def)
  qed
  ultimately show ?thesis using assms(3) by (simp add: SS_GetAllAccounts_def)
qed

lemma parsed_account:
  assumes "ldb_iter (tool_engine T) d (string_bytes ''a'') = (es, None)"
    and "kv d (string_bytes (''a'' @ addr)) = Some (acc_ToJSON E a)"
  shows "map_of (fst (readLegacy T es ([], 0))) addr = Some (tool_view a)"
proof -
  have keys: "\<exists>rest. k = string_bytes ''a'' @ rest" if "(k, v) \<in> set es" for k v
  proof -
    have "has_prefix (string_bytes ''a'') k" using iter_entries[OF assms(1)] that by simp
    then show ?thesis unfolding has_prefix_def by (metis append_take_drop_id)
  qed
  have "(string_bytes (''a'' @ addr), acc_ToJSON E a) \<in> set es"
    using iter_entries[OF assms(1)] assms(2) by (simp add: has_prefix_def string_bytes_def)
  then have mem: "(addr, tool_view a) \<in> set (parsed T es)"
    unfolding set_parsed by (intro exI[of _ "string_bytes (''a'' @ addr)"] exI[of _ "acc_ToJSON E a"])
      (simp add: tool_reads string_bytes_def bytes_string_def comp_def unat_of_char)
  have "distinct (map fst es)" by (rule iter_distinct[OF assms(1)])
  with keys have "distinct (map fst (parsed T es))"
  proof (induction es)
    case (Cons e es)
    obtain k v where e: "e = (k, v)" by (cases e)
    have other: "bytes_string (drop 1 k') \<noteq> bytes_string (drop 1 k)" if k': "(k', v') \<in> set es" for k' v'
    proof
      assume "bytes_string (drop 1 k') = bytes_string (drop 1 k)"
      then have "drop 1 k' = drop 1 k" by (metis string_bytes_string)
      moreover obtain r r' where "k = string_bytes ''a'' @ r" "k' = string_bytes ''a'' @ r'"
        using Cons.prems(1)[of k v] Cons.prems(1)[of k' v'] k' e by auto
      ultimately have "k' = k" by (simp add: string_bytes_def)
      then show False using Cons.prems(2) k' e by (auto simp: image_iff)
    qed
    have "bytes_string (drop 1 k) \<notin> fst ` set (parsed T es)"
      using other by (force simp: set_parsed)
    moreover have "distinct (map fst (parsed T es))"
      using Cons.IH[OF Cons.prems(1)[OF list.set_intros(2)]] Cons.prems(2) by simp
    ultimately show ?case by (simp add: e parsed_Cons split: option.split)
  qed (simp add: parsed_def map_filter_simps)
  then have "map_of (rev (parsed T es)) addr = Some (tool_view a)" using mem by (intro map_of_is_SomeI) (simp_all add: rev_map[symmetric])
  then show ?thesis by (simp add: readLegacy_map)
qed

lemma GetAccount_held:
  assumes "SS_GetAccount E s addr = Inr acc" and "held s (getShardKey addr) (string_bytes addr) = Some (tool_Marshal T t)"
  shows "acc = as_account t"
proof -
  from assms(2) obtain d where d: "map_of (shards s) (getShardKey addr) = Some d" "kv d (string_bytes addr) = Some (tool_Marshal T t)"
    by (auto simp: held_def split: option.splits)
  with assms(1) show ?thesis
    using get_some[of d "string_bytes addr"] get_none[of d "string_bytes addr"]
    by (auto simp: SS_GetAccount_def getShard_def same_engine node_reads split: sum.splits option.splits if_splits)
qed

lemma migrated_state:
  assumes "migrate_sharded T lx sx (Inr d) mk open_db = (Inr n, s)"
    and "\<forall>c d. open_db c = Inr d \<longrightarrow> kv d = Map.empty"
  shows "SS_GetAllAccounts E s = Inr accs \<Longrightarrow> \<exists>ts. accs = map as_account ts"
    and "kv d (string_bytes (''a'' @ addr)) = Some (acc_ToJSON E a) \<Longrightarrow> SS_GetAccount E s addr = Inr acc
      \<Longrightarrow> acc = as_account (tool_view a)"
proof -
  obtain es ts where es: "ldb_iter (tool_engine T) d (string_bytes ''a'') = (es, None)" "ts = fst (readLegacy T es ([], 0))"
    and h: "\<And>c a. held s c (string_bytes a) = (case map_of ts a of
           Some t \<Rightarrow> if getShardKey a = c then Some (tool_Marshal T t) else None | None \<Rightarrow> None)"
      "\<And>c k v. held s c k = Some v \<Longrightarrow> \<exists>t. v = tool_Marshal T t" "gomap_wf (shards s)"
    using migrate_sharded_ok[OF assms] by blast
  show "SS_GetAllAccounts E s = Inr accs \<Longrightarrow> \<exists>ts. accs = map as_account ts" using held_regular[OF h(2,3)] .
  show "kv d (string_bytes (''a'' @ addr)) = Some (acc_ToJSON E a) \<Longrightarrow> SS_GetAccount E s addr = Inr acc
      \<Longrightarrow> acc = as_account (tool_view a)"
    using GetAccount_held parsed_account[OF es(1)] h(1) es(2) by simp
qed

end

text \<open>The reference engine and codec, with the tool's four fields read from and written to the same
  texts.\<close>

definition ref_tool :: "ref_db shard_tool" where
  "ref_tool = \<lparr>tool_engine = ref_leveldb, tool_Marshal = (\<lambda>t. ref_ToJSON (as_account t)),
     tool_Unmarshal = (\<lambda>b. map_option tool_view (ref_FromJSON b))\<rparr>"

interpretation ref_migration: shard_migration ref_tool ref_kv ref_env
  by (rule shard_migration.intro, simp add: ref_tool_def Level_DB.ref.leveldb_spec_axioms, unfold_locales)
    (simp_all add: ref_tool_def ref_env_def ref_json_roundtrip)

text \<open>C33: an operator who migrates the accounts with this program loses every validator. After a run
  that reports success, with databases that were empty before, an account the node reads back has the
  balances and the nonce it had, and nothing else: its node type is that of a regular node. So the
  validator set a node loads from the migrated state is empty, and choosing a proposer fails at
  every height.\<close>

theorem migration_drops_validators:
  assumes "shard_migration T kv E" and "migrate_sharded T lx sx (Inr d) mk open_db = (Inr n, s)"
    and "\<forall>c d. open_db c = Inr d \<longrightarrow> kv d = Map.empty"
  shows "(kv d (string_bytes (''a'' @ addr)) = Some (acc_ToJSON E a) \<longrightarrow> SS_GetAccount E s addr = Inr acc
      \<longrightarrow> acc = (NewAccount (Address a))\<lparr>AvailableBalance := AvailableBalance a, StakedBalance := StakedBalance a, Nonce := Nonce a\<rparr>)
    \<and> (LoadFromState (sharded_ops E) cfg now s vs = (Inr (), vs1) \<longrightarrow> UpdateActiveSet cfg now vs1 = (Inr (), vs2)
      \<longrightarrow> vs_validators vs1 = [] \<and> SelectProposer cfg cl height prev vs2 = Inl NoActiveValidators)"
proof -
  note m = shard_migration.migrated_state[OF assms]
  have "vs_validators vs1 = []" if "LoadFromState (sharded_ops E) cfg now s vs = (Inr (), vs1)"
  proof -
    from that obtain accs where accs: "SS_GetAllAccounts E s = Inr accs"
      and vs1: "vs_validators vs1 = map (\<lambda>acc. loadedValidator now (Address acc) (StakedBalance acc) []) (filter (IsValidator cfg) accs)"
      by (auto simp: LoadFromState_def sharded_ops_def split: sum.splits)
    obtain ts where "accs = map as_account ts" using m(1)[OF accs] by blast
    with vs1 show ?thesis by (simp add: filter_map comp_def)
  qed
  moreover have "SelectProposer cfg cl height prev vs2 = Inl NoActiveValidators"
    if "vs_validators vs1 = []" "UpdateActiveSet cfg now vs1 = (Inr (), vs2)"
    using that by (auto simp: UpdateActiveSet_def SelectProposer_def Let_def split: if_splits)
  ultimately show ?thesis using m(2) by (auto simp: as_account_def tool_view_def)
qed

definition demo_staker :: account where
  "demo_staker = (NewAccount ''F1'')\<lparr>StakedBalance := tool_TotalSupply, NodeType := NodeValidator\<rparr>"

definition demo_legacy :: ref_db where
  "demo_legacy = ref_apply (LPut (string_bytes (''a'' @ ''F1'')) (ref_ToJSON demo_staker)) ref_empty"

definition demo_migrated :: "ref_db sstore" where
  "demo_migrated = set_shard (CHR ''1'') (ref_apply (LPut (string_bytes ''F1'') (ref_ToJSON (as_account (tool_view demo_staker)))) ref_empty) ref_sstore"

lemma demo_migration: "migrate_sharded ref_tool True False (Inr demo_legacy) True (\<lambda>_. Inr ref_empty) = (Inr 1, demo_migrated)"
proof -
  have it: "ldb_iter ref_leveldb demo_legacy (string_bytes ''a'') = ([(string_bytes (''a'' @ ''F1''), ref_ToJSON demo_staker)], None)"
    by (simp add: ref_leveldb_def demo_legacy_def has_prefix_def string_bytes_def)
  have drop_key: "bytes_string (drop (Suc 0) (string_bytes ''aF1'')) = ''F1''"
    using bytes_string_bytes[of "''F1''"] by (simp add: string_bytes_def)
  have read: "readLegacy ref_tool [(string_bytes (''a'' @ ''F1''), ref_ToJSON demo_staker)] ([], 0)
      = ([(''F1'', tool_view demo_staker)], tool_TotalSupply)"
    by (simp add: ref_tool_def ref_json_roundtrip tool_total_def tool_view_def demo_staker_def NewAccount_def
        drop_key)
  have mig: "migrateAccounts ref_tool [(''F1'', tool_view demo_staker)] ref_sstore = (Inr (), demo_migrated)"
    by (simp add: tool_getShardKey_def ref_tool_def ref_sstore_def ShardCharset_def ref_puts demo_migrated_def set_shard_def)
  have ver: "verifyShards ref_tool demo_migrated = (tool_TotalSupply, 1)"
    unfolding verifyShards_def shardAccounts_def ShardCharset_def
    by (simp add: Let_def ref_tool_def ref_leveldb_def demo_migrated_def ref_sstore_def ShardCharset_def ref_json_roundtrip
        map_filter_simps has_prefix_def tool_total_def tool_view_def demo_staker_def)
  show ?thesis
    unfolding migrate_sharded_def using it read mig ver ref_sstore_new
    by (simp add: ref_tool_def Let_def)
qed


theorem migration_drops_validators_witness:
  "IsValidator shipped_config demo_staker
   \<and> SS_GetAccount ref_env demo_migrated ''F1'' = Inr ((NewAccount ''F1'')\<lparr>StakedBalance := tool_TotalSupply\<rparr>)
   \<and> (\<exists>vs1 vs2. LoadFromState (sharded_ops ref_env) shipped_config 0 demo_migrated (NewValidatorSet 0) = (Inr (), vs1)
        \<and> UpdateActiveSet shipped_config 0 vs1 = (Inr (), vs2)
        \<and> SelectProposer shipped_config demo_crypto 1 zero_hash vs2 = Inl NoActiveValidators)"
proof -
  have "\<forall>c d. (\<lambda>_ :: char. Inr ref_empty :: error + ref_db) c = Inr d \<longrightarrow> ref_kv d = Map.empty" by simp
  note claim = migration_drops_validators[OF ref_migration.shard_migration_axioms demo_migration this]
  have "IsValidator shipped_config demo_staker"
    by (simp add: IsValidator_def demo_staker_def shipped_config_def setDefault_def NewAccount_def tool_TotalSupply_def)
  moreover obtain acc where acc: "SS_GetAccount ref_env demo_migrated ''F1'' = Inr acc"
    by (simp add: SS_GetAccount_def getShard_def getShardKey_def demo_migrated_def ref_get ref_kv_apply
        ref_env_def ref_json_roundtrip base36_char_ok_def)
  moreover have "ref_kv demo_legacy (string_bytes (''a'' @ ''F1'')) = Some (acc_ToJSON ref_env demo_staker)"
    by (simp add: demo_legacy_def ref_kv_apply ref_env_def)
  moreover obtain vs1 where l: "LoadFromState (sharded_ops ref_env) shipped_config 0 demo_migrated (NewValidatorSet 0) = (Inr (), vs1)"
    using ref_collect_ok[of "shards demo_migrated"] by (auto simp: LoadFromState_def sharded_ops_def SS_GetAllAccounts_def)
  moreover have "\<exists>vs2. UpdateActiveSet shipped_config 0 vs1 = (Inr (), vs2)"
    by (simp add: UpdateActiveSet_def Let_def shipped_config_def setDefault_def)
  ultimately show ?thesis
    using claim[of "''F1''" demo_staker acc shipped_config 0 "NewValidatorSet 0" vs1]
    by (auto simp: demo_staker_def NewAccount_def)
qed


section \<open>The transaction index\<close>

text \<open>The transactions of a block: an entry that cannot be written is reported and not counted.\<close>

fun rebuildTxs :: "'d db_env \<Rightarrow> crypto_lib \<Rightarrow> transaction list \<Rightarrow> u64 \<times> 'd Database \<Rightarrow> u64 \<times> 'd Database" where
  "rebuildTxs E cl [] r = r"
| "rebuildTxs E cl (tx # txs) (totalTxs, D) = (case SaveTransaction E cl tx D of
     (Inl _, D') \<Rightarrow> rebuildTxs E cl txs (totalTxs, D')
   | (Inr _, D') \<Rightarrow> rebuildTxs E cl txs (totalTxs + 1, D'))"

text \<open>A block that cannot be read is skipped. The report after a block divides by the batch size.\<close>

fun rebuildHeights :: "'d db_env \<Rightarrow> ConsensusConfig \<Rightarrow> crypto_lib \<Rightarrow> i64 \<Rightarrow> u64 list \<Rightarrow> u64 \<times> u64 \<Rightarrow> ('d Database, u64 \<times> u64) step" where
  "rebuildHeights E cfg cl batchSize [] r D = (Inr r, D)"
| "rebuildHeights E cfg cl batchSize (h # hs) (processed, totalTxs) D = (case GetBlockByHeight E cfg cl h D of
     (Inl e, D') \<Rightarrow> if e = Panic \<or> e = Deadlock then (Inl e, D') else rebuildHeights E cfg cl batchSize hs (processed, totalTxs) D'
   | (Inr b, D') \<Rightarrow> (case rebuildTxs E cl (BTransactions b) (totalTxs, D') of (total', D'') \<Rightarrow>
       if batchSize = 0 then (Inl Panic, D'')
       else rebuildHeights E cfg cl batchSize hs (processed + 1, total') D''))"

text \<open>The program on an opened database, with the flags \<^verbatim>\<open>start\<close>, \<^verbatim>\<open>end\<close> and \<^verbatim>\<open>batch\<close>; the result is
  the number of blocks and of transactions it reports. The loop counts a \<^verbatim>\<open>uint64\<close> up to the end
  height and would pass every end but the largest, where it goes on forever.\<close>

definition rebuild_tx_index ::
    "'d db_env \<Rightarrow> ConsensusConfig \<Rightarrow> crypto_lib \<Rightarrow> u64 \<Rightarrow> u64 \<Rightarrow> i64 \<Rightarrow> ('d Database, u64 \<times> u64) step" where
  "rebuild_tx_index E cfg cl startHeight endHeight batchSize D = (case GetLatestHeight E D of
     Inl e \<Rightarrow> (Inl e, D)
   | Inr latest \<Rightarrow>
       let end' = (if endHeight = 0 \<or> endHeight > latest then latest else endHeight) in
       if end' = - 1 then (Inl Deadlock, D)
       else rebuildHeights E cfg cl batchSize (heightsFromTo startHeight end') (0, 0) D)"

text \<open>The entries of an index that come from given transactions.\<close>

definition indexed :: "'d db_env \<Rightarrow> crypto_lib \<Rightarrow> ('d \<Rightarrow> bytes \<rightharpoonup> bytes) \<Rightarrow> transaction set \<Rightarrow> 'd Database \<Rightarrow> hash \<Rightarrow> bool" where
  "indexed E cl kv txs D h \<longleftrightarrow> (\<exists>tx\<in>txs. Tx_Hash cl tx = h \<and> kv (db D) (makeTxKey h) = Some (tx_ToJSON E tx))"

lemma SaveTransaction_indexed:
  assumes "leveldb_spec (kv_engine E) kv" and "SaveTransaction E cl tx D = (Inr (), D')" and "tx \<in> txs"
  shows "indexed E cl kv txs D' (Tx_Hash cl tx)" and "indexed E cl kv txs D h \<Longrightarrow> indexed E cl kv txs D' h"
    and "blockStore D' = blockStore D"
proof -
  obtain d where d: "ldb_put (kv_engine E) (db D) (makeTxKey (Tx_Hash cl tx)) (tx_ToJSON E tx) = Inr d" "D' = D\<lparr>db := d\<rparr>"
    using assms(2) by (auto simp: SaveTransaction_def db_Put_def split: sum.splits)
  note kv = leveldb_spec.put_ok[OF assms(1) d(1)]
  show "indexed E cl kv txs D' (Tx_Hash cl tx)" using assms(3) d(2) kv by (auto simp: indexed_def)
  show "indexed E cl kv txs D h \<Longrightarrow> indexed E cl kv txs D' h"
    using assms(3) d(2) kv by (cases "h = Tx_Hash cl tx") (auto simp: indexed_def)
  show "blockStore D' = blockStore D" using d(2) by simp
qed

locale writing_engine = leveldb_spec "kv_engine E" kv
  for E :: "'d db_env" and kv :: "'d \<Rightarrow> bytes \<rightharpoonup> bytes" +
  assumes put_succeeds: "\<exists>d'. ldb_put (kv_engine E) d k v = Inr d'"
begin

lemma SaveTransaction_run: "\<exists>D'. SaveTransaction E cl tx D = (Inr (), D')"
  using put_succeeds[of "db D" "makeTxKey (Tx_Hash cl tx)" "tx_ToJSON E tx"] by (auto simp: SaveTransaction_def db_Put_def)

lemma rebuildTxs_run:
  assumes "set ts \<subseteq> txs"
  shows "\<exists>D'. rebuildTxs E cl ts (n, D) = (n + of_nat (length ts), D') \<and> blockStore D' = blockStore D
    \<and> (\<forall>h. h \<in> Tx_Hash cl ` set ts \<or> indexed E cl kv txs D h \<longrightarrow> indexed E cl kv txs D' h)"
  using assms
proof (induction ts arbitrary: n D)
  case (Cons tx ts)
  obtain D1 where 1: "SaveTransaction E cl tx D = (Inr (), D1)" using SaveTransaction_run by blast
  have tx: "tx \<in> txs" using Cons.prems by simp
  obtain D2 where "rebuildTxs E cl ts (n + 1, D1) = (n + 1 + of_nat (length ts), D2)" "blockStore D2 = blockStore D1"
    "\<forall>h. h \<in> Tx_Hash cl ` set ts \<or> indexed E cl kv txs D1 h \<longrightarrow> indexed E cl kv txs D2 h"
    using Cons.IH[of "n + 1" D1] Cons.prems by auto
  then show ?case
    using 1 SaveTransaction_indexed[OF leveldb_spec_axioms 1 tx] by (intro exI[of _ D2]) (auto simp: ac_simps)
qed simp

lemma rebuildHeights_run:
  assumes "batchSize \<noteq> 0" and "sint (VerifyBlockHash (Storage cfg)) \<noteq> 1"
    and "\<forall>h\<in>set hs. block_at m h = Some (blk_ToJSON E (blk h)) \<and> blk_FromJSON E (blk_ToJSON E (blk h)) = Some (blk h)
      \<and> set (BTransactions (blk h)) \<subseteq> txs"
    and "files (blockStore D) = m" and "faults (blockStore D) = []" and "\<not> mu (blockStore D)"
  shows "\<exists>D'. rebuildHeights E cfg cl batchSize hs (p, n) D
      = (Inr (p + of_nat (length hs), n + of_nat (\<Sum>h\<leftarrow>hs. length (BTransactions (blk h)))), D')
    \<and> (\<forall>g. g \<in> (\<Union>h\<in>set hs. Tx_Hash cl ` set (BTransactions (blk h))) \<or> indexed E cl kv txs D g \<longrightarrow> indexed E cl kv txs D' g)"
  using assms(3-)
proof (induction hs arbitrary: p n D)
  case (Cons h hs)
  have at: "block_at (files (blockStore D)) h = Some (blk_ToJSON E (blk h))" and rt: "blk_FromJSON E (blk_ToJSON E (blk h)) = Some (blk h)"
    and sub: "set (BTransactions (blk h)) \<subseteq> txs"
    using Cons.prems by simp_all
  obtain bs where bs: "ReadBlock h (blockStore D) = (Inr (blk_ToJSON E (blk h)), bs)"
    using ReadBlock_run[OF at Cons.prems(3,4)] by blast
  have k: "files bs = m" "faults bs = []" "\<not> mu bs"
    using steps_inD[OF keeps_ReadBlock bs] Cons.prems(2-4) by (simp_all add: keeps_files_def)
  have g: "GetBlockByHeight E cfg cl h D = (Inr (blk h), D\<lparr>blockStore := bs\<rparr>)"
    using bs assms(2) rt by (simp add: GetBlockByHeight_def bindS_def on_blocks_def)
  obtain D1 where 1: "rebuildTxs E cl (BTransactions (blk h)) (n, D\<lparr>blockStore := bs\<rparr>) = (n + of_nat (length (BTransactions (blk h))), D1)"
    "blockStore D1 = bs" "\<And>x. x \<in> Tx_Hash cl ` set (BTransactions (blk h)) \<or> indexed E cl kv txs (D\<lparr>blockStore := bs\<rparr>) x \<Longrightarrow> indexed E cl kv txs D1 x"
    using rebuildTxs_run[OF sub, of cl n "D\<lparr>blockStore := bs\<rparr>"] by auto
  have "indexed E cl kv txs (D\<lparr>blockStore := bs\<rparr>) x = indexed E cl kv txs D x" for x by (simp add: indexed_def)
  note 1 = 1(1,2) 1(3)[unfolded this]
  obtain D2 where "rebuildHeights E cfg cl batchSize hs (p + 1, n + of_nat (length (BTransactions (blk h)))) D1
      = (Inr (p + 1 + of_nat (length hs), n + of_nat (length (BTransactions (blk h))) + of_nat (\<Sum>h\<leftarrow>hs. length (BTransactions (blk h)))), D2)"
    "\<forall>g. g \<in> (\<Union>h\<in>set hs. Tx_Hash cl ` set (BTransactions (blk h))) \<or> indexed E cl kv txs D1 g \<longrightarrow> indexed E cl kv txs D2 g"
    using Cons.IH[of D1 "p + 1" "n + of_nat (length (BTransactions (blk h)))"] Cons.prems(1) k 1(2) by auto
  then show ?case using g 1 assms(1) by (intro exI[of _ D2]) (auto simp: ac_simps)
qed auto

end


interpretation demo_writes: writing_engine demo_db_env ref_kv
  by (rule writing_engine.intro, simp add: Level_DB.ref.leveldb_spec_axioms, unfold_locales) (simp add: ref_puts)

text \<open>A rebuilt index finds every transaction of its range. When the engine answers every read and
  takes every write, and the blocks from the start height to the latest one are on disk, the
  program ends, reports all their blocks and transactions, and afterwards each of the
  transactions is found under its hash, as itself or as another one with that hash.\<close>

theorem rebuilt_index_finds:
  assumes "writing_engine E kv"
    and "\<And>d k. ldb_get (kv_engine E) d k = (case kv d k of None \<Rightarrow> Inl ErrNotFound | Some v \<Rightarrow> Inr v)"
    and "\<And>tx. tx_FromJSON E (tx_ToJSON E tx) = Some tx"
    and "GetLatestHeight E D = Inr n" and "n \<noteq> - 1" and "hs = heightsFromTo startHeight n"
    and "\<forall>h\<in>set hs. block_at (files (blockStore D)) h = Some (blk_ToJSON E (blk h)) \<and> blk_FromJSON E (blk_ToJSON E (blk h)) = Some (blk h)"
    and "faults (blockStore D) = []" and "\<not> mu (blockStore D)"
    and "batchSize \<noteq> 0" and "sint (VerifyBlockHash (Storage cfg)) \<noteq> 1"
  shows "\<exists>D'. rebuild_tx_index E cfg cl startHeight 0 batchSize D
      = (Inr (of_nat (length hs), of_nat (\<Sum>h\<leftarrow>hs. length (BTransactions (blk h)))), D')
    \<and> (\<forall>h\<in>set hs. \<forall>tx\<in>set (BTransactions (blk h)). \<exists>tx'. Tx_Hash cl tx' = Tx_Hash cl tx
        \<and> GetTransaction E (Tx_Hash cl tx) D' = Inr tx')"
proof -
  have "\<forall>h\<in>set hs. block_at (files (blockStore D)) h = Some (blk_ToJSON E (blk h)) \<and> blk_FromJSON E (blk_ToJSON E (blk h)) = Some (blk h)
      \<and> set (BTransactions (blk h)) \<subseteq> UNIV" using assms(7) by simp
  from writing_engine.rebuildHeights_run[OF assms(1,10,11) this refl assms(8,9), of cl 0 0]
  obtain D' where r: "rebuildHeights E cfg cl batchSize hs (0, 0) D
      = (Inr (of_nat (length hs), of_nat (\<Sum>h\<leftarrow>hs. length (BTransactions (blk h)))), D')"
    and i: "\<And>g. g \<in> (\<Union>h\<in>set hs. Tx_Hash cl ` set (BTransactions (blk h))) \<Longrightarrow> indexed E cl kv UNIV D' g"
    by auto
  have "\<exists>tx'. Tx_Hash cl tx' = Tx_Hash cl tx \<and> GetTransaction E (Tx_Hash cl tx) D' = Inr tx'"
    if "h \<in> set hs" "tx \<in> set (BTransactions (blk h))" for h tx
    using i[of "Tx_Hash cl tx"] that assms(2,3) by (force simp: indexed_def GetTransaction_def)
  with r show ?thesis using assms(4-6) by (simp add: rebuild_tx_index_def Let_def)
qed

end
