(* ===== verification/Spec2Isabelle.thy ===== *)
theory Spec2Isabelle
  imports Network_Trust Wallet_Claims Migration_Tools
begin

text \<open>
  The FAN chain node: a proof-of-stake blockchain with signed accounts, block files and peers.

  \<^bold>\<open>The program.\<close> A node keeps the accounts of the chain in 36 LevelDB databases, one per first character of
  the address (\<^verbatim>\<open>storage/sharded_state.go\<close>), behind a cache that executes transactions (\<^verbatim>\<open>state/state.go\<close>).
  Blocks go to flat files (\<^verbatim>\<open>storage/flatfile.go\<close>) and are indexed in one more LevelDB (\<^verbatim>\<open>storage/database.go\<close>,
  \<^verbatim>\<open>extended.go\<close>). A validator collects transactions in a directory (\<^verbatim>\<open>transaction.go\<close>), and at every interval
  the selected proposer (\<^verbatim>\<open>consensus/validator.go\<close>) builds, executes, saves, commits and announces a block
  (\<^verbatim>\<open>block_producer.go\<close>). Every few blocks it writes a checkpoint with a snapshot of all accounts
  (\<^verbatim>\<open>storage/checkpoint.go\<close>, \<^verbatim>\<open>state/\<close>). Peers exchange blocks, checkpoints and snapshots (\<^verbatim>\<open>network/\<close>) through
  callbacks into the node (\<^verbatim>\<open>node_network.go\<close>, \<^verbatim>\<open>fork_resolver.go\<close>, \<^verbatim>\<open>node_validator.go\<close>); clients use an HTTP
  interface (\<^verbatim>\<open>api/\<close>), the shipped wallets among them (\<^verbatim>\<open>tools/\<close>).

  \<^bold>\<open>Theories\<close>, in the order of their imports, with the code they model:
  \<^item> \<open>Fan_Prelude\<close>: machine integers, errors, fallible steps on a state, Go maps, byte encodings;
  \<^item> \<open>Chain_Params\<close>: \<^verbatim>\<open>core/consensus_config.go\<close>, \<^verbatim>\<open>core/reward.go\<close>; parameters and block reward;
  \<^item> \<open>Core_Address\<close>: \<^verbatim>\<open>core/types.go\<close>; hashes, base-36 addresses;
  \<^item> \<open>Chain_Crypto\<close>: \<^verbatim>\<open>crypto/signature.go\<close>, \<^verbatim>\<open>crypto/data_encryption.go\<close> over the record \<open>crypto_lib\<close>;
  \<^item> \<open>Core_Ledger\<close>: \<^verbatim>\<open>core/account.go\<close>, \<^verbatim>\<open>core/transaction.go\<close>;
  \<^item> \<open>Level_DB\<close>: what the code calls of LevelDB, a parameter with its contract \<open>leveldb_spec\<close>;
  \<^item> \<open>Sharded_Store\<close>: \<^verbatim>\<open>storage/sharded_state.go\<close>, and the contract \<open>account_store\<close> it fulfils;
  \<^item> \<open>State_Manager\<close>: \<^verbatim>\<open>state/state.go\<close> over any account store;
  \<^item> \<open>Ledger_Refinement\<close>, \<open>State_Claims\<close>: the ledger as a function from addresses to accounts, its
    transactions \<open>exec_spec\<close>, and the proof that the state manager implements them;
  \<^item> \<open>State_Root\<close>: \<^verbatim>\<open>state/merkle.go\<close>, \<^verbatim>\<open>state/checkpoint_snapshot.go\<close>;
  \<^item> \<open>Core_Chain\<close>: \<^verbatim>\<open>core/block.go\<close>, \<^verbatim>\<open>core/blockchain.go\<close>, \<^verbatim>\<open>core/checkpoint.go\<close>;
  \<^item> \<open>Validators\<close>: \<^verbatim>\<open>consensus/validator.go\<close>; the validator set, proposer selection, rewards;
  \<^item> \<open>Flat_Files\<close>: \<^verbatim>\<open>storage/flatfile.go\<close>; files, handles, the lock, failing system calls;
  \<^item> \<open>Checkpoint_Files\<close>: \<^verbatim>\<open>storage/checkpoint.go\<close>; the T-D-C protocol as file actions cut off by a crash;
  \<^item> \<open>Chain_Database\<close>: \<^verbatim>\<open>storage/database.go\<close>, \<^verbatim>\<open>storage/extended.go\<close>;
  \<^item> \<open>Node_Pool\<close>: \<^verbatim>\<open>node.go\<close>, \<^verbatim>\<open>transaction.go\<close>; the record \<open>node\<close> and its parameters \<open>node_env\<close>;
  \<^item> \<open>Node_Producer\<close>: \<^verbatim>\<open>block_producer.go\<close>;
  \<^item> \<open>Node_Recovery\<close>: \<^verbatim>\<open>node_blockchain.go\<close>, the recovery in \<^verbatim>\<open>node.go\<close>;
  \<^item> \<open>Node_Sync\<close>: the callbacks of \<^verbatim>\<open>node_network.go\<close>;
  \<^item> \<open>Node_Forks\<close>: \<^verbatim>\<open>fork_resolver.go\<close>, \<^verbatim>\<open>node_validator.go\<close>;
  \<^item> \<open>Network_Peer\<close>: \<^verbatim>\<open>network/message.go\<close>, \<^verbatim>\<open>network/peer.go\<close>;
  \<^item> \<open>Network_Server\<close>: the rest of \<^verbatim>\<open>network/\<close>; \<open>node_server\<close> fills its callbacks with the node's functions;
  \<^item> \<open>Network_Invariant\<close>, \<open>Network_Downloads\<close>, \<open>Network_Trust\<close>: the server as a state machine, downloads
    as conversations, and what one peer can do to a node;
  \<^item> \<open>Api_Server\<close>, \<open>Api_Claims\<close>: \<^verbatim>\<open>api/\<close>;
  \<^item> \<open>Wallet_Tools\<close>, \<open>Wallet_Claims\<close>: \<^verbatim>\<open>tools/transfer.go\<close>, \<^verbatim>\<open>stake.go\<close>, \<^verbatim>\<open>unstake.go\<close>, \<^verbatim>\<open>transfer_smart/\<close>, run
    against the HTTP interface;
  \<^item> \<open>Migration_Tools\<close>: \<^verbatim>\<open>tools/migrate_to_flatfile.go\<close>, \<^verbatim>\<open>migrate_to_sharded.go\<close>, \<^verbatim>\<open>rebuild_tx_index.go\<close>, run on the
    directory of a stopped node.

  A definition has the name of the function it models, with a prefix or the receiver where two functions
  share a name (\<open>bc_\<close> blockchain, \<open>db_\<close> database, \<open>SS_\<close> sharded store, \<open>bs_\<close> block store, \<open>api_\<close>, \<open>smart_\<close>, \<open>Tx_\<close>, \<open>peer_\<close>).
  Structs are records, a method that may fail is a step \<open>'s \<Rightarrow> (error + 'a) \<times> 's\<close>, and the state that a
  failing step has reached is kept, because Go rolls nothing back.

  \<^bold>\<open>Interfaces.\<close> \<open>crypto_spec\<close>, \<open>leveldb_spec\<close> and \<open>snapshot_codec_spec\<close> state what the code relies on in
  libraries, and hold of concrete instances. \<open>account_store\<close> is what the state manager needs; \<open>sharded_env\<close>
  proves it for the sharded store and \<open>database_env\<close> carries it to the database. \<open>block_archive\<close> is proved of the
  flat files. \<open>shard_migration\<close> is what a migration program and the node have in common. \<open>node_ctx\<close> puts a node on top of a correct LevelDB; the theorems about nodes, server, HTTP
  interface and wallets are stated over it.

  \<^bold>\<open>What is shown.\<close> Execution implements the abstract ledger, on success and on failure, and changes the total
  supply by a known amount; a commit is durable and checked; transactions cannot be replayed. Block files return
  what was written and survive failing calls; a crash at any file action of a checkpoint leaves the old or the new
  one. A block that is produced or taken from a peer is saved and committed, a failed one leaves the ledger as it was,
  and a restart completes what was saved. Proposer selection is the same for all nodes with the same set. Downloads
  and backfills end with every block, in every reachable state of the server the download has a peer. Queries
  change nothing. The weaknesses are theorems as well: what a peer, a client, a shipped wallet or a migration can bring
  about.

  \<^bold>\<open>Faults.\<close> A panic is the error \<open>Panic\<close>, a call that never returns (a lock taken twice, a full channel, an endless
  loop) is \<open>Deadlock\<close>, and both end whatever called it. File actions fail or are cut off at any point
  through the parameters \<open>nd_fails\<close>, \<open>nd_disk_ok\<close> and the fault lists of the file models. The order of
  goroutines is the order of steps in the state machines.

  \<^bold>\<open>Bounds.\<close> \<open>applyFromDatabase\<close> is a loop without a bound in the code; its model has \<open>2 ^ 64\<close> rounds, one
  for each height, and the invariant theory proves that they suffice while the node's functions return.
  The production loop is cut into rounds at its pauses. All other loops are structural or have a termination
  proof.

  \<^bold>\<open>Not modelled.\<close> Reading, writing and watching configuration files and the node's keys, opening databases, log
  output and sleeping are input and output. Encrypted peers and ML-KEM (\<^verbatim>\<open>crypto/mlkem.go\<close>,
  \<^verbatim>\<open>network/encrypted_peer.go\<close>) are calls into libraries that no other part uses. The HTTP health check of seed nodes and
  the accept loop are network input; the state machine of the server lets connections appear at any time. The web
  gateway \<^verbatim>\<open>goapi/\<close>, the key generator and the other maintenance programs of \<^verbatim>\<open>tools/\<close> are separate programs.
\<close>

end
